(* ===== verification/Prelude.thy ===== *)
theory Prelude
  imports Main "HOL-Library.Word" "HOL-Library.AList" "HOL-Library.Multiset"
begin

text \<open>
  Shared material of the development: the Go values the model uses (bytes, 64-bit integers, slices
  with spare capacity, fixed-size arrays), the outcome of running Go code (a value, a panic or a
  goroutine blocked on a mutex), sequencing of state-changing operations with a small triple
  calculus for them, and the little-endian integer encoding of package \<open>encoding/binary\<close>.
\<close>

unbundle bit_operations_syntax

named_theorems go_simps \<open>evaluation rules of sequenced operations\<close>
named_theorems go_rules \<open>introduction rules of the triple calculus\<close>

section \<open>Go values\<close>

type_synonym byte = "8 word"
type_synonym bytes = "byte list"
type_synonym u64 = "64 word"
type_synonym u32 = "32 word"
type_synonym i64 = "64 word"
type_synonym err = string

text \<open>
  An \<open>int64\<close> is the same 64 bits as an \<open>uint64\<close>: the conversions between the two are the
  identity, and only the comparison differs. \<open>nonneg64\<close> is the test \<open>x >= 0\<close> on \<open>int64\<close>.
\<close>

definition nonneg64 :: "i64 \<Rightarrow> bool" where
  "nonneg64 x \<longleftrightarrow> 0 \<le> sint x"

text \<open>
  A slice shares its backing array beyond its length: the elements between length and capacity are
  \<open>spare\<close>. Reslicing \<open>s[0:n]\<close> reads into the spare part and panics only beyond the capacity.
\<close>

datatype slice = Slice (elems: bytes) (spare: bytes)

definition reslice_to :: "slice \<Rightarrow> nat \<Rightarrow> bytes option" where
  "reslice_to s n = (if n \<le> length (elems s) + length (spare s)
                     then Some (take n (elems s @ spare s)) else None)"

text \<open>\<open>copy(a[:], b)\<close> into a zeroed array of \<open>n\<close> bytes.\<close>

definition copyN :: "nat \<Rightarrow> bytes \<Rightarrow> bytes" where
  "copyN n bs = take n bs @ replicate (n - length bs) 0"

lemma length_copyN [simp]: "length (copyN n bs) = n"
  by (simp add: copyN_def)

lemma copyN_same [simp]: "length bs = n \<Longrightarrow> copyN n bs = bs"
  by (simp add: copyN_def)

text \<open>\<open>errors.Wrap(err, msg)\<close>.\<close>

definition wrap_err :: "string \<Rightarrow> err \<Rightarrow> err" where
  "wrap_err msg e = msg @ '': '' @ e"

definition index_out_of_range :: string where "index_out_of_range = ''index out of range''"

section \<open>Outcomes and operations\<close>

text \<open>
  An operation runs on a state and ends with a value, with a panic (which ends the process: nothing
  in the program recovers), or blocked on a mutex that is held.
\<close>

datatype 'a go = Ret 'a | Panic string | Block

type_synonym ('s, 'a) op = "'s \<Rightarrow> 'a go \<times> 's"

definition go_return :: "'a \<Rightarrow> ('s, 'a) op" where
  "go_return x = (\<lambda>s. (Ret x, s))"

definition go_panic :: "string \<Rightarrow> ('s, 'a) op" where
  "go_panic e = (\<lambda>s. (Panic e, s))"

definition go_bind :: "('s, 'a) op \<Rightarrow> ('a \<Rightarrow> ('s, 'b) op) \<Rightarrow> ('s, 'b) op" where
  "go_bind m f = (\<lambda>s. case m s of (Ret x, s') \<Rightarrow> f x s'
                       | (Panic e, s') \<Rightarrow> (Panic e, s')
                       | (Block, s') \<Rightarrow> (Block, s'))"

text \<open>A pure computation that may panic, as an operation.\<close>

definition go_lift :: "'a go \<Rightarrow> ('s, 'a) op" where
  "go_lift r = (\<lambda>s. (r, s))"

definition go_update :: "('s \<Rightarrow> 's) \<Rightarrow> ('s, unit) op" where
  "go_update f = (\<lambda>s. (Ret (), f s))"

text \<open>A \<open>for\<close> loop without early exit over a list of loop values.\<close>

fun go_for :: "'i list \<Rightarrow> ('i \<Rightarrow> ('s, unit) op) \<Rightarrow> ('s, unit) op" where
  "go_for [] body = go_return ()"
| "go_for (i # is) body = go_bind (body i) (\<lambda>_. go_for is body)"

lemma go_return_apply [go_simps]: "go_return x s = (Ret x, s)"
  by (simp add: go_return_def)

lemma go_panic_apply [go_simps]: "go_panic e s = (Panic e, s)"
  by (simp add: go_panic_def)

lemma go_lift_apply [go_simps]: "go_lift r s = (r, s)"
  by (simp add: go_lift_def)

lemma go_update_apply [go_simps]: "go_update f s = (Ret (), f s)"
  by (simp add: go_update_def)

lemma go_bind_Ret [go_simps]: "m s = (Ret x, s') \<Longrightarrow> go_bind m f s = f x s'"
  by (simp add: go_bind_def)

lemma go_bind_Panic [go_simps]: "m s = (Panic e, s') \<Longrightarrow> go_bind m f s = (Panic e, s')"
  by (simp add: go_bind_def)

lemma go_bind_Block [go_simps]: "m s = (Block, s') \<Longrightarrow> go_bind m f s = (Block, s')"
  by (simp add: go_bind_def)

lemma go_bind_return [go_simps]: "go_bind (go_return x) f = f x"
  by (rule ext) (simp add: go_bind_def go_return_def)

lemma go_bind_panic [go_simps]: "go_bind (go_panic e) f = go_panic e"
  by (rule ext) (simp add: go_bind_def go_panic_def)

lemma go_bind_assoc: "go_bind (go_bind m f) g = go_bind m (\<lambda>x. go_bind (f x) g)"
  by (rule ext) (auto simp: go_bind_def split: prod.splits go.splits)

lemma go_for_append: "go_for (is @ js) body = go_bind (go_for is body) (\<lambda>_. go_for js body)"
  by (induction "is") (simp_all add: go_bind_return go_bind_assoc)

lemma go_bind_RetE:
  assumes "go_bind m f s = (Ret y, t)"
  obtains x s' where "m s = (Ret x, s')" and "f x s' = (Ret y, t)"
  using assms by (auto simp: go_bind_def split: prod.splits go.splits)

section \<open>Triples\<close>

text \<open>
  \<open>go_triple P m Q E\<close>: from a state with \<open>P\<close>, a value \<open>x\<close> is returned in a state with \<open>Q x\<close>, and
  a panic or a blocked goroutine leaves a state with \<open>E\<close>.
\<close>

definition go_triple ::
  "('s \<Rightarrow> bool) \<Rightarrow> ('s, 'a) op \<Rightarrow> ('a \<Rightarrow> 's \<Rightarrow> bool) \<Rightarrow> ('s \<Rightarrow> bool) \<Rightarrow> bool" where
  "go_triple P m Q E \<longleftrightarrow>
     (\<forall>s. P s \<longrightarrow> (case m s of (Ret x, t) \<Rightarrow> Q x t | (_, t) \<Rightarrow> E t))"

lemma go_tripleI:
  assumes "\<And>s x t. P s \<Longrightarrow> m s = (Ret x, t) \<Longrightarrow> Q x t"
    and "\<And>s e t. P s \<Longrightarrow> m s = (Panic e, t) \<Longrightarrow> E t"
    and "\<And>s t. P s \<Longrightarrow> m s = (Block, t) \<Longrightarrow> E t"
  shows "go_triple P m Q E"
  using assms by (auto simp: go_triple_def split: prod.splits go.splits)

lemma go_tripleD_Ret: "go_triple P m Q E \<Longrightarrow> P s \<Longrightarrow> m s = (Ret x, t) \<Longrightarrow> Q x t"
  by (fastforce simp: go_triple_def)

lemma go_tripleD_stop:
  "go_triple P m Q E \<Longrightarrow> P s \<Longrightarrow> m s = (r, t) \<Longrightarrow> (\<And>x. r \<noteq> Ret x) \<Longrightarrow> E t"
  by (cases r) (fastforce simp: go_triple_def)+

lemma go_triple_return [go_rules]: "(\<And>s. P s \<Longrightarrow> Q x s) \<Longrightarrow> go_triple P (go_return x) Q E"
  by (simp add: go_triple_def go_return_def)

lemma go_triple_panic [go_rules]: "(\<And>s. P s \<Longrightarrow> E s) \<Longrightarrow> go_triple P (go_panic e) Q E"
  by (simp add: go_triple_def go_panic_def)

lemma go_triple_bind [go_rules]:
  assumes "go_triple P m R E" and "\<And>x. go_triple (R x) (f x) Q E"
  shows "go_triple P (go_bind m f) Q E"
  using assms by (fastforce simp: go_triple_def go_bind_def split: prod.splits go.splits)

lemma go_triple_conseq:
  assumes "go_triple P m Q E" and "\<And>s. P' s \<Longrightarrow> P s" and "\<And>x s. Q x s \<Longrightarrow> Q' x s"
    and "\<And>s. E s \<Longrightarrow> E' s"
  shows "go_triple P' m Q' E'"
  using assms by (fastforce simp: go_triple_def split: prod.splits go.splits)

lemma go_triple_for:
  assumes "\<And>i. i \<in> set is \<Longrightarrow> go_triple I (body i) (\<lambda>_. I) E"
  shows "go_triple I (go_for is body) (\<lambda>_. I) E"
  using assms by (induction "is") (auto intro!: go_rules)

text \<open>Invariants of a loop that depend on which loop values are done.\<close>

lemma go_triple_for_done:
  assumes "\<And>i D. i \<in> set is \<Longrightarrow> go_triple (I D) (body i) (\<lambda>_. I (insert i D)) E"
  shows "go_triple (I D) (go_for is body) (\<lambda>_. I (D \<union> set is)) E"
  using assms
proof (induction "is" arbitrary: D)
  case (Cons i "is")
  have "go_triple (I (insert i D)) (go_for is body) (\<lambda>_. I (insert i D \<union> set is)) E"
    by (rule Cons.IH) (simp add: Cons.prems)
  with Cons.prems [of i D] show ?case by (auto intro!: go_triple_bind)
qed (auto intro!: go_rules)

section \<open>Local variables and parts of a state\<close>

text \<open>
  \<open>go_local\<close> runs an operation with a local variable beside the state, \<open>go_on_fst\<close> runs one on the
  state alone, and \<open>go_zoom\<close> runs one on a part of a state.
\<close>

definition go_local :: "'l \<Rightarrow> ('s \<times> 'l, 'a) op \<Rightarrow> ('s, 'a \<times> 'l) op" where
  "go_local l m = (\<lambda>s. case m (s, l) of (Ret x, (s', l')) \<Rightarrow> (Ret (x, l'), s')
                        | (Panic e, (s', l')) \<Rightarrow> (Panic e, s')
                        | (Block, (s', l')) \<Rightarrow> (Block, s'))"

definition go_on_fst :: "('s, 'a) op \<Rightarrow> ('s \<times> 'l, 'a) op" where
  "go_on_fst m = (\<lambda>(s, l). case m s of (r, s') \<Rightarrow> (r, (s', l)))"

definition go_zoom :: "('t \<Rightarrow> 's) \<Rightarrow> ('s \<Rightarrow> 't \<Rightarrow> 't) \<Rightarrow> ('s, 'a) op \<Rightarrow> ('t, 'a) op" where
  "go_zoom get put m = (\<lambda>t. case m (get t) of (r, s') \<Rightarrow> (r, put s' t))"

lemma go_triple_local:
  assumes "go_triple (\<lambda>(s, v). P s \<and> v = l) m (\<lambda>x (s, v). Q (x, v) s) (\<lambda>(s, v). E s)"
  shows "go_triple P (go_local l m) Q E"
  using assms by (fastforce simp: go_triple_def go_local_def split: prod.splits go.splits)

lemma go_triple_local_inv:
  assumes "go_triple (\<lambda>(s, b). P s \<and> L b) m (\<lambda>_ (s, b). P s \<and> L b) (\<lambda>(s, b). E' s)" and "L b0"
  shows "go_triple P (go_local b0 m) (\<lambda>(_, b) s. P s \<and> L b) E'"
  by (rule go_triple_local, rule go_triple_conseq [OF assms(1)]) (use assms(2) in auto)

lemma go_triple_on_fst:
  assumes "\<And>l. go_triple (\<lambda>s. P (s, l)) m (\<lambda>x s. Q x (s, l)) (\<lambda>s. E (s, l))"
  shows "go_triple P (go_on_fst m) Q E"
  using assms by (fastforce simp: go_triple_def go_on_fst_def split: prod.splits go.splits)

lemma go_triple_frame:
  assumes "go_triple P m Q E"
  shows "go_triple (\<lambda>(s, l). P s \<and> L l) (go_on_fst m) (\<lambda>x (s, l). Q x s \<and> L l) (\<lambda>(s, l). E s)"
  using assms by (fastforce simp: go_triple_def go_on_fst_def split: prod.splits go.splits)

lemma go_triple_split:
  assumes "\<And>s l. P (s, l) \<Longrightarrow> go_triple (\<lambda>t. t = (s, l)) m Q E"
  shows "go_triple P m Q E"
  using assms by (auto simp: go_triple_def)

lemma go_triple_zoom:
  assumes "\<And>t. P t \<Longrightarrow> go_triple (\<lambda>s. s = get t) m (\<lambda>x s. Q x (put s t)) (\<lambda>s. E (put s t))"
  shows "go_triple P (go_zoom get put m) Q E"
  using assms by (fastforce simp: go_triple_def go_zoom_def split: prod.splits go.splits)

lemma go_triple_update: "(\<And>s. P s \<Longrightarrow> Q () (f s)) \<Longrightarrow> go_triple P (go_update f) Q E"
  by (simp add: go_triple_def go_update_def)

lemma go_triple_lift:
  "(\<And>s x. P s \<Longrightarrow> r = Ret x \<Longrightarrow> Q x s) \<Longrightarrow> (\<And>s. P s \<Longrightarrow> E s) \<Longrightarrow> go_triple P (go_lift r) Q E"
  by (auto simp: go_triple_def go_lift_def split: go.splits)

section \<open>Little-endian integers\<close>

text \<open>\<open>binary.LittleEndian.PutUint64\<close> and \<open>binary.LittleEndian.Uint64\<close> on eight bytes.\<close>

definition PutUint64 :: "u64 \<Rightarrow> bytes" where
  "PutUint64 x = map (\<lambda>i. ucast (drop_bit (8 * i) x)) [0..<8]"

definition Uint64 :: "bytes \<Rightarrow> u64" where
  "Uint64 bs = foldr (\<lambda>b acc. ucast b OR push_bit 8 acc) (take 8 bs) 0"

lemma length_PutUint64 [simp]: "length (PutUint64 x) = 8"
  by (simp add: PutUint64_def)

lemma bit_Uint64_Cons:
  "bit (ucast (b :: byte) OR push_bit 8 (acc :: u64)) n \<longleftrightarrow>
     (if n < 8 then bit b n else n < 64 \<and> bit acc (n - 8))"
  by (auto simp: bit_simps dest: bit_imp_le_length)

lemma foldr_PutUint64:
  "foldr (\<lambda>b acc. ucast (b :: byte) OR push_bit 8 acc) (map (\<lambda>i. ucast (drop_bit (8 * i) x)) [k..<k + m]) 0
     = take_bit (8 * m) (drop_bit (8 * k) (x :: u64))"
proof (induction m arbitrary: k)
  case 0
  then show ?case by simp
next
  case (Suc m)
  have "ucast (ucast (drop_bit (8 * k) x) :: byte) OR push_bit 8 (take_bit (8 * m) (drop_bit (8 * Suc k) x))
      = take_bit (8 * Suc m) (drop_bit (8 * k) x)"
    by (rule bit_eqI) (auto simp: bit_Uint64_Cons bit_simps add.commute dest: bit_imp_le_length)
  moreover have "[k..<k + Suc m] = k # [Suc k..<Suc k + m]"
    by (simp add: upt_rec)
  ultimately show ?case
    using Suc.IH [of "Suc k"] by (simp del: upt_Suc)
qed

lemma Uint64_PutUint64 [simp]: "Uint64 (PutUint64 x) = x"
  using foldr_PutUint64 [of x 0 8]
  by (simp add: Uint64_def PutUint64_def take_bit_word_eq_self del: upt_rec_numeral)

end
