(* ===== verification/Storage.thy ===== *)
theory Storage
  imports Prelude
begin

text \<open>
  The key/value store of the rules service (\<open>rules/standard/storage.go\<close>). The database itself is
  the third-party \<open>badger\<close> package: it is a parameter, a record of the calls the store makes, and
  the locale \<open>badger_laws\<close> names what the store relies on. The locale \<open>kv_store\<close> is the contract
  the store promises to the rules, and it is proved for \<open>Fetch\<close>, \<open>Store\<close> and \<open>BatchStore\<close> from
  the database's laws.
\<close>

section \<open>The database as a parameter\<close>

text \<open>
  What a read transaction gives: an error of \<open>db.View\<close> itself, \<open>badger.ErrKeyNotFound\<close> from
  \<open>txn.Get\<close>, another error of \<open>txn.Get\<close>, an error of \<open>item.Value\<close>, or the value.
\<close>

datatype badger_read = View_err err | Key_not_found | Get_err err | Value_err err | Got bytes

text \<open>A write batch stops at the first failing \<open>wb.Set\<close>, or fails when it is flushed.\<close>

datatype batch_err = Set_failed err | Flush_failed err

record 'db badger =
  badger_get :: "'db \<Rightarrow> bytes \<Rightarrow> badger_read"
  badger_set :: "'db \<Rightarrow> bytes \<Rightarrow> bytes \<Rightarrow> err option \<times> 'db"
  badger_batch :: "'db \<Rightarrow> (bytes \<times> bytes) list \<Rightarrow> batch_err option \<times> 'db"
  badger_items :: "'db \<Rightarrow> err + (bytes \<times> bytes) list"
  badger_close :: "'db \<Rightarrow> err option \<times> 'db"

section \<open>Operations of the store\<close>

text \<open>
  \<open>FetchAll\<close> builds a Go map from 49-byte arrays: a later item with the same (truncated or
  zero-padded) key replaces an earlier one.
\<close>

definition FetchAll :: "'db badger \<Rightarrow> ('db, err + (bytes \<times> bytes) list) op" where
  "FetchAll B db =
     (case badger_items B db of
        Inl e \<Rightarrow> (Ret (Inl e), db)
      | Inr items \<Rightarrow>
          (Ret (Inr (foldl (\<lambda>m (k, v). AList.update (copyN 49 k) v m) [] items)), db))"

text \<open>
  \<open>Fetch\<close>. An error of \<open>txn.Get\<close> other than a missing key is dropped by the code, which then calls
  \<open>item.Value\<close> on a nil item: a nil dereference.
\<close>

definition Fetch :: "'db badger \<Rightarrow> bytes \<Rightarrow> ('db, err + bytes) op" where
  "Fetch B key db =
     (if length key = 0 then (Ret (Inl ''no key provided''), db)
      else case badger_get B db key of
             View_err e \<Rightarrow> (Ret (Inl e), db)
           | Key_not_found \<Rightarrow> (Ret (Inl ''not found''), db)
           | Get_err e \<Rightarrow> (Panic ''nil item'', db)
           | Value_err e \<Rightarrow> (Ret (Inl e), db)
           | Got v \<Rightarrow> (Ret (Inr v), db))"

text \<open>The argument checks of \<open>BatchStore\<close>: the first offending pair decides the error.\<close>

fun check_pairs :: "(bytes \<times> bytes) list \<Rightarrow> err option" where
  "check_pairs [] = None"
| "check_pairs ((k, v) # kvs) =
     (if length k = 0 then Some ''empty key provided''
      else if length v = 0 then Some ''empty value provided''
      else check_pairs kvs)"

definition BatchStore :: "'db badger \<Rightarrow> bytes list \<Rightarrow> bytes list \<Rightarrow> ('db, err option) op" where
  "BatchStore B keys vals db =
     (if length keys = 0 then (Ret (Some ''no keys provided''), db)
      else if length keys \<noteq> length vals then (Ret (Some ''key/value length mismatch''), db)
      else case check_pairs (zip keys vals) of
             Some e \<Rightarrow> (Ret (Some e), db)
           | None \<Rightarrow>
               (case badger_batch B db (zip keys vals) of
                  (None, db') \<Rightarrow> (Ret None, db')
                | (Some (Set_failed e), db') \<Rightarrow> (Ret (Some (wrap_err ''failed to set'' e)), db')
                | (Some (Flush_failed e), db') \<Rightarrow> (Ret (Some e), db')))"

definition Store :: "'db badger \<Rightarrow> bytes \<Rightarrow> bytes \<Rightarrow> ('db, err option) op" where
  "Store B key val db =
     (if length key = 0 then (Ret (Some ''no key provided''), db)
      else if length val = 0 then (Ret (Some ''no value provided''), db)
      else case badger_set B db key val of (e, db') \<Rightarrow> (Ret e, db'))"

definition Close :: "'db badger \<Rightarrow> ('db, err option) op" where
  "Close B db = (case badger_close B db of (e, db') \<Rightarrow> (Ret e, db'))"

section \<open>What the database promises\<close>

text \<open>
  \<open>contents\<close> is the committed key space. A successful read agrees with it; a successful write is
  in it; a failed write leaves every key with its old value or with one that the call was writing
  (a write batch may have committed a part before it failed). The messages of the errors that a
  read can return differ from \<open>not found\<close>, which the rules compare with.
\<close>

locale badger_laws =
  fixes B :: "'db badger" and contents :: "'db \<Rightarrow> bytes \<Rightarrow> bytes option"
  assumes get_value: "badger_get B db k = Got v \<Longrightarrow> contents db k = Some v"
    and get_missing: "badger_get B db k = Key_not_found \<Longrightarrow> contents db k = None"
    and get_error: "badger_get B db k = View_err e \<or> badger_get B db k = Value_err e \<Longrightarrow>
                      e \<noteq> ''not found''"
    and set_done: "badger_set B db k v = (None, db') \<Longrightarrow>
                     contents db' = (contents db)(k \<mapsto> v)"
    and set_failed: "badger_set B db k v = (Some e, db') \<Longrightarrow>
                       contents db' = contents db \<or> contents db' = (contents db)(k \<mapsto> v)"
    and write_batch_done: "badger_batch B db kvs = (None, db') \<Longrightarrow>
                       contents db' = contents db ++ map_of (rev kvs)"
    and write_batch_failed: "badger_batch B db kvs = (Some be, db') \<Longrightarrow>
                         contents db' k = contents db k \<or>
                         (\<exists>v. (k, v) \<in> set kvs \<and> contents db' k = Some v)"

section \<open>What the store promises\<close>

locale kv_store =
  fixes fetch :: "bytes \<Rightarrow> ('db, err + bytes) op"
    and store :: "bytes \<Rightarrow> bytes \<Rightarrow> ('db, err option) op"
    and batch :: "bytes list \<Rightarrow> bytes list \<Rightarrow> ('db, err option) op"
    and contents :: "'db \<Rightarrow> bytes \<Rightarrow> bytes option"
  assumes fetch_pure: "fetch k db = (r, db') \<Longrightarrow> db' = db"
    and fetch_value: "fetch k db = (Ret (Inr v), db') \<Longrightarrow> contents db k = Some v"
    and fetch_missing: "fetch k db = (Ret (Inl ''not found''), db') \<Longrightarrow> contents db k = None"
    and store_done: "store k v db = (Ret None, db') \<Longrightarrow> contents db' = (contents db)(k \<mapsto> v)"
    and store_any: "store k v db = (se, db') \<Longrightarrow>
                      contents db' = contents db \<or> contents db' = (contents db)(k \<mapsto> v)"
    and store_returns: "\<exists>e db'. store k v db = (Ret e, db')"
    and batch_done: "batch ks vs db = (Ret None, db') \<Longrightarrow>
                       length ks = length vs \<and> contents db' = contents db ++ map_of (rev (zip ks vs))"
    and batch_any: "batch ks vs db = (se, db') \<Longrightarrow>
                      contents db' k = contents db k \<or>
                      (\<exists>v. (k, v) \<in> set (zip ks vs) \<and> contents db' k = Some v)"
    and batch_returns: "\<exists>e db'. batch ks vs db = (Ret e, db')"

lemma map_of_rev_SomeD: "map_of (rev kvs) k = Some v \<Longrightarrow> (k, v) \<in> set kvs"
  using map_of_SomeD [of "rev kvs" k v] by simp

sublocale badger_laws \<subseteq> kv: kv_store "Fetch B" "Store B" "BatchStore B" contents
proof unfold_locales
  show "db' = db" if "Fetch B k db = (r, db')" for k db r db'
    using that by (auto simp: Fetch_def split: if_splits badger_read.splits)
  show "contents db k = Some v" if "Fetch B k db = (Ret (Inr v), db')" for k db v db'
    using that get_value by (auto simp: Fetch_def split: if_splits badger_read.splits)
  show "contents db k = None" if "Fetch B k db = (Ret (Inl ''not found''), db')" for k db db'
    using that get_missing get_error [of db k "''not found''"]
    by (auto simp: Fetch_def split: if_splits badger_read.splits)
  show "contents db' = (contents db)(k \<mapsto> v)" if "Store B k v db = (Ret None, db')" for k v db db'
    using that set_done by (auto simp: Store_def split: if_splits prod.splits)
  show "contents db' = contents db \<or> contents db' = (contents db)(k \<mapsto> v)"
    if "Store B k v db = (r, db')" for k v db r db'
  proof (cases "length k = 0 \<or> length v = 0")
    case False
    with that obtain e where "badger_set B db k v = (e, db')"
      by (auto simp: Store_def split: if_splits prod.splits)
    then show ?thesis using set_done set_failed by (cases e) auto
  qed (use that in \<open>auto simp: Store_def split: if_splits\<close>)
  show "\<exists>e db'. Store B k v db = (Ret e, db')" for k v db
    by (simp add: Store_def split: prod.splits)
  show "length ks = length vs \<and> contents db' = contents db ++ map_of (rev (zip ks vs))"
    if "BatchStore B ks vs db = (Ret None, db')" for ks vs db db'
    using that write_batch_done
    by (fastforce simp: BatchStore_def split: if_splits option.splits prod.splits batch_err.splits)
  show "contents db' k = contents db k \<or> (\<exists>v. (k, v) \<in> set (zip ks vs) \<and> contents db' k = Some v)"
    if run: "BatchStore B ks vs db = (r, db')" for ks vs db r db' k
  proof (cases "db' = db")
    case False
    with run obtain e where eq: "badger_batch B db (zip ks vs) = (e, db')"
      by (auto simp: BatchStore_def split: if_splits option.splits prod.splits batch_err.splits)
    show ?thesis
    proof (cases e)
      case None
      with eq have "contents db' k = (contents db ++ map_of (rev (zip ks vs))) k"
        using write_batch_done by simp
      then show ?thesis
        by (auto simp: map_add_def split: option.splits dest: map_of_rev_SomeD)
    qed (use eq write_batch_failed in blast)
  qed simp
  show "\<exists>e db'. BatchStore B ks vs db = (Ret e, db')" for ks vs db
    by (auto simp: BatchStore_def split: option.splits prod.splits batch_err.splits)
qed

section \<open>A database in memory\<close>

text \<open>
  A concrete database for evaluation: an association list, and a flag that makes every call fail.
  It satisfies the laws, so nothing assumed of the database is contradictory.
\<close>

record mem_db =
  mem_items :: "(bytes \<times> bytes) list"
  mem_broken :: bool

definition mem_badger :: "mem_db badger" where
  "mem_badger = \<lparr>
     badger_get = (\<lambda>db k. if mem_broken db then View_err ''broken''
                          else case map_of (mem_items db) k of None \<Rightarrow> Key_not_found | Some v \<Rightarrow> Got v),
     badger_set = (\<lambda>db k v. if mem_broken db then (Some ''broken'', db)
                            else (None, db\<lparr>mem_items := AList.update k v (mem_items db)\<rparr>)),
     badger_batch = (\<lambda>db kvs. if mem_broken db then (Some (Flush_failed ''broken''), db)
                              else (None, db\<lparr>mem_items := AList.updates (map fst kvs) (map snd kvs) (mem_items db)\<rparr>)),
     badger_items = (\<lambda>db. if mem_broken db then Inl ''broken'' else Inr (AList.clearjunk (mem_items db))),
     badger_close = (\<lambda>db. (None, db\<lparr>mem_broken := True\<rparr>))\<rparr>"

definition mem_contents :: "mem_db \<Rightarrow> bytes \<Rightarrow> bytes option" where
  "mem_contents db = map_of (mem_items db)"

lemma map_upds_fst_snd: "m(map fst kvs [\<mapsto>] map snd kvs) = m ++ map_of (rev kvs)"
  by (simp add: map_upds_def zip_map_fst_snd)

interpretation mem: badger_laws mem_badger mem_contents
  by unfold_locales
    (auto simp: mem_badger_def mem_contents_def update_conv' updates_conv' map_upds_fst_snd
          split: if_splits option.splits)

end
