(* ===== verification/Go_Strings.thy ===== *)
theory Go_Strings
  imports Prelude
begin

text \<open>
  The parts of the Go packages \<open>fmt\<close>, \<open>strconv\<close>, \<open>strings\<close> and \<open>encoding/hex\<close> the program uses:
  decimal printing and parsing of integers, hexadecimal printing and parsing of byte slices, prefix
  and suffix tests, splitting, and case-insensitive comparison. A string is its sequence of bytes;
  the case folding is the ASCII one, other bytes compare as themselves.
\<close>

section \<open>Decimal numbers\<close>

definition digit_char :: "nat \<Rightarrow> char" where
  "digit_char d = char_of (48 + d)"

definition char_digit :: "char \<Rightarrow> nat option" where
  "char_digit c = (let n = of_char c in if 48 \<le> n \<and> n \<le> 57 then Some (n - 48) else None)"

text \<open>\<open>fmt.Sprintf("%d", n)\<close>.\<close>

fun sprint_nat :: "nat \<Rightarrow> string" where
  "sprint_nat n = (if n < 10 then [digit_char n] else sprint_nat (n div 10) @ [digit_char (n mod 10)])"

declare sprint_nat.simps [simp del]

definition sprint_int :: "int \<Rightarrow> string" where
  "sprint_int i = (if i < 0 then CHR ''-'' # sprint_nat (nat (- i)) else sprint_nat (nat i))"

text \<open>The digit loop of \<open>strconv.ParseUint\<close> in base 10; \<open>None\<close> is a syntax error.\<close>

fun parse_digits :: "nat \<Rightarrow> string \<Rightarrow> nat option" where
  "parse_digits acc [] = Some acc"
| "parse_digits acc (c # cs) =
     (case char_digit c of None \<Rightarrow> None | Some d \<Rightarrow> parse_digits (acc * 10 + d) cs)"

text \<open>\<open>strconv.ParseUint(s, 10, bits)\<close>: a value that does not fit is an error, as is no digit.\<close>

definition ParseUint :: "string \<Rightarrow> nat \<Rightarrow> err + nat" where
  "ParseUint s bits =
     (if s = [] then Inl ''invalid syntax''
      else case parse_digits 0 s of
             None \<Rightarrow> Inl ''invalid syntax''
           | Some n \<Rightarrow> if int n < 2 ^ bits then Inr n else Inl ''value out of range'')"

text \<open>\<open>strconv.ParseInt(s, 10, 64)\<close>: an optional sign, then digits, within the signed range.\<close>

definition ParseInt64 :: "string \<Rightarrow> err + i64" where
  "ParseInt64 s =
     (if s = [] then Inl ''invalid syntax''
      else let neg = (hd s = CHR ''-'');
               ds = (if hd s = CHR ''-'' \<or> hd s = CHR ''+'' then tl s else s)
           in if ds = [] then Inl ''invalid syntax''
              else case parse_digits 0 ds of
                     None \<Rightarrow> Inl ''invalid syntax''
                   | Some n \<Rightarrow>
                       if \<not> neg \<and> int n < 2 ^ 63 then Inr (of_nat n)
                       else if neg \<and> int n \<le> 2 ^ 63 then Inr (- of_nat n)
                       else Inl ''value out of range'')"

lemma char_digit_digit_char [simp]: "d < 10 \<Longrightarrow> char_digit (digit_char d) = Some d"
  by (simp add: char_digit_def digit_char_def Let_def)

lemma digit_char_not_sign [simp]:
  assumes "d < 10" shows "digit_char d \<noteq> CHR ''-''" "digit_char d \<noteq> CHR ''+''" "digit_char d \<noteq> CHR '':''"
proof -
  from assms have "d \<in> {0, 1, 2, 3, 4, 5, 6, 7, 8, 9}" by auto
  then show "digit_char d \<noteq> CHR ''-''" "digit_char d \<noteq> CHR ''+''" "digit_char d \<noteq> CHR '':''"
    by (auto simp: digit_char_def char_of_def)
qed

lemma parse_digits_append:
  "parse_digits acc (xs @ ys) = (case parse_digits acc xs of None \<Rightarrow> None | Some n \<Rightarrow> parse_digits n ys)"
  by (induction acc xs rule: parse_digits.induct) (auto split: option.splits)

lemma parse_digits_sprint_nat: "\<exists>k. parse_digits acc (sprint_nat n) = Some (acc * 10 ^ k + n)"
proof (induction n arbitrary: acc rule: sprint_nat.induct)
  case (1 n)
  show ?case
  proof (cases "n < 10")
    case True
    then show ?thesis
      by (subst sprint_nat.simps) (auto intro: exI [of _ 1])
  next
    case False
    with 1 obtain k where k: "parse_digits acc (sprint_nat (n div 10)) = Some (acc * 10 ^ k + n div 10)"
      by blast
    have "(acc * 10 ^ k + n div 10) * 10 + n mod 10 = acc * 10 ^ Suc k + n"
      by (simp add: algebra_simps)
    with False k show ?thesis
      by (subst sprint_nat.simps) (auto simp: parse_digits_append intro!: exI [of _ "Suc k"])
  qed
qed

lemma parse_digits_sprint_nat_0 [simp]: "parse_digits 0 (sprint_nat n) = Some n"
  using parse_digits_sprint_nat [of 0 n] by auto

lemma sprint_nat_nonempty [simp]: "sprint_nat n \<noteq> []"
  by (subst sprint_nat.simps) simp

lemma set_sprint_nat: "set (sprint_nat n) \<subseteq> digit_char ` {..<10}"
proof (induction n rule: sprint_nat.induct)
  case (1 n)
  then show ?case by (subst sprint_nat.simps) auto
qed

lemma hd_sprint_nat [simp]: "hd (sprint_nat n) \<noteq> CHR ''-''" "hd (sprint_nat n) \<noteq> CHR ''+''"
proof -
  have "hd (sprint_nat n) \<in> digit_char ` {..<10}"
    using set_sprint_nat [of n] hd_in_set [OF sprint_nat_nonempty [of n]] by blast
  then show "hd (sprint_nat n) \<noteq> CHR ''-''" "hd (sprint_nat n) \<noteq> CHR ''+''"
    using digit_char_not_sign by fastforce+
qed

lemma ParseUint_sprint_nat: "n < 2 ^ bits \<Longrightarrow> ParseUint (sprint_nat n) bits = Inr n"
  by (simp add: ParseUint_def)

text \<open>Printing a 64-bit signed integer and parsing it again is the identity.\<close>

lemma sint64_bounds: "- (2 ^ 63) \<le> sint (x :: i64)" "sint (x :: i64) < 2 ^ 63"
  using sint_ge [of x] sint_lt [of x] by simp_all

lemma ParseInt64_sprint_int: "ParseInt64 (sprint_int (sint (x :: i64))) = Inr x"
proof (cases "sint x < 0")
  case True
  have le: "nat (- sint x) \<le> 2 ^ 63"
    using sint64_bounds(1) [of x] by (simp add: nat_le_iff)
  have "- of_nat (nat (- sint x)) = (of_int (sint x) :: i64)"
    using True by (metis minus_equation_iff nat_0_le neg_0_le_iff_le of_int_minus of_int_of_nat_eq order_less_imp_le)
  with True le show ?thesis
    by (simp add: ParseInt64_def sprint_int_def)
next
  case False
  then have "nat (sint x) < 2 ^ 63"
    using sint64_bounds(2) [of x] by (simp add: nat_less_iff)
  moreover have "of_nat (nat (sint x)) = (of_int (sint x) :: i64)"
    using False by (metis linorder_not_less nat_0_le of_int_of_nat_eq)
  ultimately show ?thesis
    using False by (simp add: ParseInt64_def sprint_int_def)
qed

section \<open>Hexadecimal\<close>

definition hex_digit :: "nat \<Rightarrow> char" where
  "hex_digit d = (if d < 10 then char_of (48 + d) else char_of (87 + d))"

definition from_hex :: "char \<Rightarrow> nat option" where
  "from_hex c = (let n = of_char c in
     if 48 \<le> n \<and> n \<le> 57 then Some (n - 48)
     else if 97 \<le> n \<and> n \<le> 102 then Some (n - 87)
     else if 65 \<le> n \<and> n \<le> 70 then Some (n - 55)
     else None)"

text \<open>\<open>fmt.Sprintf("%x", bs)\<close> and \<open>fmt.Sprintf("%#x", bs)\<close> of a byte slice.\<close>

definition sprint_hex :: "bytes \<Rightarrow> string" where
  "sprint_hex bs = concat (map (\<lambda>b. [hex_digit (unat b div 16), hex_digit (unat b mod 16)]) bs)"

definition sprint_hex0x :: "bytes \<Rightarrow> string" where
  "sprint_hex0x bs = (if bs = [] then [] else ''0x'' @ sprint_hex bs)"

text \<open>\<open>hex.DecodeString\<close>.\<close>

fun DecodeString :: "string \<Rightarrow> err + bytes" where
  "DecodeString [] = Inr []"
| "DecodeString [c] = (case from_hex c of None \<Rightarrow> Inl ''invalid byte'' | Some _ \<Rightarrow> Inl ''odd length hex string'')"
| "DecodeString (c # d # cs) =
     (case (from_hex c, from_hex d) of
        (Some h, Some l) \<Rightarrow>
          (case DecodeString cs of Inl e \<Rightarrow> Inl e | Inr bs \<Rightarrow> Inr (of_nat (16 * h + l) # bs))
      | _ \<Rightarrow> Inl ''invalid byte'')"

lemma from_hex_hex_digit [simp]: "d < 16 \<Longrightarrow> from_hex (hex_digit d) = Some d"
  by (simp add: from_hex_def hex_digit_def Let_def)

lemma DecodeString_sprint_hex [simp]: "DecodeString (sprint_hex bs) = Inr bs"
proof (induction bs)
  case Nil
  then show ?case by (simp add: sprint_hex_def)
next
  case (Cons b bs)
  have b: "unat b < 256" using unsigned_less [where w = b and 'a = nat] by simp
  have "16 * (unat b div 16) + unat b mod 16 = unat b" by simp
  then have "(of_nat (16 * (unat b div 16) + unat b mod 16) :: byte) = b" by simp
  moreover have "DecodeString (sprint_hex (b # bs)) =
      Inr (of_nat (16 * (unat b div 16) + unat b mod 16) # bs)"
    using Cons b by (simp add: sprint_hex_def del: mult_div_mod_eq)
  ultimately show ?case by simp
qed

section \<open>Prefixes, suffixes, splitting, folding\<close>

definition HasPrefix :: "string \<Rightarrow> string \<Rightarrow> bool" where
  "HasPrefix s p \<longleftrightarrow> take (length p) s = p"

definition HasSuffix :: "string \<Rightarrow> string \<Rightarrow> bool" where
  "HasSuffix s p \<longleftrightarrow> length p \<le> length s \<and> drop (length s - length p) s = p"

definition TrimPrefix :: "string \<Rightarrow> string \<Rightarrow> string" where
  "TrimPrefix s p = (if HasPrefix s p then drop (length p) s else s)"

text \<open>\<open>strings.Split(s, sep)\<close> for a separator of one byte.\<close>

fun Split :: "string \<Rightarrow> char \<Rightarrow> string list" where
  "Split [] sep = [[]]"
| "Split (c # cs) sep =
     (if c = sep then [] # Split cs sep
      else case Split cs sep of p # ps \<Rightarrow> (c # p) # ps | [] \<Rightarrow> [[c]])"

definition to_lower :: "char \<Rightarrow> char" where
  "to_lower c = (let n = of_char c :: nat in if 65 \<le> n \<and> n \<le> 90 then char_of (n + 32) else c)"

text \<open>
  \<open>strings.EqualFold(s, t)\<close> for a \<open>t\<close> in ASCII, which is how the program calls it: two runes beyond
  ASCII fold into it, the Kelvin sign (bytes E2 84 AA) to \<open>k\<close> and the long s (bytes C5 BF) to \<open>s\<close>.
\<close>

fun fold_ascii :: "string \<Rightarrow> string" where
  "fold_ascii [] = []"
| "fold_ascii (c # cs) =
     (if of_char c = (226 :: nat) \<and> map of_char (take 2 cs) = [132, 170 :: nat] then CHR ''k'' # fold_ascii (drop 2 cs)
      else if of_char c = (197 :: nat) \<and> map of_char (take 1 cs) = [191 :: nat] then CHR ''s'' # fold_ascii (drop 1 cs)
      else to_lower c # fold_ascii cs)"

definition EqualFold :: "string \<Rightarrow> string \<Rightarrow> bool" where
  "EqualFold s t \<longleftrightarrow> fold_ascii s = fold_ascii t"

lemma Split_no_sep: "sep \<notin> set s \<Longrightarrow> Split s sep = [s]"
  by (induction s) auto

lemma Split_one_sep: "sep \<notin> set a \<Longrightarrow> Split (a @ sep # b) sep = a # Split b sep"
  by (induction a) auto

lemma EqualFold_refl [simp]: "EqualFold s s"
  by (simp add: EqualFold_def)

lemma TrimPrefix_0x [simp]: "TrimPrefix (''0x'' @ s) ''0x'' = s"
  by (simp add: TrimPrefix_def HasPrefix_def)

lemma DecodeString_sprint_hex0x: "DecodeString (TrimPrefix (sprint_hex0x bs) ''0x'') = Inr bs"
  using TrimPrefix_0x [of "sprint_hex bs"]
  by (auto simp: sprint_hex0x_def TrimPrefix_def HasPrefix_def)

end
