(* ===== verification/Rules.thy ===== *)
theory Rules
  imports Storage Go_Strings
begin

text \<open>
  The rules service: the data of \<open>rules/service.go\<close> and the standard implementation of
  \<open>rules/standard\<close>, which decides whether a request is approved and keeps, per public key, the
  highest attested source and target epochs and the highest proposed slot.
\<close>

section \<open>Data of the rules service\<close>

datatype rules_result = UNKNOWN | APPROVED | DENIED | FAILED

text \<open>\<open>Result.String\<close>: the printed name of a result.\<close>

fun rules_result_String :: "rules_result \<Rightarrow> string" where
  "rules_result_String UNKNOWN = ''Unknown''"
| "rules_result_String APPROVED = ''Approved''"
| "rules_result_String DENIED = ''Denied''"
| "rules_result_String FAILED = ''Failed''"

record req_metadata =
  md_Account :: string
  md_PubKey :: bytes
  md_IP :: string
  md_Client :: string

text \<open>A nil slice or pointer is \<open>None\<close>.\<close>

record sign_data =
  sd_Domain :: "slice option"
  sd_Data :: "bytes option"

record checkpoint =
  cp_Epoch :: u64
  cp_Root :: "bytes option"

record att_data =
  ad_Domain :: "slice option"
  ad_Slot :: u64
  ad_CommitteeIndex :: u64
  ad_BeaconBlockRoot :: "bytes option"
  ad_Source :: "checkpoint option"
  ad_Target :: "checkpoint option"

record prop_data =
  pd_Domain :: "slice option"
  pd_Slot :: u64
  pd_ProposerIndex :: u64
  pd_ParentRoot :: "bytes option"
  pd_StateRoot :: "bytes option"
  pd_BodyRoot :: "bytes option"

record slashing_protection =
  sp_PubKey :: bytes
  sp_HighestProposedSlot :: i64
  sp_HighestAttestedSourceEpoch :: i64
  sp_HighestAttestedTargetEpoch :: i64

section \<open>The service\<close>

record att_state =
  SourceEpoch :: i64
  TargetEpoch :: i64

record prop_state =
  PropSlot :: i64

text \<open>
  What the rules take from elsewhere: the four-byte signature domain types of the package
  \<open>go-eth2-types\<close>, and the decoding of state written by early releases with \<open>encoding/gob\<close>.
\<close>

record rules_lib =
  DomainBeaconAttester :: bytes
  DomainBeaconProposer :: bytes
  DomainVoluntaryExit :: bytes
  gob_att :: "bytes \<Rightarrow> att_state \<Rightarrow> err + att_state"
  gob_prop :: "bytes \<Rightarrow> prop_state \<Rightarrow> err + prop_state"

record 'db rules_service =
  rules_store :: "'db badger"
  adminIPs :: "string list"
  rules_lib :: rules_lib

definition actionSignBeaconAttestation :: bytes where
  "actionSignBeaconAttestation = [2]"

definition actionSignBeaconProposal :: bytes where
  "actionSignBeaconProposal = [3]"

text \<open>\<open>req.Domain[0:4]\<close>; a nil slice has no capacity.\<close>

definition domain_type :: "slice option \<Rightarrow> bytes option" where
  "domain_type d = (case d of None \<Rightarrow> None | Some s \<Rightarrow> reslice_to s 4)"

definition nil_deref :: string where "nil_deref = ''invalid memory address or nil pointer dereference''"
definition slice_bounds :: string where "slice_bounds = ''slice bounds out of range''"

section \<open>Approval without state\<close>

text \<open>\<open>OnSign\<close>: the generic signer never signs attestations or proposals, and signs voluntary exits
  for configured addresses only.\<close>

definition OnSign ::
  "'db rules_service \<Rightarrow> req_metadata option \<Rightarrow> sign_data option \<Rightarrow> ('db, rules_result) op" where
  "OnSign S metadata req =
     (case metadata of
        None \<Rightarrow> go_return FAILED
      | Some md \<Rightarrow>
          (case req of
             None \<Rightarrow> go_panic nil_deref
           | Some r \<Rightarrow>
               (case domain_type (sd_Domain r) of
                  None \<Rightarrow> go_panic slice_bounds
                | Some d \<Rightarrow>
                    if d = DomainBeaconAttester (rules_lib S) then go_return DENIED
                    else if d = DomainBeaconProposer (rules_lib S) then go_return DENIED
                    else if d = DomainVoluntaryExit (rules_lib S) then
                      (if md_IP md = [] then go_return DENIED
                       else if \<not> list_ex (\<lambda>ip. md_IP md = ip) (adminIPs S) then go_return DENIED
                       else go_return APPROVED)
                    else go_return APPROVED)))"

text \<open>The remaining rules approve every request.\<close>

definition OnListAccounts :: "'db rules_service \<Rightarrow> ('db, rules_result) op" where
  "OnListAccounts S = go_return APPROVED"
definition OnLockWallet :: "'db rules_service \<Rightarrow> ('db, rules_result) op" where
  "OnLockWallet S = go_return APPROVED"
definition OnUnlockWallet :: "'db rules_service \<Rightarrow> ('db, rules_result) op" where
  "OnUnlockWallet S = go_return APPROVED"
definition OnLockAccount :: "'db rules_service \<Rightarrow> ('db, rules_result) op" where
  "OnLockAccount S = go_return APPROVED"
definition OnUnlockAccount :: "'db rules_service \<Rightarrow> ('db, rules_result) op" where
  "OnUnlockAccount S = go_return APPROVED"
definition OnCreateAccount :: "'db rules_service \<Rightarrow> ('db, rules_result) op" where
  "OnCreateAccount S = go_return APPROVED"

section \<open>Stored state\<close>

definition Encode_att :: "att_state option \<Rightarrow> bytes" where
  "Encode_att s = 1 # (case s of None \<Rightarrow> replicate 16 0
                        | Some st \<Rightarrow> PutUint64 (SourceEpoch st) @ PutUint64 (TargetEpoch st))"

definition Decode_att :: "rules_lib \<Rightarrow> bytes \<Rightarrow> att_state \<Rightarrow> err + att_state" where
  "Decode_att L data s =
     (case data of
        [] \<Rightarrow> Inl ''no data supplied''
      | v # _ \<Rightarrow>
          if v = 1 then
            (if length data \<noteq> 17 then Inl (''invalid version 1 data size '' @ sprint_nat (length data))
             else Inr (s\<lparr>SourceEpoch := Uint64 (take 8 (drop 1 data)),
                         TargetEpoch := Uint64 (take 8 (drop 9 data))\<rparr>))
          else gob_att L data s)"

definition Encode_prop :: "prop_state option \<Rightarrow> bytes" where
  "Encode_prop s = 1 # (case s of None \<Rightarrow> replicate 8 0 | Some st \<Rightarrow> PutUint64 (PropSlot st))"

definition Decode_prop :: "rules_lib \<Rightarrow> bytes \<Rightarrow> prop_state \<Rightarrow> err + prop_state" where
  "Decode_prop L data s =
     (case data of
        [] \<Rightarrow> Inl ''no data supplied''
      | v # _ \<Rightarrow>
          if v = 1 then
            (if length data \<noteq> 9 then Inl (''invalid version 1 data size '' @ sprint_nat (length data))
             else Inr (s\<lparr>PropSlot := Uint64 (take 8 (drop 1 data))\<rparr>))
          else gob_prop L data s)"

section \<open>Beacon attestations\<close>

definition fetchSignBeaconAttestationState ::
  "'db rules_service \<Rightarrow> bytes \<Rightarrow> ('db, err + att_state) op" where
  "fetchSignBeaconAttestationState S pubKey =
     go_bind (Fetch (rules_store S) (pubKey @ actionSignBeaconAttestation)) (\<lambda>r.
       case r of
         Inl e \<Rightarrow> if e \<noteq> ''not found'' then go_return (Inl e)
                  else go_return (Inr \<lparr>SourceEpoch = -1, TargetEpoch = -1\<rparr>)
       | Inr data \<Rightarrow>
           (case Decode_att (rules_lib S) data \<lparr>SourceEpoch = 0, TargetEpoch = 0\<rparr> of
              Inl e \<Rightarrow> go_return (Inl (wrap_err ''failed to decode state'' e))
            | Inr st \<Rightarrow> go_return (Inr st)))"

definition storeSignBeaconAttestationState ::
  "'db rules_service \<Rightarrow> bytes \<Rightarrow> att_state \<Rightarrow> ('db, err option) op" where
  "storeSignBeaconAttestationState S pubKey st =
     Store (rules_store S) (pubKey @ actionSignBeaconAttestation) (Encode_att (Some st))"

text \<open>
  The checks. The state is updated in place when the request is approved; a nil pointer on the way
  panics. Unsigned comparison is the order of words, \<open>state.TargetEpoch >= 0\<close> is the signed one.
\<close>

definition runSignBeaconAttestationChecks ::
  "rules_lib \<Rightarrow> req_metadata option \<Rightarrow> att_data option \<Rightarrow> att_state \<Rightarrow>
     (rules_result \<times> att_state) go" where
  "runSignBeaconAttestationChecks L metadata req state =
     (case (metadata, req) of
        (Some md, Some r) \<Rightarrow>
          (case domain_type (ad_Domain r) of
             None \<Rightarrow> Panic slice_bounds
           | Some d \<Rightarrow>
               if d \<noteq> DomainBeaconAttester L then Ret (DENIED, state)
               else
                 (case (ad_Source r, ad_Target r) of
                    (Some src, Some tgt) \<Rightarrow>
                      let sourceEpoch = cp_Epoch src; targetEpoch = cp_Epoch tgt in
                      if (sourceEpoch \<noteq> 0 \<or> targetEpoch \<noteq> 0) \<and> targetEpoch \<le> sourceEpoch
                      then Ret (DENIED, state)
                      else if nonneg64 (TargetEpoch state) \<and> targetEpoch \<le> TargetEpoch state
                      then Ret (DENIED, state)
                      else if nonneg64 (SourceEpoch state) \<and> sourceEpoch < SourceEpoch state
                      then Ret (DENIED, state)
                      else Ret (APPROVED, state\<lparr>SourceEpoch := sourceEpoch, TargetEpoch := targetEpoch\<rparr>)
                  | _ \<Rightarrow> Panic nil_deref))
      | _ \<Rightarrow> Panic nil_deref)"

definition OnSignBeaconAttestation ::
  "'db rules_service \<Rightarrow> req_metadata option \<Rightarrow> att_data option \<Rightarrow> ('db, rules_result) op" where
  "OnSignBeaconAttestation S metadata req =
     (case metadata of
        None \<Rightarrow> go_panic nil_deref
      | Some md \<Rightarrow>
          go_bind (fetchSignBeaconAttestationState S (md_PubKey md)) (\<lambda>f.
            case f of
              Inl e \<Rightarrow> go_return FAILED
            | Inr state \<Rightarrow>
                go_bind (go_lift (runSignBeaconAttestationChecks (rules_lib S) metadata req state))
                  (\<lambda>(res, state').
                    if res \<noteq> APPROVED then go_return res
                    else
                      (case (ad_Source (the req), ad_Target (the req)) of
                         (Some src, Some tgt) \<Rightarrow>
                           go_bind (storeSignBeaconAttestationState S (md_PubKey md)
                                      (state'\<lparr>SourceEpoch := cp_Epoch src, TargetEpoch := cp_Epoch tgt\<rparr>))
                             (\<lambda>e. case e of Some _ \<Rightarrow> go_return FAILED | None \<Rightarrow> go_return res)
                       | _ \<Rightarrow> go_panic nil_deref))))"

section \<open>Batches of beacon attestations\<close>

text \<open>The index of the first element that satisfies a test: a loop that returns at it.\<close>

fun first_index :: "('a \<Rightarrow> bool) \<Rightarrow> 'a list \<Rightarrow> nat option" where
  "first_index P [] = None"
| "first_index P (x # xs) = (if P x then Some 0 else map_option Suc (first_index P xs))"

definition bad_att_req :: "att_data option \<Rightarrow> bool" where
  "bad_att_req req = (case req of None \<Rightarrow> True | Some r \<Rightarrow> ad_Source r = None \<or> ad_Target r = None)"

fun fetchSignBeaconAttestationStates ::
  "'db rules_service \<Rightarrow> bytes list \<Rightarrow> ('db, err + att_state list) op" where
  "fetchSignBeaconAttestationStates S [] = go_return (Inr [])"
| "fetchSignBeaconAttestationStates S (pk # pks) =
     go_bind (fetchSignBeaconAttestationState S pk) (\<lambda>r.
       case r of
         Inl e \<Rightarrow> go_return (Inl e)
       | Inr st \<Rightarrow>
           go_bind (fetchSignBeaconAttestationStates S pks) (\<lambda>rs.
             case rs of Inl e \<Rightarrow> go_return (Inl e) | Inr sts \<Rightarrow> go_return (Inr (st # sts))))"

definition storeSignBeaconAttestationStates ::
  "'db rules_service \<Rightarrow> bytes list \<Rightarrow> att_state list \<Rightarrow> ('db, err option) op" where
  "storeSignBeaconAttestationStates S pubKeys states =
     (if length pubKeys \<noteq> length states
      then go_return (Some ''mismatch between number of pubkeys and number of states'')
      else BatchStore (rules_store S)
             (map (\<lambda>pk. pk @ actionSignBeaconAttestation) pubKeys)
             (map (\<lambda>st. Encode_att (Some st)) states))"

text \<open>The loop that runs the checks on every request of the batch.\<close>

fun run_all_checks ::
  "rules_lib \<Rightarrow> req_metadata option list \<Rightarrow> att_data option list \<Rightarrow> att_state list \<Rightarrow>
     (rules_result \<times> att_state) list go" where
  "run_all_checks L (md # mds) (req # reqs) (st # sts) =
     (case runSignBeaconAttestationChecks L md req st of
        Ret x \<Rightarrow> (case run_all_checks L mds reqs sts of Ret xs \<Rightarrow> Ret (x # xs)
                   | Panic e \<Rightarrow> Panic e | Block \<Rightarrow> Block)
      | Panic e \<Rightarrow> Panic e
      | Block \<Rightarrow> Block)"
| "run_all_checks L mds reqs sts = Ret []"

definition OnSignBeaconAttestations ::
  "'db rules_service \<Rightarrow> req_metadata option list \<Rightarrow> att_data option list \<Rightarrow>
     ('db, rules_result list) op" where
  "OnSignBeaconAttestations S metadata req =
     (let res = replicate (length req) UNKNOWN;
          all_failed = replicate (length req) FAILED in
      if length req \<noteq> length metadata then go_return all_failed
      else case first_index (\<lambda>md. md = None) metadata of
             Some i \<Rightarrow> go_return (res[i := FAILED])
           | None \<Rightarrow>
               (case first_index bad_att_req req of
                  Some i \<Rightarrow> go_return (res[i := FAILED])
                | None \<Rightarrow>
                    let pubKeys = map (\<lambda>md. md_PubKey (the md)) metadata in
                    go_bind (fetchSignBeaconAttestationStates S pubKeys) (\<lambda>f.
                      case f of
                        Inl e \<Rightarrow> go_return all_failed
                      | Inr states \<Rightarrow>
                          go_bind (go_lift (run_all_checks (rules_lib S) metadata req states)) (\<lambda>rs.
                            go_bind (storeSignBeaconAttestationStates S pubKeys (map snd rs)) (\<lambda>e.
                              case e of Some _ \<Rightarrow> go_return all_failed
                                      | None \<Rightarrow> go_return (map fst rs))))))"

section \<open>Beacon proposals\<close>

definition fetchSignBeaconProposalState ::
  "'db rules_service \<Rightarrow> bytes \<Rightarrow> ('db, err + prop_state) op" where
  "fetchSignBeaconProposalState S pubKey =
     go_bind (Fetch (rules_store S) (pubKey @ actionSignBeaconProposal)) (\<lambda>r.
       case r of
         Inl e \<Rightarrow> if e \<noteq> ''not found'' then go_return (Inl e)
                  else go_return (Inr \<lparr>PropSlot = -1\<rparr>)
       | Inr data \<Rightarrow>
           (case Decode_prop (rules_lib S) data \<lparr>PropSlot = 0\<rparr> of
              Inl e \<Rightarrow> go_return (Inl (wrap_err ''failed to decode state'' e))
            | Inr st \<Rightarrow> go_return (Inr st)))"

definition storeSignBeaconProposalState ::
  "'db rules_service \<Rightarrow> bytes \<Rightarrow> prop_state \<Rightarrow> ('db, err option) op" where
  "storeSignBeaconProposalState S pubKey st =
     Store (rules_store S) (pubKey @ actionSignBeaconProposal) (Encode_prop (Some st))"

definition OnSignBeaconProposal ::
  "'db rules_service \<Rightarrow> req_metadata option \<Rightarrow> prop_data option \<Rightarrow> ('db, rules_result) op" where
  "OnSignBeaconProposal S metadata req =
     (case (metadata, req) of
        (Some md, Some r) \<Rightarrow>
          (case domain_type (pd_Domain r) of
             None \<Rightarrow> go_panic slice_bounds
           | Some d \<Rightarrow>
               if d \<noteq> DomainBeaconProposer (rules_lib S) then go_return DENIED
               else
                 go_bind (fetchSignBeaconProposalState S (md_PubKey md)) (\<lambda>f.
                   case f of
                     Inl e \<Rightarrow> go_return FAILED
                   | Inr state \<Rightarrow>
                       if nonneg64 (PropSlot state) \<and> pd_Slot r \<le> PropSlot state
                       then go_return DENIED
                       else
                         go_bind (storeSignBeaconProposalState S (md_PubKey md)
                                    (state\<lparr>PropSlot := pd_Slot r\<rparr>)) (\<lambda>e.
                           case e of Some _ \<Rightarrow> go_return FAILED | None \<Rightarrow> go_return APPROVED)))
      | _ \<Rightarrow> go_panic nil_deref)"

end
