(* ===== verification/Scatter.thy ===== *)
theory Scatter
  imports Prelude
begin

text \<open>
  \<open>util/scatter.go\<close>: a computation over \<open>n\<close> items is cut into extents, and one goroutine works on
  each. The number of processors and the order in which the goroutines get to run come from the
  Go runtime: they are the parameters \<open>GOMAXPROCS\<close> and \<open>schedule\<close>.
\<close>

record go_runtime =
  GOMAXPROCS :: nat
  schedule :: "nat \<Rightarrow> nat list"

text \<open>What the runtime guarantees: a processor, and every goroutine runs once.\<close>

definition fair_runtime :: "go_runtime \<Rightarrow> bool" where
  "fair_runtime rt \<longleftrightarrow> 0 < GOMAXPROCS rt \<and> (\<forall>w. mset (schedule rt w) = mset [0..<w])"

record 'e scatter_result =
  sr_Offset :: nat
  sr_Extent :: 'e

definition calculateExtentSize :: "go_runtime \<Rightarrow> nat \<Rightarrow> nat" where
  "calculateExtentSize rt items =
     (let extentSize = items div GOMAXPROCS rt in
      if extentSize = 0 then 1
      else if 0 < items mod extentSize then extentSize + 1
      else extentSize)"

definition workers :: "go_runtime \<Rightarrow> nat \<Rightarrow> nat" where
  "workers rt inputLen =
     (let extentSize = calculateExtentSize rt inputLen in
      inputLen div extentSize + (if inputLen mod extentSize \<noteq> 0 then 1 else 0))"

definition offset_of :: "go_runtime \<Rightarrow> nat \<Rightarrow> nat \<Rightarrow> nat" where
  "offset_of rt inputLen worker = worker * calculateExtentSize rt inputLen"

definition entries_of :: "go_runtime \<Rightarrow> nat \<Rightarrow> nat \<Rightarrow> nat" where
  "entries_of rt inputLen worker =
     (let extentSize = calculateExtentSize rt inputLen; offset = worker * extentSize in
      if inputLen < offset + extentSize then inputLen - offset else extentSize)"

text \<open>
  The collection loop: a result fills the next slot, an error leaves a nil slot and is the error
  that is returned if no later one replaces it.
\<close>

fun collect_results :: "(err + 'e scatter_result) list \<Rightarrow> err option \<Rightarrow> 'e scatter_result option list \<times> err option" where
  "collect_results [] e = ([], e)"
| "collect_results (Inr r # xs) e = (case collect_results xs e of (rs, e') \<Rightarrow> (Some r # rs, e'))"
| "collect_results (Inl x # xs) e = (case collect_results xs (Some x) of (rs, e') \<Rightarrow> (None # rs, e'))"

text \<open>The goroutines, each run to its end when the scheduler picks it.\<close>

fun run_workers :: "nat list \<Rightarrow> (nat \<Rightarrow> ('s, 'r) op) \<Rightarrow> ('s, 'r list) op" where
  "run_workers [] work = go_return []"
| "run_workers (w # ws) work =
     go_bind (work w) (\<lambda>r. go_bind (run_workers ws work) (\<lambda>rs. go_return (r # rs)))"

definition Scatter ::
  "go_runtime \<Rightarrow> int \<Rightarrow> (nat \<Rightarrow> nat \<Rightarrow> ('s, err + 'e) op) \<Rightarrow>
     ('s, 'e scatter_result option list \<times> err option) op" where
  "Scatter rt inputLen work =
     (if inputLen \<le> 0 then go_return ([], Some ''no data with which to work'')
      else
        let n = nat inputLen in
        go_bind (run_workers (schedule rt (workers rt n)) (\<lambda>worker.
                   go_bind (work (offset_of rt n worker) (entries_of rt n worker)) (\<lambda>r.
                     go_return (case r of Inl e \<Rightarrow> Inl e
                                  | Inr x \<Rightarrow> Inr \<lparr>sr_Offset = offset_of rt n worker, sr_Extent = x\<rparr>))))
          (\<lambda>rs. go_return (collect_results rs None)))"

section \<open>The extents are a partition of the input\<close>

definition extent :: "go_runtime \<Rightarrow> nat \<Rightarrow> nat \<Rightarrow> nat list" where
  "extent rt n w = [offset_of rt n w..<offset_of rt n w + entries_of rt n w]"

lemma calculateExtentSize_pos: "0 < calculateExtentSize rt n"
  by (simp add: calculateExtentSize_def Let_def)

lemma extents_upto:
  "w \<le> workers rt n \<Longrightarrow> concat (map (extent rt n) [0..<w]) = [0..<min n (w * calculateExtentSize rt n)]"
proof (induction w)
  case (Suc w)
  let ?e = "calculateExtentSize rt n"
  have e: "0 < ?e" by (rule calculateExtentSize_pos)
  have "w * ?e < n"
  proof (cases "n mod ?e = 0")
    case True
    with Suc.prems have "w < n div ?e" by (simp add: workers_def Let_def)
    then have "w * ?e < n div ?e * ?e" using e by simp
    also have "\<dots> \<le> n" by simp
    finally show ?thesis .
  next
    case False
    with Suc.prems have "w \<le> n div ?e" by (simp add: workers_def Let_def)
    then have "w * ?e \<le> n div ?e * ?e" by simp
    also have "n div ?e * ?e < n" using False by (metis div_mult_mod_eq less_add_same_cancel1 neq0_conv)
    finally show ?thesis .
  qed
  then have "entries_of rt n w = min n (Suc w * ?e) - w * ?e" and "w * ?e \<le> min n (Suc w * ?e)"
    by (auto simp: entries_of_def Let_def)
  then have "[0..<w * ?e] @ extent rt n w = [0..<min n (Suc w * ?e)]"
    using upt_add_eq_append [of 0 "w * ?e" "min n (Suc w * ?e) - w * ?e"]
    by (simp add: extent_def offset_of_def)
  moreover have "min n (w * ?e) = w * ?e" using \<open>w * ?e < n\<close> by simp
  ultimately show ?case using Suc by simp
qed simp

lemma workers_cover: "n \<le> workers rt n * calculateExtentSize rt n"
proof -
  let ?e = "calculateExtentSize rt n"
  have "n = n div ?e * ?e + n mod ?e" by (rule div_mult_mod_eq [symmetric])
  moreover have "n mod ?e \<le> ?e" using calculateExtentSize_pos [of rt n] by (simp add: less_imp_le)
  ultimately show ?thesis by (cases "n mod ?e = 0") (simp_all add: workers_def Let_def add_mult_distrib)
qed

lemma extents_partition: "concat (map (extent rt n) [0..<workers rt n]) = [0..<n]"
  using extents_upto [of "workers rt n" rt n] workers_cover [of n rt] by (simp add: min_def)

text \<open>In whatever order the goroutines run, every index is worked on once.\<close>

definition scatter_order :: "go_runtime \<Rightarrow> nat \<Rightarrow> nat list" where
  "scatter_order rt n = concat (map (extent rt n) (schedule rt (workers rt n)))"

lemma mset_concat_map_perm:
  assumes "mset xs = mset ys"
  shows "mset (concat (map f xs)) = mset (concat (map f ys))"
proof -
  have flat: "mset (concat (map f zs)) = \<Sum>\<^sub># (image_mset (\<lambda>z. mset (f z)) (mset zs))" for zs
    by (induction zs) simp_all
  show ?thesis by (simp only: flat assms)
qed

lemma mset_scatter_order:
  assumes "fair_runtime rt" shows "mset (scatter_order rt n) = mset [0..<n]"
proof -
  have "mset (schedule rt (workers rt n)) = mset [0..<workers rt n]"
    using assms unfolding fair_runtime_def by blast
  from mset_concat_map_perm [OF this, of "extent rt n"] show ?thesis
    unfolding scatter_order_def extents_partition .
qed

lemma set_scatter_order: "fair_runtime rt \<Longrightarrow> set (scatter_order rt n) = {..<n}"
  using mset_eq_setD [OF mset_scatter_order, of rt n] by (simp add: atLeast0LessThan)

text \<open>The number of goroutines is less than twice the number of processors, or one per item.\<close>

lemma workers_needed:
  assumes "0 < n" shows "(workers rt n - 1) * calculateExtentSize rt n < n"
proof -
  let ?e = "calculateExtentSize rt n"
  have e: "0 < ?e" by (rule calculateExtentSize_pos)
  show ?thesis
  proof (cases "n mod ?e = 0")
    case True
    then have "n div ?e * ?e = n" by auto
    moreover from this assms have "0 < n div ?e" by (metis gr0I mult_is_0)
    ultimately have "(n div ?e - 1) * ?e < n" using e by (metis diff_less mult_less_cancel2 zero_less_one)
    with True show ?thesis by (simp add: workers_def Let_def)
  next
    case False
    then have "n div ?e * ?e < n" by (metis div_mult_mod_eq less_add_same_cancel1 neq0_conv)
    with False show ?thesis by (simp add: workers_def Let_def)
  qed
qed

lemma workers_bound:
  assumes "0 < GOMAXPROCS rt" and "GOMAXPROCS rt \<le> n"
  shows "workers rt n < 2 * GOMAXPROCS rt"
proof -
  let ?p = "GOMAXPROCS rt" and ?q = "n div GOMAXPROCS rt" and ?e = "calculateExtentSize rt n"
  have q: "0 < ?q" using assms by (simp add: div_greater_zero_iff)
  have e: "?q \<le> ?e" using q by (simp add: calculateExtentSize_def Let_def)
  have "n = ?q * ?p + n mod ?p" by (rule div_mult_mod_eq [symmetric])
  then have n: "n < ?q * ?p + ?p" using mod_less_divisor [OF assms(1), of n] by linarith
  have "(workers rt n - 1) * ?q \<le> (workers rt n - 1) * ?e" using e by (rule mult_le_mono2)
  also have "\<dots> < n" using assms by (intro workers_needed) simp
  also have "n \<le> ?q * ?p + (?p - 1)" using n by linarith
  also have "\<dots> \<le> ?q * ?p + ?q * (?p - 1)" using q by simp
  also have "\<dots> = ?q * (?p + (?p - 1))" by (rule distrib_left [symmetric])
  finally have "(workers rt n - 1) * ?q < (?p + (?p - 1)) * ?q" by (simp only: mult.commute)
  then have "workers rt n - 1 < ?p + (?p - 1)" by (rule mult_less_cancel2 [THEN iffD1, THEN conjunct2])
  then show ?thesis using assms(1) by linarith
qed

section \<open>Scattering a loop\<close>

lemma run_workers_loop:
  assumes "\<And>w. work w = go_bind (go_for (f w) body) (\<lambda>_. go_return (r w))"
  shows "run_workers ws work = go_bind (go_for (concat (map f ws)) body) (\<lambda>_. go_return (map r ws))"
proof (induction ws)
  case (Cons w ws)
  then show ?case by (simp add: assms go_for_append go_bind_assoc go_bind_return)
qed (simp add: go_simps)

lemma collect_results_ok: "collect_results (map (\<lambda>w. Inr (r w)) ws) e = (map (\<lambda>w. Some (r w)) ws, e)"
  by (induction ws) simp_all

text \<open>
  When the work on an extent is a loop over it, scattering is the loop over all indices in the
  order of the schedule, and there is one result per extent and no error.
\<close>

lemma Scatter_loop:
  assumes "0 < n"
  shows "Scatter rt (int n) (\<lambda>offset entries. go_bind (go_for [offset..<offset + entries] body) (\<lambda>_. go_return (Inr x))) =
    go_bind (go_for (scatter_order rt n) body) (\<lambda>_. go_return
      (map (\<lambda>w. Some \<lparr>sr_Offset = offset_of rt n w, sr_Extent = x\<rparr>) (schedule rt (workers rt n)), None))"
proof -
  have "run_workers ws (\<lambda>worker. go_bind (go_bind (go_for (extent rt n worker) body) (\<lambda>_. go_return (Inr x))) (\<lambda>r.
        go_return (case r of Inl e \<Rightarrow> Inl (e :: err) | Inr x \<Rightarrow> Inr \<lparr>sr_Offset = offset_of rt n worker, sr_Extent = x\<rparr>)))
      = go_bind (go_for (concat (map (extent rt n) ws)) body)
          (\<lambda>_. go_return (map (\<lambda>w. Inr \<lparr>sr_Offset = offset_of rt n w, sr_Extent = x\<rparr>) ws))" for ws
    by (rule run_workers_loop) (simp add: go_bind_assoc go_bind_return)
  with assms show ?thesis
    by (simp add: Scatter_def extent_def scatter_order_def go_bind_assoc go_bind_return collect_results_ok)
qed

text \<open>An invariant that records which goroutines have run.\<close>

lemma run_workers_triple:
  assumes "\<And>w D. w \<in> set ws \<Longrightarrow> go_triple (I D) (work w) (\<lambda>_. I (insert w D)) E"
  shows "go_triple (I D) (run_workers ws work) (\<lambda>_. I (D \<union> set ws)) E"
  using assms
proof (induction ws arbitrary: D)
  case (Cons w ws)
  have "go_triple (I (insert w D)) (run_workers ws work) (\<lambda>_. I (insert w D \<union> set ws)) E"
    by (rule Cons.IH) (simp add: Cons.prems)
  with Cons.prems [of w D] show ?case by (auto intro!: go_triple_bind go_triple_return)
qed (auto intro!: go_rules)

lemma Scatter_triple:
  assumes fair: "fair_runtime rt" and "0 < n"
    and work: "\<And>w D. w < workers rt n \<Longrightarrow>
      go_triple (I D) (work (offset_of rt n w) (entries_of rt n w)) (\<lambda>_. I (insert w D)) E"
  shows "go_triple (I {}) (Scatter rt (int n) work) (\<lambda>_. I {..<workers rt n}) E"
proof -
  have ws: "set (schedule rt (workers rt n)) = {..<workers rt n}"
    using fair mset_eq_setD [of "schedule rt (workers rt n)" "[0..<workers rt n]"]
    unfolding fair_runtime_def by (metis atLeast0LessThan set_upt)
  have "go_triple (I {}) (run_workers (schedule rt (workers rt n)) (\<lambda>worker.
                   go_bind (work (offset_of rt n worker) (entries_of rt n worker)) (\<lambda>r.
                     go_return (case r of Inl e \<Rightarrow> Inl e
                                  | Inr x \<Rightarrow> Inr \<lparr>sr_Offset = offset_of rt n worker, sr_Extent = x\<rparr>))))
          (\<lambda>_. I ({} \<union> set (schedule rt (workers rt n)))) E"
    by (rule run_workers_triple) (auto simp: ws intro!: go_triple_bind [OF work] go_triple_return)
  with assms(2) ws show ?thesis
    by (auto simp: Scatter_def intro!: go_triple_bind go_triple_return)
qed

lemma extent_bound: "w < workers rt n \<Longrightarrow> j \<in> set (extent rt n w) \<Longrightarrow> j < n"
proof -
  assume "w < workers rt n" "j \<in> set (extent rt n w)"
  then have "j \<in> set (concat (map (extent rt n) [0..<workers rt n]))" by auto
  then show "j < n" by (simp add: extents_partition)
qed

lemma in_some_extent: "j < n \<Longrightarrow> \<exists>w < workers rt n. j \<in> set (extent rt n w)"
proof -
  assume "j < n"
  then have "j \<in> set (concat (map (extent rt n) [0..<workers rt n]))" by (simp add: extents_partition)
  then show ?thesis by auto
qed

text \<open>A scattered loop whose body keeps an invariant.\<close>

lemma scatter_inv:
  assumes fair: "fair_runtime rt" and body: "\<And>i. i < n \<Longrightarrow> go_triple P (body i) (\<lambda>_. P) F"
  shows "go_triple P (Scatter rt (int n) (\<lambda>offset k. go_bind (go_for [offset..<offset + k] body) (\<lambda>_. go_return (Inr ())))) (\<lambda>_. P) F"
proof (cases "n = 0")
  case True
  then show ?thesis by (auto simp: Scatter_def intro: go_triple_return)
next
  case False
  then have n: "0 < n" by simp
  have "go_triple P (go_for (scatter_order rt n) body) (\<lambda>_. P) F"
    by (rule go_triple_for) (use body set_scatter_order [OF fair, of n] in auto)
  then show ?thesis
    unfolding Scatter_loop [OF n] by (rule go_triple_bind) (rule go_triple_return)
qed

section \<open>Ranging over a map\<close>

text \<open>
  A Go map that is ranged over is an association list; the runtime picks the order in which its
  entries are visited.
\<close>

definition map_range :: "go_runtime \<Rightarrow> 'a list \<Rightarrow> 'a list" where
  "map_range rt m = map (\<lambda>i. m ! i) (schedule rt (length m))"

lemma mset_map_range: "fair_runtime rt \<Longrightarrow> mset (map_range rt m) = mset m"
proof -
  assume "fair_runtime rt"
  then have "mset (map_range rt m) = image_mset (\<lambda>i. m ! i) (mset [0..<length m])"
    unfolding fair_runtime_def map_range_def mset_map by metis
  then show ?thesis by (metis mset_map map_nth)
qed

lemma set_map_range: "fair_runtime rt \<Longrightarrow> set (map_range rt m) = set m"
  using mset_map_range by (metis set_mset_mset)

lemma distinct_map_range: "fair_runtime rt \<Longrightarrow> distinct (map fst m) \<Longrightarrow> distinct (map fst (map_range rt m))"
  by (metis mset_map_range mset_map mset_eq_imp_distinct_iff)

lemma map_of_map_range: "fair_runtime rt \<Longrightarrow> distinct (map fst m) \<Longrightarrow> map_of (map_range rt m) = map_of m"
  using map_of_inject_set [OF distinct_map_range, of rt m m] by (simp add: set_map_range)

lemma schedule_0: "fair_runtime rt \<Longrightarrow> schedule rt 0 = []"
proof -
  assume "fair_runtime rt"
  then have "mset (schedule rt 0) = mset [0..<0]" unfolding fair_runtime_def by blast
  then show ?thesis by simp
qed

lemma map_range_single: "fair_runtime rt \<Longrightarrow> map_range rt [x] = [x]"
  using mset_map_range [of rt "[x]"] by simp

end
