(* ===== verification/Locker.thy ===== *)
theory Locker
  imports Prelude
begin

text \<open>
  The per-key mutexes of \<open>services/locker/syncmap\<close>. A mutex is a flag that says whether it is held.
  Locking a held mutex blocks the goroutine, unlocking one that is not held is a fatal error. The
  locale \<open>key_locker\<close> is the interface \<open>services/locker/service.go\<close> promises to its clients.
\<close>

section \<open>Mutexes\<close>

definition mutex_lock :: "('s \<Rightarrow> bool) \<Rightarrow> (bool \<Rightarrow> 's \<Rightarrow> 's) \<Rightarrow> ('s, unit) op" where
  "mutex_lock get put s = (if get s then (Block, s) else (Ret (), put True s))"

definition mutex_unlock :: "('s \<Rightarrow> bool) \<Rightarrow> (bool \<Rightarrow> 's \<Rightarrow> 's) \<Rightarrow> ('s, unit) op" where
  "mutex_unlock get put s =
     (if get s then (Ret (), put False s) else (Panic ''sync: unlock of unlocked mutex'', s))"

section \<open>The service\<close>

text \<open>\<open>locks\<close> maps a key that has a mutex to whether it is held.\<close>

record locker =
  locks :: "bytes \<Rightarrow> bool option"
  newLockMutex :: bool
  mapLock :: bool

definition new_locker :: locker where
  "new_locker = \<lparr>locks = (\<lambda>_. None), newLockMutex = False, mapLock = False\<rparr>"

definition PreLock :: "(locker, unit) op" where
  "PreLock = mutex_lock mapLock (\<lambda>b s. s\<lparr>mapLock := b\<rparr>)"

definition PostLock :: "(locker, unit) op" where
  "PostLock = mutex_unlock mapLock (\<lambda>b s. s\<lparr>mapLock := b\<rparr>)"

text \<open>\<open>Lock\<close>: the mutex of a key is created when the key is seen for the first time.\<close>

definition create_lock :: "bytes \<Rightarrow> (locker, unit) op" where
  "create_lock key =
     go_bind (mutex_lock newLockMutex (\<lambda>b s. s\<lparr>newLockMutex := b\<rparr>)) (\<lambda>_.
       go_bind (go_update (\<lambda>s. if locks s key = None then s\<lparr>locks := (locks s)(key \<mapsto> False)\<rparr> else s)) (\<lambda>_.
         mutex_unlock newLockMutex (\<lambda>b s. s\<lparr>newLockMutex := b\<rparr>)))"

definition Lock :: "bytes \<Rightarrow> (locker, unit) op" where
  "Lock key =
     go_bind (\<lambda>s. (if locks s key = None then create_lock key else go_return ()) s) (\<lambda>_.
       mutex_lock (\<lambda>s. locks s key = Some True) (\<lambda>b s. s\<lparr>locks := (locks s)(key \<mapsto> b)\<rparr>))"

definition Unlock :: "bytes \<Rightarrow> (locker, unit) op" where
  "Unlock key s =
     (if locks s key = None then (Panic ''Attempt to unlock an unknown lock'', s)
      else mutex_unlock (\<lambda>s. locks s key = Some True) (\<lambda>b s. s\<lparr>locks := (locks s)(key \<mapsto> b)\<rparr>) s)"

section \<open>The interface\<close>

text \<open>
  \<open>held\<close> is the set of keys that are locked, \<open>busy\<close> says that some caller is between \<open>PreLock\<close> and
  \<open>PostLock\<close>, and \<open>ok\<close> holds of the states between calls.
\<close>

locale key_locker =
  fixes pre post :: "('s, unit) op" and lock unlock :: "bytes \<Rightarrow> ('s, unit) op"
    and held :: "'s \<Rightarrow> bytes set" and busy ok :: "'s \<Rightarrow> bool"
  assumes pre_free: "ok s \<Longrightarrow> \<not> busy s \<Longrightarrow> \<exists>s'. pre s = (Ret (), s') \<and> ok s' \<and> busy s' \<and> held s' = held s"
    and pre_busy: "ok s \<Longrightarrow> busy s \<Longrightarrow> pre s = (Block, s)"
    and post_busy: "ok s \<Longrightarrow> busy s \<Longrightarrow> \<exists>s'. post s = (Ret (), s') \<and> ok s' \<and> \<not> busy s' \<and> held s' = held s"
    and lock_free: "ok s \<Longrightarrow> k \<notin> held s \<Longrightarrow>
          \<exists>s'. lock k s = (Ret (), s') \<and> ok s' \<and> busy s' = busy s \<and> held s' = insert k (held s)"
    and lock_held: "ok s \<Longrightarrow> k \<in> held s \<Longrightarrow> lock k s = (Block, s)"
    and unlock_held: "ok s \<Longrightarrow> k \<in> held s \<Longrightarrow>
          \<exists>s'. unlock k s = (Ret (), s') \<and> ok s' \<and> busy s' = busy s \<and> held s' = held s - {k}"
begin

lemma lock_list:
  "ok s \<Longrightarrow> distinct ks \<Longrightarrow> set ks \<inter> held s = {} \<Longrightarrow>
     \<exists>s'. go_for ks lock s = (Ret (), s') \<and> ok s' \<and> busy s' = busy s \<and> held s' = held s \<union> set ks"
proof (induction ks arbitrary: s)
  case (Cons k ks)
  then obtain s1 where s1: "lock k s = (Ret (), s1)" "ok s1" "busy s1 = busy s" "held s1 = insert k (held s)"
    using lock_free [of s k] by auto
  moreover from this Cons.prems have "set ks \<inter> held s1 = {}" by auto
  ultimately obtain s' where "go_for ks lock s1 = (Ret (), s')" "ok s'" "busy s' = busy s" "held s' = held s1 \<union> set ks"
    using Cons.prems Cons.IH [of s1] by auto
  with s1 show ?case by (auto simp: go_bind_def)
qed (simp add: go_simps)

lemma unlock_list:
  "ok s \<Longrightarrow> distinct ks \<Longrightarrow> set ks \<subseteq> held s \<Longrightarrow>
     \<exists>s'. go_for ks unlock s = (Ret (), s') \<and> ok s' \<and> busy s' = busy s \<and> held s' = held s - set ks"
proof (induction ks arbitrary: s)
  case (Cons k ks)
  then obtain s1 where s1: "unlock k s = (Ret (), s1)" "ok s1" "busy s1 = busy s" "held s1 = held s - {k}"
    using unlock_held [of s k] by auto
  moreover from this Cons.prems have "set ks \<subseteq> held s1" by auto
  ultimately obtain s' where "go_for ks unlock s1 = (Ret (), s')" "ok s'" "busy s' = busy s" "held s' = held s1 - set ks"
    using Cons.prems Cons.IH [of s1] by auto
  with s1 show ?case by (auto simp: go_bind_def)
qed (simp add: go_simps)

text \<open>A group of distinct keys that nobody holds is locked without blocking.\<close>

lemma lock_group:
  assumes "ok s" "\<not> busy s" "distinct ks" "set ks \<inter> held s = {}"
  shows "\<exists>s'. go_bind pre (\<lambda>_. go_bind (go_for ks lock) (\<lambda>_. post)) s = (Ret (), s') \<and>
           ok s' \<and> \<not> busy s' \<and> held s' = held s \<union> set ks"
proof -
  obtain s1 where s1: "pre s = (Ret (), s1)" "ok s1" "busy s1" "held s1 = held s"
    using pre_free assms(1,2) by blast
  with lock_list [of s1 ks] assms obtain s2 where s2: "go_for ks lock s1 = (Ret (), s2)" "ok s2" "busy s2"
    "held s2 = held s \<union> set ks" by auto
  with post_busy [of s2] s1 show ?thesis by (auto simp: go_bind_def)
qed

text \<open>A group with a repeated key, or with a key that is held, blocks for ever.\<close>

lemma lock_list_blocks:
  "ok s \<Longrightarrow> \<not> distinct ks \<or> set ks \<inter> held s \<noteq> {} \<Longrightarrow> \<exists>s'. go_for ks lock s = (Block, s')"
proof (induction ks arbitrary: s)
  case (Cons k ks)
  show ?case
  proof (cases "k \<in> held s")
    case False
    then obtain s1 where "lock k s = (Ret (), s1)" "ok s1" "held s1 = insert k (held s)"
      using lock_free Cons.prems by blast
    with Cons.prems Cons.IH [of s1] False show ?thesis by (auto simp: go_bind_def)
  qed (use Cons.prems lock_held in \<open>auto simp: go_bind_def\<close>)
qed simp

end

definition held_keys :: "locker \<Rightarrow> bytes set" where
  "held_keys s = {k. locks s k = Some True}"

interpretation syncmap: key_locker PreLock PostLock Lock Unlock held_keys mapLock "\<lambda>s. \<not> newLockMutex s"
  by unfold_locales
    (auto simp: PreLock_def PostLock_def Lock_def Unlock_def create_lock_def mutex_lock_def
       mutex_unlock_def held_keys_def go_bind_def go_simps)

end
