(* ===== verification/Ruler.thy ===== *)
theory Ruler
  imports Rules Scatter Locker
begin

text \<open>
  The ruler (\<open>services/ruler\<close>, implementation \<open>services/ruler/golang\<close>): it validates a batch of
  requests, locks their public keys, runs the rule of the requested action on each, and frees the
  locks. Its state is the database of the rules and the locker.
\<close>

section \<open>Requests\<close>

record credentials =
  cr_RequestID :: string
  cr_Client :: string
  cr_IP :: string

definition ActionSign :: string where "ActionSign = ''Sign''"
definition ActionSignBeaconAttestation :: string where "ActionSignBeaconAttestation = ''Sign beacon attestation''"
definition ActionSignBeaconProposal :: string where "ActionSignBeaconProposal = ''Sign beacon proposal''"
definition ActionAccessAccount :: string where "ActionAccessAccount = ''Access account''"
definition ActionCreateAccount :: string where "ActionCreateAccount = ''Create account''"
definition ActionLockWallet :: string where "ActionLockWallet = ''Lock wallet''"
definition ActionUnlockWallet :: string where "ActionUnlockWallet = ''Unlock wallet''"
definition ActionLockAccount :: string where "ActionLockAccount = ''Lock account''"
definition ActionUnlockAccount :: string where "ActionUnlockAccount = ''Unlock account''"

lemmas action_defs = ActionSign_def ActionSignBeaconAttestation_def ActionSignBeaconProposal_def
  ActionAccessAccount_def ActionCreateAccount_def ActionLockWallet_def ActionUnlockWallet_def
  ActionLockAccount_def ActionUnlockAccount_def

text \<open>
  The field \<open>Data any\<close> of a request: the dynamic types the ruler knows, whose pointers may be nil,
  and any other type. A nil interface is \<open>None\<close>.
\<close>

datatype any_data =
    AnySignData "sign_data option"
  | AnySignBeaconAttestationData "att_data option"
  | AnySignBeaconProposalData "prop_data option"
  | AnyAccessAccountData "string list"
  | AnyLockWalletData
  | AnyUnlockWalletData
  | AnyLockAccountData
  | AnyUnlockAccountData
  | AnyCreateAccountData
  | AnyOther

record rules_data =
  rd_WalletName :: string
  rd_AccountName :: string
  rd_PubKey :: bytes
  rd_Data :: "any_data option"

record 'db ruler_state =
  ruler_db :: 'db
  ruler_locker :: locker

section \<open>Running the rules\<close>

definition assembleMetadata ::
  "credentials option \<Rightarrow> string \<Rightarrow> bytes \<Rightarrow> err + req_metadata" where
  "assembleMetadata creds accountName pubKey =
     (case creds of
        None \<Rightarrow> Inl ''no credentials''
      | Some c \<Rightarrow>
          if cr_Client c = [] then Inl ''no client in credentials''
          else Inr \<lparr>md_Account = accountName, md_PubKey = pubKey, md_IP = cr_IP c, md_Client = cr_Client c\<rparr>)"

text \<open>The switch over the action: the rule that is called for one entry.\<close>

definition dispatch_rule ::
  "'db rules_service \<Rightarrow> string \<Rightarrow> req_metadata \<Rightarrow> any_data option \<Rightarrow> ('db, rules_result) op" where
  "dispatch_rule S action md data =
     (if action = ActionSign then
        (case data of Some (AnySignData r) \<Rightarrow> OnSign S (Some md) r | _ \<Rightarrow> go_return FAILED)
      else if action = ActionSignBeaconProposal then
        (case data of Some (AnySignBeaconProposalData r) \<Rightarrow> OnSignBeaconProposal S (Some md) r
                    | _ \<Rightarrow> go_return FAILED)
      else if action = ActionSignBeaconAttestation then
        (case data of Some (AnySignBeaconAttestationData r) \<Rightarrow> OnSignBeaconAttestation S (Some md) r
                    | _ \<Rightarrow> go_return FAILED)
      else if action = ActionAccessAccount then
        (case data of Some (AnyAccessAccountData _) \<Rightarrow> OnListAccounts S | _ \<Rightarrow> go_return FAILED)
      else if action = ActionLockWallet then
        (case data of Some AnyLockWalletData \<Rightarrow> OnLockWallet S | _ \<Rightarrow> go_return FAILED)
      else if action = ActionUnlockWallet then
        (case data of Some AnyUnlockWalletData \<Rightarrow> OnUnlockWallet S | _ \<Rightarrow> go_return FAILED)
      else if action = ActionLockAccount then
        (case data of Some AnyLockAccountData \<Rightarrow> OnLockAccount S | _ \<Rightarrow> go_return FAILED)
      else if action = ActionUnlockAccount then
        (case data of Some AnyUnlockAccountData \<Rightarrow> OnUnlockAccount S | _ \<Rightarrow> go_return FAILED)
      else if action = ActionCreateAccount then
        (case data of Some AnyCreateAccountData \<Rightarrow> OnCreateAccount S | _ \<Rightarrow> go_return FAILED)
      else go_return FAILED)"

text \<open>The loop body for entry \<open>i\<close>, which fills \<open>results[i]\<close>.\<close>

definition run_entry ::
  "'db rules_service \<Rightarrow> credentials option \<Rightarrow> string \<Rightarrow> rules_data option list \<Rightarrow> nat \<Rightarrow>
     ('db \<times> rules_result list, unit) op" where
  "run_entry S creds action rulesData i =
     (case rulesData ! i of
        None \<Rightarrow> go_return ()
      | Some rd \<Rightarrow>
          (case assembleMetadata creds (rd_AccountName rd) (rd_PubKey rd) of
             Inl e \<Rightarrow> go_update (\<lambda>(db, results). (db, results[i := FAILED]))
           | Inr md \<Rightarrow>
               go_bind (go_on_fst (dispatch_rule S action md (rd_Data rd))) (\<lambda>res.
                 go_update (\<lambda>(db, results).
                   (db, results[i := (if res = UNKNOWN then FAILED else res)])))))"

text \<open>
  Preparation of a batch of attestations: one goroutine fills its extent of the metadata and the
  request data, and stops at the first entry that is not fit (a \<open>break\<close>).
\<close>

type_synonym prep_arrays = "rules_result list \<times> req_metadata option list \<times> att_data option list"

fun prep_entries ::
  "credentials option \<Rightarrow> rules_data option list \<Rightarrow> nat list \<Rightarrow> ('db \<times> prep_arrays, unit) op" where
  "prep_entries creds rulesData [] = go_return ()"
| "prep_entries creds rulesData (i # is) =
     (case rulesData ! i of
        None \<Rightarrow> go_panic nil_deref
      | Some rd \<Rightarrow>
          if rd_AccountName rd = [] then
            go_update (\<lambda>(db, results, metadatas, reqData). (db, results[i := FAILED], metadatas, reqData))
          else
            (case assembleMetadata creds (rd_AccountName rd) (rd_PubKey rd) of
               Inl e \<Rightarrow> go_update (\<lambda>(db, results, metadatas, reqData).
                          (db, results[i := FAILED], metadatas[i := None], reqData))
             | Inr md \<Rightarrow>
                 (case rd_Data rd of
                    Some (AnySignBeaconAttestationData data) \<Rightarrow>
                      go_bind (go_update (\<lambda>(db, results, metadatas, reqData).
                                 (db, results, metadatas[i := Some md], reqData[i := data])))
                        (\<lambda>_. prep_entries creds rulesData is)
                  | _ \<Rightarrow> go_update (\<lambda>(db, results, metadatas, reqData).
                            (db, results[i := FAILED], metadatas[i := Some md], reqData)))))"

definition runRulesForMultipleBeaconAttestations ::
  "'db rules_service \<Rightarrow> go_runtime \<Rightarrow> credentials option \<Rightarrow> rules_data option list \<Rightarrow>
     ('db, rules_result list) op" where
  "runRulesForMultipleBeaconAttestations S rt creds rulesData =
     (let n = length rulesData in
      go_bind (go_local (replicate n UNKNOWN, replicate n None, replicate n None)
                 (Scatter rt (int n) (\<lambda>offset entries.
                    go_bind (prep_entries creds rulesData [offset..<offset + entries])
                      (\<lambda>_. go_return (Inr ())))))
        (\<lambda>(_, results, metadatas, reqData).
           if list_ex (\<lambda>r. r = FAILED) results then go_return results
           else OnSignBeaconAttestations S metadatas reqData))"

definition runRules ::
  "'db rules_service \<Rightarrow> go_runtime \<Rightarrow> credentials option \<Rightarrow> string \<Rightarrow> rules_data option list \<Rightarrow>
     ('db, rules_result list) op" where
  "runRules S rt creds action rulesData =
     (if 1 < length rulesData \<and> action = ActionSignBeaconAttestation
      then runRulesForMultipleBeaconAttestations S rt creds rulesData
      else
        let n = length rulesData in
        go_bind (go_local (replicate n UNKNOWN)
                   (Scatter rt (int n) (\<lambda>offset entries.
                      go_bind (go_for [offset..<offset + entries] (run_entry S creds action rulesData))
                        (\<lambda>_. go_return (Inr ())))))
          (\<lambda>(_, results). go_return results))"

section \<open>The entry point\<close>

text \<open>The first entry without a public key, or with the (48-byte) key of an earlier entry.\<close>

fun check_pubkeys :: "bytes list \<Rightarrow> bytes list \<Rightarrow> nat option" where
  "check_pubkeys seen [] = None"
| "check_pubkeys seen (pk # pks) =
     (if length pk = 0 then Some 0
      else if copyN 48 pk \<in> set seen then Some 0
      else map_option Suc (check_pubkeys (copyN 48 pk # seen) pks))"

definition locking_action :: "string \<Rightarrow> bool" where
  "locking_action action \<longleftrightarrow>
     action = ActionSign \<or> action = ActionSignBeaconProposal \<or> action = ActionSignBeaconAttestation"

definition on_locker :: "(locker, 'a) op \<Rightarrow> ('db ruler_state, 'a) op" where
  "on_locker = go_zoom ruler_locker (\<lambda>l s. s\<lparr>ruler_locker := l\<rparr>)"

definition on_db :: "('db, 'a) op \<Rightarrow> ('db ruler_state, 'a) op" where
  "on_db = go_zoom ruler_db (\<lambda>d s. s\<lparr>ruler_db := d\<rparr>)"

definition lock_keys :: "bytes list \<Rightarrow> (locker, unit) op" where
  "lock_keys keys = go_bind PreLock (\<lambda>_. go_bind (go_for keys Lock) (\<lambda>_. PostLock))"

text \<open>Deferred calls run last in, first out.\<close>

definition unlock_keys :: "bytes list \<Rightarrow> (locker, unit) op" where
  "unlock_keys keys = go_for (rev keys) Unlock"

definition RunRules ::
  "'db rules_service \<Rightarrow> go_runtime \<Rightarrow> credentials option \<Rightarrow> string \<Rightarrow> rules_data option list \<Rightarrow>
     ('db ruler_state, rules_result list) op" where
  "RunRules S rt creds action rulesData =
     (let results = replicate (length rulesData) UNKNOWN in
      if length rulesData = 0 then go_return [FAILED]
      else case first_index (\<lambda>rd. rd = None \<or> rd_Data (the rd) = None) rulesData of
             Some i \<Rightarrow> go_return (results[i := FAILED])
           | None \<Rightarrow>
               if locking_action action then
                 let pubKeys = map (\<lambda>rd. rd_PubKey (the rd)) rulesData in
                 (case check_pubkeys [] pubKeys of
                    Some i \<Rightarrow> go_return (results[i := FAILED])
                  | None \<Rightarrow>
                      let keys = map (copyN 48) pubKeys in
                      go_bind (on_locker (lock_keys keys)) (\<lambda>_.
                        go_bind (on_db (runRules S rt creds action rulesData)) (\<lambda>results.
                          go_bind (on_locker (unlock_keys keys)) (\<lambda>_.
                            go_return results))))
               else on_db (runRules S rt creds action rulesData))"

end
