(* ===== verification/Protection.thy ===== *)
theory Protection
  imports Rules
begin

text \<open>
  What the slashing-protection state promises. A log records, oldest first, the public key and the
  message of every approved signature. The locale \<open>watermark\<close> is the contract that attestations
  and proposals share: the stored state covers every logged message of its key, a message is
  accepted only when it lies beyond the state, and the state is raised before the approval is
  given. It is interpreted on the two kinds of state of \<open>rules/standard\<close>, and the rules of the
  service are shown to keep the contract over the store.
\<close>

section \<open>High-water marks\<close>

type_synonym kv = "bytes \<Rightarrow> bytes option"

definition protected ::
  "(bytes \<Rightarrow> err + 'st) \<Rightarrow> bytes \<Rightarrow> ('st \<Rightarrow> 'r \<Rightarrow> bool) \<Rightarrow> kv \<Rightarrow> (bytes \<times> 'r) list \<Rightarrow> bool" where
  "protected decode tag covers c log \<longleftrightarrow>
     (\<forall>(pk, r) \<in> set log. \<exists>d st. c (pk @ tag) = Some d \<and> decode d = Inr st \<and> covers st r)"

definition ordered_log :: "('r \<Rightarrow> 'r \<Rightarrow> bool) \<Rightarrow> (bytes \<times> 'r) list \<Rightarrow> bool" where
  "ordered_log follows log \<longleftrightarrow> sorted_wrt (\<lambda>(pk, r) (pk', r'). pk = pk' \<longrightarrow> follows r r') log"

definition fetched :: "(bytes \<Rightarrow> err + 'st) \<Rightarrow> 'st \<Rightarrow> bytes \<Rightarrow> kv \<Rightarrow> bytes \<Rightarrow> 'st \<Rightarrow> bool" where
  "fetched decode init tag c pk st \<longleftrightarrow>
     (case c (pk @ tag) of None \<Rightarrow> st = init | Some d \<Rightarrow> decode d = Inr st)"

lemma ordered_log_distinct: "distinct (map fst log) \<Longrightarrow> ordered_log follows log"
  by (induction log) (force simp: ordered_log_def)+

locale watermark =
  fixes decode :: "bytes \<Rightarrow> err + 'st" and encode :: "'st \<Rightarrow> bytes" and init :: 'st and tag :: bytes
    and covers :: "'st \<Rightarrow> 'r \<Rightarrow> bool" and follows :: "'r \<Rightarrow> 'r \<Rightarrow> bool"
    and accepts :: "'st \<Rightarrow> 'r \<Rightarrow> bool" and bump :: "'r \<Rightarrow> 'st"
  assumes decode_encode: "decode (encode st) = Inr st"
    and accept_follows: "accepts st r' \<Longrightarrow> covers st r \<Longrightarrow> follows r r'"
    and bump_covers: "accepts st r \<Longrightarrow> covers (bump r) r"
    and bump_mono: "accepts st r' \<Longrightarrow> covers st r \<Longrightarrow> covers (bump r') r"
begin

definition safe :: "kv \<Rightarrow> (bytes \<times> 'r) list \<Rightarrow> bool" where
  "safe c log \<longleftrightarrow> protected decode tag covers c log \<and> ordered_log follows log"

text \<open>The value at a key is kept, rewritten, or raised by an accepted message.\<close>

definition raised :: "kv \<Rightarrow> kv \<Rightarrow> bytes \<Rightarrow> bool" where
  "raised c c' pk \<longleftrightarrow> c' (pk @ tag) = c (pk @ tag) \<or>
     (\<exists>st st'. fetched decode init tag c pk st \<and> c' (pk @ tag) = Some (encode st') \<and>
        (st' = st \<or> (\<exists>r'. accepts st r' \<and> st' = bump r')))"

lemma raised_same: "c' (pk @ tag) = c (pk @ tag) \<Longrightarrow> raised c c' pk"
  by (simp add: raised_def)

lemma raised_rewrite:
  "fetched decode init tag c pk st \<Longrightarrow> c' (pk @ tag) = Some (encode st) \<Longrightarrow> raised c c' pk"
  unfolding raised_def by blast

lemma raised_accept:
  "fetched decode init tag c pk st \<Longrightarrow> accepts st r \<Longrightarrow> c' (pk @ tag) = Some (encode (bump r)) \<Longrightarrow>
     raised c c' pk"
  unfolding raised_def by blast

lemma raised_write:
  assumes "fetched decode init tag c pk st" and "accepts st r" and "c' = c(pk @ tag \<mapsto> encode (bump r))"
  shows "raised c c' pk'"
  using raised_accept [OF assms(1,2)] assms(3) by (cases "pk' = pk") (auto intro: raised_same)

lemma safe_Nil: "safe c []"
  by (simp add: safe_def protected_def ordered_log_def)

lemma protected_raised:
  assumes prot: "protected decode tag covers c log" and up: "\<And>pk. raised c c' pk"
  shows "protected decode tag covers c' log"
  unfolding protected_def
proof clarify
  fix pk r assume "(pk, r) \<in> set log"
  with prot obtain d st where d: "c (pk @ tag) = Some d" "decode d = Inr st" "covers st r"
    by (fastforce simp: protected_def)
  from up [of pk] show "\<exists>d st. c' (pk @ tag) = Some d \<and> decode d = Inr st \<and> covers st r"
    unfolding raised_def
  proof
    assume "\<exists>st st'. fetched decode init tag c pk st \<and> c' (pk @ tag) = Some (encode st') \<and>
        (st' = st \<or> (\<exists>r'. accepts st r' \<and> st' = bump r'))"
    with d obtain st' where "c' (pk @ tag) = Some (encode st')"
      and "st' = st \<or> (\<exists>r'. accepts st r' \<and> st' = bump r')"
      by (auto simp: fetched_def)
    with d(3) bump_mono show ?thesis by (auto simp: decode_encode)
  qed (use d in auto)
qed

lemma safe_raised: "safe c log \<Longrightarrow> (\<And>pk. raised c c' pk) \<Longrightarrow> safe c' log"
  unfolding safe_def using protected_raised by blast

lemma safe_frame: "safe c log \<Longrightarrow> (\<And>pk. c' (pk @ tag) = c (pk @ tag)) \<Longrightarrow> safe c' log"
  by (rule safe_raised) (auto simp: raised_def)

text \<open>A state may be replaced by one that covers all that it covered.\<close>

lemma safe_mono:
  assumes safe: "safe c log"
    and up: "\<And>pk. c' (pk @ tag) = c (pk @ tag) \<or> (\<exists>st'. c' (pk @ tag) = Some (encode st') \<and>
      (\<forall>d st r. c (pk @ tag) = Some d \<longrightarrow> decode d = Inr st \<longrightarrow> covers st r \<longrightarrow> covers st' r))"
  shows "safe c' log"
proof -
  have "protected decode tag covers c' log"
    unfolding protected_def
  proof clarify
    fix pk r assume "(pk, r) \<in> set log"
    with safe obtain d st where d: "c (pk @ tag) = Some d" "decode d = Inr st" "covers st r"
      by (fastforce simp: safe_def protected_def)
    with up [of pk] show "\<exists>d st. c' (pk @ tag) = Some d \<and> decode d = Inr st \<and> covers st r"
      by (auto simp: decode_encode)
  qed
  with safe show ?thesis by (simp add: safe_def)
qed

text \<open>Approved messages of distinct keys, each beyond the state it was checked against.\<close>

lemma safe_append:
  assumes "safe c log" and up: "\<And>pk. raised c c' pk" and dist: "distinct (map fst news)"
    and new: "\<And>pk r. (pk, r) \<in> set news \<Longrightarrow>
       \<exists>st. fetched decode init tag c pk st \<and> accepts st r \<and> c' (pk @ tag) = Some (encode (bump r))"
  shows "safe c' (log @ news)"
proof -
  have log: "protected decode tag covers c log" "ordered_log follows log"
    using assms(1) by (simp_all add: safe_def)
  have follows: "follows r r'" if "(pk, r) \<in> set log" "(pk, r') \<in> set news" for pk r r'
  proof -
    from log(1) that(1) obtain d st where st: "c (pk @ tag) = Some d" "decode d = Inr st" "covers st r"
      by (fastforce simp: protected_def)
    with new [OF that(2)] show ?thesis
      by (auto simp: fetched_def intro: accept_follows)
  qed
  have "protected decode tag covers c' news"
    using new by (fastforce simp: protected_def decode_encode intro: bump_covers)
  moreover have "ordered_log follows news"
    using dist by (rule ordered_log_distinct)
  moreover have "ordered_log follows (log @ news)"
    using log(2) calculation(2) follows by (auto simp: ordered_log_def sorted_wrt_append)
  ultimately show ?thesis
    using protected_raised [OF log(1) up] by (auto simp: safe_def protected_def)
qed

text \<open>Messages of distinct keys that were approved in one call may be logged in any order.\<close>

lemma safe_permute:
  assumes "safe c (log @ xs)" and "mset xs = mset ys" and "distinct (map fst xs)"
  shows "safe c (log @ ys)"
proof -
  have s: "set xs = set ys" using assms(2) by (rule mset_eq_setD)
  have "mset (map fst xs) = mset (map fst ys)" using assms(2) by simp
  then have dist: "distinct (map fst ys)" using assms(3) mset_eq_imp_distinct_iff by blast
  have "ordered_log follows ys"
    using dist by (rule ordered_log_distinct)
  with assms(1) s show ?thesis
    by (auto simp: safe_def protected_def ordered_log_def sorted_wrt_append)
qed

end

section \<open>Attestation and proposal state as high-water marks\<close>

text \<open>A logged attestation is its source and target epoch, a logged proposal its slot.\<close>

definition att_decode :: "rules_lib \<Rightarrow> bytes \<Rightarrow> err + att_state" where
  "att_decode L d = Decode_att L d \<lparr>SourceEpoch = 0, TargetEpoch = 0\<rparr>"

definition att_init :: att_state where "att_init = \<lparr>SourceEpoch = -1, TargetEpoch = -1\<rparr>"

fun att_covers :: "att_state \<Rightarrow> int \<times> int \<Rightarrow> bool" where
  "att_covers st (s, t) \<longleftrightarrow> s \<le> sint (SourceEpoch st) \<and> t \<le> sint (TargetEpoch st)"

fun att_follows :: "int \<times> int \<Rightarrow> int \<times> int \<Rightarrow> bool" where
  "att_follows (s, t) (s', t') \<longleftrightarrow> s \<le> s' \<and> t < t'"

fun att_accepts :: "att_state \<Rightarrow> int \<times> int \<Rightarrow> bool" where
  "att_accepts st (s, t) \<longleftrightarrow> 0 \<le> s \<and> s < 2 ^ 63 \<and> 0 \<le> t \<and> t < 2 ^ 63 \<and>
     sint (SourceEpoch st) \<le> s \<and> sint (TargetEpoch st) < t"

fun att_bump :: "int \<times> int \<Rightarrow> att_state" where
  "att_bump (s, t) = \<lparr>SourceEpoch = word_of_int s, TargetEpoch = word_of_int t\<rparr>"

definition prop_decode :: "rules_lib \<Rightarrow> bytes \<Rightarrow> err + prop_state" where
  "prop_decode L d = Decode_prop L d \<lparr>PropSlot = 0\<rparr>"

definition prop_init :: prop_state where "prop_init = \<lparr>PropSlot = -1\<rparr>"

definition prop_covers :: "prop_state \<Rightarrow> int \<Rightarrow> bool" where
  "prop_covers st n \<longleftrightarrow> n \<le> sint (PropSlot st)"

definition prop_accepts :: "prop_state \<Rightarrow> int \<Rightarrow> bool" where
  "prop_accepts st n \<longleftrightarrow> 0 \<le> n \<and> n < 2 ^ 63 \<and> sint (PropSlot st) < n"

definition prop_bump :: "int \<Rightarrow> prop_state" where
  "prop_bump n = \<lparr>PropSlot = word_of_int n\<rparr>"

lemma sint64_of_int: "0 \<le> n \<Longrightarrow> n < 2 ^ 63 \<Longrightarrow> sint (word_of_int n :: i64) = n"
  by (simp add: sint_sbintrunc' signed_take_bit_int_eq_self)

lemma sint64_uint: "uint (x :: u64) < 2 ^ 63 \<Longrightarrow> sint x = uint x"
  using sint64_of_int [of "uint x"] by simp

lemma Decode_Encode_att [simp]: "Decode_att L (Encode_att (Some st)) s = Inr st"
  by (cases st; cases s) (simp add: Decode_att_def Encode_att_def)

lemma Decode_Encode_prop [simp]: "Decode_prop L (Encode_prop (Some st)) s = Inr st"
  by (cases st; cases s) (simp add: Decode_prop_def Encode_prop_def)

interpretation att: watermark "att_decode L" "\<lambda>st. Encode_att (Some st)" att_init
  actionSignBeaconAttestation att_covers att_follows att_accepts att_bump for L
proof unfold_locales
  show "att_decode L (Encode_att (Some st)) = Inr st" for st
    by (simp add: att_decode_def)
  show "att_follows r r'" if "att_accepts st r'" "att_covers st r" for st r' r
    using that by (cases r; cases r') auto
  show "att_covers (att_bump r) r" if "att_accepts st r" for st r
    using that by (cases r) (auto simp: sint64_of_int)
  show "att_covers (att_bump r') r" if "att_accepts st r'" "att_covers st r" for st r' r
    using that by (cases r; cases r') (auto simp: sint64_of_int)
qed

interpretation pro: watermark "prop_decode L" "\<lambda>st. Encode_prop (Some st)" prop_init
  actionSignBeaconProposal prop_covers "(<)" prop_accepts prop_bump for L
  by unfold_locales
    (auto simp: prop_decode_def prop_covers_def prop_accepts_def prop_bump_def sint64_of_int)

declare att_covers.simps [simp del] att_follows.simps [simp del] att_accepts.simps [simp del] att_bump.simps [simp del]

lemma action_keys_disjoint [simp]:
  "pk @ actionSignBeaconAttestation \<noteq> pk' @ actionSignBeaconProposal"
  "pk @ actionSignBeaconProposal \<noteq> pk' @ actionSignBeaconAttestation"
  by (simp_all add: actionSignBeaconAttestation_def actionSignBeaconProposal_def)

lemma length_Encode [simp]: "length (Encode_att s) = 17" "length (Encode_prop p) = 9"
  by (auto simp: Encode_att_def Encode_prop_def split: option.splits)

end
