(* ===== verification/Rules_Safety.thy ===== *)
theory Rules_Safety
  imports Protection
begin

text \<open>
  The rules of the service over a store that keeps the laws of \<open>kv_store\<close>: what each rule does to
  the database, and that each rule keeps the protection of everything approved so far.
\<close>

section \<open>Requests and what they add to the log\<close>

definition att_epochs :: "att_data \<Rightarrow> (int \<times> int) option" where
  "att_epochs r = (case (ad_Source r, ad_Target r) of
     (Some src, Some tgt) \<Rightarrow> Some (uint (cp_Epoch src), uint (cp_Epoch tgt)) | _ \<Rightarrow> None)"

text \<open>Epochs and slots that an \<open>int64\<close> holds.\<close>

definition att_in_range :: "att_data option \<Rightarrow> bool" where
  "att_in_range req = (case req of None \<Rightarrow> True
     | Some r \<Rightarrow> (case att_epochs r of None \<Rightarrow> True | Some (s, t) \<Rightarrow> s < 2 ^ 63 \<and> t < 2 ^ 63))"

definition prop_in_range :: "prop_data option \<Rightarrow> bool" where
  "prop_in_range req = (case req of None \<Rightarrow> True | Some r \<Rightarrow> uint (pd_Slot r) < 2 ^ 63)"

definition att_entry :: "req_metadata option \<Rightarrow> att_data option \<Rightarrow> (bytes \<times> int \<times> int) list" where
  "att_entry md req = (case (md, req) of
     (Some m, Some r) \<Rightarrow> (case att_epochs r of Some e \<Rightarrow> [(md_PubKey m, e)] | None \<Rightarrow> []) | _ \<Rightarrow> [])"

definition prop_entry :: "req_metadata option \<Rightarrow> prop_data option \<Rightarrow> (bytes \<times> int) list" where
  "prop_entry md req = (case (md, req) of
     (Some m, Some r) \<Rightarrow> [(md_PubKey m, uint (pd_Slot r))] | _ \<Rightarrow> [])"

fun att_news ::
  "req_metadata option list \<Rightarrow> att_data option list \<Rightarrow> rules_result list \<Rightarrow> (bytes \<times> int \<times> int) list" where
  "att_news (md # mds) (req # reqs) (res # rs) =
     (if res = APPROVED then att_entry md req else []) @ att_news mds reqs rs"
| "att_news mds reqs rs = []"

lemma first_index_None: "first_index P xs = None \<longleftrightarrow> (\<forall>x \<in> set xs. \<not> P x)"
  by (induction xs) auto

lemma att_entry_key: "(pk, e) \<in> set (att_entry md req) \<Longrightarrow>
    \<exists>m r. md = Some m \<and> req = Some r \<and> pk = md_PubKey m \<and> att_epochs r = Some e"
  by (auto simp: att_entry_def split: option.splits)

lemma att_news_key:
  "(pk, e) \<in> set (att_news mds reqs rs) \<Longrightarrow>
     \<exists>i m r. i < length mds \<and> i < length reqs \<and> i < length rs \<and> mds ! i = Some m \<and> reqs ! i = Some r \<and>
       rs ! i = APPROVED \<and> pk = md_PubKey m \<and> att_epochs r = Some e"
proof (induction mds reqs rs rule: att_news.induct)
  case (1 md mds req reqs res rs)
  show ?case
  proof (cases "(pk, e) \<in> set (att_news mds reqs rs)")
    case True
    with 1 obtain i m r where "i < length mds" "i < length reqs" "i < length rs" "mds ! i = Some m"
      "reqs ! i = Some r" "rs ! i = APPROVED" "pk = md_PubKey m" "att_epochs r = Some e"
      by blast
    then show ?thesis by (intro exI [of _ "Suc i"]) simp
  next
    case False
    with "1.prems" show ?thesis
      by (intro exI [of _ 0]) (auto split: if_splits dest: att_entry_key)
  qed
qed simp_all

lemma att_news_distinct:
  "\<forall>md \<in> set mds. md \<noteq> None \<Longrightarrow> distinct (map (\<lambda>md. md_PubKey (the md)) mds) \<Longrightarrow>
     distinct (map fst (att_news mds reqs rs))"
proof (induction mds reqs rs rule: att_news.induct)
  case (1 md mds req reqs res rs)
  have "pk \<in> (\<lambda>md. md_PubKey (the md)) ` set mds" if "(pk, e) \<in> set (att_news mds reqs rs)" for pk e
    using att_news_key [OF that] by (metis (mono_tags, lifting) imageI nth_mem option.sel)
  moreover have "distinct (map fst (att_entry md req))"
    by (auto simp: att_entry_def split: option.splits)
  ultimately show ?case
    using 1 by (force dest: att_entry_key)
qed simp_all

lemma att_news_none: "APPROVED \<notin> set rs \<Longrightarrow> att_news mds reqs rs = []"
  by (induction mds reqs rs rule: att_news.induct) auto

section \<open>The checks\<close>

lemma nonneg64_sint: "nonneg64 x \<Longrightarrow> sint x = uint x"
  unfolding nonneg64_def uint_sint [of x] using sint64_bounds(2) [of x]
  by (subst take_bit_int_eq_self) simp_all

text \<open>The guards of the code, read as comparisons of the signed stored value with the request.\<close>

lemma above_mark: "\<not> (nonneg64 m \<and> x \<le> m) \<Longrightarrow> sint m < uint x"
proof (cases "nonneg64 m")
  case False
  then have "sint m < 0" by (simp add: nonneg64_def)
  then show ?thesis using uint_ge_0 [of x] by linarith
qed (simp add: nonneg64_sint word_le_def)

lemma at_mark: "\<not> (nonneg64 m \<and> x < m) \<Longrightarrow> sint m \<le> uint x"
proof (cases "nonneg64 m")
  case False
  then have "sint m < 0" by (simp add: nonneg64_def)
  then show ?thesis using uint_ge_0 [of x] by linarith
qed (simp add: nonneg64_sint word_less_def)

lemma checks_approved:
  assumes "runSignBeaconAttestationChecks L md (Some r) st = Ret (APPROVED, st')"
    and "att_in_range (Some r)"
  shows "\<exists>e. att_epochs r = Some e \<and> att_accepts st e \<and> st' = att_bump e"
proof -
  from assms(1) obtain src tgt where src: "ad_Source r = Some src" and tgt: "ad_Target r = Some tgt"
    and t: "\<not> (nonneg64 (TargetEpoch st) \<and> cp_Epoch tgt \<le> TargetEpoch st)"
    and s: "\<not> (nonneg64 (SourceEpoch st) \<and> cp_Epoch src < SourceEpoch st)"
    and st': "st' = st\<lparr>SourceEpoch := cp_Epoch src, TargetEpoch := cp_Epoch tgt\<rparr>"
    by (auto simp: runSignBeaconAttestationChecks_def Let_def split: option.splits if_splits)
  have rng: "uint (cp_Epoch src) < 2 ^ 63" "uint (cp_Epoch tgt) < 2 ^ 63"
    using assms(2) src tgt by (auto simp: att_in_range_def att_epochs_def)
  have "sint (TargetEpoch st) < uint (cp_Epoch tgt)"
    using t by (rule above_mark)
  moreover have "sint (SourceEpoch st) \<le> uint (cp_Epoch src)"
    using s by (rule at_mark)
  ultimately have "att_accepts st (uint (cp_Epoch src), uint (cp_Epoch tgt))"
    using rng by (simp add: att_accepts.simps)
  then show ?thesis
    using src tgt st' by (cases st) (auto simp: att_epochs_def att_bump.simps)
qed

lemma checks_not_approved:
  "runSignBeaconAttestationChecks L md req st = Ret (res, st') \<Longrightarrow> res \<noteq> APPROVED \<Longrightarrow> st' = st"
  by (auto simp: runSignBeaconAttestationChecks_def Let_def split: option.splits if_splits)

lemma checks_result:
  "runSignBeaconAttestationChecks L md req st = Ret (res, st') \<Longrightarrow> res = APPROVED \<or> res = DENIED"
  by (auto simp: runSignBeaconAttestationChecks_def Let_def split: option.splits if_splits)

lemma checks_req: "runSignBeaconAttestationChecks L md req st = Ret x \<Longrightarrow> \<exists>m r. md = Some m \<and> req = Some r"
  by (auto simp: runSignBeaconAttestationChecks_def split: option.splits)

lemma run_all_checks_nth:
  "run_all_checks L mds reqs sts = Ret xs \<Longrightarrow> length mds = length reqs \<Longrightarrow> length sts = length reqs \<Longrightarrow>
     length xs = length reqs \<and>
     (\<forall>i < length reqs. runSignBeaconAttestationChecks L (mds ! i) (reqs ! i) (sts ! i) = Ret (xs ! i))"
proof (induction L mds reqs sts arbitrary: xs rule: run_all_checks.induct)
  case (1 L md mds req reqs st sts)
  then obtain y ys where "runSignBeaconAttestationChecks L md req st = Ret y"
    "run_all_checks L mds reqs sts = Ret ys" "xs = y # ys"
    by (auto split: go.splits)
  with 1 show ?case by (auto simp: nth_Cons split: nat.splits)
qed auto

section \<open>Effects on the database\<close>

locale standard_rules = badger_laws "rules_store S" contents
  for S :: "'db rules_service" and contents :: "'db \<Rightarrow> bytes \<Rightarrow> bytes option"
begin

definition inv :: "(bytes \<times> int \<times> int) list \<Rightarrow> (bytes \<times> int) list \<Rightarrow> 'db \<Rightarrow> bool" where
  "inv alog plog db \<longleftrightarrow> att.safe (rules_lib S) (contents db) alog \<and> pro.safe (rules_lib S) (contents db) plog"

lemma fetch_att:
  assumes "fetchSignBeaconAttestationState S pk db = (f, db')"
  shows "db' = db"
    and "f = Ret (Inr st) \<Longrightarrow>
      fetched (att_decode (rules_lib S)) att_init actionSignBeaconAttestation (contents db) pk st"
proof -
  obtain g db1 where g: "Fetch (rules_store S) (pk @ actionSignBeaconAttestation) db = (g, db1)" by force
  then have db1: "db1 = db" by (rule kv.fetch_pure)
  note run = assms [unfolded fetchSignBeaconAttestationState_def go_bind_def g db1]
  show "db' = db" using run by (auto simp: go_simps split: go.splits sum.splits if_splits)
  show "fetched (att_decode (rules_lib S)) att_init actionSignBeaconAttestation (contents db) pk st"
    if "f = Ret (Inr st)"
    using run that g kv.fetch_value kv.fetch_missing
    by (fastforce simp: go_simps fetched_def att_decode_def att_init_def
                  split: go.splits sum.splits if_splits)
qed

lemma fetch_prop:
  assumes "fetchSignBeaconProposalState S pk db = (f, db')"
  shows "db' = db"
    and "f = Ret (Inr st) \<Longrightarrow>
      fetched (prop_decode (rules_lib S)) prop_init actionSignBeaconProposal (contents db) pk st"
proof -
  obtain g db1 where g: "Fetch (rules_store S) (pk @ actionSignBeaconProposal) db = (g, db1)" by force
  then have db1: "db1 = db" by (rule kv.fetch_pure)
  note run = assms [unfolded fetchSignBeaconProposalState_def go_bind_def g db1]
  show "db' = db" using run by (auto simp: go_simps split: go.splits sum.splits if_splits)
  show "fetched (prop_decode (rules_lib S)) prop_init actionSignBeaconProposal (contents db) pk st"
    if "f = Ret (Inr st)"
    using run that g kv.fetch_value kv.fetch_missing
    by (fastforce simp: go_simps fetched_def prop_decode_def prop_init_def
                  split: go.splits sum.splits if_splits)
qed

text \<open>The single-attestation rule: nothing is written, or the accepted epochs are.\<close>

lemma OnSignBeaconAttestation_effect:
  assumes run: "OnSignBeaconAttestation S md req db = (res, db')" and rng: "att_in_range req"
  shows "contents db' = contents db \<and> res \<noteq> Ret APPROVED \<or>
    (\<exists>m r st e. md = Some m \<and> req = Some r \<and> att_epochs r = Some e \<and> att_accepts st e \<and>
       fetched (att_decode (rules_lib S)) att_init actionSignBeaconAttestation (contents db) (md_PubKey m) st \<and>
       contents db' = (contents db)(md_PubKey m @ actionSignBeaconAttestation \<mapsto> Encode_att (Some (att_bump e))))"
proof (cases md)
  case None
  with run show ?thesis by (auto simp: OnSignBeaconAttestation_def go_simps)
next
  case (Some m)
  obtain f db1 where f: "fetchSignBeaconAttestationState S (md_PubKey m) db = (f, db1)" by force
  note db1 = fetch_att(1) [OF f]
  show ?thesis
  proof (cases "\<exists>st st'. f = Ret (Inr st) \<and>
      runSignBeaconAttestationChecks (rules_lib S) md req st = Ret (APPROVED, st')")
    case False
    with run Some f db1 show ?thesis
      by (auto simp: OnSignBeaconAttestation_def go_bind_def go_simps
               split: go.splits sum.splits if_splits)
  next
    case True
    then obtain st st' where st: "f = Ret (Inr st)"
      and chk: "runSignBeaconAttestationChecks (rules_lib S) md req st = Ret (APPROVED, st')" by blast
    from checks_req [OF chk] obtain r where r: "req = Some r" by blast
    from checks_approved [OF chk [unfolded r]] rng r
    obtain e where e: "att_epochs r = Some e" "att_accepts st e" "st' = att_bump e" by blast
    then obtain src tgt where cp: "ad_Source r = Some src" "ad_Target r = Some tgt"
      "e = (uint (cp_Epoch src), uint (cp_Epoch tgt))"
      by (auto simp: att_epochs_def split: option.splits)
    have st'': "st'\<lparr>SourceEpoch := cp_Epoch src, TargetEpoch := cp_Epoch tgt\<rparr> = att_bump e"
      using e(3) cp(3) by (simp add: att_bump.simps)
    obtain w db2 where w: "storeSignBeaconAttestationState S (md_PubKey m) (att_bump e) db = (Ret w, db2)"
      using kv.store_returns unfolding storeSignBeaconAttestationState_def by blast
    note w' = w [folded st'']
    have "res = (case w of None \<Rightarrow> Ret APPROVED | Some _ \<Rightarrow> Ret FAILED) \<and> db' = db2"
      using run chk
      by (auto simp: OnSignBeaconAttestation_def go_bind_def go_simps Some f db1 st r cp(1,2) w'
               split: option.splits)
    moreover have "fetched (att_decode (rules_lib S)) att_init actionSignBeaconAttestation (contents db) (md_PubKey m) st"
      using fetch_att(2) [OF f st] .
    moreover have "contents db2 = contents db \<and> w \<noteq> None \<or>
        contents db2 = (contents db)(md_PubKey m @ actionSignBeaconAttestation \<mapsto> Encode_att (Some (att_bump e)))"
      using w kv.store_any kv.store_done unfolding storeSignBeaconAttestationState_def
      by (cases w) blast+
    ultimately show ?thesis
      using Some r e by (cases w) (simp_all del: split_paired_Ex, blast+)
  qed
qed

text \<open>The proposal rule likewise.\<close>

lemma OnSignBeaconProposal_effect:
  assumes run: "OnSignBeaconProposal S md req db = (res, db')" and rng: "prop_in_range req"
  shows "contents db' = contents db \<and> res \<noteq> Ret APPROVED \<or>
    (\<exists>m r st. md = Some m \<and> req = Some r \<and> prop_accepts st (uint (pd_Slot r)) \<and>
       fetched (prop_decode (rules_lib S)) prop_init actionSignBeaconProposal (contents db) (md_PubKey m) st \<and>
       contents db' = (contents db)(md_PubKey m @ actionSignBeaconProposal \<mapsto>
                                      Encode_prop (Some (prop_bump (uint (pd_Slot r))))))"
proof (cases "\<exists>m r d. md = Some m \<and> req = Some r \<and> domain_type (pd_Domain r) = Some d \<and>
    d = DomainBeaconProposer (rules_lib S)")
  case False
  with run show ?thesis
    by (auto simp: OnSignBeaconProposal_def go_simps split: option.splits if_splits)
next
  case True
  then obtain m r where m: "md = Some m" and r: "req = Some r"
    and d: "domain_type (pd_Domain r) = Some (DomainBeaconProposer (rules_lib S))" by blast
  obtain f db1 where f: "fetchSignBeaconProposalState S (md_PubKey m) db = (f, db1)" by force
  note db1 = fetch_prop(1) [OF f]
  show ?thesis
  proof (cases "\<exists>st. f = Ret (Inr st) \<and> \<not> (nonneg64 (PropSlot st) \<and> pd_Slot r \<le> PropSlot st)")
    case False
    with run m r d f db1 show ?thesis
      by (auto simp: OnSignBeaconProposal_def go_bind_def go_simps split: go.splits sum.splits if_splits)
  next
    case True
    then obtain st where st: "f = Ret (Inr st)"
      and chk: "\<not> (nonneg64 (PropSlot st) \<and> pd_Slot r \<le> PropSlot st)" by blast
    have rng': "uint (pd_Slot r) < 2 ^ 63" using rng r by (simp add: prop_in_range_def)
    have acc: "prop_accepts st (uint (pd_Slot r))"
      using above_mark [OF chk] rng' by (simp add: prop_accepts_def)
    have st': "st\<lparr>PropSlot := pd_Slot r\<rparr> = prop_bump (uint (pd_Slot r))"
      by (cases st) (simp add: prop_bump_def)
    obtain w db2 where w: "storeSignBeaconProposalState S (md_PubKey m) (prop_bump (uint (pd_Slot r))) db = (Ret w, db2)"
      using kv.store_returns unfolding storeSignBeaconProposalState_def by blast
    have "res = (case w of None \<Rightarrow> Ret APPROVED | Some _ \<Rightarrow> Ret FAILED) \<and> db' = db2"
      using run chk
      by (auto simp: OnSignBeaconProposal_def go_bind_def go_simps m r d f db1 st w [folded st']
               split: option.splits)
    moreover have "fetched (prop_decode (rules_lib S)) prop_init actionSignBeaconProposal (contents db) (md_PubKey m) st"
      using fetch_prop(2) [OF f st] .
    moreover have "contents db2 = contents db \<and> w \<noteq> None \<or>
        contents db2 = (contents db)(md_PubKey m @ actionSignBeaconProposal \<mapsto>
                                       Encode_prop (Some (prop_bump (uint (pd_Slot r)))))"
      using w kv.store_any kv.store_done unfolding storeSignBeaconProposalState_def
      by (cases w) blast+
    ultimately show ?thesis
      using m r acc by (cases w) (simp_all, blast+)
  qed
qed

text \<open>Writes of one key keep the other kind of state, and extend the log by the accepted message.\<close>

lemma inv_att_write:
  assumes "inv alog plog db" and "att_accepts st e"
    and "fetched (att_decode (rules_lib S)) att_init actionSignBeaconAttestation (contents db) pk st"
    and w: "contents db' = (contents db)(pk @ actionSignBeaconAttestation \<mapsto> Encode_att (Some (att_bump e)))"
  shows "inv (alog @ [(pk, e)]) plog db'" and "inv alog plog db'"
proof -
  have up: "att.raised (rules_lib S) (contents db) (contents db') pk'" for pk'
    using att.raised_write [OF assms(3,2) w] .
  have pro: "pro.safe (rules_lib S) (contents db') plog"
    using assms(1) w by (auto simp: inv_def intro: pro.safe_frame)
  from assms have "att.safe (rules_lib S) (contents db') (alog @ [(pk, e)])"
    by (intro att.safe_append [OF _ up]) (auto simp: inv_def)
  with pro show "inv (alog @ [(pk, e)]) plog db'" by (simp add: inv_def)
  show "inv alog plog db'"
    using pro assms(1) up by (auto simp: inv_def intro: att.safe_raised)
qed

lemma inv_prop_write:
  assumes "inv alog plog db" and "prop_accepts st n"
    and "fetched (prop_decode (rules_lib S)) prop_init actionSignBeaconProposal (contents db) pk st"
    and w: "contents db' = (contents db)(pk @ actionSignBeaconProposal \<mapsto> Encode_prop (Some (prop_bump n)))"
  shows "inv alog (plog @ [(pk, n)]) db'" and "inv alog plog db'"
proof -
  have up: "pro.raised (rules_lib S) (contents db) (contents db') pk'" for pk'
    using pro.raised_write [OF assms(3,2) w] .
  have att: "att.safe (rules_lib S) (contents db') alog"
    using assms(1) w by (auto simp: inv_def intro: att.safe_frame)
  from assms have "pro.safe (rules_lib S) (contents db') (plog @ [(pk, n)])"
    by (intro pro.safe_append [OF _ up]) (auto simp: inv_def)
  with att show "inv alog (plog @ [(pk, n)]) db'" by (simp add: inv_def)
  show "inv alog plog db'"
    using att assms(1) up by (auto simp: inv_def intro: pro.safe_raised)
qed

lemma inv_contents: "inv alog plog db \<Longrightarrow> contents db' = contents db \<Longrightarrow> inv alog plog db'"
  by (simp add: inv_def)

lemma triple_OnSignBeaconAttestation:
  assumes "att_in_range req"
  shows "go_triple (inv alog plog) (OnSignBeaconAttestation S md req)
    (\<lambda>res. inv (alog @ (if res = APPROVED then att_entry md req else [])) plog) (inv alog plog)"
proof (rule go_tripleI)
  fix db res db' assume I: "inv alog plog db" and run: "OnSignBeaconAttestation S md req db = (Ret res, db')"
  from OnSignBeaconAttestation_effect [OF run assms] I
  show "inv (alog @ (if res = APPROVED then att_entry md req else [])) plog db'"
    by (auto simp: att_entry_def simp del: split_paired_Ex intro: inv_contents inv_att_write)
qed (use OnSignBeaconAttestation_effect [OF _ assms] in \<open>blast intro: inv_contents inv_att_write(2)\<close>)+

lemma triple_OnSignBeaconProposal:
  assumes "prop_in_range req"
  shows "go_triple (inv alog plog) (OnSignBeaconProposal S md req)
    (\<lambda>res. inv alog (plog @ (if res = APPROVED then prop_entry md req else []))) (inv alog plog)"
proof (rule go_tripleI)
  fix db res db' assume I: "inv alog plog db" and run: "OnSignBeaconProposal S md req db = (Ret res, db')"
  from OnSignBeaconProposal_effect [OF run assms] I
  show "inv alog (plog @ (if res = APPROVED then prop_entry md req else [])) db'"
    by (auto simp: prop_entry_def intro: inv_contents inv_prop_write)
qed (use OnSignBeaconProposal_effect [OF _ assms] in \<open>blast intro: inv_contents inv_prop_write(2)\<close>)+

section \<open>Batches\<close>

lemma fetch_states:
  "fetchSignBeaconAttestationStates S pks db = (f, db') \<Longrightarrow> db' = db \<and>
     (\<forall>sts. f = Ret (Inr sts) \<longrightarrow>
        list_all2 (fetched (att_decode (rules_lib S)) att_init actionSignBeaconAttestation (contents db)) pks sts)"
proof (induction pks arbitrary: f db')
  case Nil
  then show ?case by (auto simp: go_simps)
next
  case (Cons pk pks)
  obtain f1 db1 where f1: "fetchSignBeaconAttestationState S pk db = (f1, db1)" by force
  obtain f2 db2 where f2: "fetchSignBeaconAttestationStates S pks db = (f2, db2)" by force
  from Cons.IH [OF f2] fetch_att(1) [OF f1] have "db1 = db" "db2 = db" by auto
  with Cons.prems f1 f2 fetch_att(2) [OF f1] Cons.IH [OF f2] show ?case
    by (auto simp: go_bind_def go_simps split: go.splits sum.splits)
qed

text \<open>
  What a batch writes: the state of a request that was not approved is written back as it was
  fetched, that of an approved one is raised to its epochs.
\<close>

lemma batch_states:
  assumes chk: "run_all_checks (rules_lib S) mds reqs sts = Ret xs" and "length mds = length reqs"
    and fet: "list_all2 (fetched (att_decode (rules_lib S)) att_init actionSignBeaconAttestation (contents db))
           (map (\<lambda>md. md_PubKey (the md)) mds) sts"
    and rng: "\<forall>req \<in> set reqs. att_in_range req" and i: "i < length reqs"
  shows "fetched (att_decode (rules_lib S)) att_init actionSignBeaconAttestation (contents db)
           (md_PubKey (the (mds ! i))) (sts ! i)"
    and "fst (xs ! i) \<noteq> APPROVED \<Longrightarrow> snd (xs ! i) = sts ! i"
    and "fst (xs ! i) = APPROVED \<Longrightarrow> \<exists>r e. reqs ! i = Some r \<and> att_epochs r = Some e \<and>
           att_accepts (sts ! i) e \<and> snd (xs ! i) = att_bump e"
proof -
  have len: "length sts = length reqs" using list_all2_lengthD [OF fet] assms(2) by simp
  from run_all_checks_nth [OF chk assms(2) len] i
  have run: "runSignBeaconAttestationChecks (rules_lib S) (mds ! i) (reqs ! i) (sts ! i) = Ret (xs ! i)" by blast
  show "fetched (att_decode (rules_lib S)) att_init actionSignBeaconAttestation (contents db)
           (md_PubKey (the (mds ! i))) (sts ! i)"
    using list_all2_nthD [OF fet, of i] i assms(2) by simp
  show "snd (xs ! i) = sts ! i" if "fst (xs ! i) \<noteq> APPROVED"
    using checks_not_approved run that by (metis prod.collapse)
  show "\<exists>r e. reqs ! i = Some r \<and> att_epochs r = Some e \<and> att_accepts (sts ! i) e \<and> snd (xs ! i) = att_bump e"
    if "fst (xs ! i) = APPROVED"
  proof -
    from checks_req [OF run] obtain r where r: "reqs ! i = Some r" by blast
    with rng i have "att_in_range (Some r)" by (metis nth_mem)
    with checks_approved [of "rules_lib S" "mds ! i" r "sts ! i" "snd (xs ! i)"] run r that show ?thesis
      by (metis prod.collapse)
  qed
qed

lemma batch_raised:
  assumes chk: "run_all_checks (rules_lib S) mds reqs sts = Ret xs" and len: "length mds = length reqs"
    and fet: "list_all2 (fetched (att_decode (rules_lib S)) att_init actionSignBeaconAttestation (contents db))
           (map (\<lambda>md. md_PubKey (the md)) mds) sts"
    and rng: "\<forall>req \<in> set reqs. att_in_range req"
    and wr: "storeSignBeaconAttestationStates S (map (\<lambda>md. md_PubKey (the md)) mds) (map snd xs) db = (e, db')"
  shows "att.raised (rules_lib S) (contents db) (contents db') pk"
    and "contents db' (pk @ actionSignBeaconProposal) = contents db (pk @ actionSignBeaconProposal)"
proof -
  let ?pks = "map (\<lambda>md. md_PubKey (the md)) mds" and ?k = "\<lambda>pk. pk @ actionSignBeaconAttestation"
  have xs: "length xs = length reqs"
    using run_all_checks_nth [OF chk len] list_all2_lengthD [OF fet] len by simp
  from wr xs len have wr': "BatchStore (rules_store S) (map ?k ?pks) (map (\<lambda>st. Encode_att (Some st)) (map snd xs)) db = (e, db')"
    by (simp add: storeSignBeaconAttestationStates_def)
  have hit: "\<exists>i < length reqs. key = ?k (md_PubKey (the (mds ! i))) \<and> v = Encode_att (Some (snd (xs ! i)))"
    if "(key, v) \<in> set (zip (map ?k ?pks) (map (\<lambda>st. Encode_att (Some st)) (map snd xs)))" for key v
    using that xs len by (auto simp: set_zip)
  show "contents db' (pk @ actionSignBeaconProposal) = contents db (pk @ actionSignBeaconProposal)"
    using kv.batch_any [OF wr', of "pk @ actionSignBeaconProposal"] hit by fastforce
  from kv.batch_any [OF wr', of "?k pk"]
  consider (old) "contents db' (?k pk) = contents db (?k pk)"
    | (new) i where "i < length reqs" "pk = md_PubKey (the (mds ! i))" "contents db' (?k pk) = Some (Encode_att (Some (snd (xs ! i))))"
    using hit by fastforce
  then show "att.raised (rules_lib S) (contents db) (contents db') pk"
  proof cases
    case new
    note b = batch_states [OF chk len fet rng new(1)]
    show ?thesis
    proof (cases "fst (xs ! i) = APPROVED")
      case True
      with b(3) obtain e' where "att_accepts (sts ! i) e'" "snd (xs ! i) = att_bump e'" by blast
      with b(1) new(2,3) show ?thesis by (auto intro: att.raised_accept)
    next
      case False
      with b(1,2) new(2,3) show ?thesis by (auto intro: att.raised_rewrite)
    qed
  qed (rule att.raised_same)
qed

lemma batch_write:
  assumes I: "inv alog plog db"
    and chk: "run_all_checks (rules_lib S) mds reqs sts = Ret xs" and len: "length mds = length reqs"
    and fet: "list_all2 (fetched (att_decode (rules_lib S)) att_init actionSignBeaconAttestation (contents db))
           (map (\<lambda>md. md_PubKey (the md)) mds) sts"
    and rng: "\<forall>req \<in> set reqs. att_in_range req"
    and wr: "storeSignBeaconAttestationStates S (map (\<lambda>md. md_PubKey (the md)) mds) (map snd xs) db = (e, db')"
  shows "inv alog plog db'"
    and "e = Ret None \<Longrightarrow> \<forall>md \<in> set mds. md \<noteq> None \<Longrightarrow> distinct (map (\<lambda>md. md_PubKey (the md)) mds) \<Longrightarrow>
           inv (alog @ att_news mds reqs (map fst xs)) plog db'"
proof -
  let ?pks = "map (\<lambda>md. md_PubKey (the md)) mds" and ?k = "\<lambda>pk. pk @ actionSignBeaconAttestation"
  let ?kvs = "zip (map ?k ?pks) (map (\<lambda>st. Encode_att (Some st)) (map snd xs))"
  note up = batch_raised [OF chk len fet rng wr]
  have pro: "pro.safe (rules_lib S) (contents db') plog"
    using I up(2) by (auto simp: inv_def intro: pro.safe_frame)
  then show "inv alog plog db'"
    using I up(1) by (auto simp: inv_def intro: att.safe_raised)
  have xs: "length xs = length reqs"
    using run_all_checks_nth [OF chk len] list_all2_lengthD [OF fet] len by simp
  assume ok: "e = Ret None" "\<forall>md \<in> set mds. md \<noteq> None" "distinct ?pks"
  from wr xs len ok(1) have "BatchStore (rules_store S) (map ?k ?pks) (map (\<lambda>st. Encode_att (Some st)) (map snd xs)) db = (Ret None, db')"
    by (simp add: storeSignBeaconAttestationStates_def)
  then have c': "contents db' = contents db ++ map_of (rev ?kvs)" using kv.batch_done by blast
  have "distinct (map ?k ?pks)"
    using ok(3) unfolding distinct_map [of ?k] by (simp add: inj_on_def)
  then have dk: "distinct (map fst (rev ?kvs))"
    using xs len by (simp add: rev_map [symmetric])
  have new: "\<exists>st. fetched (att_decode (rules_lib S)) att_init actionSignBeaconAttestation (contents db) pk st \<and>
      att_accepts st r \<and> contents db' (?k pk) = Some (Encode_att (Some (att_bump r)))"
    if news: "(pk, r) \<in> set (att_news mds reqs (map fst xs))" for pk r
  proof -
    from att_news_key [OF news] xs obtain i m q where i: "i < length mds" "i < length reqs" "mds ! i = Some m"
      "reqs ! i = Some q" "fst (xs ! i) = APPROVED" "pk = md_PubKey m" "att_epochs q = Some r"
      by auto
    note b = batch_states [OF chk len fet rng i(2)]
    have "(?k pk, Encode_att (Some (snd (xs ! i)))) \<in> set (rev ?kvs)"
      using i xs by (auto simp: set_zip intro!: exI [of _ i])
    with dk have "map_of (rev ?kvs) (?k pk) = Some (Encode_att (Some (snd (xs ! i))))"
      by (rule map_of_is_SomeI)
    with c' have "contents db' (?k pk) = Some (Encode_att (Some (snd (xs ! i))))" by simp
    with b i show ?thesis by auto
  qed
  from I have "att.safe (rules_lib S) (contents db') (alog @ att_news mds reqs (map fst xs))"
    by (intro att.safe_append [OF _ up(1) att_news_distinct [OF ok(2,3)] new]) (simp_all add: inv_def)
  with pro show "inv (alog @ att_news mds reqs (map fst xs)) plog db'" by (simp add: inv_def)
qed

lemma triple_OnSignBeaconAttestations:
  assumes rng: "\<forall>req \<in> set reqs. att_in_range req"
    and dist: "distinct (map (\<lambda>md. md_PubKey (the md)) mds)"
  shows "go_triple (inv alog plog) (OnSignBeaconAttestations S mds reqs)
    (\<lambda>rs. inv (alog @ att_news mds reqs rs) plog) (inv alog plog)"
proof -
  let ?pks = "map (\<lambda>md. md_PubKey (the md)) mds"
  have fail: "att_news mds reqs (replicate n FAILED) = []"
       "att_news mds reqs ((replicate n UNKNOWN)[i := FAILED]) = []" for n i
    by (auto intro!: att_news_none dest: set_update_subset_insert [THEN subsetD])
  show ?thesis
  proof (cases "length reqs = length mds \<and> first_index (\<lambda>md. md = None) mds = None \<and> first_index bad_att_req reqs = None")
    case False
    then show ?thesis
      by (auto simp: OnSignBeaconAttestations_def Let_def fail split: option.splits intro!: go_rules)
  next
    case True
    then have some: "\<forall>md \<in> set mds. md \<noteq> None" by (simp add: first_index_None)
    have "case out of Ret rs \<Rightarrow> inv (alog @ att_news mds reqs rs) plog db' | _ \<Rightarrow> inv alog plog db'"
      if I: "inv alog plog db" and run: "OnSignBeaconAttestations S mds reqs db = (out, db')" for db out db'
    proof -
      obtain f db1 where f: "fetchSignBeaconAttestationStates S ?pks db = (f, db1)" by force
      note ff = fetch_states [OF f]
      show ?thesis
      proof (cases "\<exists>sts xs. f = Ret (Inr sts) \<and> run_all_checks (rules_lib S) mds reqs sts = Ret xs")
        case False
        with run True f ff I fail show ?thesis
          by (auto simp: OnSignBeaconAttestations_def Let_def go_bind_def go_simps split: go.splits sum.splits)
      next
        case ret: True
        then obtain sts xs where st: "f = Ret (Inr sts)" "run_all_checks (rules_lib S) mds reqs sts = Ret xs" by blast
        obtain e db2 where wr: "storeSignBeaconAttestationStates S ?pks (map snd xs) db = (e, db2)" by force
        from ff st have fet: "list_all2 (fetched (att_decode (rules_lib S)) att_init actionSignBeaconAttestation (contents db)) ?pks sts"
          by blast
        note bw = batch_write [OF I st(2) _ fet rng wr]
        from run True f ff st wr have "db' = db2 \<and> (e = Ret None \<and> out = Ret (map fst xs) \<or>
            out = Ret (replicate (length reqs) FAILED) \<or> (\<forall>rs. out \<noteq> Ret rs))"
          by (auto simp: OnSignBeaconAttestations_def Let_def go_bind_def go_simps split: go.splits option.splits)
        with bw some dist True fail show ?thesis by (auto split: go.splits)
      qed
    qed
    then show ?thesis by (fastforce simp: go_triple_def split: prod.splits go.splits)
  qed
qed

end

end
