(* ===== verification/Ruler_Safety.thy ===== *)
theory Ruler_Safety
  imports Ruler Rules_Safety
begin

text \<open>
  What the ruler does with a batch, for every runtime: each entry gets its result, everything that
  is approved is protected afterwards, and the locks it takes are freed.
\<close>

section \<open>What a batch adds to the logs\<close>

fun att_request :: "any_data option \<Rightarrow> att_data option" where
  "att_request (Some (AnySignBeaconAttestationData r)) = r"
| "att_request _ = None"

fun prop_request :: "any_data option \<Rightarrow> prop_data option" where
  "prop_request (Some (AnySignBeaconProposalData r)) = r"
| "prop_request _ = None"

definition att_approval :: "string \<Rightarrow> rules_data option \<Rightarrow> rules_result \<Rightarrow> (bytes \<times> int \<times> int) list" where
  "att_approval action rd res =
     (if action = ActionSignBeaconAttestation \<and> res = APPROVED then
        (case rd of
           None \<Rightarrow> []
         | Some d \<Rightarrow> (case Option.bind (att_request (rd_Data d)) att_epochs of
                        None \<Rightarrow> [] | Some e \<Rightarrow> [(rd_PubKey d, e)]))
      else [])"

definition prop_approval :: "string \<Rightarrow> rules_data option \<Rightarrow> rules_result \<Rightarrow> (bytes \<times> int) list" where
  "prop_approval action rd res =
     (if action = ActionSignBeaconProposal \<and> res = APPROVED then
        (case rd of
           None \<Rightarrow> []
         | Some d \<Rightarrow> (case prop_request (rd_Data d) of
                        None \<Rightarrow> [] | Some r \<Rightarrow> [(rd_PubKey d, uint (pd_Slot r))]))
      else [])"

definition att_approvals :: "string \<Rightarrow> rules_data option list \<Rightarrow> rules_result list \<Rightarrow> (bytes \<times> int \<times> int) list" where
  "att_approvals action rds rs = concat (map2 (att_approval action) rds rs)"

definition prop_approvals :: "string \<Rightarrow> rules_data option list \<Rightarrow> rules_result list \<Rightarrow> (bytes \<times> int) list" where
  "prop_approvals action rds rs = concat (map2 (prop_approval action) rds rs)"

definition rd_in_range :: "rules_data option \<Rightarrow> bool" where
  "rd_in_range rd = (case rd of None \<Rightarrow> True
     | Some d \<Rightarrow> att_in_range (att_request (rd_Data d)) \<and> prop_in_range (prop_request (rd_Data d)))"

lemma att_approval_cases:
  "att_approval a rd res = [] \<or> (\<exists>e. att_approval a rd res = [(rd_PubKey (the rd), e)])"
  by (cases rd) (auto simp: att_approval_def simp del: split_paired_Ex split: option.split)

lemma prop_approval_cases:
  "prop_approval a rd res = [] \<or> (\<exists>n. prop_approval a rd res = [(rd_PubKey (the rd), n)])"
  by (cases rd) (auto simp: prop_approval_def split: option.split)

lemma approval_key:
  "x \<in> set (att_approval a rd res) \<Longrightarrow> fst x = rd_PubKey (the rd)"
  "y \<in> set (prop_approval a rd res) \<Longrightarrow> fst y = rd_PubKey (the rd)"
  using att_approval_cases [of a rd res] prop_approval_cases [of a rd res] by auto

lemma approval_single:
  "distinct (map fst (att_approval a rd res))" "distinct (map fst (prop_approval a rd res))"
  using att_approval_cases [of a rd res] prop_approval_cases [of a rd res] by auto

lemma approval_None [simp]: "att_approval a None res = []" "prop_approval a None res = []"
  by (simp_all add: att_approval_def prop_approval_def)

lemma approval_rejected [simp]:
  "res \<noteq> APPROVED \<Longrightarrow> att_approval a rd res = []" "res \<noteq> APPROVED \<Longrightarrow> prop_approval a rd res = []"
  by (simp_all add: att_approval_def prop_approval_def)

lemma approvals_by_index:
  assumes "length rds = length rs"
  shows "concat (map2 f rds rs) = concat (map (\<lambda>i. f (rds ! i) (rs ! i)) [0..<length rds])"
proof -
  have "map2 f rds rs = map (\<lambda>i. f (rds ! i) (rs ! i)) [0..<length rds]"
    using assms by (intro nth_equalityI) auto
  then show ?thesis by simp
qed

lemma distinct_by_index:
  assumes "\<And>i x. x \<in> set (f i) \<Longrightarrow> fst x = key i" and "\<And>i. distinct (map fst (f i))"
    and "distinct (map key is)"
  shows "distinct (map fst (concat (map f is)))"
  using assms(3)
proof (induction "is")
  case (Cons i "is")
  have "fst ` set (f i) \<inter> fst ` (\<Union>j \<in> set is. set (f j)) = {}"
    using Cons.prems assms(1) by fastforce
  with Cons assms(2) show ?case by (auto simp: image_UN)
qed simp

lemma distinct_keys_index:
  "distinct (map key rds) \<Longrightarrow> distinct (map (\<lambda>i. key (rds ! i)) [0..<length rds])"
proof -
  have "map (\<lambda>i. key (rds ! i)) [0..<length rds] = map key rds"
    by (rule nth_equalityI) simp_all
  then show "distinct (map key rds) \<Longrightarrow> ?thesis" by simp
qed

section \<open>Preparing a batch of attestations\<close>

text \<open>Entry \<open>j\<close> is fit for signing, and the arrays hold its metadata and its request.\<close>

definition prepared ::
  "credentials option \<Rightarrow> rules_data option list \<Rightarrow> req_metadata option list \<Rightarrow> att_data option list \<Rightarrow> nat \<Rightarrow> bool" where
  "prepared creds rds mds reqs j \<longleftrightarrow>
     (\<exists>rd md req. rds ! j = Some rd \<and> rd_AccountName rd \<noteq> [] \<and>
        assembleMetadata creds (rd_AccountName rd) (rd_PubKey rd) = Inr md \<and>
        rd_Data rd = Some (AnySignBeaconAttestationData req) \<and> mds ! j = Some md \<and> reqs ! j = req)"

definition prep_inv ::
  "('db \<Rightarrow> bool) \<Rightarrow> credentials option \<Rightarrow> rules_data option list \<Rightarrow> nat set \<Rightarrow> 'db \<times> prep_arrays \<Rightarrow> bool" where
  "prep_inv P creds rds J = (\<lambda>(db, rs, mds, reqs). P db \<and> length rs = length rds \<and> length mds = length rds \<and>
     length reqs = length rds \<and> set rs \<subseteq> {UNKNOWN, FAILED} \<and> (FAILED \<in> set rs \<or> (\<forall>j \<in> J. prepared creds rds mds reqs j)))"

lemma prepared_update:
  assumes "prepared creds rds mds reqs j" and "i < length mds" "i < length reqs"
    and "rds ! i = Some rd" "assembleMetadata creds (rd_AccountName rd) (rd_PubKey rd) = Inr md"
    "rd_Data rd = Some (AnySignBeaconAttestationData req)"
  shows "prepared creds rds (mds[i := Some md]) (reqs[i := req]) j"
  using assms by (cases "i = j") (auto simp: prepared_def)

lemma assembleMetadata_key: "assembleMetadata creds acc pk = Inr md \<Longrightarrow> md_PubKey md = pk"
  by (auto simp: assembleMetadata_def split: option.splits if_splits)

lemma prepared_keys:
  assumes "length mds = length rds" "\<forall>j < length rds. prepared creds rds mds reqs j"
  shows "map (\<lambda>md. md_PubKey (the md)) mds = map (\<lambda>rd. rd_PubKey (the rd)) rds"
proof (rule nth_equalityI)
  show "map (\<lambda>md. md_PubKey (the md)) mds ! j = map (\<lambda>rd. rd_PubKey (the rd)) rds ! j"
    if "j < length (map (\<lambda>md. md_PubKey (the md)) mds)" for j
  proof -
    from that assms have "prepared creds rds mds reqs j" by simp
    then have "md_PubKey (the (mds ! j)) = rd_PubKey (the (rds ! j))"
      by (auto simp: prepared_def dest: assembleMetadata_key)
    with that assms(1) show ?thesis by simp
  qed
qed (use assms in simp)

lemma prep_fail:
  assumes "prep_inv P creds rds J (db, rs, mds, reqs)" and "i < length rds" and "length mds' = length rds"
  shows "prep_inv P creds rds K (db, rs[i := FAILED], mds', reqs)"
  using assms set_update_subset_insert [of rs i FAILED] set_update_memI [of i rs FAILED]
  by (auto simp: prep_inv_def)

lemma prep_entries_triple:
  assumes "\<forall>i \<in> set is. i < length rds"
  shows "go_triple (prep_inv P creds rds J) (prep_entries creds rds is)
    (\<lambda>_. prep_inv P creds rds (J \<union> set is)) (\<lambda>(db, l). P db)"
  using assms
proof (induction "is" arbitrary: J)
  case Nil
  then show ?case by (auto intro!: go_triple_return)
next
  case (Cons i "is")
  have i: "i < length rds" using Cons.prems by simp
  have fail: "go_triple (prep_inv P creds rds J) (go_update (\<lambda>(db, rs, mds, reqs). (db, rs[i := FAILED], f mds, reqs)))
     (\<lambda>_. prep_inv P creds rds (J \<union> set (i # is))) (\<lambda>(db, l). P db)"
    if "\<And>mds. length (f mds) = length mds" for f
    by (rule go_triple_update) (auto intro!: prep_fail [OF _ i] simp: that, auto simp: prep_inv_def)
  note fail = fail [where f = "\<lambda>mds. mds", simplified] fail [where f = "\<lambda>mds. mds[i := v]" for v, simplified]
  show ?case
  proof (cases "rds ! i")
    case None
    then show ?thesis by (auto simp: prep_inv_def intro!: go_triple_panic)
  next
    case (Some rd)
    show ?thesis
    proof (cases "\<exists>md req. rd_AccountName rd \<noteq> [] \<and> assembleMetadata creds (rd_AccountName rd) (rd_PubKey rd) = Inr md \<and>
        rd_Data rd = Some (AnySignBeaconAttestationData req)")
      case False
      with Some fail show ?thesis by (auto split: sum.split option.split any_data.split)
    next
      case True
      then obtain md req where m: "rd_AccountName rd \<noteq> []" "assembleMetadata creds (rd_AccountName rd) (rd_PubKey rd) = Inr md"
        "rd_Data rd = Some (AnySignBeaconAttestationData req)" by blast
      have "go_triple (prep_inv P creds rds J)
         (go_update (\<lambda>(db, rs, mds, reqs). (db, rs, mds[i := Some md], reqs[i := req])))
         (\<lambda>_. prep_inv P creds rds (insert i J)) (\<lambda>(db, l). P db)"
        using i Some m
        by (intro go_triple_update) (auto simp: prep_inv_def intro: prepared_update, auto simp: prepared_def)
      moreover have "go_triple (prep_inv P creds rds (insert i J)) (prep_entries creds rds is)
         (\<lambda>_. prep_inv P creds rds (insert i J \<union> set is)) (\<lambda>(db, l). P db)"
        by (rule Cons.IH) (use Cons.prems in simp)
      ultimately show ?thesis using Some m by (auto intro!: go_triple_bind)
    qed
  qed
qed

lemma prepare_batch:
  assumes fair: "fair_runtime rt" and n: "rds \<noteq> []"
  shows "go_triple P (go_local (replicate (length rds) UNKNOWN, replicate (length rds) None, replicate (length rds) None)
      (Scatter rt (int (length rds)) (\<lambda>offset entries. go_bind (prep_entries creds rds [offset..<offset + entries]) (\<lambda>_. go_return (Inr ())))))
    (\<lambda>(_, l) db. prep_inv P creds rds {..<length rds} (db, l)) P"
proof -
  let ?n = "length rds"
  let ?work = "\<lambda>offset entries. go_bind (prep_entries creds rds [offset..<offset + entries]) (\<lambda>_. go_return (Inr ()))"
  define J where "J D = (\<Union>w \<in> D. set (extent rt ?n w))" for D
  have all: "J {..<workers rt ?n} = {..<?n}"
    using extent_bound [of _ rt ?n] in_some_extent [of _ ?n rt] unfolding J_def by blast
  have work: "go_triple (prep_inv P creds rds (J D)) (?work (offset_of rt ?n w) (entries_of rt ?n w))
      (\<lambda>_. prep_inv P creds rds (J (insert w D))) (\<lambda>(db, l). P db)" if "w < workers rt ?n" for w D
  proof -
    have "go_triple (prep_inv P creds rds (J D)) (prep_entries creds rds (extent rt ?n w))
      (\<lambda>_. prep_inv P creds rds (J D \<union> set (extent rt ?n w))) (\<lambda>(db, l). P db)"
      by (rule prep_entries_triple) (use extent_bound [OF that] in blast)
    moreover have "J D \<union> set (extent rt ?n w) = J (insert w D)" by (auto simp: J_def)
    ultimately show ?thesis by (auto simp: extent_def intro!: go_triple_bind go_triple_return)
  qed
  have "go_triple (prep_inv P creds rds (J {})) (Scatter rt (int ?n) ?work)
      (\<lambda>_. prep_inv P creds rds (J {..<workers rt ?n})) (\<lambda>(db, l). P db)"
    by (rule Scatter_triple [OF fair]) (use n work in auto)
  then show ?thesis
    unfolding all
    by (intro go_triple_local, elim go_triple_conseq) (auto simp: prep_inv_def J_def)
qed

section \<open>Single entries\<close>

lemma actions_distinct:
  "ActionSignBeaconAttestation \<noteq> ActionSign" "ActionSignBeaconProposal \<noteq> ActionSign"
  "ActionSignBeaconAttestation \<noteq> ActionSignBeaconProposal"
  by (simp_all add: action_defs)

lemma dispatch_attestation:
  "dispatch_rule S ActionSignBeaconAttestation md (Some (AnySignBeaconAttestationData r)) =
     OnSignBeaconAttestation S (Some md) r"
  by (simp add: dispatch_rule_def actions_distinct)

lemma dispatch_proposal:
  "dispatch_rule S ActionSignBeaconProposal md (Some (AnySignBeaconProposalData r)) =
     OnSignBeaconProposal S (Some md) r"
  by (simp add: dispatch_rule_def actions_distinct)

text \<open>Any other pairing of action and data is answered without touching the database.\<close>

lemma dispatch_stateless:
  assumes "\<And>r. action = ActionSignBeaconAttestation \<Longrightarrow> data \<noteq> Some (AnySignBeaconAttestationData r)"
    and "\<And>r. action = ActionSignBeaconProposal \<Longrightarrow> data \<noteq> Some (AnySignBeaconProposalData r)"
  shows "(\<exists>res. dispatch_rule S action md data = go_return res) \<or>
         (\<exists>q. dispatch_rule S action md data = OnSign S (Some md) q)"
proof -
  define P where "P m \<longleftrightarrow> (\<exists>res. m = go_return res) \<or> (\<exists>q. m = OnSign S (Some md) q)" for m
  have "P (go_return res)" "P (OnSign S (Some md) q)" for res q by (auto simp: P_def)
  note P = this OnListAccounts_def OnLockWallet_def OnUnlockWallet_def OnLockAccount_def OnUnlockAccount_def OnCreateAccount_def
  have "P (dispatch_rule S action md data)"
  proof (cases data)
    case (Some d)
    with assms have "\<And>r. d = AnySignBeaconAttestationData r \<Longrightarrow> action \<noteq> ActionSignBeaconAttestation"
      and "\<And>r. d = AnySignBeaconProposalData r \<Longrightarrow> action \<noteq> ActionSignBeaconProposal" by blast+
    then show ?thesis unfolding Some by (cases d) (simp_all add: dispatch_rule_def P)
  qed (simp add: dispatch_rule_def P)
  then show ?thesis by (simp add: P_def)
qed

lemma OnSign_pure: "OnSign S md req db = (r, db') \<Longrightarrow> db' = db"
  by (auto simp: OnSign_def go_simps split: option.splits if_splits)

context standard_rules
begin

lemma dispatch_triple:
  assumes rng: "rd_in_range (Some rd)" and md: "assembleMetadata creds (rd_AccountName rd) (rd_PubKey rd) = Inr md"
  shows "go_triple (inv alog plog) (dispatch_rule S action md (rd_Data rd))
    (\<lambda>res. inv (alog @ att_approval action (Some rd) res) (plog @ prop_approval action (Some rd) res))
    (inv alog plog)"
proof -
  have pk: "md_PubKey md = rd_PubKey rd"
    using md by (auto simp: assembleMetadata_def split: option.splits if_splits)
  consider (att) r where "action = ActionSignBeaconAttestation" "rd_Data rd = Some (AnySignBeaconAttestationData r)"
    | (pro) r where "action = ActionSignBeaconProposal" "rd_Data rd = Some (AnySignBeaconProposalData r)"
    | (other) "\<And>r. action = ActionSignBeaconAttestation \<Longrightarrow> rd_Data rd \<noteq> Some (AnySignBeaconAttestationData r)"
        "\<And>r. action = ActionSignBeaconProposal \<Longrightarrow> rd_Data rd \<noteq> Some (AnySignBeaconProposalData r)"
    by blast
  then show ?thesis
  proof cases
    case att
    then have "att_in_range r" using rng by (simp add: rd_in_range_def)
    note T = triple_OnSignBeaconAttestation [OF this, of alog plog "Some md"]
    have "att_approval action (Some rd) res = (if res = APPROVED then att_entry (Some md) r else [])"
         "prop_approval action (Some rd) res = []" for res
      using att pk by (auto simp: att_approval_def prop_approval_def att_entry_def actions_distinct split: option.splits)
    with T att show ?thesis by (simp add: dispatch_attestation)
  next
    case pro
    then have "prop_in_range r" using rng by (simp add: rd_in_range_def)
    note T = triple_OnSignBeaconProposal [OF this, of alog plog "Some md"]
    have "prop_approval action (Some rd) res = (if res = APPROVED then prop_entry (Some md) r else [])"
         "att_approval action (Some rd) res = []" for res
      using pro pk actions_distinct by (auto simp: att_approval_def prop_approval_def prop_entry_def split: option.splits)
    with T pro show ?thesis by (simp add: dispatch_proposal)
  next
    case other
    have "att_request (rd_Data rd) = None" if "action = ActionSignBeaconAttestation"
      using other(1) [OF that] by (cases "rd_Data rd" rule: att_request.cases) auto
    moreover have "prop_request (rd_Data rd) = None" if "action = ActionSignBeaconProposal"
      using other(2) [OF that] by (cases "rd_Data rd" rule: prop_request.cases) auto
    ultimately have none: "att_approval action (Some rd) res = []" "prop_approval action (Some rd) res = []" for res
      by (simp_all add: att_approval_def prop_approval_def)
    have "go_triple (inv alog plog) (OnSign S (Some md) q) (\<lambda>_. inv alog plog) (inv alog plog)" for q
      by (rule go_tripleI) (auto dest: OnSign_pure)
    with dispatch_stateless [where S = S and md = md and action = action, OF other] none show ?thesis by (auto intro: go_rules)
  qed
qed

text \<open>One step of the loop: the result is filled in and its approval is logged.\<close>

lemma run_entry_triple:
  assumes "rd_in_range (rds ! i)"
  shows "go_triple (\<lambda>(db, rs). inv alog plog db \<and> rs = rs0 \<and> i < length rs0)
    (run_entry S creds action rds i)
    (\<lambda>_ (db, rs). \<exists>v. rs = rs0[i := v] \<and> inv (alog @ att_approval action (rds ! i) v) (plog @ prop_approval action (rds ! i) v) db)
    (\<lambda>(db, rs). inv alog plog db)"
proof (cases "rds ! i")
  case None
  have "\<exists>v. rs0 = rs0[i := v]" by (intro exI [of _ "rs0 ! i"]) simp
  with None show ?thesis
    by (auto simp: run_entry_def go_triple_def go_simps)
next
  case (Some rd)
  show ?thesis
  proof (cases "assembleMetadata creds (rd_AccountName rd) (rd_PubKey rd)")
    case (Inl e)
    with Some show ?thesis
      by (auto simp: run_entry_def go_triple_def go_simps intro!: exI [of _ FAILED])
  next
    case (Inr md)
    have D: "go_triple (inv alog plog) (dispatch_rule S action md (rd_Data rd))
      (\<lambda>res. inv (alog @ att_approval action (Some rd) res) (plog @ prop_approval action (Some rd) res)) (inv alog plog)"
      using dispatch_triple Inr assms Some by simp
    have "go_triple (\<lambda>(db, rs). inv alog plog db \<and> rs = rs0 \<and> i < length rs0)
       (go_on_fst (dispatch_rule S action md (rd_Data rd)))
       (\<lambda>res (db, rs). inv (alog @ att_approval action (Some rd) res) (plog @ prop_approval action (Some rd) res) db \<and> rs = rs0)
       (\<lambda>(db, rs). inv alog plog db)"
      using D by (auto simp: go_triple_def go_on_fst_def split: prod.splits go.splits)
    moreover have "go_triple
       (\<lambda>(db, rs). inv (alog @ att_approval action (Some rd) res) (plog @ prop_approval action (Some rd) res) db \<and> rs = rs0)
       (go_update (\<lambda>(db, results). (db, results[i := (if res = UNKNOWN then FAILED else res)])))
       (\<lambda>_ (db, rs). \<exists>v. rs = rs0[i := v] \<and> inv (alog @ att_approval action (Some rd) v) (plog @ prop_approval action (Some rd) v) db)
       (\<lambda>(db, rs). inv alog plog db)" for res
      by (rule go_triple_update) (auto intro!: exI [of _ "if res = UNKNOWN then FAILED else res"])
    ultimately show ?thesis using Some Inr by (auto simp: run_entry_def intro!: go_triple_bind)
  qed
qed

text \<open>The whole loop, in any order of the indices.\<close>

lemma inv_prefix: "inv (alog @ xs) (plog @ ys) db \<Longrightarrow> inv alog plog db"
  by (auto simp: inv_def att.safe_def pro.safe_def protected_def ordered_log_def sorted_wrt_append)

lemma loop_triple:
  assumes "\<forall>i \<in> set is. i < n \<and> rd_in_range (rds ! i)" and "distinct (ds @ is)"
  shows "go_triple
    (\<lambda>(db, rs). length rs = n \<and>
       inv (alog @ concat (map (\<lambda>i. att_approval action (rds ! i) (rs ! i)) ds))
           (plog @ concat (map (\<lambda>i. prop_approval action (rds ! i) (rs ! i)) ds)) db)
    (go_for is (run_entry S creds action rds))
    (\<lambda>_ (db, rs). length rs = n \<and>
       inv (alog @ concat (map (\<lambda>i. att_approval action (rds ! i) (rs ! i)) (ds @ is)))
           (plog @ concat (map (\<lambda>i. prop_approval action (rds ! i) (rs ! i)) (ds @ is))) db)
    (\<lambda>(db, rs). inv alog plog db)"
  using assms
proof (induction "is" arbitrary: ds)
  case Nil
  then show ?case by (auto intro!: go_triple_return)
next
  case (Cons i "is")
  let ?al = "\<lambda>rs ds. alog @ concat (map (\<lambda>i. att_approval action (rds ! i) (rs ! i)) ds)"
  let ?pl = "\<lambda>rs ds. plog @ concat (map (\<lambda>i. prop_approval action (rds ! i) (rs ! i)) ds)"
  have i: "i < n" "i \<notin> set ds" "rd_in_range (rds ! i)" using Cons.prems by auto
  have same: "map (\<lambda>j. f (rds ! j) (rs[i := v] ! j)) ds = map (\<lambda>j. f (rds ! j) (rs ! j)) ds"
    for f :: "rules_data option \<Rightarrow> rules_result \<Rightarrow> 'z" and rs v using i by (auto intro!: arg_cong2 [where f = f] nth_list_update_neq)
  have "go_triple (\<lambda>(db, rs). length rs = n \<and> inv (?al rs ds) (?pl rs ds) db) (run_entry S creds action rds i)
     (\<lambda>_ (db, rs). length rs = n \<and> inv (?al rs (ds @ [i])) (?pl rs (ds @ [i])) db) (\<lambda>(db, rs). inv alog plog db)"
  proof (rule go_triple_split)
    fix db rs assume pre: "case (db, rs) of (db, rs) \<Rightarrow> length rs = n \<and> inv (?al rs ds) (?pl rs ds) db"
    show "go_triple (\<lambda>s. s = (db, rs)) (run_entry S creds action rds i)
       (\<lambda>_ (db, rs). length rs = n \<and> inv (?al rs (ds @ [i])) (?pl rs (ds @ [i])) db) (\<lambda>(db, rs). inv alog plog db)"
      by (rule go_triple_conseq [OF run_entry_triple [OF i(3), of "?al rs ds" "?pl rs ds" rs]])
         (use pre i in \<open>auto simp: same intro: inv_prefix\<close>)
  qed
  moreover have "go_triple (\<lambda>(db, rs). length rs = n \<and> inv (?al rs (ds @ [i])) (?pl rs (ds @ [i])) db)
     (go_for is (run_entry S creds action rds))
     (\<lambda>_ (db, rs). length rs = n \<and> inv (?al rs (ds @ i # is)) (?pl rs (ds @ i # is)) db) (\<lambda>(db, rs). inv alog plog db)"
    using Cons.IH [of "ds @ [i]"] Cons.prems by simp
  ultimately show ?case by (simp only: go_for.simps) (rule go_triple_bind)
qed

lemma inv_permute:
  assumes "inv (alog @ xs) (plog @ ys) db" and "mset xs = mset xs'" and "mset ys = mset ys'"
    and "distinct (map fst xs)" and "distinct (map fst ys)"
  shows "inv (alog @ xs') (plog @ ys') db"
  using assms by (auto simp: inv_def intro: att.safe_permute pro.safe_permute)

text \<open>Results in any order of work are results in the order of the entries.\<close>

lemma inv_reorder:
  assumes perm: "mset is = mset [0..<length rds]" and len: "length rs = length rds"
    and dist: "action = ActionSignBeaconAttestation \<or> action = ActionSignBeaconProposal \<Longrightarrow>
                 distinct (map (\<lambda>rd. rd_PubKey (the rd)) rds)"
    and I: "inv (alog @ concat (map (\<lambda>i. att_approval action (rds ! i) (rs ! i)) is))
                (plog @ concat (map (\<lambda>i. prop_approval action (rds ! i) (rs ! i)) is)) db"
  shows "inv (alog @ att_approvals action rds rs) (plog @ prop_approvals action rds rs) db"
proof (cases "action = ActionSignBeaconAttestation \<or> action = ActionSignBeaconProposal")
  case True
  let ?key = "\<lambda>i. rd_PubKey (the (rds ! i))"
  have "distinct (map ?key [0..<length rds])" using dist [OF True] by (rule distinct_keys_index)
  moreover have "mset (map ?key is) = mset (map ?key [0..<length rds])" by (simp only: mset_map perm)
  ultimately have keys: "distinct (map ?key is)" using mset_eq_imp_distinct_iff by blast
  show ?thesis
    unfolding att_approvals_def prop_approvals_def approvals_by_index [OF len [symmetric]]
    by (rule inv_permute [OF I mset_concat_map_perm [OF perm] mset_concat_map_perm [OF perm]])
       (rule distinct_by_index [where key = ?key, OF _ _ keys], simp_all add: approval_key approval_single)+
next
  case False
  then have "att_approval action rd r = []" "prop_approval action rd r = []" for rd r
    by (simp_all add: att_approval_def prop_approval_def)
  then have "att_approvals action rds rs = []" "prop_approvals action rds rs = []"
    by (auto simp: att_approvals_def prop_approvals_def concat_eq_Nil_conv)
  then show ?thesis using inv_prefix [OF I] by simp
qed

lemma runRules_scattered:
  assumes fair: "fair_runtime rt" and n: "rds \<noteq> []" and rng: "\<forall>rd \<in> set rds. rd_in_range rd"
    and dist: "action = ActionSignBeaconAttestation \<or> action = ActionSignBeaconProposal \<Longrightarrow>
                 distinct (map (\<lambda>rd. rd_PubKey (the rd)) rds)"
    and path: "\<not> (1 < length rds \<and> action = ActionSignBeaconAttestation)"
  shows "go_triple (inv alog plog) (runRules S rt creds action rds)
    (\<lambda>rs db. length rs = length rds \<and> inv (alog @ att_approvals action rds rs) (plog @ prop_approvals action rds rs) db)
    (inv alog plog)"
proof -
  let ?n = "length rds" and ?order = "scatter_order rt (length rds)"
  have n0: "0 < ?n" using n by simp
  note perm = mset_scatter_order [OF fair, of ?n]
  have dist_order: "distinct ([] @ ?order)"
    using perm mset_eq_imp_distinct_iff [of ?order "[0..<?n]"] by simp
  have order: "\<forall>i \<in> set ?order. i < ?n \<and> rd_in_range (rds ! i)"
    using set_scatter_order [OF fair, of ?n] rng by auto
  have loop: "go_triple (\<lambda>(db, rs). inv alog plog db \<and> rs = replicate ?n UNKNOWN)
     (go_for ?order (run_entry S creds action rds))
     (\<lambda>_ (db, rs). length rs = ?n \<and>
        inv (alog @ att_approvals action rds rs) (plog @ prop_approvals action rds rs) db)
     (\<lambda>(db, rs). inv alog plog db)"
    by (rule go_triple_conseq [OF loop_triple [OF order dist_order, of alog action plog creds]])
       (auto intro: inv_reorder [OF perm _ dist])
  have "go_triple (\<lambda>(db, rs). inv alog plog db \<and> rs = replicate ?n UNKNOWN)
     (Scatter rt (int ?n) (\<lambda>offset entries.
        go_bind (go_for [offset..<offset + entries] (run_entry S creds action rds)) (\<lambda>_. go_return (Inr ()))))
     (\<lambda>_ (db, rs). length rs = ?n \<and>
        inv (alog @ att_approvals action rds rs) (plog @ prop_approvals action rds rs) db)
     (\<lambda>(db, rs). inv alog plog db)"
    unfolding Scatter_loop [OF n0]
    by (rule go_triple_bind [OF loop], rule go_triple_return)
  then have "go_triple (inv alog plog) (go_local (replicate ?n UNKNOWN) (Scatter rt (int ?n) (\<lambda>offset entries.
        go_bind (go_for [offset..<offset + entries] (run_entry S creds action rds)) (\<lambda>_. go_return (Inr ())))))
     (\<lambda>(_, rs) db. length rs = ?n \<and> inv (alog @ att_approvals action rds rs) (plog @ prop_approvals action rds rs) db)
     (inv alog plog)"
    by (intro go_triple_local) (simp add: case_prod_beta)
  with path show ?thesis
    by (auto simp: runRules_def Let_def split: prod.splits intro!: go_triple_bind go_triple_return)
qed

text \<open>The batch of attestations: prepared entries are passed on one by one.\<close>

lemma att_news_prepared:
  assumes "length mds = length rds" "length reqs = length rds" "\<forall>j < length rds. prepared creds rds mds reqs j"
  shows "att_news mds reqs rs = att_approvals ActionSignBeaconAttestation rds rs"
  using assms
proof (induction mds reqs rs arbitrary: rds rule: att_news.induct)
  case (1 md mds req reqs res rs)
  then obtain rd rds' where rds: "rds = rd # rds'" by (cases rds) auto
  have tl: "\<forall>j < length rds'. prepared creds rds' mds reqs j"
  proof (intro allI impI)
    fix j assume "j < length rds'"
    with "1.prems"(3) rds have "prepared creds rds (md # mds) (req # reqs) (Suc j)" by simp
    then show "prepared creds rds' mds reqs j" by (simp add: prepared_def rds)
  qed
  have "prepared creds rds (md # mds) (req # reqs) 0" using "1.prems" rds by simp
  then have "att_approval ActionSignBeaconAttestation rd res = (if res = APPROVED then att_entry md req else [])"
    by (auto simp: prepared_def rds att_approval_def att_entry_def assembleMetadata_def split: option.splits if_splits)
  with "1.IH" [of rds'] "1.prems" tl show ?case by (simp add: rds att_approvals_def)
qed (auto simp: att_approvals_def)

lemma prepared_in_range:
  assumes "length reqs = length rds" "\<forall>j < length rds. prepared creds rds mds reqs j" "\<forall>rd \<in> set rds. rd_in_range rd"
  shows "\<forall>req \<in> set reqs. att_in_range req"
proof
  fix req assume "req \<in> set reqs"
  then obtain j where "j < length rds" "reqs ! j = req" using assms(1) by (metis in_set_conv_nth)
  then have "prepared creds rds mds reqs j" and rng: "rd_in_range (rds ! j)" using assms(2,3) by auto
  then obtain rd where "rds ! j = Some rd" "rd_Data rd = Some (AnySignBeaconAttestationData req)"
    using \<open>reqs ! j = req\<close> by (auto simp: prepared_def)
  with rng show "att_in_range req" by (simp add: rd_in_range_def)
qed

lemma runRules_multiple:
  assumes fair: "fair_runtime rt" and n: "rds \<noteq> []" and rng: "\<forall>rd \<in> set rds. rd_in_range rd"
    and dist: "distinct (map (\<lambda>rd. rd_PubKey (the rd)) rds)"
  shows "go_triple (inv alog plog) (runRulesForMultipleBeaconAttestations S rt creds rds)
    (\<lambda>rs. inv (alog @ att_approvals ActionSignBeaconAttestation rds rs) plog) (inv alog plog)"
proof -
  let ?n = "length rds" and ?P = "inv alog plog"
  have run: "go_triple (\<lambda>db. prep_inv ?P creds rds {..<?n} (db, rs, mds, reqs))
      (if list_ex (\<lambda>r. r = FAILED) rs then go_return rs else OnSignBeaconAttestations S mds reqs)
      (\<lambda>rs. inv (alog @ att_approvals ActionSignBeaconAttestation rds rs) plog) ?P" for rs mds reqs
  proof (cases "FAILED \<in> set rs")
    case True
    have "att_approvals ActionSignBeaconAttestation rds rs = []" if "set rs \<subseteq> {UNKNOWN, FAILED}"
      using that by (fastforce simp: att_approvals_def concat_eq_Nil_conv dest: set_zip_rightD)
    with True show ?thesis by (auto simp: list_ex_iff prep_inv_def intro!: go_triple_return)
  next
    case False
    show ?thesis
    proof (cases "length mds = ?n \<and> length reqs = ?n \<and> (\<forall>j < ?n. prepared creds rds mds reqs j)")
      case True
      have "distinct (map (\<lambda>md. md_PubKey (the md)) mds)" using True dist prepared_keys by metis
      from triple_OnSignBeaconAttestations [OF _ this, of reqs alog plog] True prepared_in_range [OF _ _ rng]
      have "go_triple ?P (OnSignBeaconAttestations S mds reqs) (\<lambda>rs. inv (alog @ att_news mds reqs rs) plog) ?P" by blast
      with False True att_news_prepared [of mds rds reqs creds] show ?thesis
        by (auto simp: list_ex_iff prep_inv_def elim!: go_triple_conseq)
    next
      case bad: False
      with False show ?thesis by (auto simp: prep_inv_def go_triple_def)
    qed
  qed
  show ?thesis unfolding runRulesForMultipleBeaconAttestations_def Let_def
    by (rule go_triple_bind [OF prepare_batch [OF fair n]]) (auto intro: run)
qed

lemma runRules_triple:
  assumes fair: "fair_runtime rt" and n: "rds \<noteq> []" and rng: "\<forall>rd \<in> set rds. rd_in_range rd"
    and dist: "action = ActionSignBeaconAttestation \<or> action = ActionSignBeaconProposal \<Longrightarrow>
                 distinct (map (\<lambda>rd. rd_PubKey (the rd)) rds)"
  shows "go_triple (inv alog plog) (runRules S rt creds action rds)
    (\<lambda>rs. inv (alog @ att_approvals action rds rs) (plog @ prop_approvals action rds rs)) (inv alog plog)"
proof (cases "1 < length rds \<and> action = ActionSignBeaconAttestation")
  case True
  then have "runRules S rt creds action rds = runRulesForMultipleBeaconAttestations S rt creds rds"
    by (simp add: runRules_def)
  moreover have "prop_approvals ActionSignBeaconAttestation rds rs = []" for rs
    by (auto simp: prop_approvals_def prop_approval_def actions_distinct concat_eq_Nil_conv)
  ultimately show ?thesis using runRules_multiple [OF fair n rng] dist True by simp
next
  case False
  show ?thesis
    by (rule go_triple_conseq [OF runRules_scattered [OF fair n rng _ False]]) (use dist in auto)
qed

end

section \<open>The entry point\<close>

text \<open>No key is held and nobody is taking locks: the state between calls of one caller.\<close>

definition quiet :: "'db ruler_state \<Rightarrow> bool" where
  "quiet s \<longleftrightarrow> \<not> newLockMutex (ruler_locker s) \<and> \<not> mapLock (ruler_locker s) \<and> held_keys (ruler_locker s) = {}"

lemma lock_keys_quiet:
  assumes "quiet s" and "distinct keys"
  shows "\<exists>s'. on_locker (lock_keys keys) s = (Ret (), s') \<and> ruler_db s' = ruler_db s \<and>
    \<not> newLockMutex (ruler_locker s') \<and> \<not> mapLock (ruler_locker s') \<and> held_keys (ruler_locker s') = set keys"
proof -
  from syncmap.lock_group [of "ruler_locker s" keys] assms
  obtain l where "lock_keys keys (ruler_locker s) = (Ret (), l)" "\<not> newLockMutex l" "\<not> mapLock l" "held_keys l = set keys"
    by (auto simp: quiet_def lock_keys_def)
  then show ?thesis by (simp add: on_locker_def go_zoom_def)
qed

lemma unlock_keys_quiet:
  assumes "\<not> newLockMutex (ruler_locker s)" "\<not> mapLock (ruler_locker s)" "held_keys (ruler_locker s) = set keys" "distinct keys"
  shows "\<exists>s'. on_locker (unlock_keys keys) s = (Ret (), s') \<and> ruler_db s' = ruler_db s \<and> quiet s'"
proof -
  from syncmap.unlock_list [of "ruler_locker s" "rev keys"] assms
  obtain l where "unlock_keys keys (ruler_locker s) = (Ret (), l)" "\<not> newLockMutex l" "\<not> mapLock l" "held_keys l = {}"
    by (auto simp: unlock_keys_def)
  then show ?thesis by (simp add: on_locker_def go_zoom_def quiet_def)
qed

lemma check_pubkeys_None:
  "check_pubkeys seen pks = None \<longleftrightarrow>
     (\<forall>pk \<in> set pks. pk \<noteq> []) \<and> distinct (map (copyN 48) pks) \<and> set (map (copyN 48) pks) \<inter> set seen = {}"
  by (induction pks arbitrary: seen) auto

lemma distinct_of_copies: "distinct (map (copyN 48) pks) \<Longrightarrow> distinct pks"
  by (simp add: distinct_map)

lemma first_index_bound: "first_index P xs = Some i \<Longrightarrow> i < length xs"
  by (induction xs arbitrary: i) (auto split: if_splits)

lemma check_pubkeys_bound: "check_pubkeys seen pks = Some i \<Longrightarrow> i < length pks"
  by (induction pks arbitrary: seen i) (auto split: if_splits)

lemma refused_results:
  assumes "i < n"
  shows "set ((replicate n UNKNOWN)[i := FAILED]) \<subseteq> {UNKNOWN, FAILED}"
    and "FAILED \<in> set ((replicate n UNKNOWN)[i := FAILED])" and "length ((replicate n UNKNOWN)[i := FAILED]) = max 1 n"
  using assms set_update_subset_insert [of "replicate n UNKNOWN" i FAILED] by (auto simp: set_update_memI)

text \<open>The locked part of a call: its own keys are locked, the rules run, the keys are freed.\<close>

lemma locked_run:
  assumes q: "quiet s" and dk: "distinct keys"
    and go: "go_bind (on_locker (lock_keys keys)) (\<lambda>_. go_bind (on_db m) (\<lambda>results.
               go_bind (on_locker (unlock_keys keys)) (\<lambda>_. go_return results))) s = (out, s')"
  shows "m (ruler_db s) = (out, ruler_db s')" and "out = Ret rs \<Longrightarrow> quiet s'"
proof -
  from lock_keys_quiet [OF q dk] obtain s1 where s1: "on_locker (lock_keys keys) s = (Ret (), s1)"
    "ruler_db s1 = ruler_db s" "\<not> newLockMutex (ruler_locker s1)" "\<not> mapLock (ruler_locker s1)"
    "held_keys (ruler_locker s1) = set keys" by blast
  obtain r db' where r: "m (ruler_db s) = (r, db')" by force
  let ?s2 = "s1\<lparr>ruler_db := db'\<rparr>"
  have s2: "on_db m s1 = (r, ?s2)" using r s1(2) by (simp add: on_db_def go_zoom_def)
  obtain s3 where s3: "on_locker (unlock_keys keys) ?s2 = (Ret (), s3)" "ruler_db s3 = db'" "quiet s3"
    using unlock_keys_quiet [of ?s2 keys] s1 dk by auto
  have "out = r \<and> (s' = s3 \<or> s' = ?s2 \<and> (\<forall>rs. out \<noteq> Ret rs))"
    using go s1(1) s2 s3(1) by (cases r) (auto simp: go_bind_def go_simps)
  with r s3 show "m (ruler_db s) = (out, ruler_db s')" and "out = Ret rs \<Longrightarrow> quiet s'" by auto
qed

text \<open>
  From a quiet state a call is refused without touching the state, or it runs the rules on the
  database with its own keys locked; when it returns, the state is quiet again.
\<close>

lemma RunRules_cases:
  assumes q: "quiet s" and call: "RunRules S rt creds action rds s = (out, s')"
  obtains (refused) rs where "out = Ret rs" "s' = s" "set rs \<subseteq> {UNKNOWN, FAILED}" "FAILED \<in> set rs"
      "length rs = max 1 (length rds)"
  | (run) "rds \<noteq> []" "\<forall>rd \<in> set rds. rd \<noteq> None \<and> rd_Data (the rd) \<noteq> None"
      "locking_action action \<Longrightarrow> distinct (map (\<lambda>rd. rd_PubKey (the rd)) rds)"
      "runRules S rt creds action rds (ruler_db s) = (out, ruler_db s')"
      "\<And>rs. out = Ret rs \<Longrightarrow> quiet s'"
proof -
  let ?n = "length rds" and ?pks = "map (\<lambda>rd. rd_PubKey (the rd)) rds" and ?bad = "\<lambda>rd. rd = None \<or> rd_Data (the rd) = None"
  have ref: thesis if "i < ?n" "RunRules S rt creds action rds = go_return ((replicate ?n UNKNOWN)[i := FAILED])" for i
    using that call refused_results [OF that(1)] by (intro refused) (auto simp: go_simps)
  consider (empty) "rds = []"
    | (bad) i where "rds \<noteq> []" "first_index ?bad rds = Some i"
    | (free) "rds \<noteq> []" "first_index ?bad rds = None" "\<not> locking_action action"
    | (dup) i where "rds \<noteq> []" "first_index ?bad rds = None" "locking_action action" "check_pubkeys [] ?pks = Some i"
    | (lock) "rds \<noteq> []" "first_index ?bad rds = None" "locking_action action" "check_pubkeys [] ?pks = None"
    by fastforce
  then show thesis
  proof cases
    case empty
    with call have "out = Ret [FAILED]" "s' = s" by (auto simp: RunRules_def go_simps)
    with empty refused show ?thesis by simp
  next
    case bad
    then show ?thesis using first_index_bound [OF bad(2)] by (intro ref) (auto simp: RunRules_def)
  next
    case dup
    then show ?thesis using check_pubkeys_bound [OF dup(4)] by (intro ref) (auto simp: RunRules_def)
  next
    case free
    with call have "on_db (runRules S rt creds action rds) s = (out, s')" by (simp add: RunRules_def)
    then have "runRules S rt creds action rds (ruler_db s) = (out, ruler_db s')" "quiet s'"
      using q by (auto simp: on_db_def go_zoom_def quiet_def split: prod.splits)
    with free show ?thesis by (intro run) (auto simp: first_index_None)
  next
    case lock
    from lock(4) have dk: "distinct (map (copyN 48) ?pks)" by (simp only: check_pubkeys_None)
    from lock call have "go_bind (on_locker (lock_keys (map (copyN 48) ?pks))) (\<lambda>_.
        go_bind (on_db (runRules S rt creds action rds)) (\<lambda>results.
          go_bind (on_locker (unlock_keys (map (copyN 48) ?pks))) (\<lambda>_. go_return results))) s = (out, s')"
      by (simp add: RunRules_def Let_def)
    note L = locked_run [OF q dk this]
    show ?thesis
      by (rule run [OF lock(1) _ distinct_of_copies [OF dk] L(1) L(2)]) (use lock(2) in \<open>auto simp: first_index_None\<close>)
  qed
qed

section \<open>The shape of the results\<close>

lemma fetch_states_length:
  "fetchSignBeaconAttestationStates S pks db = (Ret (Inr sts), db') \<Longrightarrow> length sts = length pks"
proof (induction pks arbitrary: sts db db')
  case (Cons pk pks)
  then show ?case by (fastforce simp: go_bind_def go_simps split: prod.splits go.splits sum.splits)
qed (simp add: go_simps)

lemma OnSignBeaconAttestations_length:
  assumes "OnSignBeaconAttestations S mds reqs db = (Ret rs, db')" and "length mds = length reqs"
  shows "length rs = length reqs"
proof (cases "first_index (\<lambda>md. md = None) mds = None \<and> first_index bad_att_req reqs = None")
  case False
  with assms show ?thesis by (auto simp: OnSignBeaconAttestations_def Let_def go_simps split: option.splits)
next
  case True
  let ?pks = "map (\<lambda>md. md_PubKey (the md)) mds"
  from assms True obtain f db1 where f: "fetchSignBeaconAttestationStates S ?pks db = (Ret f, db1)"
    by (auto simp: OnSignBeaconAttestations_def Let_def elim!: go_bind_RetE)
  show ?thesis
  proof (cases f)
    case (Inl e)
    with assms True f show ?thesis by (auto simp: OnSignBeaconAttestations_def Let_def go_bind_def go_simps)
  next
    case (Inr sts)
    with f have "length sts = length mds" using fetch_states_length by fastforce
    with assms True f Inr run_all_checks_nth [of "rules_lib S" mds reqs sts] show ?thesis
      by (auto simp: OnSignBeaconAttestations_def Let_def go_bind_def go_simps split: go.splits prod.splits option.splits)
  qed
qed

lemma prep_scatter_lengths:
  assumes fair: "fair_runtime rt" and ne: "rds \<noteq> []"
  shows "go_triple (\<lambda>_. True) (go_local (replicate (length rds) UNKNOWN, replicate (length rds) None, replicate (length rds) None)
       (Scatter rt (int (length rds)) (\<lambda>offset entries. go_bind (prep_entries creds rds [offset..<offset + entries]) (\<lambda>_. go_return (Inr ())))))
     (\<lambda>(_, rs, mds, reqs) _. length rs = length rds \<and> length mds = length rds \<and> length reqs = length rds) (\<lambda>_. True)"
proof -
  let ?I = "\<lambda>D :: nat set. prep_inv (\<lambda>_. True) creds rds {}"
  have T: "go_triple (?I {}) (Scatter rt (int (length rds)) (\<lambda>offset entries.
      go_bind (prep_entries creds rds [offset..<offset + entries]) (\<lambda>_. go_return (Inr ()))))
      (\<lambda>_. ?I {..<workers rt (length rds)}) (\<lambda>(db, l). True)"
  proof (rule Scatter_triple [OF fair])
    fix w and D :: "nat set" assume w: "w < workers rt (length rds)"
    have "go_triple (?I D) (prep_entries creds rds (extent rt (length rds) w)) (\<lambda>_. ?I (insert w D)) (\<lambda>(db, l). True)"
      by (rule go_triple_conseq [OF prep_entries_triple [where J = "{}"]])
         (use extent_bound [OF w] in \<open>auto simp: prep_inv_def\<close>)
    then show "go_triple (?I D) (go_bind (prep_entries creds rds
        [offset_of rt (length rds) w..<offset_of rt (length rds) w + entries_of rt (length rds) w]) (\<lambda>_. go_return (Inr ())))
        (\<lambda>_. ?I (insert w D)) (\<lambda>(db, l). True)"
      unfolding extent_def by (rule go_triple_bind) (rule go_triple_return)
  qed (use ne in simp)
  show ?thesis
    by (rule go_triple_local, rule go_triple_conseq [OF T]) (auto simp: prep_inv_def)
qed

lemma run_entry_length:
  "go_triple (\<lambda>(db, rs). length rs = n) (run_entry S creds action rds i) (\<lambda>_ (db, rs). length rs = n) (\<lambda>_. True)"
proof -
  have "go_triple (\<lambda>(db, rs). length rs = n) (go_on_fst m) (\<lambda>_ (db, rs). length rs = n) (\<lambda>_. True)"
    for m :: "('db, rules_result) op"
    by (auto simp: go_triple_def go_on_fst_def split: prod.splits go.splits)
  then show ?thesis
    by (auto simp: run_entry_def intro!: go_triple_return go_triple_update go_triple_bind split: option.split sum.split)
qed

lemma runRules_length:
  assumes fair: "fair_runtime rt" and ne: "rds \<noteq> []"
  shows "go_triple (\<lambda>_. True) (runRules S rt creds action rds) (\<lambda>rs _. length rs = length rds) (\<lambda>_. True)"
proof (cases "1 < length rds \<and> action = ActionSignBeaconAttestation")
  case True
  have "go_triple (\<lambda>_. length rs = length rds \<and> length mds = length rds \<and> length reqs = length rds)
      (if list_ex (\<lambda>r. r = FAILED) rs then go_return rs else OnSignBeaconAttestations S mds reqs)
      (\<lambda>rs _. length rs = length rds) (\<lambda>_. True)" for rs mds reqs
    by (auto simp: go_triple_def go_simps dest: OnSignBeaconAttestations_length split: prod.split go.split)
  with True show ?thesis
    by (auto simp: runRules_def runRulesForMultipleBeaconAttestations_def Let_def
        intro!: go_triple_bind [OF prep_scatter_lengths [OF fair ne]])
next
  case False
  have "go_triple (\<lambda>_. True) (go_local (replicate (length rds) UNKNOWN) (Scatter rt (int (length rds)) (\<lambda>offset entries.
      go_bind (go_for [offset..<offset + entries] (run_entry S creds action rds)) (\<lambda>_. go_return (Inr ())))))
      (\<lambda>(_, rs) _. length rs = length rds) (\<lambda>_. True)"
    by (rule go_triple_local, rule go_triple_conseq [OF scatter_inv [OF fair run_entry_length [of "length rds"]]]) auto
  with False show ?thesis
    by (auto simp: runRules_def Let_def intro!: go_triple_bind go_triple_return)
qed

text \<open>One result per request, and approvals only of requests that are there.\<close>

lemma RunRules_shape:
  assumes fair: "fair_runtime rt" and q: "quiet s" and call: "RunRules S rt creds action rds s = (Ret rs, s')"
  shows "length rs = max 1 (length rds)" and "j < length rs \<Longrightarrow> rs ! j = APPROVED \<Longrightarrow> j < length rds \<and> rds ! j \<noteq> None"
proof -
  have "length rs = max 1 (length rds) \<and> (\<forall>j < length rs. rs ! j = APPROVED \<longrightarrow> j < length rds \<and> rds ! j \<noteq> None)"
  proof (cases rule: RunRules_cases [OF q call])
    case (1 rs')
    then have "rs ! j \<noteq> APPROVED" if "j < length rs" for j
      using nth_mem [OF that] by auto
    with 1 show ?thesis by auto
  next
    case 2
    with go_tripleD_Ret [OF runRules_length [OF fair 2(1)]] have "length rs = length rds" by fastforce
    with 2 show ?thesis by (auto simp: max_def Suc_le_eq)
  qed
  then show "length rs = max 1 (length rds)" and "j < length rs \<Longrightarrow> rs ! j = APPROVED \<Longrightarrow> j < length rds \<and> rds ! j \<noteq> None" by auto
qed

end
