(* ===== verification/Serving.thy ===== *)
theory Serving
  imports Ruler_Safety
begin

text \<open>
  The ruler over its lifetime: a sequence of calls, of any clients, actions and batches, with any
  failures of the database in between. A call that panics ends the process; the next call is then
  made to a new process, which has the same database and a fresh locker.
\<close>

record call =
  call_runtime :: go_runtime
  call_creds :: "credentials option"
  call_action :: string
  call_data :: "rules_data option list"

fun serve :: "'db rules_service \<Rightarrow> call list \<Rightarrow> 'db ruler_state \<Rightarrow> rules_result list option list \<times> 'db ruler_state" where
  "serve S [] s = ([], s)"
| "serve S (c # cs) s =
     (case RunRules S (call_runtime c) (call_creds c) (call_action c) (call_data c) s of
        (Ret rs, s') \<Rightarrow> (case serve S cs s' of (outs, t) \<Rightarrow> (Some rs # outs, t))
      | (_, s') \<Rightarrow> (case serve S cs (s'\<lparr>ruler_locker := new_locker\<rparr>) of (outs, t) \<Rightarrow> (None # outs, t)))"

text \<open>The messages that were approved, oldest first.\<close>

fun att_log :: "call list \<Rightarrow> rules_result list option list \<Rightarrow> (bytes \<times> int \<times> int) list" where
  "att_log (c # cs) (Some rs # outs) = att_approvals (call_action c) (call_data c) rs @ att_log cs outs"
| "att_log (c # cs) (None # outs) = att_log cs outs"
| "att_log cs outs = []"

fun prop_log :: "call list \<Rightarrow> rules_result list option list \<Rightarrow> (bytes \<times> int) list" where
  "prop_log (c # cs) (Some rs # outs) = prop_approvals (call_action c) (call_data c) rs @ prop_log cs outs"
| "prop_log (c # cs) (None # outs) = prop_log cs outs"
| "prop_log cs outs = []"

text \<open>Calls under a runtime that runs every goroutine, with epochs and slots below \<open>2 ^ 63\<close>.\<close>

definition good_call :: "call \<Rightarrow> bool" where
  "good_call c \<longleftrightarrow> fair_runtime (call_runtime c) \<and> (\<forall>rd \<in> set (call_data c). rd_in_range rd)"

lemma quiet_new_locker: "quiet (s\<lparr>ruler_locker := new_locker\<rparr>)"
  by (simp add: quiet_def new_locker_def held_keys_def)

lemma approvals_refused:
  assumes "set rs \<subseteq> {UNKNOWN, FAILED}"
  shows "att_approvals a rds rs = []" and "prop_approvals a rds rs = []"
  using assms by (fastforce simp: att_approvals_def prop_approvals_def concat_eq_Nil_conv dest: set_zip_rightD)+

context standard_rules
begin

lemma RunRules_inv:
  assumes q: "quiet s" and call: "RunRules S rt creds action rds s = (out, s')"
    and fair: "fair_runtime rt" and rng: "\<forall>rd \<in> set rds. rd_in_range rd" and I: "inv alog plog (ruler_db s)"
  shows "out = Ret rs \<Longrightarrow> inv (alog @ att_approvals action rds rs) (plog @ prop_approvals action rds rs) (ruler_db s')"
    and "out = Ret rs \<Longrightarrow> quiet s'" and "(\<And>rs. out \<noteq> Ret rs) \<Longrightarrow> inv alog plog (ruler_db s')"
proof -
  have "(\<forall>rs. out = Ret rs \<longrightarrow> quiet s' \<and>
            inv (alog @ att_approvals action rds rs) (plog @ prop_approvals action rds rs) (ruler_db s')) \<and>
        ((\<forall>rs. out \<noteq> Ret rs) \<longrightarrow> inv alog plog (ruler_db s'))"
  proof (cases rule: RunRules_cases [OF q call])
    case (1 rs)
    with I q show ?thesis by (simp add: approvals_refused)
  next
    case 2
    have T: "go_triple (inv alog plog) (runRules S rt creds action rds)
      (\<lambda>rs. inv (alog @ att_approvals action rds rs) (plog @ prop_approvals action rds rs)) (inv alog plog)"
      by (rule runRules_triple [OF fair 2(1) rng]) (use 2(3) in \<open>auto simp: locking_action_def\<close>)
    from T I 2(4,5) show ?thesis
      by (auto dest: go_tripleD_Ret go_tripleD_stop)
  qed
  then show "out = Ret rs \<Longrightarrow> inv (alog @ att_approvals action rds rs) (plog @ prop_approvals action rds rs) (ruler_db s')"
    and "out = Ret rs \<Longrightarrow> quiet s'" and "(\<And>rs. out \<noteq> Ret rs) \<Longrightarrow> inv alog plog (ruler_db s')" by auto
qed

lemma serve_inv:
  "\<forall>c \<in> set cs. good_call c \<Longrightarrow> quiet s \<Longrightarrow> inv alog plog (ruler_db s) \<Longrightarrow> serve S cs s = (outs, s') \<Longrightarrow>
     inv (alog @ att_log cs outs) (plog @ prop_log cs outs) (ruler_db s')"
proof (induction cs arbitrary: s alog plog outs)
  case (Cons c cs)
  obtain out s1 where call: "RunRules S (call_runtime c) (call_creds c) (call_action c) (call_data c) s = (out, s1)"
    by force
  have g: "fair_runtime (call_runtime c)" "\<forall>rd \<in> set (call_data c). rd_in_range rd"
    using Cons.prems(1) by (simp_all add: good_call_def)
  note R = RunRules_inv [OF Cons.prems(2) call g Cons.prems(3)]
  show ?case
  proof (cases "\<exists>rs. out = Ret rs")
    case True
    then obtain rs where rs: "out = Ret rs" by blast
    from Cons.prems(4) call rs obtain outs1 where o: "outs = Some rs # outs1" "serve S cs s1 = (outs1, s')"
      by (auto split: prod.splits)
    from Cons.IH [OF _ R(2) [OF rs] R(1) [OF rs] o(2)] Cons.prems(1) o(1) show ?thesis by simp
  next
    case False
    with Cons.prems(4) call obtain outs1 where o: "outs = None # outs1" "serve S cs (s1\<lparr>ruler_locker := new_locker\<rparr>) = (outs1, s')"
      by (auto split: prod.splits go.splits)
    have "inv alog plog (ruler_db (s1\<lparr>ruler_locker := new_locker\<rparr>))" using R(3) False by simp
    from Cons.IH [OF _ quiet_new_locker this o(2)] Cons.prems(1) o(1) show ?thesis by simp
  qed
qed simp

lemma inv_start: "inv [] [] db"
  by (simp add: inv_def att.safe_Nil pro.safe_Nil)

end

lemma ordered_logD:
  assumes "ordered_log follows log" and "i < j" and "j < length log" and "log ! i = (pk, r)" and "log ! j = (pk, r')"
  shows "follows r r'"
  using assms sorted_wrt_nth_less [of _ log i j] by (fastforce simp: ordered_log_def)

end
