(* ===== verification/Samples.thy ===== *)
theory Samples
  imports Serving
begin

text \<open>
  Concrete services, runtimes and requests, on which the theorems are applied. The database is the
  one in memory; the domain types are those of the Ethereum consensus specification.
\<close>

definition sample_lib :: rules_lib where
  "sample_lib = \<lparr>DomainBeaconAttester = [1, 0, 0, 0], DomainBeaconProposer = [0, 0, 0, 0],
     DomainVoluntaryExit = [4, 0, 0, 0], gob_att = (\<lambda>_ _. Inl ''EOF''), gob_prop = (\<lambda>_ _. Inl ''EOF'')\<rparr>"

definition sample_rules :: "mem_db rules_service" where
  "sample_rules = \<lparr>rules_store = mem_badger, adminIPs = [''10.0.0.1''], rules_lib = sample_lib\<rparr>"

text \<open>Two processors, goroutines run in reverse order.\<close>

definition sample_runtime :: go_runtime where
  "sample_runtime = \<lparr>GOMAXPROCS = 2, schedule = (\<lambda>w. rev [0..<w])\<rparr>"

definition sample_state :: "mem_db ruler_state" where
  "sample_state = \<lparr>ruler_db = \<lparr>mem_items = [], mem_broken = False\<rparr>, ruler_locker = new_locker\<rparr>"

definition sample_creds :: credentials where
  "sample_creds = \<lparr>cr_RequestID = ''1'', cr_Client = ''client1'', cr_IP = ''10.0.0.1''\<rparr>"

definition sample_att :: "u64 \<Rightarrow> u64 \<Rightarrow> att_data" where
  "sample_att s t = \<lparr>ad_Domain = Some (Slice (1 # replicate 31 0) []), ad_Slot = 32 * t, ad_CommitteeIndex = 0,
     ad_BeaconBlockRoot = Some (replicate 32 7),
     ad_Source = Some \<lparr>cp_Epoch = s, cp_Root = Some (replicate 32 8)\<rparr>,
     ad_Target = Some \<lparr>cp_Epoch = t, cp_Root = Some (replicate 32 9)\<rparr>\<rparr>"

definition sample_prop :: "u64 \<Rightarrow> prop_data" where
  "sample_prop slot = \<lparr>pd_Domain = Some (Slice (replicate 32 0) []), pd_Slot = slot, pd_ProposerIndex = 1,
     pd_ParentRoot = Some (replicate 32 7), pd_StateRoot = Some (replicate 32 8), pd_BodyRoot = Some (replicate 32 9)\<rparr>"

definition sample_rd :: "byte \<Rightarrow> any_data \<Rightarrow> rules_data option" where
  "sample_rd k d = Some \<lparr>rd_WalletName = ''Wallet'', rd_AccountName = ''Account'', rd_PubKey = replicate 48 k, rd_Data = Some d\<rparr>"

definition sample_att_call :: "(byte \<times> u64 \<times> u64) list \<Rightarrow> call" where
  "sample_att_call xs = \<lparr>call_runtime = sample_runtime, call_creds = Some sample_creds,
     call_action = ActionSignBeaconAttestation,
     call_data = map (\<lambda>(k, s, t). sample_rd k (AnySignBeaconAttestationData (Some (sample_att s t)))) xs\<rparr>"

definition sample_prop_call :: "byte \<Rightarrow> u64 \<Rightarrow> call" where
  "sample_prop_call k slot = \<lparr>call_runtime = sample_runtime, call_creds = Some sample_creds,
     call_action = ActionSignBeaconProposal,
     call_data = [sample_rd k (AnySignBeaconProposalData (Some (sample_prop slot)))]\<rparr>"

lemma sample_runtime_fair: "fair_runtime sample_runtime"
  by (simp add: fair_runtime_def sample_runtime_def)

interpretation sample: standard_rules sample_rules mem_contents
  unfolding standard_rules_def sample_rules_def by (simp add: mem.badger_laws_axioms)

lemma sample_state_quiet: "quiet sample_state"
  using quiet_new_locker [of sample_state] by (simp add: sample_state_def)

lemma sample_good_calls:
  "good_call (sample_prop_call k n)" if "uint n < 2 ^ 63"
  using that by (simp add: good_call_def sample_prop_call_def sample_runtime_fair rd_in_range_def sample_rd_def
    prop_in_range_def att_in_range_def sample_prop_def)

lemma sample_good_att_calls:
  "\<forall>(k, s, t) \<in> set xs. uint s < 2 ^ 63 \<and> uint t < 2 ^ 63 \<Longrightarrow> good_call (sample_att_call xs)"
  by (fastforce simp: good_call_def sample_att_call_def sample_runtime_fair rd_in_range_def sample_rd_def
    att_in_range_def prop_in_range_def att_epochs_def sample_att_def)

definition sample_calls :: "call list" where
  "sample_calls = [sample_att_call [(1, 3, 4), (2, 3, 5)], sample_att_call [(1, 3, 4)],
     sample_att_call [(1, 4, 6), (2, 2, 7)], sample_prop_call 1 100, sample_prop_call 1 101]"

lemma sample_calls_good: "\<forall>c \<in> set sample_calls. good_call c"
  by (simp add: sample_calls_def sample_good_calls sample_good_att_calls)

lemma sample_outs:
  "fst (serve sample_rules sample_calls sample_state) =
     [Some [APPROVED, APPROVED], Some [DENIED], Some [APPROVED, DENIED], Some [APPROVED], Some [APPROVED]]"
  by code_simp

lemma sample_att_log:
  "att_log sample_calls (fst (serve sample_rules sample_calls sample_state)) =
     [(replicate 48 1, 3, 4), (replicate 48 2, 3, 5), (replicate 48 1, 4, 6)]"
  unfolding sample_outs by code_simp

end
