(* ===== verification/Wallets.thy ===== *)
theory Wallets
  imports Go_Strings
begin

text \<open>
  What the services take from the wallet packages (\<open>go-eth2-wallet\<close> and the types of
  \<open>go-eth2-wallet-types\<close>): wallets and accounts are handles of types \<open>'wal\<close> and \<open>'acc\<close>, their
  mutable state (what is unlocked) lives in a state of type \<open>'s\<close>, and the calls the services make
  are the fields of a record. Type assertions such as \<open>account.(e2wtypes.AccountLocker)\<close> are
  Boolean fields. The result codes of \<open>core/result.go\<close> are here too.
\<close>

datatype core_result = ResultUnknown | ResultSucceeded | ResultDenied | ResultFailed

fun core_result_String :: "core_result \<Rightarrow> string" where
  "core_result_String ResultUnknown = ''Unknown''"
| "core_result_String ResultSucceeded = ''Succeeded''"
| "core_result_String ResultDenied = ''Denied''"
| "core_result_String ResultFailed = ''Failed''"

record ('s, 'wal, 'acc) wallet_lib =
  WalletAndAccountNames :: "string \<Rightarrow> err + string \<times> string"
  wal_Name :: "'wal \<Rightarrow> string"
  wal_Type :: "'wal \<Rightarrow> string"
  wal_is_locker :: "'wal \<Rightarrow> bool"
  wal_Unlock :: "'wal \<Rightarrow> bytes option \<Rightarrow> ('s, err option) op"
  wal_Lock :: "'wal \<Rightarrow> ('s, err option) op"
  acc_Name :: "'acc \<Rightarrow> string"
  acc_is_pubkey_provider :: "'acc \<Rightarrow> bool"
  acc_PublicKey :: "'acc \<Rightarrow> bytes"
  acc_CompositePublicKey :: "'acc \<Rightarrow> bytes option"
  acc_is_locker :: "'acc \<Rightarrow> bool"
  acc_IsUnlocked :: "'acc \<Rightarrow> ('s, err + bool) op"
  acc_Unlock :: "'acc \<Rightarrow> bytes option \<Rightarrow> ('s, err option) op"
  acc_Lock :: "'acc \<Rightarrow> ('s, err option) op"
  acc_is_signer :: "'acc \<Rightarrow> bool"
  acc_Sign :: "'acc \<Rightarrow> bytes \<Rightarrow> ('s, err + bytes) op"

text \<open>The same calls made on a larger state that has the wallets' state as a part.\<close>

definition lift_lib ::
  "('t \<Rightarrow> 's) \<Rightarrow> ('s \<Rightarrow> 't \<Rightarrow> 't) \<Rightarrow> ('s, 'wal, 'acc) wallet_lib \<Rightarrow> ('t, 'wal, 'acc) wallet_lib" where
  "lift_lib get put W = \<lparr>
     WalletAndAccountNames = WalletAndAccountNames W,
     wal_Name = wal_Name W, wal_Type = wal_Type W, wal_is_locker = wal_is_locker W,
     wal_Unlock = (\<lambda>w p. go_zoom get put (wal_Unlock W w p)),
     wal_Lock = (\<lambda>w. go_zoom get put (wal_Lock W w)),
     acc_Name = acc_Name W, acc_is_pubkey_provider = acc_is_pubkey_provider W,
     acc_PublicKey = acc_PublicKey W, acc_CompositePublicKey = acc_CompositePublicKey W,
     acc_is_locker = acc_is_locker W,
     acc_IsUnlocked = (\<lambda>a. go_zoom get put (acc_IsUnlocked W a)),
     acc_Unlock = (\<lambda>a p. go_zoom get put (acc_Unlock W a p)),
     acc_Lock = (\<lambda>a. go_zoom get put (acc_Lock W a)),
     acc_is_signer = acc_is_signer W,
     acc_Sign = (\<lambda>a r. go_zoom get put (acc_Sign W a r))\<rparr>"

text \<open>\<open>fmt.Sprintf("%s/%s", wallet.Name(), account.Name())\<close>.\<close>

definition account_path :: "string \<Rightarrow> string \<Rightarrow> string" where
  "account_path w a = w @ ''/'' @ a"

text \<open>\<open>[]byte(s)\<close>.\<close>

definition string_bytes :: "string \<Rightarrow> bytes" where
  "string_bytes s = map (\<lambda>c. word_of_nat (of_char c)) s"

end
