(* ===== verification/Checker.thy ===== *)
theory Checker
  imports Ruler Wallets
begin

text \<open>
  Permissions (\<open>services/checker/static\<close>): the configuration is compiled to one list of paths per
  client, and a request is allowed when the first permission that speaks about it grants it.
  Regular expressions are those of the package \<open>regexp\<close>: compilation and matching are parameters.
\<close>

record permissions =
  pm_Path :: string
  pm_Operations :: "string list"

record 're path =
  p_wallet :: 're
  p_account :: 're
  p_operations :: "string list"

record 're regexp_lib =
  re_Compile :: "string \<Rightarrow> err + 're"
  re_MatchString :: "'re \<Rightarrow> string \<Rightarrow> bool"

type_synonym 're access = "string \<Rightarrow> 're path list option"

section \<open>Compiling the configuration\<close>

definition regexify_name :: "string \<Rightarrow> string" where
  "regexify_name name0 =
     (let name1 = (if name0 = [] then ''(?i).*'' else name0);
          name2 = (if HasPrefix name1 ''^'' then name1 else ''^'' @ name1);
          name3 = (if HasSuffix name2 ''$'' then name2 else name2 @ ''$'')
      in if HasPrefix name3 ''(?i)'' then name3 else ''(?i)'' @ name3)"

definition regexify :: "'re regexp_lib \<Rightarrow> string \<Rightarrow> err + 're" where
  "regexify R name = re_Compile R (regexify_name name)"

definition parse_permission ::
  "'re regexp_lib \<Rightarrow> (string \<Rightarrow> err + string \<times> string) \<Rightarrow> permissions \<Rightarrow> err + 're path" where
  "parse_permission R names permission =
     (case names (pm_Path permission) of
        Inl e \<Rightarrow> Inl (''invalid account path '' @ pm_Path permission)
      | Inr (walletName, accountName) \<Rightarrow>
          if walletName = [] then Inl ''wallet cannot be blank''
          else case regexify R walletName of
                 Inl e \<Rightarrow> Inl (''invalid wallet regex '' @ walletName)
               | Inr walletRegex \<Rightarrow>
                   (case regexify R accountName of
                      Inl e \<Rightarrow> Inl (''invalid account regex '' @ accountName)
                    | Inr accountRegex \<Rightarrow>
                        Inr \<lparr>p_wallet = walletRegex, p_account = accountRegex,
                              p_operations = pm_Operations permission\<rparr>))"

fun parse_paths ::
  "'re regexp_lib \<Rightarrow> (string \<Rightarrow> err + string \<times> string) \<Rightarrow> permissions list \<Rightarrow> err + 're path list" where
  "parse_paths R names [] = Inr []"
| "parse_paths R names (p # ps) =
     (case parse_permission R names p of
        Inl e \<Rightarrow> Inl e
      | Inr path \<Rightarrow> (case parse_paths R names ps of Inl e \<Rightarrow> Inl e | Inr paths \<Rightarrow> Inr (path # paths)))"

text \<open>
  \<open>parseAndCheckParameters\<close> ranges over a Go map: the list gives the entries in the order of the
  iteration, with distinct clients.
\<close>

fun parse_access ::
  "'re regexp_lib \<Rightarrow> (string \<Rightarrow> err + string \<times> string) \<Rightarrow> (string \<times> permissions list) list \<Rightarrow>
     're access \<Rightarrow> err + 're access" where
  "parse_access R names [] access = Inr access"
| "parse_access R names ((client, perms) # rest) access =
     (if client = [] then Inl ''invalid client name for permission''
      else if perms = [] then Inl (''client '' @ client @ '' requires at least one permission'')
      else case parse_paths R names perms of
             Inl e \<Rightarrow> Inl e
           | Inr paths \<Rightarrow> parse_access R names rest (access(client \<mapsto> paths)))"

definition checker_New ::
  "'re regexp_lib \<Rightarrow> (string \<Rightarrow> err + string \<times> string) \<Rightarrow> (string \<times> permissions list) list \<Rightarrow> err + 're access" where
  "checker_New R names perms =
     (case parse_access R names perms (\<lambda>_. None) of
        Inl e \<Rightarrow> Inl (wrap_err ''problem with parameters'' e)
      | Inr access \<Rightarrow> Inr access)"

section \<open>Checking\<close>

text \<open>The loop over the operations of one path: \<open>None\<close> when none of them decides.\<close>

fun check_operations :: "string \<Rightarrow> string list \<Rightarrow> bool option" where
  "check_operations operation [] = None"
| "check_operations operation (op1 # ops) =
     (if EqualFold op1 ''none'' \<or> EqualFold op1 (''~'' @ operation) then Some False
      else if EqualFold op1 ''all'' \<or> EqualFold op1 operation then Some True
      else check_operations operation ops)"

fun check_paths :: "'re regexp_lib \<Rightarrow> string \<Rightarrow> string \<Rightarrow> string \<Rightarrow> 're path list \<Rightarrow> bool" where
  "check_paths R walletName accountName operation [] = False"
| "check_paths R walletName accountName operation (path # paths) =
     (if re_MatchString R (p_wallet path) walletName \<and> re_MatchString R (p_account path) accountName
      then case check_operations operation (p_operations path) of
             Some b \<Rightarrow> b
           | None \<Rightarrow> check_paths R walletName accountName operation paths
      else check_paths R walletName accountName operation paths)"

definition Check ::
  "'re regexp_lib \<Rightarrow> (string \<Rightarrow> err + string \<times> string) \<Rightarrow> 're access \<Rightarrow> credentials option \<Rightarrow>
     string \<Rightarrow> string \<Rightarrow> bool" where
  "Check R names access creds account operation =
     (case creds of
        None \<Rightarrow> False
      | Some c \<Rightarrow>
          if cr_Client c = [] then False
          else case names account of
                 Inl e \<Rightarrow> False
               | Inr (walletName, accountName) \<Rightarrow>
                   if walletName = [] then False
                   else case access (cr_Client c) of
                          None \<Rightarrow> False
                        | Some paths \<Rightarrow> check_paths R walletName accountName operation paths)"

section \<open>The decision as a specification\<close>

text \<open>
  The operations of the matching paths are read in order; the first one that speaks about the
  requested operation decides.
\<close>

definition denies :: "string \<Rightarrow> string \<Rightarrow> bool" where
  "denies operation o1 \<longleftrightarrow> EqualFold o1 ''none'' \<or> EqualFold o1 (''~'' @ operation)"

definition grants :: "string \<Rightarrow> string \<Rightarrow> bool" where
  "grants operation o1 \<longleftrightarrow> EqualFold o1 ''all'' \<or> EqualFold o1 operation"

definition path_matches :: "'re regexp_lib \<Rightarrow> string \<Rightarrow> string \<Rightarrow> 're path \<Rightarrow> bool" where
  "path_matches R w a p \<longleftrightarrow> re_MatchString R (p_wallet p) w \<and> re_MatchString R (p_account p) a"

definition first_decision :: "string \<Rightarrow> string list \<Rightarrow> bool" where
  "first_decision operation ops =
     (case find (\<lambda>o1. denies operation o1 \<or> grants operation o1) ops of
        None \<Rightarrow> False | Some o1 \<Rightarrow> \<not> denies operation o1)"

lemma check_operations_find:
  "check_operations operation ops =
     map_option (\<lambda>o1. \<not> denies operation o1) (find (\<lambda>o1. denies operation o1 \<or> grants operation o1) ops)"
  by (induction ops) (auto simp: denies_def grants_def)

lemma find_append: "find P (xs @ ys) = (case find P xs of None \<Rightarrow> find P ys | Some x \<Rightarrow> Some x)"
  by (induction xs) auto

lemma check_paths_decision:
  "check_paths R w a operation paths =
     first_decision operation (concat (map p_operations (filter (path_matches R w a) paths)))"
  by (induction paths)
     (auto simp: first_decision_def check_operations_find path_matches_def find_append split: option.splits)

lemma first_decision_grant:
  "first_decision operation ops \<longleftrightarrow>
     (\<exists>i < length ops. grants operation (ops ! i) \<and> \<not> denies operation (ops ! i) \<and>
        (\<forall>j < i. \<not> denies operation (ops ! j) \<and> \<not> grants operation (ops ! j)))"
proof (cases "find (\<lambda>o1. denies operation o1 \<or> grants operation o1) ops")
  case None
  then have "\<not> first_decision operation ops" by (simp add: first_decision_def)
  moreover have "\<forall>x \<in> set ops. \<not> grants operation x" using None by (simp add: find_None_iff)
  ultimately show ?thesis by auto
next
  case (Some o1)
  then obtain i where i: "i < length ops" "denies operation (ops ! i) \<or> grants operation (ops ! i)" "o1 = ops ! i"
    "\<forall>j < i. \<not> (denies operation (ops ! j) \<or> grants operation (ops ! j))"
    by (auto simp: find_Some_iff)
  have "k = i" if "grants operation (ops ! k)" "\<forall>j < k. \<not> denies operation (ops ! j) \<and> \<not> grants operation (ops ! j)" for k
    using that i by (metis linorder_neqE_nat)
  with i Some show ?thesis by (auto simp: first_decision_def)
qed

lemma parse_access_dom:
  "parse_access R names perms access = Inr access' \<Longrightarrow> dom access' = dom access \<union> fst ` set perms"
  by (induction R names perms access rule: parse_access.induct) (auto split: if_splits sum.splits)

lemma parse_access_client:
  "parse_access R names perms access = Inr access' \<Longrightarrow> distinct (map fst perms) \<Longrightarrow> (client, ps) \<in> set perms \<Longrightarrow>
     \<exists>paths. access' client = Some paths \<and> parse_paths R names ps = Inr paths"
proof (induction R names perms access rule: parse_access.induct)
  case (2 R names client' perms rest access)
  then obtain paths where paths: "parse_paths R names perms = Inr paths"
    and rest: "parse_access R names rest (access(client' \<mapsto> paths)) = Inr access'"
    by (auto split: if_splits sum.splits)
  have keep: "access' client' = Some paths" if "client' \<notin> fst ` set rest"
    using rest that
  proof (induction R names rest "access(client' \<mapsto> paths)" arbitrary: access rule: parse_access.induct)
    case (2 R names c ps rest)
    then show ?case by (auto split: if_splits sum.splits simp: fun_upd_twist)
  qed auto
  have IH: "(client, ps) \<in> set rest \<Longrightarrow> \<exists>paths. access' client = Some paths \<and> parse_paths R names ps = Inr paths"
    using 2 paths rest by (auto split: if_splits simp: fun_upd_def)
  show ?case using "2.prems"(2,3) IH paths keep by auto
qed simp

text \<open>A path that was compiled from a permission: its expressions are those of the two parts of the name.\<close>

definition compiled :: "'re regexp_lib \<Rightarrow> (string \<Rightarrow> err + string \<times> string) \<Rightarrow> permissions \<Rightarrow> 're path \<Rightarrow> bool" where
  "compiled R names pm path \<longleftrightarrow> p_operations path = pm_Operations pm \<and>
     (\<exists>w a. names (pm_Path pm) = Inr (w, a) \<and> w \<noteq> [] \<and> regexify R w = Inr (p_wallet path) \<and> regexify R a = Inr (p_account path))"

lemma parse_paths_compiled: "parse_paths R names ps = Inr paths \<Longrightarrow> list_all2 (compiled R names) ps paths"
proof (induction ps arbitrary: paths)
  case (Cons p ps)
  then obtain path paths' where p: "parse_permission R names p = Inr path" "parse_paths R names ps = Inr paths'"
    "paths = path # paths'" by (auto split: sum.splits)
  from p(1) have "compiled R names p path"
    by (auto simp: parse_permission_def compiled_def split: sum.splits prod.splits if_splits)
  with p Cons.IH show ?case by simp
qed simp

lemma regexify_plain:
  "name \<noteq> [] \<Longrightarrow> \<not> HasPrefix name ''^'' \<Longrightarrow> \<not> HasSuffix name ''$'' \<Longrightarrow> regexify R name = re_Compile R (''(?i)^'' @ name @ ''$'')"
  "regexify R [] = re_Compile R ''(?i)^(?i).*$''"
proof -
  show "regexify R [] = re_Compile R ''(?i)^(?i).*$''" by (simp add: regexify_def regexify_name_def HasPrefix_def HasSuffix_def)
  assume "name \<noteq> []" "\<not> HasPrefix name ''^''" "\<not> HasSuffix name ''$''"
  then show "regexify R name = re_Compile R (''(?i)^'' @ name @ ''$'')"
    by (cases name rule: rev_cases) (auto simp: regexify_def regexify_name_def HasPrefix_def HasSuffix_def Let_def)
qed

end
