(* ===== verification/Fetcher.thy ===== *)
theory Fetcher
  imports Wallets Scatter
begin

text \<open>
  The in-memory fetcher (\<open>services/fetcher/mem\<close>): caches that are filled from the stores when the
  service starts, and a second, writable cache for accounts that are added later. A Go map that is
  ranged over is an association list in the order of the iteration, others are maps.
\<close>

section \<open>State\<close>

record ('wal, 'acc) fetcher =
  pubKeyPaths :: "bytes \<Rightarrow> string option"
  wallets :: "string \<Rightarrow> 'wal option"
  walletAccounts :: "string \<Rightarrow> (string \<times> 'acc) list option"
  rwPubKeyPaths :: "bytes \<Rightarrow> string option"
  rwWalletAccounts :: "string \<Rightarrow> (string \<times> 'acc) list option"

text \<open>\<open>bytesutil.ToBytes48\<close>: padded on the right with zeroes, or cut, to 48 bytes.\<close>

definition ToBytes48 :: "bytes \<Rightarrow> bytes" where
  "ToBytes48 = copyN 48"

section \<open>Look-ups\<close>

definition FetchWallet :: "('s, 'wal, 'acc) wallet_lib \<Rightarrow> ('wal, 'acc) fetcher \<Rightarrow> string \<Rightarrow> err + 'wal" where
  "FetchWallet W f path =
     (case WalletAndAccountNames W path of
        Inl e \<Rightarrow> Inl (wrap_err ''invalid path'' e)
      | Inr (walletName, _) \<Rightarrow>
          (case wallets f walletName of Some wallet \<Rightarrow> Inr wallet | None \<Rightarrow> Inl ''wallet not found''))"

definition cached_account :: "(string \<Rightarrow> (string \<times> 'acc) list option) \<Rightarrow> string \<Rightarrow> string \<Rightarrow> 'acc option" where
  "cached_account cache walletName accountName =
     (case cache walletName of None \<Rightarrow> None | Some accounts \<Rightarrow> map_of accounts accountName)"

definition FetchAccount ::
  "('s, 'wal, 'acc) wallet_lib \<Rightarrow> ('wal, 'acc) fetcher \<Rightarrow> string \<Rightarrow> err + 'wal \<times> 'acc" where
  "FetchAccount W f path =
     (case WalletAndAccountNames W path of
        Inl e \<Rightarrow> Inl (wrap_err ''invalid path'' e)
      | Inr (walletName, accountName) \<Rightarrow>
          (case wallets f walletName of
             None \<Rightarrow> Inl ''failed to find wallet''
           | Some wallet \<Rightarrow>
               (case cached_account (walletAccounts f) walletName accountName of
                  Some account \<Rightarrow> Inr (wallet, account)
                | None \<Rightarrow>
                    (case cached_account (rwWalletAccounts f) walletName accountName of
                       Some account \<Rightarrow> Inr (wallet, account)
                     | None \<Rightarrow> Inl ''failed to find account''))))"

definition FetchAccountByKey ::
  "('s, 'wal, 'acc) wallet_lib \<Rightarrow> ('wal, 'acc) fetcher \<Rightarrow> bytes \<Rightarrow> err + 'wal \<times> 'acc" where
  "FetchAccountByKey W f pubKey =
     (case pubKeyPaths f (ToBytes48 pubKey) of
        Some path \<Rightarrow> FetchAccount W f path
      | None \<Rightarrow>
          (case rwPubKeyPaths f (ToBytes48 pubKey) of
             None \<Rightarrow> Inl ''public key not known''
           | Some path \<Rightarrow> FetchAccount W f path))"

definition FetchAccounts ::
  "('s, 'wal, 'acc) wallet_lib \<Rightarrow> ('wal, 'acc) fetcher \<Rightarrow> string \<Rightarrow> err + (string \<times> 'acc) list" where
  "FetchAccounts W f path =
     (case WalletAndAccountNames W path of
        Inl e \<Rightarrow> Inl (wrap_err ''invalid path'' e)
      | Inr (walletName, _) \<Rightarrow>
          (case (walletAccounts f walletName, rwWalletAccounts f walletName) of
             (None, None) \<Rightarrow> Inl ''found no accounts for wallet''
           | (Some accounts, None) \<Rightarrow> Inr accounts
           | (accounts, Some rwAccounts) \<Rightarrow>
               Inr (foldl (\<lambda>m (k, v). AList.update k v m)
                      (foldl (\<lambda>m (k, v). AList.update k v m) [] (case accounts of None \<Rightarrow> [] | Some as \<Rightarrow> as))
                      rwAccounts)))"

section \<open>Adding an account\<close>

definition AddAccount ::
  "('s, 'wal, 'acc) wallet_lib \<Rightarrow> 'wal \<Rightarrow> 'acc \<Rightarrow> (('wal, 'acc) fetcher, err option) op" where
  "AddAccount W wallet account f =
     (let w = wal_Name W wallet; a = acc_Name W account in
      if wallets f w = None then (Ret (Some ''failed to find wallet''), f)
      else
        let accounts = (case rwWalletAccounts f w of None \<Rightarrow> [] | Some as \<Rightarrow> as) in
        (Ret None,
         f\<lparr>rwWalletAccounts := (rwWalletAccounts f)(w \<mapsto> AList.update a account accounts),
           rwPubKeyPaths := (rwPubKeyPaths f)(ToBytes48 (acc_PublicKey W account) \<mapsto> account_path w a)\<rparr>))"

section \<open>Filling the caches\<close>

text \<open>
  The encoded wallets of the stores, their decoding and the accounts of a wallet come from the
  wallet packages. \<open>json_type\<close> is the field \<open>type\<close> of the wallet's JSON.
\<close>

record ('wal, 'acc) store_lib =
  json_type :: "bytes \<Rightarrow> err + string"
  nd_DeserializeWallet :: "bytes \<Rightarrow> err + 'wal"
  hd_DeserializeWallet :: "bytes \<Rightarrow> err + 'wal"
  distributed_DeserializeWallet :: "bytes \<Rightarrow> err + 'wal"
  keystore_DeserializeWallet :: "bytes \<Rightarrow> err + 'wal"
  wal_Accounts :: "'wal \<Rightarrow> 'acc list"

text \<open>\<open>walletFromBytes\<close>; a nil store, encryptor or data is \<open>None\<close>.\<close>

definition walletFromBytes ::
  "('wal, 'acc) store_lib \<Rightarrow> bytes option \<Rightarrow> unit option \<Rightarrow> unit option \<Rightarrow> err + 'wal" where
  "walletFromBytes L data store encryptor =
     (if store = None then Inl ''no store provided''
      else if encryptor = None then Inl ''no encryptor provided''
      else case data of
             None \<Rightarrow> Inl ''no data provided''
           | Some d \<Rightarrow>
               (case json_type L d of
                  Inl e \<Rightarrow> Inl e
                | Inr ty \<Rightarrow>
                    if ty = ''nd'' \<or> ty = ''non-deterministic'' then nd_DeserializeWallet L d
                    else if ty = ''hd'' \<or> ty = ''hierarchical deterministic'' then hd_DeserializeWallet L d
                    else if ty = ''distributed'' then distributed_DeserializeWallet L d
                    else if ty = ''keystore'' then keystore_DeserializeWallet L d
                    else Inl (''unsupported wallet type \"'' @ ty @ ''\"'')))"

text \<open>The maps that the goroutines of \<open>populateCaches\<close> share, and their first error.\<close>

record ('wal, 'acc) caches =
  ca_wallets :: "string \<Rightarrow> 'wal option"
  ca_walletAccounts :: "string \<Rightarrow> (string \<times> 'acc) list option"
  ca_pubKeyPaths :: "bytes \<Rightarrow> string option"
  ca_err :: "err option"

definition add_account_cache ::
  "('s, 'wal, 'acc) wallet_lib \<Rightarrow> 'wal \<Rightarrow> 'acc \<Rightarrow> (string \<times> 'acc) list \<times> ('wal, 'acc) caches \<Rightarrow>
     (string \<times> 'acc) list \<times> ('wal, 'acc) caches" where
  "add_account_cache W wallet account = (\<lambda>(accounts, c).
     (AList.update (acc_Name W account) account accounts,
      c\<lparr>ca_pubKeyPaths := (ca_pubKeyPaths c)(ToBytes48 (acc_PublicKey W account) \<mapsto>
           account_path (wal_Name W wallet) (acc_Name W account))\<rparr>))"

definition load_wallet ::
  "('s, 'wal, 'acc) wallet_lib \<Rightarrow> ('wal, 'acc) store_lib \<Rightarrow> unit option \<Rightarrow> bytes \<Rightarrow>
     ('wal, 'acc) caches \<Rightarrow> ('wal, 'acc) caches" where
  "load_wallet W L encryptor walletBytes c =
     (case walletFromBytes L (Some walletBytes) (Some ()) encryptor of
        Inl e \<Rightarrow> c\<lparr>ca_err := (case ca_err c of None \<Rightarrow> Some e | Some e0 \<Rightarrow> Some e0)\<rparr>
      | Inr wallet \<Rightarrow>
          let c1 = c\<lparr>ca_wallets := (ca_wallets c)(wal_Name W wallet \<mapsto> wallet)\<rparr>;
              (accounts, c2) = fold (add_account_cache W wallet) (wal_Accounts L wallet) ([], c1)
          in c2\<lparr>ca_walletAccounts := (ca_walletAccounts c2)(wal_Name W wallet \<mapsto> accounts)\<rparr>)"

text \<open>
  One goroutine per wallet of every store; the runtime orders them, and each runs as a whole.
\<close>

definition populateCaches ::
  "('s, 'wal, 'acc) wallet_lib \<Rightarrow> ('wal, 'acc) store_lib \<Rightarrow> go_runtime \<Rightarrow> unit option \<Rightarrow> bytes list list \<Rightarrow>
     err + ('wal, 'acc) caches" where
  "populateCaches W L rt encryptor stores =
     (let encoded = concat stores;
          order = map (\<lambda>i. encoded ! i) (schedule rt (length encoded));
          c = fold (load_wallet W L encryptor) order
                \<lparr>ca_wallets = (\<lambda>_. None), ca_walletAccounts = (\<lambda>_. None), ca_pubKeyPaths = (\<lambda>_. None), ca_err = None\<rparr>
      in case ca_err c of Some e \<Rightarrow> Inl e | None \<Rightarrow> Inr c)"

definition fetcher_New ::
  "('s, 'wal, 'acc) wallet_lib \<Rightarrow> ('wal, 'acc) store_lib \<Rightarrow> go_runtime \<Rightarrow> unit option \<Rightarrow> bytes list list \<Rightarrow>
     err + ('wal, 'acc) fetcher" where
  "fetcher_New W L rt encryptor stores =
     (if encryptor = None then Inl (wrap_err ''problem with parameters'' ''no encryptor specified'')
      else if length stores = 0 then Inl (wrap_err ''problem with parameters'' ''no stores specified'')
      else case populateCaches W L rt encryptor stores of
             Inl e \<Rightarrow> Inl (wrap_err ''failed to populate caches'' e)
           | Inr c \<Rightarrow> Inr \<lparr>pubKeyPaths = ca_pubKeyPaths c, wallets = ca_wallets c,
                           walletAccounts = ca_walletAccounts c,
                           rwPubKeyPaths = (\<lambda>_. None), rwWalletAccounts = (\<lambda>_. None)\<rparr>)"

section \<open>Keys lead to their accounts\<close>

text \<open>
  Every public key that is known leads to an account with that key. The wallet package takes a
  path apart at the slash that \<open>account_path\<close> puts in: \<open>splits\<close> says so for given names.
\<close>

definition keys_ok :: "('s, 'wal, 'acc) wallet_lib \<Rightarrow> ('wal, 'acc) fetcher \<Rightarrow> bool" where
  "keys_ok W f \<longleftrightarrow>
     (\<forall>k path. pubKeyPaths f k = Some path \<or> pubKeyPaths f k = None \<and> rwPubKeyPaths f k = Some path \<longrightarrow>
        (\<exists>w a. FetchAccount W f path = Inr (w, a) \<and> ToBytes48 (acc_PublicKey W a) = k))"

definition splits :: "('s, 'wal, 'acc) wallet_lib \<Rightarrow> string \<Rightarrow> string \<Rightarrow> bool" where
  "splits W w a \<longleftrightarrow> WalletAndAccountNames W (account_path w a) = Inr (w, a)"

lemma FetchAccount_AddAccount_same:
  assumes "AddAccount W wallet account f = (Ret None, f')" and "splits W (wal_Name W wallet) (acc_Name W account)"
    and "cached_account (walletAccounts f) (wal_Name W wallet) (acc_Name W account) = None"
  shows "FetchAccount W f' (account_path (wal_Name W wallet) (acc_Name W account)) =
           Inr (the (wallets f (wal_Name W wallet)), account)"
  using assms
  by (auto simp: AddAccount_def FetchAccount_def splits_def cached_account_def Let_def update_conv'
           split: if_splits option.splits)

lemma FetchAccount_AddAccount_other:
  assumes add: "AddAccount W wallet account f = (Ret None, f')"
    and fresh: "cached_account (walletAccounts f) (wal_Name W wallet) (acc_Name W account) = None"
      "cached_account (rwWalletAccounts f) (wal_Name W wallet) (acc_Name W account) = None"
    and old: "FetchAccount W f path = Inr (w, a)"
  shows "FetchAccount W f' path = Inr (w, a)"
proof -
  from old obtain wn an where names: "WalletAndAccountNames W path = Inr (wn, an)"
    by (auto simp: FetchAccount_def split: sum.splits)
  have f': "wallets f' = wallets f" "walletAccounts f' = walletAccounts f"
    using add by (auto simp: AddAccount_def Let_def split: if_splits)
  have "cached_account (rwWalletAccounts f') wn an = cached_account (rwWalletAccounts f) wn an"
    if "\<not> (wn = wal_Name W wallet \<and> an = acc_Name W account)"
    using add that by (auto simp: AddAccount_def Let_def cached_account_def update_conv' split: if_splits option.splits)
  with old names f' fresh show ?thesis
    by (cases "wn = wal_Name W wallet \<and> an = acc_Name W account") (auto simp: FetchAccount_def split: option.splits)
qed

lemma keys_ok_AddAccount:
  assumes ok: "keys_ok W f" and add: "AddAccount W wallet account f = (Ret None, f')"
    and sp: "splits W (wal_Name W wallet) (acc_Name W account)"
    and fresh: "cached_account (walletAccounts f) (wal_Name W wallet) (acc_Name W account) = None"
      "cached_account (rwWalletAccounts f) (wal_Name W wallet) (acc_Name W account) = None"
  shows "keys_ok W f'"
  unfolding keys_ok_def
proof (intro allI impI)
  fix k path
  let ?key = "ToBytes48 (acc_PublicKey W account)" and ?path = "account_path (wal_Name W wallet) (acc_Name W account)"
  have f': "pubKeyPaths f' = pubKeyPaths f" "rwPubKeyPaths f' = (rwPubKeyPaths f)(?key \<mapsto> ?path)"
    using add by (auto simp: AddAccount_def Let_def split: if_splits)
  assume "pubKeyPaths f' k = Some path \<or> pubKeyPaths f' k = None \<and> rwPubKeyPaths f' k = Some path"
  then consider (new) "k = ?key" "path = ?path"
    | (old) "pubKeyPaths f k = Some path \<or> pubKeyPaths f k = None \<and> rwPubKeyPaths f k = Some path"
    by (auto simp: f' split: if_splits)
  then show "\<exists>w a. FetchAccount W f' path = Inr (w, a) \<and> ToBytes48 (acc_PublicKey W a) = k"
  proof cases
    case new
    with FetchAccount_AddAccount_same [OF add sp fresh(1)] show ?thesis by blast
  next
    case old
    with ok obtain w a where "FetchAccount W f path = Inr (w, a)" "ToBytes48 (acc_PublicKey W a) = k"
      unfolding keys_ok_def by blast
    with FetchAccount_AddAccount_other [OF add fresh] show ?thesis by blast
  qed
qed

lemma FetchAccountByKey_key:
  assumes "keys_ok W f" and "FetchAccountByKey W f pubKey = Inr (w, a)"
  shows "ToBytes48 (acc_PublicKey W a) = ToBytes48 pubKey"
  using assms by (fastforce simp: FetchAccountByKey_def keys_ok_def split: option.splits)

section \<open>The caches after the start\<close>

lemma accounts_cached:
  assumes "fold (add_account_cache W wallet) as (accs, c) = (accs', c')" and "distinct (map (acc_Name W) as)"
  shows "ca_wallets c' = ca_wallets c" and "ca_walletAccounts c' = ca_walletAccounts c" and "ca_err c' = ca_err c"
    and "map_of accs' n = (case List.find (\<lambda>a. acc_Name W a = n) as of Some a \<Rightarrow> Some a | None \<Rightarrow> map_of accs n)"
    and "ca_pubKeyPaths c' k = Some path \<Longrightarrow> ca_pubKeyPaths c k = Some path \<or>
           (\<exists>a \<in> set as. k = ToBytes48 (acc_PublicKey W a) \<and> path = account_path (wal_Name W wallet) (acc_Name W a))"
    and "dom (ca_pubKeyPaths c') = dom (ca_pubKeyPaths c) \<union> (\<lambda>a. ToBytes48 (acc_PublicKey W a)) ` set as"
proof -
  have "ca_wallets c' = ca_wallets c \<and> ca_walletAccounts c' = ca_walletAccounts c \<and> ca_err c' = ca_err c \<and>
    map_of accs' n = (case List.find (\<lambda>a. acc_Name W a = n) as of Some a \<Rightarrow> Some a | None \<Rightarrow> map_of accs n) \<and>
    (ca_pubKeyPaths c' k = Some path \<longrightarrow> ca_pubKeyPaths c k = Some path \<or>
      (\<exists>a \<in> set as. k = ToBytes48 (acc_PublicKey W a) \<and> path = account_path (wal_Name W wallet) (acc_Name W a))) \<and>
    dom (ca_pubKeyPaths c') = dom (ca_pubKeyPaths c) \<union> (\<lambda>a. ToBytes48 (acc_PublicKey W a)) ` set as"
    using assms
  proof (induction as arbitrary: accs c)
    case (Cons a as)
    let ?c = "c\<lparr>ca_pubKeyPaths := (ca_pubKeyPaths c)(ToBytes48 (acc_PublicKey W a) \<mapsto>
           account_path (wal_Name W wallet) (acc_Name W a))\<rparr>"
    from Cons.prems have run: "fold (add_account_cache W wallet) as (AList.update (acc_Name W a) a accs, ?c) = (accs', c')"
      by (simp add: add_account_cache_def [of W wallet a])
    have no: "List.find (\<lambda>b. acc_Name W b = acc_Name W a) as = None"
      using Cons.prems(2) unfolding find_None_iff by (auto simp: image_iff)
    note IH = Cons.IH [OF run]
    show ?case using IH Cons.prems(2) no by (auto simp: update_conv' split: option.splits if_splits)
  qed simp
  then show "ca_wallets c' = ca_wallets c" and "ca_walletAccounts c' = ca_walletAccounts c" and "ca_err c' = ca_err c"
    and "map_of accs' n = (case List.find (\<lambda>a. acc_Name W a = n) as of Some a \<Rightarrow> Some a | None \<Rightarrow> map_of accs n)"
    and "ca_pubKeyPaths c' k = Some path \<Longrightarrow> ca_pubKeyPaths c k = Some path \<or>
           (\<exists>a \<in> set as. k = ToBytes48 (acc_PublicKey W a) \<and> path = account_path (wal_Name W wallet) (acc_Name W a))"
    and "dom (ca_pubKeyPaths c') = dom (ca_pubKeyPaths c) \<union> (\<lambda>a. ToBytes48 (acc_PublicKey W a)) ` set as"
    by auto
qed

text \<open>What the caches hold when the wallets \<open>ws\<close> have been read.\<close>

definition caches_ok ::
  "('s, 'wal, 'acc) wallet_lib \<Rightarrow> ('wal, 'acc) store_lib \<Rightarrow> 'wal set \<Rightarrow> ('wal, 'acc) caches \<Rightarrow> bool" where
  "caches_ok W L ws c \<longleftrightarrow>
     (\<forall>w \<in> ws. ca_wallets c (wal_Name W w) = Some w \<and>
        (\<forall>a \<in> set (wal_Accounts L w). cached_account (ca_walletAccounts c) (wal_Name W w) (acc_Name W a) = Some a \<and>
           ToBytes48 (acc_PublicKey W a) \<in> dom (ca_pubKeyPaths c))) \<and>
     (\<forall>k path. ca_pubKeyPaths c k = Some path \<longrightarrow> (\<exists>w \<in> ws. \<exists>a \<in> set (wal_Accounts L w).
        k = ToBytes48 (acc_PublicKey W a) \<and> path = account_path (wal_Name W w) (acc_Name W a)))"

lemma find_by_name:
  assumes "distinct (map f xs)" and "x \<in> set xs"
  shows "List.find (\<lambda>y. f y = f x) xs = Some x"
  using assms by (induction xs) (auto simp: rev_image_eqI)

lemma caches_ok_load:
  assumes ok: "caches_ok W L ws c" and dec: "walletFromBytes L (Some bs) (Some ()) enc = Inr w"
    and new: "wal_Name W w \<notin> wal_Name W ` ws" and dist: "distinct (map (acc_Name W) (wal_Accounts L w))"
  shows "caches_ok W L (insert w ws) (load_wallet W L enc bs c)"
proof -
  obtain accs c2 where f: "fold (add_account_cache W w) (wal_Accounts L w)
      ([], c\<lparr>ca_wallets := (ca_wallets c)(wal_Name W w \<mapsto> w)\<rparr>) = (accs, c2)" by force
  note a = accounts_cached [OF f dist]
  have load: "load_wallet W L enc bs c = c2\<lparr>ca_walletAccounts := (ca_walletAccounts c2)(wal_Name W w \<mapsto> accs)\<rparr>"
    using dec f by (simp add: load_wallet_def)
  have own: "map_of accs (acc_Name W x) = Some x" if "x \<in> set (wal_Accounts L w)" for x
    using a(4) [of "acc_Name W x"] find_by_name [OF dist that] by simp
  show ?thesis
    unfolding caches_ok_def
  proof (intro conjI ballI allI impI)
    fix v assume v: "v \<in> insert w ws"
    then have uniq: "wal_Name W v = wal_Name W w \<Longrightarrow> v = w" using new by (metis imageI insertE)
    show "ca_wallets (load_wallet W L enc bs c) (wal_Name W v) = Some v"
      using v ok uniq by (auto simp: load a(1) caches_ok_def)
    fix x assume x: "x \<in> set (wal_Accounts L v)"
    show "cached_account (ca_walletAccounts (load_wallet W L enc bs c)) (wal_Name W v) (acc_Name W x) = Some x"
      using v x ok uniq own by (auto simp: load a(2) caches_ok_def cached_account_def)
    show "ToBytes48 (acc_PublicKey W x) \<in> dom (ca_pubKeyPaths (load_wallet W L enc bs c))"
      using v x ok a(6) by (auto simp: load caches_ok_def)
  next
    fix k path assume "ca_pubKeyPaths (load_wallet W L enc bs c) k = Some path"
    then show "\<exists>v \<in> insert w ws. \<exists>x \<in> set (wal_Accounts L v).
        k = ToBytes48 (acc_PublicKey W x) \<and> path = account_path (wal_Name W v) (acc_Name W x)"
      using a(5) [of k path] ok unfolding load caches_ok_def by auto
  qed
qed

text \<open>Wallets of different names, each with accounts of different names.\<close>

definition well_named ::
  "('s, 'wal, 'acc) wallet_lib \<Rightarrow> ('wal, 'acc) store_lib \<Rightarrow> 'wal list \<Rightarrow> bool" where
  "well_named W L ws \<longleftrightarrow> distinct (map (wal_Name W) ws) \<and>
     (\<forall>w \<in> set ws. distinct (map (acc_Name W) (wal_Accounts L w)) \<and>
        (\<forall>a \<in> set (wal_Accounts L w). splits W (wal_Name W w) (acc_Name W a)))"

lemma caches_ok_fold:
  assumes "list_all2 (\<lambda>bs w. walletFromBytes L (Some bs) (Some ()) enc = Inr w) bss ws"
    and "caches_ok W L (set done) c" and "well_named W L (done @ ws)"
  shows "caches_ok W L (set (done @ ws)) (fold (load_wallet W L enc) bss c)"
  using assms
proof (induction arbitrary: c "done" rule: list_all2_induct)
  case (Cons bs bss w ws)
  have "caches_ok W L (insert w (set done)) (load_wallet W L enc bs c)"
    by (rule caches_ok_load [OF Cons.prems(1) Cons.hyps(1)]) (use Cons.prems(2) in \<open>auto simp: well_named_def\<close>)
  then have "caches_ok W L (set ((done @ [w]) @ ws)) (fold (load_wallet W L enc) bss (load_wallet W L enc bs c))"
    using Cons.prems(2) by (intro Cons.IH) auto
  then show ?case by simp
qed simp

lemma caches_ok_empty:
  "caches_ok W L (set []) \<lparr>ca_wallets = (\<lambda>_. None), ca_walletAccounts = (\<lambda>_. None), ca_pubKeyPaths = (\<lambda>_. None), ca_err = None\<rparr>"
  by (simp add: caches_ok_def)

text \<open>
  A started fetcher knows every account of every wallet, by path and by key, and every known key
  leads to an account with that key.
\<close>

lemma fetcher_New_ok:
  assumes new: "fetcher_New W L rt enc stores = Inr f"
    and fair: "fair_runtime rt"
    and dec: "list_all2 (\<lambda>bs w. walletFromBytes L (Some bs) (Some ()) enc = Inr w) (concat stores) ws"
    and named: "well_named W L ws"
  shows "keys_ok W f"
    and "w \<in> set ws \<Longrightarrow> a \<in> set (wal_Accounts L w) \<Longrightarrow>
           FetchAccount W f (account_path (wal_Name W w) (acc_Name W a)) = Inr (w, a)"
    and "w \<in> set ws \<Longrightarrow> a \<in> set (wal_Accounts L w) \<Longrightarrow> \<exists>w' a'. FetchAccountByKey W f (acc_PublicKey W a) = Inr (w', a')"
proof -
  let ?n = "length (concat stores)"
  let ?sched = "schedule rt ?n"
  let ?order = "map (\<lambda>i. concat stores ! i) ?sched" and ?ws = "map (\<lambda>i. ws ! i) ?sched"
  from new obtain c where c: "populateCaches W L rt enc stores = Inr c"
    and f: "f = \<lparr>pubKeyPaths = ca_pubKeyPaths c, wallets = ca_wallets c, walletAccounts = ca_walletAccounts c,
                  rwPubKeyPaths = (\<lambda>_. None), rwWalletAccounts = (\<lambda>_. None)\<rparr>"
    by (auto simp: fetcher_New_def split: if_splits sum.splits)
  have perm: "mset ?sched = mset [0..<?n]" using fair unfolding fair_runtime_def by blast
  have len: "length ws = ?n" using dec by (simp add: list_all2_lengthD)
  have "mset ?ws = mset (map (\<lambda>i. ws ! i) [0..<length ws])" by (simp only: mset_map perm len)
  then have mws: "mset ?ws = mset ws" by (simp only: map_nth)
  have "set ?sched = {..<?n}" using perm by (metis atLeast0LessThan mset_eq_setD set_upt)
  then have "list_all2 (\<lambda>bs w. walletFromBytes L (Some bs) (Some ()) enc = Inr w) ?order ?ws"
    using list_all2_nthD [OF dec] by (auto simp: list_all2_map1 list_all2_map2 list_all2_same)
  moreover have "well_named W L ([] @ ?ws)"
  proof -
    have "mset (map (wal_Name W) ?ws) = mset (map (wal_Name W) ws)" by (simp only: mset_map [of _ ?ws] mws mset_map [of _ ws])
    from mset_eq_imp_distinct_iff [OF this] named mset_eq_setD [OF mws] show ?thesis
      unfolding well_named_def append_Nil by metis
  qed
  ultimately have "caches_ok W L (set ([] @ ?ws)) (fold (load_wallet W L enc) ?order
      \<lparr>ca_wallets = (\<lambda>_. None), ca_walletAccounts = (\<lambda>_. None), ca_pubKeyPaths = (\<lambda>_. None), ca_err = None\<rparr>)"
    by (intro caches_ok_fold caches_ok_empty)
  then have ok: "caches_ok W L (set ws) c"
    using c mset_eq_setD [OF mws] by (auto simp: populateCaches_def Let_def split: option.splits)
  show path: "FetchAccount W f (account_path (wal_Name W w) (acc_Name W a)) = Inr (w, a)"
    if "w \<in> set ws" "a \<in> set (wal_Accounts L w)" for w a
    using that ok named by (auto simp: f FetchAccount_def caches_ok_def well_named_def splits_def)
  have known: "\<exists>w a. FetchAccount W f path = Inr (w, a) \<and> ToBytes48 (acc_PublicKey W a) = k"
    if "ca_pubKeyPaths c k = Some path" for k path
  proof -
    from that ok obtain w a where "w \<in> set ws" "a \<in> set (wal_Accounts L w)" "k = ToBytes48 (acc_PublicKey W a)"
      "path = account_path (wal_Name W w) (acc_Name W a)"
      unfolding caches_ok_def by blast
    with path show ?thesis by blast
  qed
  then show "keys_ok W f" by (simp add: keys_ok_def f)
  show "\<exists>w' a'. FetchAccountByKey W f (acc_PublicKey W a) = Inr (w', a')"
    if "w \<in> set ws" "a \<in> set (wal_Accounts L w)"
  proof -
    from that ok obtain p where "ca_pubKeyPaths c (ToBytes48 (acc_PublicKey W a)) = Some p"
      unfolding caches_ok_def by blast
    with known [OF this] show ?thesis by (auto simp: FetchAccountByKey_def f)
  qed
qed

end
