(* ===== verification/Unlocker.thy ===== *)
theory Unlocker
  imports Wallets
begin

text \<open>
  The local unlocker (\<open>services/unlocker/local\<close>): it tries the configured passphrases in order. A
  nil wallet or account is \<open>None\<close>.
\<close>

record unlocker =
  walletPassphrases :: "string list"
  accountPassphrases :: "string list"

text \<open>The loop over the passphrases, which stops at the first one that works.\<close>

fun try_passphrases :: "(bytes option \<Rightarrow> ('s, err option) op) \<Rightarrow> string list \<Rightarrow> ('s, bool) op" where
  "try_passphrases unlock [] = go_return False"
| "try_passphrases unlock (p # ps) =
     go_bind (unlock (Some (string_bytes p))) (\<lambda>e.
       case e of None \<Rightarrow> go_return True | Some _ \<Rightarrow> try_passphrases unlock ps)"

definition UnlockWallet ::
  "('s, 'wal, 'acc) wallet_lib \<Rightarrow> unlocker \<Rightarrow> 'wal option \<Rightarrow> ('s, err + bool) op" where
  "UnlockWallet W U wallet =
     (case wallet of
        None \<Rightarrow> go_return (Inl ''no wallet supplied'')
      | Some w \<Rightarrow>
          if \<not> wal_is_locker W w then go_return (Inr True)
          else if wal_Type W w \<noteq> ''hierarchical deterministic'' then
            go_bind (wal_Unlock W w None) (\<lambda>e.
              case e of Some err \<Rightarrow> go_return (Inl err) | None \<Rightarrow> go_return (Inr True))
          else go_bind (try_passphrases (wal_Unlock W w) (walletPassphrases U)) (\<lambda>b. go_return (Inr b)))"

definition UnlockAccount ::
  "('s, 'wal, 'acc) wallet_lib \<Rightarrow> unlocker \<Rightarrow> 'wal option \<Rightarrow> 'acc option \<Rightarrow> ('s, err + bool) op" where
  "UnlockAccount W U wallet account =
     (case wallet of
        None \<Rightarrow> go_return (Inl ''no wallet supplied'')
      | Some w \<Rightarrow>
          (case account of
             None \<Rightarrow> go_return (Inl ''no account supplied'')
           | Some a \<Rightarrow>
               if \<not> acc_is_locker W a then go_return (Inr True)
               else go_bind (try_passphrases (acc_Unlock W a) (accountPassphrases U)) (\<lambda>b. go_return (Inr b))))"

text \<open>\<open>New\<close>: nil passphrase lists are refused.\<close>

definition unlocker_New :: "string list option \<Rightarrow> string list option \<Rightarrow> err + unlocker" where
  "unlocker_New walletPs accountPs =
     (case walletPs of
        None \<Rightarrow> Inl (wrap_err ''problem with parameters'' ''no wallet passphrases supplied'')
      | Some ws \<Rightarrow>
          (case accountPs of
             None \<Rightarrow> Inl (wrap_err ''problem with parameters'' ''no account passphrases supplied'')
           | Some as \<Rightarrow> Inr \<lparr>walletPassphrases = ws, accountPassphrases = as\<rparr>))"

section \<open>What the loop does\<close>

text \<open>
  When a refused passphrase leaves the state as it was, the loop unlocks exactly when one of the
  passphrases is accepted, and then it has applied the first such one.
\<close>

lemma try_passphrases_result:
  assumes refuse: "\<And>p e t. unlock p s = (Ret (Some e), t) \<Longrightarrow> t = s"
    and total: "\<And>p. \<exists>e t. unlock p s = (Ret e, t)"
  shows "case List.find (\<lambda>p. fst (unlock (Some (string_bytes p)) s) = Ret None) ps of
           None \<Rightarrow> try_passphrases unlock ps s = (Ret False, s)
         | Some p \<Rightarrow> try_passphrases unlock ps s = (Ret True, snd (unlock (Some (string_bytes p)) s))"
proof (induction ps)
  case (Cons p ps)
  obtain e t where u: "unlock (Some (string_bytes p)) s = (Ret e, t)" using total by blast
  show ?case
  proof (cases e)
    case None
    with u show ?thesis by (simp add: go_bind_def go_simps)
  next
    case (Some err)
    with u refuse have "t = s" by blast
    with u Some Cons show ?thesis by (simp add: go_bind_def split: option.splits)
  qed
qed (simp add: go_simps)

end
