(* ===== verification/Signer.thy ===== *)
theory Signer
  imports Ruler Wallets
begin

text \<open>
  The signer (\<open>services/signer/standard\<close>). The services it is built from are the fields of a
  record, as they are interfaces in the Go struct; the types of \<open>go-eth2-client\<close> and the SSZ
  hasher, which compute the root that is signed, are a record of functions.
\<close>

section \<open>Parts\<close>

record spec_checkpoint =
  sc_Epoch :: u64
  sc_Root :: bytes

record spec_attestation =
  sa_Slot :: u64
  sa_Index :: u64
  sa_BeaconBlockRoot :: bytes
  sa_Source :: spec_checkpoint
  sa_Target :: spec_checkpoint

record spec_header =
  sh_Slot :: u64
  sh_ProposerIndex :: u64
  sh_ParentRoot :: bytes
  sh_StateRoot :: bytes
  sh_BodyRoot :: bytes

record ssz_lib =
  ssz_attestation_root :: "spec_attestation \<Rightarrow> err + bytes"
  ssz_header_root :: "spec_header \<Rightarrow> err + bytes"
  ssz_ErrBytesLength :: "string \<Rightarrow> nat \<Rightarrow> nat \<Rightarrow> err"
  ssz_ErrSize :: err
  ssz_hash_root :: "bytes list \<Rightarrow> err + bytes"

record ('s, 'wal, 'acc) signer =
  sg_lib :: "('s, 'wal, 'acc) wallet_lib"
  sg_ssz :: ssz_lib
  sg_Check :: "credentials option \<Rightarrow> string \<Rightarrow> string \<Rightarrow> bool"
  sg_FetchAccount :: "string \<Rightarrow> ('s, err + 'wal \<times> 'acc) op"
  sg_FetchAccountByKey :: "bytes \<Rightarrow> ('s, err + 'wal \<times> 'acc) op"
  sg_UnlockAccount :: "'wal option \<Rightarrow> 'acc option \<Rightarrow> ('s, err + bool) op"
  sg_RunRules :: "go_runtime \<Rightarrow> credentials option \<Rightarrow> string \<Rightarrow> rules_data option list \<Rightarrow> ('s, rules_result list) op"

section \<open>Signing roots\<close>

text \<open>\<open>SigningRoot\<close> and its generated SSZ code.\<close>

record signing_root =
  sr_DataRoot :: bytes
  sr_Domain :: bytes

definition MarshalSSZTo :: "ssz_lib \<Rightarrow> signing_root \<Rightarrow> bytes \<Rightarrow> err + bytes" where
  "MarshalSSZTo Z s buf =
     (if length (sr_DataRoot s) \<noteq> 32 then Inl (ssz_ErrBytesLength Z ''SigningRoot.DataRoot'' (length (sr_DataRoot s)) 32)
      else if length (sr_Domain s) \<noteq> 32 then Inl (ssz_ErrBytesLength Z ''SigningRoot.Domain'' (length (sr_Domain s)) 32)
      else Inr (buf @ sr_DataRoot s @ sr_Domain s))"

text \<open>\<open>UnmarshalSSZ\<close> appends to what the fields already hold.\<close>

definition UnmarshalSSZ :: "ssz_lib \<Rightarrow> signing_root \<Rightarrow> bytes \<Rightarrow> err + signing_root" where
  "UnmarshalSSZ Z s buf =
     (if length buf \<noteq> 64 then Inl (ssz_ErrSize Z)
      else Inr \<lparr>sr_DataRoot = sr_DataRoot s @ take 32 buf, sr_Domain = sr_Domain s @ take 32 (drop 32 buf)\<rparr>)"

definition SizeSSZ :: "signing_root \<Rightarrow> nat" where
  "SizeSSZ s = 64"

definition HashTreeRootWith :: "ssz_lib \<Rightarrow> signing_root \<Rightarrow> err + bytes list" where
  "HashTreeRootWith Z s =
     (if length (sr_DataRoot s) \<noteq> 32 then Inl (ssz_ErrBytesLength Z ''SigningRoot.DataRoot'' (length (sr_DataRoot s)) 32)
      else if length (sr_Domain s) \<noteq> 32 then Inl (ssz_ErrBytesLength Z ''SigningRoot.Domain'' (length (sr_Domain s)) 32)
      else Inr [sr_DataRoot s, sr_Domain s])"

definition HashTreeRoot :: "ssz_lib \<Rightarrow> signing_root \<Rightarrow> err + bytes" where
  "HashTreeRoot Z s = (case HashTreeRootWith Z s of Inl e \<Rightarrow> Inl e | Inr chunks \<Rightarrow> ssz_hash_root Z chunks)"

definition generateSigningRoot :: "ssz_lib \<Rightarrow> bytes \<Rightarrow> bytes \<Rightarrow> err + bytes" where
  "generateSigningRoot Z root domain = HashTreeRoot Z \<lparr>sr_DataRoot = root, sr_Domain = domain\<rparr>"

definition signRoot :: "('s, 'wal, 'acc) wallet_lib \<Rightarrow> 'acc option \<Rightarrow> bytes \<Rightarrow> ('s, err + bytes) op" where
  "signRoot W account root =
     (case account of
        None \<Rightarrow> go_return (Inl ''not a signer'')
      | Some a \<Rightarrow> if \<not> acc_is_signer W a then go_return (Inl ''not a signer'') else acc_Sign W a root)"

section \<open>Checks before signing\<close>

definition fetchAccount ::
  "('s, 'wal, 'acc) signer \<Rightarrow> string \<Rightarrow> bytes option \<Rightarrow> ('s, core_result + 'wal \<times> 'acc) op" where
  "fetchAccount V name pubKey =
     (if name = [] \<and> pubKey = None then go_return (Inl ResultDenied)
      else
        go_bind (case pubKey of None \<Rightarrow> sg_FetchAccount V name | Some pk \<Rightarrow> sg_FetchAccountByKey V pk) (\<lambda>r.
          case r of Inl e \<Rightarrow> go_return (Inl ResultDenied) | Inr wa \<Rightarrow> go_return (Inr wa)))"

definition checkAccess :: "('s, 'wal, 'acc) signer \<Rightarrow> credentials option \<Rightarrow> string \<Rightarrow> string \<Rightarrow> core_result" where
  "checkAccess V creds accountName action =
     (if sg_Check V creds accountName action then ResultSucceeded else ResultDenied)"

definition unlockAccount ::
  "('s, 'wal, 'acc) signer \<Rightarrow> 'wal option \<Rightarrow> 'acc option \<Rightarrow> ('s, core_result) op" where
  "unlockAccount V wallet account =
     (case wallet of
        None \<Rightarrow> go_return ResultDenied
      | Some w \<Rightarrow>
          (case account of
             None \<Rightarrow> go_return ResultDenied
           | Some a \<Rightarrow>
               if \<not> acc_is_locker (sg_lib V) a then go_return ResultSucceeded
               else
                 go_bind (acc_IsUnlocked (sg_lib V) a) (\<lambda>u.
                   case u of
                     Inl e \<Rightarrow> go_return ResultFailed
                   | Inr True \<Rightarrow> go_return ResultSucceeded
                   | Inr False \<Rightarrow>
                       go_bind (sg_UnlockAccount V wallet account) (\<lambda>r.
                         case r of
                           Inl e \<Rightarrow> go_return ResultFailed
                         | Inr ok \<Rightarrow> go_return (if ok then ResultSucceeded else ResultDenied)))))"

definition preCheck ::
  "('s, 'wal, 'acc) signer \<Rightarrow> credentials option \<Rightarrow> string \<Rightarrow> bytes option \<Rightarrow> string \<Rightarrow>
     ('s, core_result + 'wal \<times> 'acc) op" where
  "preCheck V creds name pubKey action =
     go_bind (fetchAccount V name pubKey) (\<lambda>f.
       case f of
         Inl r \<Rightarrow> go_return (Inl r)
       | Inr (wallet, account) \<Rightarrow>
           let accountName = account_path (wal_Name (sg_lib V) wallet) (acc_Name (sg_lib V) account);
               r1 = checkAccess V creds accountName action in
           if r1 \<noteq> ResultSucceeded then go_return (Inl r1)
           else
             go_bind (unlockAccount V (Some wallet) (Some account)) (\<lambda>r2.
               if r2 \<noteq> ResultSucceeded then go_return (Inl r2) else go_return (Inr (wallet, account))))"

definition rules_data_of ::
  "('s, 'wal, 'acc) wallet_lib \<Rightarrow> 'wal \<Rightarrow> 'acc \<Rightarrow> any_data \<Rightarrow> rules_data" where
  "rules_data_of W wallet account data =
     \<lparr>rd_WalletName = wal_Name W wallet, rd_AccountName = acc_Name W account,
      rd_PubKey = acc_PublicKey W account, rd_Data = Some data\<rparr>"

text \<open>What a result of the rules means for the caller when it is not an approval.\<close>

fun rules_outcome :: "rules_result \<Rightarrow> core_result option" where
  "rules_outcome DENIED = Some ResultDenied"
| "rules_outcome FAILED = Some ResultFailed"
| "rules_outcome UNKNOWN = Some ResultFailed"
| "rules_outcome APPROVED = None"

text \<open>The common tail of the single-message signers: the rules, the root, the signature.\<close>

definition sign_approved ::
  "('s, 'wal, 'acc) signer \<Rightarrow> go_runtime \<Rightarrow> credentials option \<Rightarrow> string \<Rightarrow> 'wal \<Rightarrow> 'acc \<Rightarrow> any_data \<Rightarrow>
     err + bytes \<Rightarrow> ('s, core_result \<times> bytes option) op" where
  "sign_approved V rt creds action wallet account data root =
     go_bind (sg_RunRules V rt creds action [Some (rules_data_of (sg_lib V) wallet account data)]) (\<lambda>results.
       case results of
         [] \<Rightarrow> go_panic index_out_of_range
       | res # _ \<Rightarrow>
           (case rules_outcome res of
              Some r \<Rightarrow> go_return (r, None)
            | None \<Rightarrow>
                (case root of
                   Inl e \<Rightarrow> go_return (ResultFailed, None)
                 | Inr signingRoot \<Rightarrow>
                     go_bind (signRoot (sg_lib V) (Some account) signingRoot) (\<lambda>s.
                       case s of
                         Inl e \<Rightarrow> go_return (ResultFailed, None)
                       | Inr signature \<Rightarrow> go_return (ResultSucceeded, Some signature)))))"

section \<open>Generic data\<close>

definition slice_elems :: "slice option \<Rightarrow> bytes" where
  "slice_elems s = (case s of None \<Rightarrow> [] | Some x \<Rightarrow> elems x)"

definition opt_bytes :: "bytes option \<Rightarrow> bytes" where
  "opt_bytes b = (case b of None \<Rightarrow> [] | Some x \<Rightarrow> x)"

definition generic_root :: "ssz_lib \<Rightarrow> sign_data \<Rightarrow> err + bytes" where
  "generic_root Z d = generateSigningRoot Z (opt_bytes (sd_Data d)) (slice_elems (sd_Domain d))"

definition SignGeneric ::
  "('s, 'wal, 'acc) signer \<Rightarrow> go_runtime \<Rightarrow> credentials option \<Rightarrow> string \<Rightarrow> bytes option \<Rightarrow> sign_data option \<Rightarrow>
     ('s, core_result \<times> bytes option) op" where
  "SignGeneric V rt creds accountName pubKey data =
     (if creds = None then go_return (ResultFailed, None)
      else case data of
             None \<Rightarrow> go_return (ResultDenied, None)
           | Some d \<Rightarrow>
               if sd_Data d = None then go_return (ResultDenied, None)
               else if sd_Domain d = None then go_return (ResultDenied, None)
               else
                 go_bind (preCheck V creds accountName pubKey ActionSign) (\<lambda>c.
                   case c of
                     Inl r \<Rightarrow> go_return (r, None)
                   | Inr (wallet, account) \<Rightarrow>
                       sign_approved V rt creds ActionSign wallet account (AnySignData (Some d))
                         (generic_root (sg_ssz V) d)))"

section \<open>Beacon attestations\<close>

text \<open>The checks of the input, in the order of the code; \<open>False\<close> is a denial.\<close>

definition att_input_ok :: "att_data option \<Rightarrow> bool" where
  "att_input_ok data =
     (case data of
        None \<Rightarrow> False
      | Some d \<Rightarrow>
          ad_BeaconBlockRoot d \<noteq> None \<and> ad_Domain d \<noteq> None \<and>
          (case ad_Source d of None \<Rightarrow> False | Some src \<Rightarrow> cp_Root src \<noteq> None) \<and>
          (case ad_Target d of None \<Rightarrow> False | Some tgt \<Rightarrow> cp_Root tgt \<noteq> None))"

definition spec_attestation_of :: "att_data \<Rightarrow> spec_attestation" where
  "spec_attestation_of d = \<lparr>
     sa_Slot = ad_Slot d, sa_Index = ad_CommitteeIndex d,
     sa_BeaconBlockRoot = copyN 32 (opt_bytes (ad_BeaconBlockRoot d)),
     sa_Source = \<lparr>sc_Epoch = cp_Epoch (the (ad_Source d)), sc_Root = copyN 32 (opt_bytes (cp_Root (the (ad_Source d))))\<rparr>,
     sa_Target = \<lparr>sc_Epoch = cp_Epoch (the (ad_Target d)), sc_Root = copyN 32 (opt_bytes (cp_Root (the (ad_Target d))))\<rparr>\<rparr>"

definition attestation_root :: "ssz_lib \<Rightarrow> att_data \<Rightarrow> err + bytes" where
  "attestation_root Z d =
     (case ssz_attestation_root Z (spec_attestation_of d) of
        Inl e \<Rightarrow> Inl e
      | Inr dataRoot \<Rightarrow> generateSigningRoot Z dataRoot (slice_elems (ad_Domain d)))"

definition SignBeaconAttestation ::
  "('s, 'wal, 'acc) signer \<Rightarrow> go_runtime \<Rightarrow> credentials option \<Rightarrow> string \<Rightarrow> bytes option \<Rightarrow> att_data option \<Rightarrow>
     ('s, core_result \<times> bytes option) op" where
  "SignBeaconAttestation V rt creds accountName pubKey data =
     (if creds = None then go_return (ResultFailed, None)
      else if \<not> att_input_ok data then go_return (ResultDenied, None)
      else
        go_bind (preCheck V creds accountName pubKey ActionSignBeaconAttestation) (\<lambda>c.
          case c of
            Inl r \<Rightarrow> go_return (r, None)
          | Inr (wallet, account) \<Rightarrow>
              sign_approved V rt creds ActionSignBeaconAttestation wallet account (AnySignBeaconAttestationData data)
                (attestation_root (sg_ssz V) (the data))))"

section \<open>Beacon proposals\<close>

definition prop_input_ok :: "prop_data option \<Rightarrow> bool" where
  "prop_input_ok data =
     (case data of
        None \<Rightarrow> False
      | Some d \<Rightarrow> pd_Domain d \<noteq> None \<and> pd_ParentRoot d \<noteq> None \<and> pd_BodyRoot d \<noteq> None \<and> pd_StateRoot d \<noteq> None)"

definition proposal_root :: "ssz_lib \<Rightarrow> prop_data \<Rightarrow> err + bytes" where
  "proposal_root Z d =
     (case ssz_header_root Z \<lparr>sh_Slot = pd_Slot d, sh_ProposerIndex = pd_ProposerIndex d,
             sh_ParentRoot = copyN 32 (opt_bytes (pd_ParentRoot d)),
             sh_StateRoot = copyN 32 (opt_bytes (pd_StateRoot d)),
             sh_BodyRoot = copyN 32 (opt_bytes (pd_BodyRoot d))\<rparr> of
        Inl e \<Rightarrow> Inl e
      | Inr dataRoot \<Rightarrow> generateSigningRoot Z dataRoot (slice_elems (pd_Domain d)))"

definition SignBeaconProposal ::
  "('s, 'wal, 'acc) signer \<Rightarrow> go_runtime \<Rightarrow> credentials option \<Rightarrow> string \<Rightarrow> bytes option \<Rightarrow> prop_data option \<Rightarrow>
     ('s, core_result \<times> bytes option) op" where
  "SignBeaconProposal V rt creds accountName pubKey data =
     (if creds = None then go_return (ResultFailed, None)
      else if \<not> prop_input_ok data then go_return (ResultDenied, None)
      else
        go_bind (preCheck V creds accountName pubKey ActionSignBeaconProposal) (\<lambda>c.
          case c of
            Inl r \<Rightarrow> go_return (r, None)
          | Inr (wallet, account) \<Rightarrow>
              sign_approved V rt creds ActionSignBeaconProposal wallet account (AnySignBeaconProposalData data)
                (proposal_root (sg_ssz V) (the data))))"

section \<open>Batches\<close>

text \<open>
  The arrays that the goroutines of a batch share. Writing beyond the end of \<open>results\<close>, and reading
  beyond the end of \<open>data\<close>, panics: there are as many of both as requests, while the goroutines
  go over the longer of the lists of names and of keys.
\<close>

record 'acc batch =
  b_results :: "core_result list"
  b_rulesData :: "rules_data option list"
  b_accounts :: "'acc option list"
  b_signatures :: "bytes option list"

definition set_result :: "nat \<Rightarrow> core_result \<Rightarrow> ('s \<times> 'acc batch, unit) op" where
  "set_result i r = (\<lambda>(s, b).
     if i < length (b_results b) then (Ret (), (s, b\<lparr>b_results := (b_results b)[i := r]\<rparr>))
     else (Panic index_out_of_range, (s, b)))"

definition precheck_entry ::
  "('s, 'wal, 'acc) signer \<Rightarrow> credentials option \<Rightarrow> string \<Rightarrow> string list \<Rightarrow> bytes option list \<Rightarrow> any_data list \<Rightarrow>
     nat \<Rightarrow> ('s \<times> 'acc batch, unit) op" where
  "precheck_entry V creds action accountNames pubKeys data i =
     (let pubKey = (if i < length pubKeys then pubKeys ! i else None);
          accountName = (if i < length accountNames then accountNames ! i else []) in
      go_bind (go_on_fst (preCheck V creds accountName pubKey action)) (\<lambda>c.
        case c of
          Inl r \<Rightarrow> set_result i r
        | Inr (wallet, account) \<Rightarrow>
            if i < length data then
              go_update (\<lambda>(s, b). (s, b\<lparr>
                b_rulesData := (b_rulesData b)[i := Some (rules_data_of (sg_lib V) wallet account (data ! i))],
                b_accounts := (b_accounts b)[i := Some account]\<rparr>))
            else go_panic index_out_of_range))"

definition sign_at ::
  "('s, 'wal, 'acc) signer \<Rightarrow> nat \<Rightarrow> 'acc option \<Rightarrow> err + bytes \<Rightarrow> ('s \<times> 'acc batch, unit) op" where
  "sign_at V i account root =
     (case root of
        Inl e \<Rightarrow> set_result i ResultFailed
      | Inr signingRoot \<Rightarrow>
          go_bind (go_on_fst (signRoot (sg_lib V) account signingRoot)) (\<lambda>r.
            case r of
              Inl e \<Rightarrow> set_result i ResultFailed
            | Inr signature \<Rightarrow>
                go_bind (set_result i ResultSucceeded) (\<lambda>_.
                  go_update (\<lambda>(s, b). (s, b\<lparr>b_signatures := (b_signatures b)[i := Some signature]\<rparr>)))))"

definition sign_entry ::
  "('s, 'wal, 'acc) signer \<Rightarrow> rules_result list \<Rightarrow> (nat \<Rightarrow> err + bytes) \<Rightarrow> nat \<Rightarrow> ('s \<times> 'acc batch, unit) op" where
  "sign_entry V rulesResults root i =
     (case rules_outcome (rulesResults ! i) of
        Some r \<Rightarrow> set_result i r
      | None \<Rightarrow> (\<lambda>(s, b). (if i < length (b_results b) then sign_at V i (b_accounts b ! i) (root i)
                           else go_panic index_out_of_range) (s, b)))"

text \<open>The batch after its input was checked.\<close>

definition sign_batch ::
  "('s, 'wal, 'acc) signer \<Rightarrow> go_runtime \<Rightarrow> credentials option \<Rightarrow> string \<Rightarrow> string list \<Rightarrow> bytes option list \<Rightarrow>
     any_data list \<Rightarrow> (nat \<Rightarrow> err + bytes) \<Rightarrow> ('s, core_result list \<times> bytes option list option) op" where
  "sign_batch V rt creds action accountNames pubKeys data root =
     (let entries = max (length pubKeys) (length accountNames);
          b0 = \<lparr>b_results = replicate (length data) ResultUnknown, b_rulesData = replicate entries None,
                b_accounts = replicate entries None, b_signatures = replicate (length data) None\<rparr> in
      go_bind (go_local b0 (Scatter rt (int entries) (\<lambda>offset n.
                 go_bind (go_for [offset..<offset + n] (precheck_entry V creds action accountNames pubKeys data))
                   (\<lambda>_. go_return (Inr ())))))
        (\<lambda>(_, b).
          if list_ex (\<lambda>r. r \<noteq> ResultUnknown \<and> r \<noteq> ResultSucceeded) (b_results b)
          then go_return (b_results b, None)
          else
            go_bind (sg_RunRules V rt creds action (b_rulesData b)) (\<lambda>rulesResults.
              go_bind (go_local b (Scatter rt (int (length rulesResults)) (\<lambda>offset n.
                         go_bind (go_for [offset..<offset + n] (sign_entry V rulesResults root))
                           (\<lambda>_. go_return (Inr ())))))
                (\<lambda>(_, b'). go_return (b_results b', Some (b_signatures b'))))))"

definition checkSignData :: "sign_data option \<Rightarrow> err option" where
  "checkSignData data =
     (case data of
        None \<Rightarrow> Some ''request empty''
      | Some d \<Rightarrow> if sd_Data d = None then Some ''request missing data''
                  else if sd_Domain d = None then Some ''request missing domain''
                  else None)"

definition Multisign ::
  "('s, 'wal, 'acc) signer \<Rightarrow> go_runtime \<Rightarrow> credentials option \<Rightarrow> string list \<Rightarrow> bytes option list \<Rightarrow>
     sign_data option list \<Rightarrow> ('s, core_result list \<times> bytes option list option) op" where
  "Multisign V rt creds accountNames pubKeys data =
     (if length data = 0 then go_return ([ResultDenied], None)
      else if creds = None then go_return (replicate (length data) ResultDenied, None)
      else case first_index (\<lambda>d. checkSignData d \<noteq> None) data of
             Some i \<Rightarrow> go_return ((replicate (length data) ResultUnknown)[i := ResultDenied], None)
           | None \<Rightarrow>
               sign_batch V rt creds ActionSign accountNames pubKeys (map AnySignData data)
                 (\<lambda>i. generic_root (sg_ssz V) (the (data ! i))))"

text \<open>\<open>checkAttestationsData\<close>: the index of the request that is refused.\<close>

definition checkAttestationsData :: "att_data option list \<Rightarrow> nat option" where
  "checkAttestationsData data = first_index (\<lambda>d. \<not> att_input_ok d) data"

definition SignBeaconAttestations ::
  "('s, 'wal, 'acc) signer \<Rightarrow> go_runtime \<Rightarrow> credentials option \<Rightarrow> string list \<Rightarrow> bytes option list \<Rightarrow>
     att_data option list \<Rightarrow> ('s, core_result list \<times> bytes option list option) op" where
  "SignBeaconAttestations V rt creds accountNames pubKeys data =
     (if length data = 0 then go_return ([ResultDenied], None)
      else if creds = None then go_return (replicate (length data) ResultDenied, None)
      else case checkAttestationsData data of
             Some i \<Rightarrow> go_return ((replicate (length data) ResultUnknown)[i := ResultDenied], None)
           | None \<Rightarrow>
               sign_batch V rt creds ActionSignBeaconAttestation accountNames pubKeys
                 (map AnySignBeaconAttestationData data)
                 (\<lambda>i. attestation_root (sg_ssz V) (the (data ! i))))"

end
