(* ===== verification/Signer_Safety.thy ===== *)
theory Signer_Safety
  imports Signer Ruler_Safety "HOL-Library.Sublist"
begin

text \<open>
  What the signer relies on, as a locale over the services it is built from, and what follows for
  every request: a signature is given only for an account the client may use, after the rules have
  approved the message for the public key of that account, and it is made by that account.
\<close>

lemma go_triple_cong: "m = m' \<Longrightarrow> go_triple P m' Q E \<Longrightarrow> go_triple P m Q E"
  by simp

lemma refused_nth: "j < n \<Longrightarrow> (replicate n ResultUnknown)[i := ResultDenied] ! j = ResultSucceeded \<Longrightarrow> False"
  by (cases "i = j") simp_all

definition batch_shape :: "nat \<Rightarrow> core_result list \<Rightarrow> bytes option list option \<Rightarrow> bool" where
  "batch_shape n results sigs \<longleftrightarrow> length results = n \<and> (\<forall>gs. sigs = Some gs \<longrightarrow> length gs = n) \<and>
     (ResultSucceeded \<in> set results \<longrightarrow> sigs \<noteq> None)"

lemma batch_shape_refused:
  "batch_shape n (replicate n ResultDenied) None" "batch_shape n ((replicate n ResultUnknown)[i := ResultDenied]) None"
proof -
  have "ResultSucceeded \<notin> set ((replicate n ResultUnknown)[i := ResultDenied])"
    using set_update_subset_insert [of "replicate n ResultUnknown" i ResultDenied] by (auto simp: set_replicate_conv_if split: if_splits)
  then show "batch_shape n (replicate n ResultDenied) None" "batch_shape n ((replicate n ResultUnknown)[i := ResultDenied]) None"
    by (simp_all add: batch_shape_def)
qed

lemma subseq_concat_map:
  "(\<And>j. j \<in> set js \<Longrightarrow> subseq (f j) (g j)) \<Longrightarrow> subseq (concat (map f js)) (concat (map g js))"
  by (induction js) (auto intro: list_emb_append_mono)

lemma subseq_concat_upt:
  assumes "\<And>j. j < n \<Longrightarrow> f j = [] \<or> j < m \<and> f j = g j"
  shows "subseq (concat (map f [0..<n])) (concat (map g [0..<m]))"
proof -
  let ?k = "min n m"
  have n: "[0..<n] = [0..<?k] @ [?k..<n]" and m: "[0..<m] = [0..<?k] @ [?k..<m]"
    using upt_add_eq_append [of 0 ?k "n - ?k"] upt_add_eq_append [of 0 ?k "m - ?k"] by simp_all
  have nil: "concat (map f [?k..<n]) = []" using assms by (fastforce simp: concat_eq_Nil_conv)
  have sub: "subseq (f j) (g j)" if "j < n" for j using assms [OF that] by auto
  have "subseq (concat (map f [0..<?k])) (concat (map g [0..<?k]))"
    by (rule subseq_concat_map) (use sub in simp)
  then show ?thesis unfolding n m map_append concat_append nil append_Nil2 by (rule list_emb_prefix)
qed

locale signing =
  fixes V :: "('s, 'wal, 'acc) signer"
    and I E :: "(bytes \<times> int \<times> int) list \<Rightarrow> (bytes \<times> int) list \<Rightarrow> 's \<Rightarrow> bool"
    and look_name :: "string \<Rightarrow> err + 'wal \<times> 'acc" and look_key :: "bytes \<Rightarrow> err + 'wal \<times> 'acc"
    and appr :: "credentials option \<Rightarrow> string \<Rightarrow> rules_data \<Rightarrow> bool"
  assumes crash: "I al pl s \<Longrightarrow> E al pl s"
    and crash_prefix: "E (al @ al') (pl @ pl') s \<Longrightarrow> E al pl s"
    and fetch_name: "I al pl s \<Longrightarrow> sg_FetchAccount V n s = (Ret (look_name n), s)"
    and fetch_key: "I al pl s \<Longrightarrow> sg_FetchAccountByKey V k s = (Ret (look_key k), s)"
    and is_unlocked: "go_triple (I al pl) (acc_IsUnlocked (sg_lib V) a) (\<lambda>_. I al pl) (E al pl)"
    and unlock: "go_triple (I al pl) (sg_UnlockAccount V w a') (\<lambda>_. I al pl) (E al pl)"
    and sign: "go_triple (I al pl) (acc_Sign (sg_lib V) a root) (\<lambda>_. I al pl) (E al pl)"
    and run: "fair_runtime rt \<Longrightarrow> \<forall>rd \<in> set rds. rd_in_range rd \<Longrightarrow>
      go_triple (I al pl) (sg_RunRules V rt creds action rds)
        (\<lambda>rs s. length rs = max 1 (length rds) \<and>
           (\<forall>j < length rs. rs ! j = APPROVED \<longrightarrow> j < length rds \<and> (\<exists>rd. rds ! j = Some rd \<and> appr creds action rd)) \<and>
           I (al @ att_approvals action rds rs) (pl @ prop_approvals action rds rs) s) (E al pl)"
begin

definition look :: "string \<Rightarrow> bytes option \<Rightarrow> ('wal \<times> 'acc) option" where
  "look name pubKey =
     (if name = [] \<and> pubKey = None then None
      else case (case pubKey of None \<Rightarrow> look_name name | Some k \<Rightarrow> look_key k) of Inl e \<Rightarrow> None | Inr wa \<Rightarrow> Some wa)"

definition allowed :: "credentials option \<Rightarrow> string \<Rightarrow> 'wal \<Rightarrow> 'acc \<Rightarrow> bool" where
  "allowed creds action w a = sg_Check V creds (account_path (wal_Name (sg_lib V) w) (acc_Name (sg_lib V) a)) action"

lemma fetchAccount_look:
  "I al pl s \<Longrightarrow> fetchAccount V name pubKey s =
     (Ret (case look name pubKey of None \<Rightarrow> Inl ResultDenied | Some wa \<Rightarrow> Inr wa), s)"
  by (auto simp: fetchAccount_def look_def go_bind_def go_simps fetch_name fetch_key split: option.splits sum.splits)

lemma unlockAccount_triple: "go_triple (I al pl) (unlockAccount V w a) (\<lambda>_. I al pl) (E al pl)"
proof -
  have ret: "go_triple (I al pl) (go_return x) (\<lambda>_. I al pl) (E al pl)" for x :: core_result
    by (rule go_triple_return)
  have retry: "go_triple (I al pl) (go_bind (sg_UnlockAccount V w' a') (\<lambda>r.
      case r of Inl e \<Rightarrow> go_return ResultFailed | Inr ok \<Rightarrow> go_return (if ok then ResultSucceeded else ResultDenied)))
      (\<lambda>_. I al pl) (E al pl)" for w' a'
    by (rule go_triple_bind [OF unlock]) (auto intro: ret split: sum.split)
  show ?thesis
    by (auto simp: unlockAccount_def intro!: ret retry go_triple_bind [OF is_unlocked] split: option.split sum.split bool.split)
qed

lemma preCheck_triple:
  "go_triple (I al pl) (preCheck V creds name pubKey action)
     (\<lambda>c s. I al pl s \<and> (case c of Inl r \<Rightarrow> r \<noteq> ResultSucceeded
        | Inr (w, a) \<Rightarrow> look name pubKey = Some (w, a) \<and> allowed creds action w a)) (E al pl)"
proof (cases "look name pubKey")
  case None
  then show ?thesis by (auto simp: go_triple_def preCheck_def go_bind_def go_simps fetchAccount_look)
next
  case (Some wa)
  obtain w a where wa: "wa = (w, a)" by force
  have run: "preCheck V creds name pubKey action s =
      (if \<not> allowed creds action w a then (Ret (Inl ResultDenied), s)
       else go_bind (unlockAccount V (Some w) (Some a)) (\<lambda>r2.
              if r2 \<noteq> ResultSucceeded then go_return (Inl r2) else go_return (Inr (w, a))) s)"
    if "I al pl s" for s
    using that Some wa
    by (simp add: preCheck_def go_bind_Ret [where m = "fetchAccount V name pubKey", OF fetchAccount_look [OF that]]
        Let_def checkAccess_def allowed_def go_simps)
  have T: "go_triple (I al pl) (go_bind (unlockAccount V (Some w) (Some a)) (\<lambda>r2.
              if r2 \<noteq> ResultSucceeded then go_return (Inl r2) else go_return (Inr (w, a))))
     (\<lambda>c s. I al pl s \<and> (case c of Inl r \<Rightarrow> r \<noteq> ResultSucceeded | Inr (w', a') \<Rightarrow> w' = w \<and> a' = a)) (E al pl)"
    by (rule go_triple_bind [OF unlockAccount_triple]) (auto intro!: go_triple_return)
  show ?thesis
    unfolding go_triple_def
  proof (intro allI impI)
    fix s assume s: "I al pl s"
    show "case preCheck V creds name pubKey action s of
        (Ret c, t) \<Rightarrow> I al pl t \<and> (case c of Inl r \<Rightarrow> r \<noteq> ResultSucceeded
          | Inr (w, a) \<Rightarrow> look name pubKey = Some (w, a) \<and> allowed creds action w a)
      | (_, t) \<Rightarrow> E al pl t"
      using T [unfolded go_triple_def, rule_format, OF s] run [OF s] Some wa s
      by (auto split: prod.splits go.splits sum.splits if_splits)
  qed
qed

text \<open>\<open>sig\<close> is a signature that the account made over the root.\<close>

definition signed_by :: "'acc \<Rightarrow> err + bytes \<Rightarrow> bytes \<Rightarrow> bool" where
  "signed_by a root sig \<longleftrightarrow> acc_is_signer (sg_lib V) a \<and>
     (\<exists>r s s'. root = Inr r \<and> acc_Sign (sg_lib V) a r s = (Ret (Inr sig), s'))"

lemma signRoot_triple:
  "go_triple (I al pl) (signRoot (sg_lib V) acc r)
     (\<lambda>x s. I al pl s \<and> (\<forall>sig. x = Inr sig \<longrightarrow> (\<exists>a. acc = Some a \<and> signed_by a (Inr r) sig))) (E al pl)"
proof -
  have "go_triple (I al pl) (acc_Sign (sg_lib V) a r)
     (\<lambda>x s. I al pl s \<and> (\<forall>sig. x = Inr sig \<longrightarrow> (\<exists>s s'. acc_Sign (sg_lib V) a r s = (Ret (Inr sig), s')))) (E al pl)" for a
    using sign [of al pl a r] by (fastforce simp: go_triple_def split: prod.splits go.splits)
  then show ?thesis
    by (cases acc) (auto simp: signRoot_def signed_by_def intro!: go_triple_return elim!: go_triple_conseq)
qed

lemma sign_approved_triple:
  assumes fair: "fair_runtime rt" and rng: "rd_in_range (Some (rules_data_of (sg_lib V) w a d))"
  shows "go_triple (I al pl) (sign_approved V rt creds action w a d root)
    (\<lambda>(res, sig) s. \<exists>rs. I (al @ att_approvals action [Some (rules_data_of (sg_lib V) w a d)] [rs])
                            (pl @ prop_approvals action [Some (rules_data_of (sg_lib V) w a d)] [rs]) s \<and>
       (res = ResultSucceeded \<longrightarrow> rs = APPROVED \<and> appr creds action (rules_data_of (sg_lib V) w a d) \<and> (\<exists>g. sig = Some g \<and> signed_by a root g)) \<and>
       (res \<noteq> ResultSucceeded \<longrightarrow> sig = None)) (E al pl)"
proof -
  let ?rd = "rules_data_of (sg_lib V) w a d"
  let ?I = "\<lambda>r s. I (al @ att_approvals action [Some ?rd] [r]) (pl @ prop_approvals action [Some ?rd] [r]) s \<and>
       (r = APPROVED \<longrightarrow> appr creds action ?rd)"
  let ?Q = "\<lambda>(res, sig) s. \<exists>r. ?I r s \<and> (res = ResultSucceeded \<longrightarrow> r = APPROVED \<and> appr creds action (rules_data_of (sg_lib V) w a d) \<and> (\<exists>g. sig = Some g \<and> signed_by a root g)) \<and>
       (res \<noteq> ResultSucceeded \<longrightarrow> sig = None)"
  have R: "go_triple (I al pl) (sg_RunRules V rt creds action [Some ?rd]) (\<lambda>rs s. \<exists>r. rs = [r] \<and> ?I r s) (E al pl)"
    by (rule go_triple_conseq [OF run [OF fair]]) (use rng in \<open>auto simp: length_Suc_conv max_def\<close>)
  have sig: "go_triple (?I APPROVED) (go_bind (signRoot (sg_lib V) (Some a) x) (\<lambda>s.
        case s of Inl e \<Rightarrow> go_return (ResultFailed, None) | Inr signature \<Rightarrow> go_return (ResultSucceeded, Some signature))) ?Q (E al pl)"
    if "root = Inr x" for x
  proof (cases "appr creds action ?rd")
    case True
    have "go_triple (?I APPROVED) (signRoot (sg_lib V) (Some a) x)
        (\<lambda>y s. ?I APPROVED s \<and> (\<forall>g. y = Inr g \<longrightarrow> signed_by a root g)) (E al pl)"
      by (rule go_triple_conseq [OF signRoot_triple [of "al @ att_approvals action [Some ?rd] [APPROVED]"
            "pl @ prop_approvals action [Some ?rd] [APPROVED]"]]) (use that True in \<open>auto intro: crash_prefix\<close>)
    then show ?thesis by (rule go_triple_bind) (auto intro!: go_triple_return split: sum.split)
  qed (simp add: go_triple_def)
  have "go_triple (?I r) (case rules_outcome r of Some c \<Rightarrow> go_return (c, None)
      | None \<Rightarrow> (case root of Inl e \<Rightarrow> go_return (ResultFailed, None)
          | Inr signingRoot \<Rightarrow> go_bind (signRoot (sg_lib V) (Some a) signingRoot) (\<lambda>s. case s of
                Inl e \<Rightarrow> go_return (ResultFailed, None) | Inr signature \<Rightarrow> go_return (ResultSucceeded, Some signature)))) ?Q (E al pl)" for r
  proof (cases "r = APPROVED")
    case True
    show ?thesis
    proof (cases root)
      case (Inr x)
      from sig [OF Inr] show ?thesis unfolding True Inr by simp
    qed (use True in \<open>auto intro!: go_triple_return\<close>)
  next
    case False
    then show ?thesis by (cases r) (auto intro!: go_triple_return)
  qed
  then have "go_triple (\<lambda>s. \<exists>r. rs = [r] \<and> ?I r s) (case rs of [] \<Rightarrow> go_panic index_out_of_range | res # _ \<Rightarrow>
           (case rules_outcome res of Some r \<Rightarrow> go_return (r, None)
            | None \<Rightarrow> (case root of Inl e \<Rightarrow> go_return (ResultFailed, None)
                 | Inr signingRoot \<Rightarrow> go_bind (signRoot (sg_lib V) (Some a) signingRoot) (\<lambda>s. case s of
                         Inl e \<Rightarrow> go_return (ResultFailed, None) | Inr signature \<Rightarrow> go_return (ResultSucceeded, Some signature))))) ?Q (E al pl)" for rs
    by (cases rs) (auto simp: go_triple_def)
  from go_triple_bind [OF R this] show ?thesis unfolding sign_approved_def by (rule go_triple_conseq) auto
qed

section \<open>Single messages\<close>

text \<open>
  A request that passed the checks of its input. Either nothing was approved and nothing signed,
  or the client may use the account that was found and the rules have given their answer \<open>r\<close>.
\<close>

lemma checked_sign_triple:
  assumes fair: "fair_runtime rt" and rng: "\<And>w a. rd_in_range (Some (rules_data_of (sg_lib V) w a d))"
  shows "go_triple (I al pl) (go_bind (preCheck V creds name pubKey action) (\<lambda>c.
       case c of Inl r \<Rightarrow> go_return (r, None) | Inr (w, a) \<Rightarrow> sign_approved V rt creds action w a d root))
    (\<lambda>(res, sig) s. (res \<noteq> ResultSucceeded \<longrightarrow> sig = None) \<and>
       (I al pl s \<and> res \<noteq> ResultSucceeded \<or>
        (\<exists>w a r. look name pubKey = Some (w, a) \<and> allowed creds action w a \<and>
          I (al @ att_approvals action [Some (rules_data_of (sg_lib V) w a d)] [r])
            (pl @ prop_approvals action [Some (rules_data_of (sg_lib V) w a d)] [r]) s \<and>
          (res = ResultSucceeded \<longrightarrow> r = APPROVED \<and> appr creds action (rules_data_of (sg_lib V) w a d) \<and> (\<exists>g. sig = Some g \<and> signed_by a root g))))) (E al pl)"
    (is "go_triple _ _ ?Q _")
proof (rule go_triple_bind [OF preCheck_triple])
  fix c
  show "go_triple (\<lambda>s. I al pl s \<and> (case c of Inl r \<Rightarrow> r \<noteq> ResultSucceeded
        | Inr (w, a) \<Rightarrow> look name pubKey = Some (w, a) \<and> allowed creds action w a))
     (case c of Inl r \<Rightarrow> go_return (r, None) | Inr (w, a) \<Rightarrow> sign_approved V rt creds action w a d root) ?Q (E al pl)"
  proof (cases c)
    case (Inl r)
    then show ?thesis by (auto intro!: go_triple_return)
  next
    case (Inr wa)
    then obtain w a where wa: "c = Inr (w, a)" by (cases wa) auto
    show ?thesis
    proof (cases "look name pubKey = Some (w, a) \<and> allowed creds action w a")
      case True
      have "go_triple (I al pl) (sign_approved V rt creds action w a d root) ?Q (E al pl)"
        by (rule go_triple_conseq [OF sign_approved_triple [OF fair rng [of w a], where al = al and pl = pl]])
           (use True in \<open>fastforce split: prod.splits\<close>)+
      with wa True show ?thesis by simp
    qed (use wa in \<open>auto simp: go_triple_def\<close>)
  qed
qed

lemma SignBeaconAttestation_triple:
  assumes fair: "fair_runtime rt" and rng: "att_in_range data"
  shows "go_triple (I al pl) (SignBeaconAttestation V rt creds name pubKey data)
    (\<lambda>(res, sig) s. (res \<noteq> ResultSucceeded \<longrightarrow> sig = None) \<and> (\<exists>al'. I (al @ al') pl s \<and>
       (res = ResultSucceeded \<longrightarrow> (\<exists>w a d g. look name pubKey = Some (w, a) \<and> data = Some d \<and>
          allowed creds ActionSignBeaconAttestation w a \<and>
          al' = [(acc_PublicKey (sg_lib V) a, the (att_epochs d))] \<and>
          sig = Some g \<and> signed_by a (attestation_root (sg_ssz V) d) g)))) (E al pl)"
    (is "go_triple _ _ ?Q _")
proof (cases "creds \<noteq> None \<and> att_input_ok data")
  case False
  then have "\<exists>r. r \<noteq> ResultSucceeded \<and> SignBeaconAttestation V rt creds name pubKey data = go_return (r, None)"
    by (auto simp: SignBeaconAttestation_def)
  then show ?thesis by (auto intro!: go_triple_return exI [of _ "[]"])
next
  case True
  then obtain d src tgt where d: "data = Some d" "ad_Source d = Some src" "ad_Target d = Some tgt"
    by (auto simp: att_input_ok_def split: option.splits)
  let ?A = "ActionSignBeaconAttestation" and ?D = "AnySignBeaconAttestationData data"
  have app: "att_approvals ?A [Some (rules_data_of (sg_lib V) w a ?D)] [r] =
       (if r = APPROVED then [(acc_PublicKey (sg_lib V) a, the (att_epochs d))] else [])"
     "prop_approvals ?A [Some (rules_data_of (sg_lib V) w a ?D)] [r] = []" for w a r
    using d by (auto simp: att_approvals_def prop_approvals_def att_approval_def prop_approval_def rules_data_of_def
        att_epochs_def actions_distinct)
  have rd: "rd_in_range (Some (rules_data_of (sg_lib V) w a ?D))" for w a
    using rng by (simp add: rd_in_range_def rules_data_of_def prop_in_range_def)
  note T = checked_sign_triple [OF fair rd, of al pl creds name pubKey ?A "attestation_root (sg_ssz V) d", unfolded app append_Nil2]
  have "go_triple (I al pl) (go_bind (preCheck V creds name pubKey ?A) (\<lambda>c.
       case c of Inl r \<Rightarrow> go_return (r, None) | Inr (w, a) \<Rightarrow> sign_approved V rt creds ?A w a ?D (attestation_root (sg_ssz V) d))) ?Q (E al pl)"
    by (rule go_triple_conseq [OF T]) (use d(1) in \<open>auto intro: exI [of _ "[]"] split: if_splits\<close>)
  with True d(1) show ?thesis by (auto simp: SignBeaconAttestation_def)
qed

lemma SignBeaconProposal_triple:
  assumes fair: "fair_runtime rt" and rng: "prop_in_range data"
  shows "go_triple (I al pl) (SignBeaconProposal V rt creds name pubKey data)
    (\<lambda>(res, sig) s. (res \<noteq> ResultSucceeded \<longrightarrow> sig = None) \<and> (\<exists>pl'. I al (pl @ pl') s \<and>
       (res = ResultSucceeded \<longrightarrow> (\<exists>w a d g. look name pubKey = Some (w, a) \<and> data = Some d \<and>
          allowed creds ActionSignBeaconProposal w a \<and>
          pl' = [(acc_PublicKey (sg_lib V) a, uint (pd_Slot d))] \<and>
          sig = Some g \<and> signed_by a (proposal_root (sg_ssz V) d) g)))) (E al pl)"
    (is "go_triple _ _ ?Q _")
proof (cases "creds \<noteq> None \<and> prop_input_ok data")
  case False
  then have "\<exists>r. r \<noteq> ResultSucceeded \<and> SignBeaconProposal V rt creds name pubKey data = go_return (r, None)"
    by (auto simp: SignBeaconProposal_def)
  then show ?thesis by (auto intro!: go_triple_return exI [of _ "[]"])
next
  case True
  then obtain d where d: "data = Some d" by (auto simp: prop_input_ok_def split: option.splits)
  let ?A = "ActionSignBeaconProposal" and ?D = "AnySignBeaconProposalData data"
  have app: "prop_approvals ?A [Some (rules_data_of (sg_lib V) w a ?D)] [r] =
       (if r = APPROVED then [(acc_PublicKey (sg_lib V) a, uint (pd_Slot d))] else [])"
     "att_approvals ?A [Some (rules_data_of (sg_lib V) w a ?D)] [r] = []" for w a r
    using d actions_distinct by (auto simp: att_approvals_def prop_approvals_def att_approval_def prop_approval_def rules_data_of_def)
  have rd: "rd_in_range (Some (rules_data_of (sg_lib V) w a ?D))" for w a
    using rng by (simp add: rd_in_range_def rules_data_of_def att_in_range_def)
  note T = checked_sign_triple [OF fair rd, of al pl creds name pubKey ?A "proposal_root (sg_ssz V) d", unfolded app append_Nil2]
  have "go_triple (I al pl) (go_bind (preCheck V creds name pubKey ?A) (\<lambda>c.
       case c of Inl r \<Rightarrow> go_return (r, None) | Inr (w, a) \<Rightarrow> sign_approved V rt creds ?A w a ?D (proposal_root (sg_ssz V) d))) ?Q (E al pl)"
    by (rule go_triple_conseq [OF T]) (use d in \<open>auto intro: exI [of _ "[]"] split: if_splits\<close>)
  with True d show ?thesis by (auto simp: SignBeaconProposal_def)
qed

lemma SignGeneric_triple:
  assumes fair: "fair_runtime rt"
  shows "go_triple (I al pl) (SignGeneric V rt creds name pubKey data)
    (\<lambda>(res, sig) s. I al pl s \<and> (res \<noteq> ResultSucceeded \<longrightarrow> sig = None) \<and>
       (res = ResultSucceeded \<longrightarrow> (\<exists>w a d g. look name pubKey = Some (w, a) \<and> data = Some d \<and>
          allowed creds ActionSign w a \<and> appr creds ActionSign (rules_data_of (sg_lib V) w a (AnySignData data)) \<and>
          sig = Some g \<and> signed_by a (generic_root (sg_ssz V) d) g))) (E al pl)"
    (is "go_triple _ _ ?Q _")
proof (cases "creds \<noteq> None \<and> (\<exists>d. data = Some d \<and> sd_Data d \<noteq> None \<and> sd_Domain d \<noteq> None)")
  case False
  then have "\<exists>r. r \<noteq> ResultSucceeded \<and> SignGeneric V rt creds name pubKey data = go_return (r, None)"
    by (cases data) (auto simp: SignGeneric_def)
  then show ?thesis by (auto intro!: go_triple_return)
next
  case True
  then obtain d where d: "data = Some d" by blast
  let ?A = "ActionSign" and ?D = "AnySignData data"
  have app: "prop_approvals ?A [Some (rules_data_of (sg_lib V) w a ?D)] [r] = []"
     "att_approvals ?A [Some (rules_data_of (sg_lib V) w a ?D)] [r] = []" for w a r
    using actions_distinct by (auto simp: att_approvals_def prop_approvals_def att_approval_def prop_approval_def)
  have rd: "rd_in_range (Some (rules_data_of (sg_lib V) w a ?D))" for w a
    by (simp add: rd_in_range_def rules_data_of_def att_in_range_def prop_in_range_def)
  note T = checked_sign_triple [OF fair rd, of al pl creds name pubKey ?A "generic_root (sg_ssz V) d", unfolded app append_Nil2]
  have "go_triple (I al pl) (go_bind (preCheck V creds name pubKey ?A) (\<lambda>c.
       case c of Inl r \<Rightarrow> go_return (r, None) | Inr (w, a) \<Rightarrow> sign_approved V rt creds ?A w a ?D (generic_root (sg_ssz V) d))) ?Q (E al pl)"
    by (rule go_triple_conseq [OF T]) (use d in auto)
  with True d show ?thesis by (auto simp: SignGeneric_def)
qed

section \<open>Batches\<close>

definition entry_target :: "string list \<Rightarrow> bytes option list \<Rightarrow> nat \<Rightarrow> ('wal \<times> 'acc) option" where
  "entry_target names pubKeys i =
     look (if i < length names then names ! i else []) (if i < length pubKeys then pubKeys ! i else None)"

text \<open>An entry that was prepared for the rules is that of an account the client may use.\<close>

definition entry_ok ::
  "credentials option \<Rightarrow> string \<Rightarrow> string list \<Rightarrow> bytes option list \<Rightarrow> any_data list \<Rightarrow> 'acc batch \<Rightarrow> nat \<Rightarrow> bool" where
  "entry_ok creds action names pubKeys data b j \<longleftrightarrow> b_rulesData b ! j = None \<or>
     (\<exists>w a. entry_target names pubKeys j = Some (w, a) \<and> allowed creds action w a \<and> j < length data \<and>
        b_rulesData b ! j = Some (rules_data_of (sg_lib V) w a (data ! j)) \<and> b_accounts b ! j = Some a)"

definition pre_inv ::
  "credentials option \<Rightarrow> string \<Rightarrow> string list \<Rightarrow> bytes option list \<Rightarrow> any_data list \<Rightarrow> nat \<Rightarrow> 'acc batch \<Rightarrow> bool" where
  "pre_inv creds action names pubKeys data n b \<longleftrightarrow>
     length (b_results b) = length data \<and> length (b_rulesData b) = n \<and> length (b_accounts b) = n \<and>
     b_signatures b = replicate (length data) None \<and> ResultSucceeded \<notin> set (b_results b) \<and>
     (\<forall>j < n. entry_ok creds action names pubKeys data b j)"

lemma pre_inv_no_success: "pre_inv creds action names pubKeys data n b \<Longrightarrow> j < length data \<Longrightarrow> b_results b ! j \<noteq> ResultSucceeded"
  unfolding pre_inv_def by (metis nth_mem)

lemma set_result_triple:
  assumes "\<And>s b. P (s, b) \<Longrightarrow> i < length (b_results b) \<Longrightarrow> Q () (s, b\<lparr>b_results := (b_results b)[i := r]\<rparr>)"
    and "\<And>s b. P (s, b) \<Longrightarrow> F (s, b)"
  shows "go_triple P (set_result i r) Q F"
  using assms by (auto simp: go_triple_def set_result_def split: prod.splits)

lemma precheck_entry_triple:
  assumes "i < n"
  shows "go_triple (\<lambda>(s, b). I al pl s \<and> pre_inv creds action names pubKeys data n b)
    (precheck_entry V creds action names pubKeys data i)
    (\<lambda>_ (s, b). I al pl s \<and> pre_inv creds action names pubKeys data n b) (\<lambda>(s, b). E al pl s)"
proof -
  let ?nm = "if i < length names then names ! i else []" and ?pk = "if i < length pubKeys then pubKeys ! i else None"
  let ?P = "\<lambda>c (s, b). I al pl s \<and> pre_inv creds action names pubKeys data n b \<and>
      (case c of Inl r \<Rightarrow> r \<noteq> ResultSucceeded | Inr (w, a) \<Rightarrow> entry_target names pubKeys i = Some (w, a) \<and> allowed creds action w a)"
  have pre: "go_triple (\<lambda>(s, b). I al pl s \<and> pre_inv creds action names pubKeys data n b)
      (go_on_fst (preCheck V creds ?nm ?pk action)) ?P (\<lambda>(s, b). E al pl s)"
    by (rule go_triple_conseq [OF go_triple_frame [OF preCheck_triple [of al pl creds ?nm ?pk action]]])
       (auto simp: entry_target_def split: sum.splits)
  have upd: "pre_inv creds action names pubKeys data n (b\<lparr>
        b_rulesData := (b_rulesData b)[i := Some (rules_data_of (sg_lib V) w a (data ! i))],
        b_accounts := (b_accounts b)[i := Some a]\<rparr>)"
    if "pre_inv creds action names pubKeys data n b" "entry_target names pubKeys i = Some (w, a)" "allowed creds action w a"
      "i < length data" for b w a
    using that assms by (auto simp: pre_inv_def entry_ok_def nth_list_update)
  have res: "pre_inv creds action names pubKeys data n (b\<lparr>b_results := (b_results b)[i := r]\<rparr>)"
    if "pre_inv creds action names pubKeys data n b" "r \<noteq> ResultSucceeded" for b r
    using that by (auto simp: pre_inv_def entry_ok_def dest: set_update_subset_insert [THEN subsetD])
  show ?thesis
    unfolding precheck_entry_def Let_def
  proof (rule go_triple_bind [OF pre])
    fix c
    show "go_triple (?P c) (case c of Inl r \<Rightarrow> set_result i r
        | Inr (wallet, account) \<Rightarrow>
            if i < length data then
              go_update (\<lambda>(s, b). (s, b\<lparr>
                b_rulesData := (b_rulesData b)[i := Some (rules_data_of (sg_lib V) wallet account (data ! i))],
                b_accounts := (b_accounts b)[i := Some account]\<rparr>))
            else go_panic index_out_of_range)
      (\<lambda>_ (s, b). I al pl s \<and> pre_inv creds action names pubKeys data n b) (\<lambda>(s, b). E al pl s)"
      by (cases c) (auto intro!: set_result_triple go_triple_update go_triple_panic simp: res upd crash split: prod.splits)
  qed
qed

text \<open>What the signing goroutines keep, for given results \<open>rs\<close> of the rules.\<close>

definition sign_inv :: "rules_result list \<Rightarrow> (nat \<Rightarrow> err + bytes) \<Rightarrow> 'acc batch \<Rightarrow> 'acc batch \<Rightarrow> bool" where
  "sign_inv rs root b0 b \<longleftrightarrow>
     length (b_results b) = length (b_results b0) \<and> length (b_signatures b) = length (b_results b0) \<and>
     b_accounts b = b_accounts b0 \<and>
     (\<forall>j < length (b_results b0). (b_results b ! j = ResultSucceeded \<longrightarrow> b_signatures b ! j \<noteq> None) \<and>
        (\<forall>g. b_signatures b ! j = Some g \<longrightarrow> j < length rs \<and> rs ! j = APPROVED \<and>
           (\<exists>a. b_accounts b0 ! j = Some a \<and> signed_by a (root j) g)))"

lemma sign_at_triple:
  assumes i: "i < length rs" "rs ! i = APPROVED" and acc: "account = b_accounts b0 ! i"
  shows "go_triple (\<lambda>(s, b). I al pl s \<and> sign_inv rs root b0 b) (sign_at V i account (root i))
    (\<lambda>_ (s, b). I al pl s \<and> sign_inv rs root b0 b) (\<lambda>(s, b). E al pl s)"
proof -
  let ?P = "\<lambda>(s, b). I al pl s \<and> sign_inv rs root b0 b"
  have fail: "go_triple ?P (set_result i ResultFailed) (\<lambda>_. ?P) (\<lambda>(s, b). E al pl s)"
    by (intro set_result_triple) (auto simp: sign_inv_def crash nth_list_update)
  have ok: "go_triple ?P (go_bind (set_result i ResultSucceeded) (\<lambda>_.
        go_update (\<lambda>(s, b). (s, b\<lparr>b_signatures := (b_signatures b)[i := Some g]\<rparr>)))) (\<lambda>_. ?P) (\<lambda>(s, b). E al pl s)"
    if "account = Some a" "signed_by a (root i) g" for a g
    using that i acc by (auto simp: go_triple_def go_bind_def set_result_def go_simps sign_inv_def crash nth_list_update)
  show ?thesis
  proof (cases "root i")
    case (Inl e)
    with fail show ?thesis by (simp add: sign_at_def)
  next
    case (Inr x)
    have "go_triple (\<lambda>(s, b). (I al pl s \<and> (\<forall>sig. y = Inr sig \<longrightarrow> (\<exists>a. account = Some a \<and> signed_by a (Inr x) sig))) \<and> sign_inv rs root b0 b)
        (case y of Inl e \<Rightarrow> set_result i ResultFailed
           | Inr signature \<Rightarrow> go_bind (set_result i ResultSucceeded) (\<lambda>_.
               go_update (\<lambda>(s, b). (s, b\<lparr>b_signatures := (b_signatures b)[i := Some signature]\<rparr>))))
        (\<lambda>_. ?P) (\<lambda>(s, b). E al pl s)" for y
    proof (cases "\<exists>e. y = Inl e")
      case True
      with fail show ?thesis by (auto elim!: go_triple_conseq)
    next
      case False
      then obtain g where y: "y = Inr g" by (cases y) auto
      show ?thesis
      proof (cases "\<exists>a. account = Some a \<and> signed_by a (Inr x) g")
        case True
        with ok Inr y show ?thesis by (auto elim!: go_triple_conseq)
      qed (use y in \<open>auto simp: go_triple_def\<close>)
    qed
    then show ?thesis
      unfolding sign_at_def Inr sum.case by (rule go_triple_bind [OF go_triple_frame [OF signRoot_triple]])
  qed
qed

lemma sign_entry_triple:
  assumes i: "i < length rs"
  shows "go_triple (\<lambda>(s, b). I al pl s \<and> sign_inv rs root b0 b) (sign_entry V rs root i)
    (\<lambda>_ (s, b). I al pl s \<and> sign_inv rs root b0 b) (\<lambda>(s, b). E al pl s)"
    (is "go_triple ?P _ _ _")
proof (cases "rs ! i = APPROVED")
  case False
  then obtain r where r: "rules_outcome (rs ! i) = Some r" "r \<noteq> ResultSucceeded" by (cases "rs ! i") auto
  then have "go_triple ?P (set_result i r) (\<lambda>_. ?P) (\<lambda>(s, b). E al pl s)"
    by (intro set_result_triple) (auto simp: sign_inv_def crash nth_list_update)
  with r show ?thesis by (simp add: sign_entry_def)
next
  case True
  note T = sign_at_triple [OF i True refl, of al pl root b0]
  show ?thesis
  proof (rule go_triple_split)
    fix s b assume pre: "?P (s, b)"
    then have "b_accounts b = b_accounts b0" by (simp add: sign_inv_def)
    with T pre True show "go_triple (\<lambda>t. t = (s, b)) (sign_entry V rs root i) (\<lambda>_. ?P) (\<lambda>(s, b). E al pl s)"
      by (auto simp: sign_entry_def go_triple_def go_simps crash)
  qed
qed

text \<open>
  What a batch gives: for the entries \<open>rds\<close> that were prepared and the results \<open>rs\<close> of the rules, a
  success at \<open>j\<close> comes with the signature of the account that was found for entry \<open>j\<close>.
\<close>

definition batch_signed ::
  "credentials option \<Rightarrow> string \<Rightarrow> string list \<Rightarrow> bytes option list \<Rightarrow> any_data list \<Rightarrow> (nat \<Rightarrow> err + bytes) \<Rightarrow>
     rules_data option list \<Rightarrow> rules_result list \<Rightarrow> core_result list \<Rightarrow> bytes option list option \<Rightarrow> bool" where
  "batch_signed creds action names pubKeys data root rds rs results sigs \<longleftrightarrow>
     length results = length data \<and> (\<forall>gs. sigs = Some gs \<longrightarrow> length gs = length data) \<and>
     (\<forall>j < length data. results ! j = ResultSucceeded \<longrightarrow>
        j < length rds \<and> j < length rs \<and> rs ! j = APPROVED \<and>
        (\<exists>w a gs g. entry_target names pubKeys j = Some (w, a) \<and> allowed creds action w a \<and>
           rds ! j = Some (rules_data_of (sg_lib V) w a (data ! j)) \<and> appr creds action (rules_data_of (sg_lib V) w a (data ! j)) \<and>
           sigs = Some gs \<and> gs ! j = Some g \<and> signed_by a (root j) g))"

lemma batch_signedD:
  assumes "batch_signed creds action names pubKeys data root rds rs results sigs" "j < length data" "results ! j = ResultSucceeded"
  shows "j < length rds \<and> j < length rs \<and> rs ! j = APPROVED \<and>
        (\<exists>w a gs g. entry_target names pubKeys j = Some (w, a) \<and> allowed creds action w a \<and>
           rds ! j = Some (rules_data_of (sg_lib V) w a (data ! j)) \<and> appr creds action (rules_data_of (sg_lib V) w a (data ! j)) \<and>
           sigs = Some gs \<and> gs ! j = Some g \<and> signed_by a (root j) g)"
  using assms unfolding batch_signed_def by blast

lemma batch_signed_shape:
  assumes "batch_signed creds action names pubKeys data root rds rs results sigs"
  shows "batch_shape (length data) results sigs"
proof -
  have "sigs \<noteq> None" if "ResultSucceeded \<in> set results"
    using batch_signedD [OF assms] assms that by (auto simp: batch_signed_def in_set_conv_nth)
  then show ?thesis using assms by (simp add: batch_shape_def batch_signed_def)
qed

lemma batch_signed_intro:
  assumes pre: "pre_inv creds action names pubKeys data n b" and s: "sign_inv rs root b b'"
    and app: "\<forall>j < length rs. rs ! j = APPROVED \<longrightarrow> j < length (b_rulesData b) \<and> (\<exists>rd. b_rulesData b ! j = Some rd \<and> appr creds action rd)"
  shows "batch_signed creds action names pubKeys data root (b_rulesData b) rs (b_results b') (Some (b_signatures b'))"
  unfolding batch_signed_def
proof (intro conjI allI impI)
  show "length (b_results b') = length data" using pre s by (simp add: pre_inv_def sign_inv_def)
  show "length gs = length data" if "Some (b_signatures b') = Some gs" for gs
    using pre s that by (auto simp: pre_inv_def sign_inv_def)
  fix j assume j: "j < length data" "b_results b' ! j = ResultSucceeded"
  with pre s have "j < length (b_results b)" by (simp add: pre_inv_def)
  with s j(2) obtain g a where g: "b_signatures b' ! j = Some g" "j < length rs" "rs ! j = APPROVED"
    "b_accounts b ! j = Some a" "signed_by a (root j) g"
    unfolding sign_inv_def by blast
  then show "j < length rs" and "rs ! j = APPROVED" by simp_all
  from app g obtain rd where rd: "j < length (b_rulesData b)" "b_rulesData b ! j = Some rd" "appr creds action rd" by auto
  then show "j < length (b_rulesData b)" by simp
  from pre rd obtain w a' where "entry_target names pubKeys j = Some (w, a')" "allowed creds action w a'"
    "b_rulesData b ! j = Some (rules_data_of (sg_lib V) w a' (data ! j))" "b_accounts b ! j = Some a'"
    unfolding pre_inv_def entry_ok_def by auto
  with g rd show "\<exists>w a gs g. entry_target names pubKeys j = Some (w, a) \<and> allowed creds action w a \<and>
      b_rulesData b ! j = Some (rules_data_of (sg_lib V) w a (data ! j)) \<and> appr creds action (rules_data_of (sg_lib V) w a (data ! j)) \<and>
      Some (b_signatures b') = Some gs \<and> gs ! j = Some g \<and> signed_by a (root j) g" by auto
qed

lemma pre_inv_in_range:
  assumes pre: "pre_inv creds action names pubKeys data n b"
    and rng: "\<And>w a d. d \<in> set data \<Longrightarrow> rd_in_range (Some (rules_data_of (sg_lib V) w a d))"
  shows "\<forall>rd \<in> set (b_rulesData b). rd_in_range rd"
proof
  fix rd assume "rd \<in> set (b_rulesData b)"
  then obtain j where j: "j < n" "rd = b_rulesData b ! j" using pre by (auto simp: pre_inv_def in_set_conv_nth)
  with pre have "entry_ok creds action names pubKeys data b j" by (simp add: pre_inv_def)
  then consider "rd = None" | w a where "j < length data" "rd = Some (rules_data_of (sg_lib V) w a (data ! j))"
    using j by (auto simp: entry_ok_def)
  then show "rd_in_range rd" using rng by cases (auto simp: rd_in_range_def)
qed

lemma sign_batch_triple:
  assumes fair: "fair_runtime rt" and rng: "\<And>w a d. d \<in> set data \<Longrightarrow> rd_in_range (Some (rules_data_of (sg_lib V) w a d))"
  shows "go_triple (I al pl) (sign_batch V rt creds action names pubKeys data root)
    (\<lambda>(results, sigs) s. \<exists>rds rs. I (al @ att_approvals action rds rs) (pl @ prop_approvals action rds rs) s \<and>
       batch_signed creds action names pubKeys data root rds rs results sigs) (E al pl)"
    (is "go_triple _ _ ?Q _")
proof -
  let ?n = "max (length pubKeys) (length names)"
  let ?pre = "pre_inv creds action names pubKeys data ?n"
  let ?b0 = "\<lparr>b_results = replicate (length data) ResultUnknown, b_rulesData = replicate ?n None,
                b_accounts = replicate ?n None, b_signatures = replicate (length data) None\<rparr>"
  have stage1: "go_triple (I al pl) (go_local ?b0 (Scatter rt (int ?n) (\<lambda>offset k.
      go_bind (go_for [offset..<offset + k] (precheck_entry V creds action names pubKeys data)) (\<lambda>_. go_return (Inr ())))))
      (\<lambda>(_, b) s. I al pl s \<and> ?pre b) (E al pl)"
    by (rule go_triple_local_inv [where L = ?pre], rule scatter_inv [OF fair], erule precheck_entry_triple)
       (auto simp: pre_inv_def entry_ok_def)
  have stage2: "go_triple (\<lambda>s. I al pl s \<and> ?pre b)
      (go_bind (sg_RunRules V rt creds action (b_rulesData b)) (\<lambda>rulesResults.
         go_bind (go_local b (Scatter rt (int (length rulesResults)) (\<lambda>offset n.
                    go_bind (go_for [offset..<offset + n] (sign_entry V rulesResults root)) (\<lambda>_. go_return (Inr ())))))
           (\<lambda>(_, b'). go_return (b_results b', Some (b_signatures b'))))) ?Q (E al pl)" if pre: "?pre b" for b
  proof -
    note in_range = pre_inv_in_range [OF pre rng]
    have R: "go_triple (\<lambda>s. I al pl s \<and> ?pre b) (sg_RunRules V rt creds action (b_rulesData b))
        (\<lambda>rs s. (\<forall>j < length rs. rs ! j = APPROVED \<longrightarrow> j < length (b_rulesData b) \<and> (\<exists>rd. b_rulesData b ! j = Some rd \<and> appr creds action rd)) \<and>
           I (al @ att_approvals action (b_rulesData b) rs) (pl @ prop_approvals action (b_rulesData b) rs) s) (E al pl)"
      by (rule go_triple_conseq [OF run [OF fair in_range]]) auto
    have S: "go_triple (\<lambda>s. (\<forall>j < length rs. rs ! j = APPROVED \<longrightarrow> j < length (b_rulesData b) \<and> (\<exists>rd. b_rulesData b ! j = Some rd \<and> appr creds action rd)) \<and>
           I (al @ att_approvals action (b_rulesData b) rs) (pl @ prop_approvals action (b_rulesData b) rs) s)
         (go_bind (go_local b (Scatter rt (int (length rs)) (\<lambda>offset n.
                    go_bind (go_for [offset..<offset + n] (sign_entry V rs root)) (\<lambda>_. go_return (Inr ())))))
           (\<lambda>(_, b'). go_return (b_results b', Some (b_signatures b')))) ?Q (E al pl)" for rs
    proof (cases "\<forall>j < length rs. rs ! j = APPROVED \<longrightarrow> j < length (b_rulesData b) \<and> (\<exists>rd. b_rulesData b ! j = Some rd \<and> appr creds action rd)")
      case True
      let ?al = "al @ att_approvals action (b_rulesData b) rs" and ?pl = "pl @ prop_approvals action (b_rulesData b) rs"
      have b: "sign_inv rs root b b" using pre pre_inv_no_success [OF pre] by (auto simp: sign_inv_def pre_inv_def)
      have L: "go_triple (I ?al ?pl) (go_local b (Scatter rt (int (length rs)) (\<lambda>offset n.
              go_bind (go_for [offset..<offset + n] (sign_entry V rs root)) (\<lambda>_. go_return (Inr ())))))
            (\<lambda>(_, b') s. I ?al ?pl s \<and> sign_inv rs root b b') (E ?al ?pl)"
        by (rule go_triple_local_inv [where L = "sign_inv rs root b"], rule scatter_inv [OF fair], erule sign_entry_triple) (rule b)
      have L': "go_triple (I ?al ?pl) (go_local b (Scatter rt (int (length rs)) (\<lambda>offset n.
              go_bind (go_for [offset..<offset + n] (sign_entry V rs root)) (\<lambda>_. go_return (Inr ())))))
            (\<lambda>(_, b') s. I ?al ?pl s \<and> sign_inv rs root b b') (E al pl)"
        by (rule go_triple_conseq [OF L]) (auto intro: crash_prefix)
      have "go_triple (I ?al ?pl) (go_bind (go_local b (Scatter rt (int (length rs)) (\<lambda>offset n.
                    go_bind (go_for [offset..<offset + n] (sign_entry V rs root)) (\<lambda>_. go_return (Inr ())))))
           (\<lambda>(_, b'). go_return (b_results b', Some (b_signatures b')))) ?Q (E al pl)"
        by (rule go_triple_bind [OF L'])
           (use batch_signed_intro [OF pre _ True] in \<open>auto intro!: go_triple_return\<close>)
      with True show ?thesis by simp
    qed (auto simp: go_triple_def)
    from R S show ?thesis by (rule go_triple_bind)
  qed
  have refuse: "\<exists>rds rs. I (al @ att_approvals action rds rs) (pl @ prop_approvals action rds rs) s \<and>
       batch_signed creds action names pubKeys data root rds rs (b_results b) None" if "I al pl s" "?pre b" for s b
    using that pre_inv_no_success [OF that(2)] by (intro exI [of _ "[]"] exI [of _ "[]"])
       (auto simp: att_approvals_def prop_approvals_def batch_signed_def pre_inv_def)
  show ?thesis
    unfolding sign_batch_def Let_def
  proof (rule go_triple_bind [OF stage1], goal_cases)
    case (1 x)
    obtain y b where x: "x = (y, b)" by (cases x)
    show ?case
    proof (cases "?pre b")
      case True
      show ?thesis using stage2 [OF True] refuse True unfolding x
        by (auto intro!: go_triple_return)
    qed (simp add: x go_triple_def)
  qed
qed

text \<open>The attestations that a call signed, by the accounts that its entries name.\<close>

definition batch_log ::
  "string list \<Rightarrow> bytes option list \<Rightarrow> att_data option list \<Rightarrow> core_result list \<Rightarrow> (bytes \<times> int \<times> int) list" where
  "batch_log names pubKeys data results = concat (map (\<lambda>j.
     if results ! j = ResultSucceeded
     then [(acc_PublicKey (sg_lib V) (snd (the (entry_target names pubKeys j))), the (att_epochs (the (data ! j))))]
     else []) [0..<length data])"

lemma batch_log_approved:
  assumes "batch_signed creds ActionSignBeaconAttestation names pubKeys (map AnySignBeaconAttestationData data) root rds rs results sigs"
    and ok: "\<forall>d \<in> set data. att_input_ok d"
  shows "subseq (batch_log names pubKeys data results) (att_approvals ActionSignBeaconAttestation rds rs)"
proof -
  let ?m = "min (length rds) (length rs)"
  let ?f = "\<lambda>j. if results ! j = ResultSucceeded
     then [(acc_PublicKey (sg_lib V) (snd (the (entry_target names pubKeys j))), the (att_epochs (the (data ! j))))] else []"
  let ?g = "\<lambda>j. att_approval ActionSignBeaconAttestation (rds ! j) (rs ! j)"
  have "map2 (att_approval ActionSignBeaconAttestation) rds rs = map ?g [0..<?m]"
    by (rule nth_equalityI) auto
  then have app: "att_approvals ActionSignBeaconAttestation rds rs = concat (map ?g [0..<?m])"
    by (simp add: att_approvals_def)
  have fg: "?f j = [] \<or> j < ?m \<and> ?f j = ?g j" if "j < length data" for j
  proof (cases "results ! j = ResultSucceeded")
    case True
    with batch_signedD [OF assms(1), of j] that obtain w a where j: "j < length rds" "j < length rs" "rs ! j = APPROVED"
      "entry_target names pubKeys j = Some (w, a)"
      "rds ! j = Some (rules_data_of (sg_lib V) w a (AnySignBeaconAttestationData (data ! j)))"
      by auto
    from ok that have "att_input_ok (data ! j)" by simp
    then obtain d e where "data ! j = Some d" "att_epochs d = Some e"
      by (auto simp: att_input_ok_def att_epochs_def split: option.splits)
    with j True show ?thesis by (simp add: att_approval_def rules_data_of_def)
  qed simp
  show ?thesis
    unfolding app batch_log_def by (rule subseq_concat_upt) (use fg in auto)
qed

lemma SignBeaconAttestations_triple:
  assumes fair: "fair_runtime rt" and rng: "\<forall>d \<in> set data. att_in_range d"
  shows "go_triple (I al pl) (SignBeaconAttestations V rt creds names pubKeys data)
    (\<lambda>(results, sigs) s. \<exists>al'. I (al @ al') pl s \<and> subseq (batch_log names pubKeys data results) al' \<and>
       (\<forall>j < length data. results ! j = ResultSucceeded \<longrightarrow>
          (\<exists>w a gs g. entry_target names pubKeys j = Some (w, a) \<and> allowed creds ActionSignBeaconAttestation w a \<and>
             sigs = Some gs \<and> gs ! j = Some g \<and> signed_by a (attestation_root (sg_ssz V) (the (data ! j))) g))) (E al pl)"
    (is "go_triple _ _ ?Q _")
proof (cases "data \<noteq> [] \<and> creds \<noteq> None \<and> checkAttestationsData data = None")
  case False
  have none: "subseq (batch_log names pubKeys data rs) []" if "\<forall>j < length data. rs ! j \<noteq> ResultSucceeded" for rs
  proof -
    have "batch_log names pubKeys data rs = []" using that by (auto simp: batch_log_def concat_eq_Nil_conv)
    then show ?thesis by simp
  qed
  let ?rs = "if data = [] then [ResultDenied] else if creds = None then replicate (length data) ResultDenied
             else (replicate (length data) ResultUnknown)[the (checkAttestationsData data) := ResultDenied]"
  have "SignBeaconAttestations V rt creds names pubKeys data = go_return (?rs, None)"
    and "\<forall>j < length data. ?rs ! j \<noteq> ResultSucceeded"
    using False by (auto simp: SignBeaconAttestations_def dest!: refused_nth)
  then show ?thesis using none by (auto intro!: go_triple_return exI [of _ "[]"] simp del: if_split)
next
  case True
  let ?A = "ActionSignBeaconAttestation" and ?D = "map AnySignBeaconAttestationData data"
  have ok: "\<forall>d \<in> set data. att_input_ok d" using True by (auto simp: checkAttestationsData_def first_index_None)
  have rd: "rd_in_range (Some (rules_data_of (sg_lib V) w a d))" if "d \<in> set ?D" for w a d
    using that rng by (auto simp: rd_in_range_def rules_data_of_def prop_in_range_def)
  have noprop: "prop_approvals ?A rds rs = []" for rds rs
    by (auto simp: prop_approvals_def prop_approval_def actions_distinct concat_eq_Nil_conv)
  have "go_triple (I al pl) (sign_batch V rt creds ?A names pubKeys ?D (\<lambda>i. attestation_root (sg_ssz V) (the (data ! i)))) ?Q (E al pl)"
  proof (rule go_triple_conseq [OF sign_batch_triple [OF fair rd]])
    fix x s assume "(case x of (results, sigs) \<Rightarrow> \<lambda>s. \<exists>rds rs. I (al @ att_approvals ?A rds rs) (pl @ prop_approvals ?A rds rs) s \<and>
       batch_signed creds ?A names pubKeys ?D (\<lambda>i. attestation_root (sg_ssz V) (the (data ! i))) rds rs results sigs) s"
    then obtain results sigs rds rs where x: "x = (results, sigs)" and I': "I (al @ att_approvals ?A rds rs) pl s"
      and b: "batch_signed creds ?A names pubKeys ?D (\<lambda>i. attestation_root (sg_ssz V) (the (data ! i))) rds rs results sigs"
      by (cases x) (auto simp: noprop)
    have "\<exists>w a gs g. entry_target names pubKeys j = Some (w, a) \<and> allowed creds ?A w a \<and>
        sigs = Some gs \<and> gs ! j = Some g \<and> signed_by a (attestation_root (sg_ssz V) (the (data ! j))) g"
      if "j < length data" "results ! j = ResultSucceeded" for j
      using b that unfolding batch_signed_def length_map by blast
    with batch_log_approved [OF b ok] I' show "?Q x s" unfolding x by auto
  qed (auto intro: crash_prefix)
  with True show ?thesis by (auto simp: SignBeaconAttestations_def)
qed

lemma Multisign_triple:
  assumes fair: "fair_runtime rt"
  shows "go_triple (I al pl) (Multisign V rt creds names pubKeys data)
    (\<lambda>(results, sigs) s. I al pl s \<and>
       (\<forall>j < length data. results ! j = ResultSucceeded \<longrightarrow>
          (\<exists>w a gs g. entry_target names pubKeys j = Some (w, a) \<and> allowed creds ActionSign w a \<and>
             appr creds ActionSign (rules_data_of (sg_lib V) w a (AnySignData (data ! j))) \<and>
             sigs = Some gs \<and> gs ! j = Some g \<and> signed_by a (generic_root (sg_ssz V) (the (data ! j))) g))) (E al pl)"
    (is "go_triple _ _ ?Q _")
proof (cases "data \<noteq> [] \<and> creds \<noteq> None \<and> first_index (\<lambda>d. checkSignData d \<noteq> None) data = None")
  case False
  let ?rs = "if data = [] then [ResultDenied] else if creds = None then replicate (length data) ResultDenied
             else (replicate (length data) ResultUnknown)[the (first_index (\<lambda>d. checkSignData d \<noteq> None) data) := ResultDenied]"
  have "Multisign V rt creds names pubKeys data = go_return (?rs, None)"
    and "\<forall>j < length data. ?rs ! j \<noteq> ResultSucceeded"
    using False by (auto simp: Multisign_def dest!: refused_nth)
  then show ?thesis by (auto intro!: go_triple_return simp del: if_split)
next
  case True
  let ?A = "ActionSign" and ?D = "map AnySignData data"
  have rd: "rd_in_range (Some (rules_data_of (sg_lib V) w a d))" if "d \<in> set ?D" for w a d
    using that by (auto simp: rd_in_range_def rules_data_of_def prop_in_range_def att_in_range_def)
  have none: "prop_approvals ?A rds rs = []" "att_approvals ?A rds rs = []" for rds rs
    using actions_distinct
    by (auto simp: prop_approvals_def prop_approval_def att_approvals_def att_approval_def concat_eq_Nil_conv)
  have "go_triple (I al pl) (sign_batch V rt creds ?A names pubKeys ?D (\<lambda>i. generic_root (sg_ssz V) (the (data ! i)))) ?Q (E al pl)"
  proof (rule go_triple_conseq [OF sign_batch_triple [OF fair rd, where al = al and pl = pl]])
    fix x s assume "(case x of (results, sigs) \<Rightarrow> \<lambda>s. \<exists>rds rs. I (al @ att_approvals ?A rds rs) (pl @ prop_approvals ?A rds rs) s \<and>
       batch_signed creds ?A names pubKeys ?D (\<lambda>i. generic_root (sg_ssz V) (the (data ! i))) rds rs results sigs) s"
    then obtain results sigs rds rs where x: "x = (results, sigs)" and I': "I al pl s"
      and b: "batch_signed creds ?A names pubKeys ?D (\<lambda>i. generic_root (sg_ssz V) (the (data ! i))) rds rs results sigs"
      by (cases x) (auto simp: none)
    have "\<exists>w a gs g. entry_target names pubKeys j = Some (w, a) \<and> allowed creds ?A w a \<and>
        appr creds ?A (rules_data_of (sg_lib V) w a (AnySignData (data ! j))) \<and> sigs = Some gs \<and> gs ! j = Some g \<and> signed_by a (generic_root (sg_ssz V) (the (data ! j))) g"
      if "j < length data" "results ! j = ResultSucceeded" for j
      using b that unfolding batch_signed_def length_map by (metis nth_map)
    with I' show "?Q x s" unfolding x by auto
  qed auto
  with True show ?thesis by (auto simp: Multisign_def)
qed

text \<open>The shape of what a batch returns: a result for every entry, and a signature where one succeeded.\<close>

lemma sign_batch_shape:
  assumes "fair_runtime rt" and "\<And>w a d. d \<in> set data \<Longrightarrow> rd_in_range (Some (rules_data_of (sg_lib V) w a d))"
  shows "go_triple (I al pl) (sign_batch V rt creds action names pubKeys data root)
    (\<lambda>(results, sigs) s. batch_shape (length data) results sigs) (E al pl)"
proof (rule go_triple_conseq [OF sign_batch_triple [OF assms]])
  fix x s
  assume "(case x of (results, sigs) \<Rightarrow> \<lambda>s. \<exists>rds rs. I (al @ att_approvals action rds rs) (pl @ prop_approvals action rds rs) s \<and>
       batch_signed creds action names pubKeys data root rds rs results sigs) s"
  then show "(case x of (results, sigs) \<Rightarrow> \<lambda>s. batch_shape (length data) results sigs) s"
    by (cases x) (auto dest: batch_signed_shape)
qed auto

lemma Multisign_shape:
  assumes "fair_runtime rt" and "data \<noteq> []"
  shows "go_triple (I al pl) (Multisign V rt creds names pubKeys data)
    (\<lambda>(results, sigs) s. batch_shape (length data) results sigs) (E al pl)"
proof -
  have rd: "rd_in_range (Some (rules_data_of (sg_lib V) w a d))" if "d \<in> set (map AnySignData data)" for w a d
    using that by (auto simp: rd_in_range_def rules_data_of_def prop_in_range_def att_in_range_def)
  have "go_triple (I al pl) (sign_batch V rt creds ActionSign names pubKeys (map AnySignData data) root)
      (\<lambda>(results, sigs) s. batch_shape (length data) results sigs) (E al pl)" for root
  proof -
    have "go_triple (I al pl) (sign_batch V rt creds ActionSign names pubKeys (map AnySignData data) root)
        (\<lambda>(results, sigs) s. batch_shape (length (map AnySignData data)) results sigs) (E al pl)"
      by (rule sign_batch_shape [OF assms(1)]) (rule rd)
    then show ?thesis by simp
  qed
  with assms(2) show ?thesis
    by (auto simp: Multisign_def intro!: go_triple_return crash batch_shape_refused split: option.split)
qed

lemma SignBeaconAttestations_shape:
  assumes "fair_runtime rt" and "data \<noteq> []" and "\<forall>d \<in> set data. att_in_range d"
  shows "go_triple (I al pl) (SignBeaconAttestations V rt creds names pubKeys data)
    (\<lambda>(results, sigs) s. batch_shape (length data) results sigs) (E al pl)"
proof -
  have rd: "rd_in_range (Some (rules_data_of (sg_lib V) w a d))" if "d \<in> set (map AnySignBeaconAttestationData data)" for w a d
    using that assms(3) by (auto simp: rd_in_range_def rules_data_of_def prop_in_range_def)
  have "go_triple (I al pl) (sign_batch V rt creds ActionSignBeaconAttestation names pubKeys (map AnySignBeaconAttestationData data) root)
      (\<lambda>(results, sigs) s. batch_shape (length data) results sigs) (E al pl)" for root
  proof -
    have "go_triple (I al pl) (sign_batch V rt creds ActionSignBeaconAttestation names pubKeys (map AnySignBeaconAttestationData data) root)
        (\<lambda>(results, sigs) s. batch_shape (length (map AnySignBeaconAttestationData data)) results sigs) (E al pl)"
      by (rule sign_batch_shape [OF assms(1)]) (rule rd)
    then show ?thesis by simp
  qed
  with assms(2) show ?thesis
    by (auto simp: SignBeaconAttestations_def intro!: go_triple_return crash batch_shape_refused split: option.split)
qed

end

end
