(* ===== verification/Ruler_Generic.thy ===== *)
theory Ruler_Generic
  imports Ruler_Safety
begin

text \<open>
  What the ruler answers to a call with one entry, and what its approval of generic data means:
  never the domains of attestations and proposals, and exits from the configured addresses only.
\<close>

section \<open>One entry\<close>

lemma scatter_order_1: "fair_runtime rt \<Longrightarrow> scatter_order rt 1 = [0]"
  using mset_scatter_order [of rt 1] by (simp add: size_1_singleton_mset)

definition entry_result ::
  "'db rules_service \<Rightarrow> credentials option \<Rightarrow> string \<Rightarrow> rules_data \<Rightarrow> ('db, rules_result list) op" where
  "entry_result S creds action rd =
     (case assembleMetadata creds (rd_AccountName rd) (rd_PubKey rd) of
        Inl e \<Rightarrow> go_return [FAILED]
      | Inr md \<Rightarrow> go_bind (dispatch_rule S action md (rd_Data rd)) (\<lambda>res.
          go_return [if res = UNKNOWN then FAILED else res]))"

lemma runRules_single:
  assumes "fair_runtime rt"
  shows "runRules S rt creds action [Some rd] = entry_result S creds action rd"
proof -
  have "runRules S rt creds action [Some rd] =
      go_bind (go_local [UNKNOWN] (go_bind (run_entry S creds action [Some rd] 0) (\<lambda>_. go_return ()))) (\<lambda>(_, results). go_return results)"
    using Scatter_loop [of 1 rt "run_entry S creds action [Some rd]" "()"] scatter_order_1 [OF assms]
    by (intro ext) (simp add: runRules_def Let_def go_bind_def go_local_def go_simps split: prod.splits go.splits)
  also have "\<dots> = entry_result S creds action rd"
    by (intro ext) (auto simp: run_entry_def entry_result_def go_bind_def go_local_def go_on_fst_def go_simps
        split: sum.splits prod.splits go.splits)
  finally show ?thesis .
qed

lemma RunRules_single:
  assumes fair: "fair_runtime rt" and q: "quiet s" and data: "rd_Data rd \<noteq> None"
    and key: "locking_action action \<longrightarrow> rd_PubKey rd \<noteq> []"
    and call: "RunRules S rt creds action [Some rd] s = (out, s')"
  shows "entry_result S creds action rd (ruler_db s) = (out, ruler_db s')" and "out = Ret rs \<Longrightarrow> quiet s'"
proof -
  from data obtain d where d: "rd_Data rd = Some d" by blast
  have "entry_result S creds action rd (ruler_db s) = (out, ruler_db s') \<and> (\<forall>rs. out = Ret rs \<longrightarrow> quiet s')"
  proof (cases "locking_action action")
    case True
    have "RunRules S rt creds action [Some rd] s =
        go_bind (on_locker (lock_keys [copyN 48 (rd_PubKey rd)])) (\<lambda>_. go_bind (on_db (runRules S rt creds action [Some rd])) (\<lambda>results.
               go_bind (on_locker (unlock_keys [copyN 48 (rd_PubKey rd)])) (\<lambda>_. go_return results))) s"
      using True key d by (simp add: RunRules_def Let_def)
    with call have "go_bind (on_locker (lock_keys [copyN 48 (rd_PubKey rd)])) (\<lambda>_. go_bind (on_db (runRules S rt creds action [Some rd])) (\<lambda>results.
               go_bind (on_locker (unlock_keys [copyN 48 (rd_PubKey rd)])) (\<lambda>_. go_return results))) s = (out, s')" by simp
    from locked_run [OF q _ this] show ?thesis by (simp add: runRules_single [OF fair])
  next
    case False
    with call d have "on_db (runRules S rt creds action [Some rd]) s = (out, s')" by (simp add: RunRules_def Let_def)
    with q show ?thesis
      by (auto simp: runRules_single [OF fair] on_db_def go_zoom_def quiet_def split: prod.splits)
  qed
  then show "entry_result S creds action rd (ruler_db s) = (out, ruler_db s')" and "out = Ret rs \<Longrightarrow> quiet s'" by auto
qed

text \<open>The rules that only approve answer every well-formed call of a named client.\<close>

lemma RunRules_approves:
  assumes fair: "fair_runtime rt" and q: "quiet s" and client: "creds = Some c" "cr_Client c \<noteq> []"
    and kind: "(action, rd_Data rd) \<in> {(ActionAccessAccount, Some (AnyAccessAccountData ps)), (ActionLockWallet, Some AnyLockWalletData),
       (ActionUnlockWallet, Some AnyUnlockWalletData), (ActionLockAccount, Some AnyLockAccountData),
       (ActionUnlockAccount, Some AnyUnlockAccountData), (ActionCreateAccount, Some AnyCreateAccountData)}"
  shows "\<exists>s'. RunRules S rt creds action [Some rd] s = (Ret [APPROVED], s') \<and> ruler_db s' = ruler_db s \<and> quiet s'"
proof -
  obtain out s' where call: "RunRules S rt creds action [Some rd] s = (out, s')" by force
  have lock: "\<not> locking_action action"
    using kind by (elim insertE emptyE) (simp_all add: locking_action_def action_defs)
  have data: "rd_Data rd \<noteq> None" using kind by auto
  have e: "entry_result S creds action rd db = (Ret [APPROVED], db)" for db
    using kind client
    by (elim insertE emptyE) (simp_all add: entry_result_def assembleMetadata_def dispatch_rule_def action_defs go_simps
        OnListAccounts_def OnLockWallet_def OnUnlockWallet_def OnLockAccount_def OnUnlockAccount_def OnCreateAccount_def)
  have out: "out = Ret [APPROVED]" "ruler_db s' = ruler_db s"
    using RunRules_single(1) [OF fair q data _ call] lock e [of "ruler_db s"] by auto
  with RunRules_single(2) [OF fair q data _ call] lock call show ?thesis by auto
qed

section \<open>Generic data\<close>

definition sign_ok :: "'db rules_service \<Rightarrow> credentials option \<Rightarrow> rules_data \<Rightarrow> bool" where
  "sign_ok S creds rd \<longleftrightarrow> (\<exists>c r d. creds = Some c \<and> rd_Data rd = Some (AnySignData (Some r)) \<and>
     domain_type (sd_Domain r) = Some d \<and> d \<noteq> DomainBeaconAttester (rules_lib S) \<and> d \<noteq> DomainBeaconProposer (rules_lib S) \<and>
     (d = DomainVoluntaryExit (rules_lib S) \<longrightarrow> cr_IP c \<noteq> [] \<and> cr_IP c \<in> set (adminIPs S)))"

lemma OnSign_approved:
  "OnSign S (Some md) req db = (Ret APPROVED, db') \<longleftrightarrow> db' = db \<and>
     (\<exists>r d. req = Some r \<and> domain_type (sd_Domain r) = Some d \<and> d \<noteq> DomainBeaconAttester (rules_lib S) \<and>
        d \<noteq> DomainBeaconProposer (rules_lib S) \<and>
        (d = DomainVoluntaryExit (rules_lib S) \<longrightarrow> md_IP md \<noteq> [] \<and> md_IP md \<in> set (adminIPs S)))"
  by (auto simp: OnSign_def go_simps list_ex_iff split: option.splits if_splits)

lemma run_entry_sign:
  fixes S :: "'db rules_service"
  assumes "i < length rds"
  shows "go_triple (\<lambda>(db, results). length results = length rds \<and>
        (\<forall>j < length rds. results ! j = APPROVED \<longrightarrow> (\<exists>rd. rds ! j = Some rd \<and> sign_ok S creds rd)))
     (run_entry S creds ActionSign rds i)
     (\<lambda>_ (db, results). length results = length rds \<and>
        (\<forall>j < length rds. results ! j = APPROVED \<longrightarrow> (\<exists>rd. rds ! j = Some rd \<and> sign_ok S creds rd))) (\<lambda>_. True)"
proof (rule go_triple_split)
  fix db :: 'db and results
  assume pre: "case (db, results) of (db, results) \<Rightarrow> length results = length rds \<and>
        (\<forall>j < length rds. results ! j = APPROVED \<longrightarrow> (\<exists>rd. rds ! j = Some rd \<and> sign_ok S creds rd))"
  have app: "sign_ok S creds rd" if "assembleMetadata creds n k = Inr md" "dispatch_rule S ActionSign md (rd_Data rd) db = (Ret APPROVED, db')"
    for rd n k md db'
    using that by (auto simp: dispatch_rule_def OnSign_approved sign_ok_def assembleMetadata_def go_simps
        split: option.splits any_data.splits if_splits)
  show "go_triple (\<lambda>t. t = (db, results)) (run_entry S creds ActionSign rds i)
     (\<lambda>_ (db, results). length results = length rds \<and>
        (\<forall>j < length rds. results ! j = APPROVED \<longrightarrow> (\<exists>rd. rds ! j = Some rd \<and> sign_ok S creds rd))) (\<lambda>_. True)"
    using pre assms
    by (auto simp: go_triple_def run_entry_def go_bind_def go_on_fst_def go_simps nth_list_update
        split: option.splits sum.splits prod.splits go.splits dest: app)
qed

lemma RunRules_sign_ok:
  assumes fair: "fair_runtime rt" and q: "quiet s" and call: "RunRules S rt creds ActionSign rds s = (Ret rs, s')"
    and j: "j < length rds" "rs ! j = APPROVED"
  shows "\<exists>rd. rds ! j = Some rd \<and> sign_ok S creds rd"
  using q call
proof (cases rule: RunRules_cases)
  case (refused rs')
  then have "j < length rs" and sub: "set rs \<subseteq> {UNKNOWN, FAILED}" using j(1) by auto
  from nth_mem [OF this(1)] sub j(2) show ?thesis by auto
next
  case run
  let ?L = "\<lambda>results. length results = length rds \<and>
        (\<forall>j < length rds. results ! j = APPROVED \<longrightarrow> (\<exists>rd. rds ! j = Some rd \<and> sign_ok S creds rd))"
  have "go_triple (\<lambda>_. True) (go_local (replicate (length rds) UNKNOWN) (Scatter rt (int (length rds)) (\<lambda>offset entries.
      go_bind (go_for [offset..<offset + entries] (run_entry S creds ActionSign rds)) (\<lambda>_. go_return (Inr ())))))
      (\<lambda>(_, b) s. True \<and> ?L b) (\<lambda>_. True)"
    by (rule go_triple_local_inv [where L = ?L], rule go_triple_conseq [OF scatter_inv [OF fair run_entry_sign]]) auto
  then have "go_triple (\<lambda>_. True) (runRules S rt creds ActionSign rds) (\<lambda>rs _. ?L rs) (\<lambda>_. True)"
    using actions_distinct by (auto simp: runRules_def Let_def intro!: go_triple_bind go_triple_return split: prod.split)
  from go_tripleD_Ret [OF this] run(4) j show ?thesis by blast
qed

end
