(* ===== verification/Managers.thy ===== *)
theory Managers
  imports Signer
begin

text \<open>
  The account manager and the wallet manager (\<open>services/accountmanager/standard\<close>,
  \<open>services/walletmanager/standard\<close>): locking, unlocking and generating accounts. The services
  they are built from are the fields of a record. The second component of a result is the Go
  error. Endpoints of the key-generation process have the type \<open>'ep\<close>.
\<close>

record ('s, 'wal, 'acc, 'ep) manager =
  mg_lib :: "('s, 'wal, 'acc) wallet_lib"
  mg_Check :: "credentials option \<Rightarrow> string \<Rightarrow> string \<Rightarrow> bool"
  mg_FetchWallet :: "string \<Rightarrow> ('s, err + 'wal) op"
  mg_FetchAccount :: "string \<Rightarrow> ('s, err + 'wal \<times> 'acc) op"
  mg_FetchAccountByKey :: "bytes \<Rightarrow> ('s, err + 'wal \<times> 'acc) op"
  mg_FetchAccounts :: "string \<Rightarrow> ('s, err + (string \<times> 'acc) list) op"
  mg_RunRules :: "go_runtime \<Rightarrow> credentials option \<Rightarrow> string \<Rightarrow> rules_data option list \<Rightarrow> ('s, rules_result list) op"
  mg_OnGenerate :: "credentials option \<Rightarrow> string \<Rightarrow> bytes option \<Rightarrow> u32 \<Rightarrow> u32 \<Rightarrow> ('s, err + bytes \<times> 'ep list) op"

section \<open>Checks\<close>

definition mg_checkAccess ::
  "('s, 'wal, 'acc, 'ep) manager \<Rightarrow> credentials option \<Rightarrow> string \<Rightarrow> string \<Rightarrow> core_result" where
  "mg_checkAccess M creds accountName action =
     (if mg_Check M creds accountName action then ResultSucceeded else ResultDenied)"

definition mg_fetchAccount ::
  "('s, 'wal, 'acc, 'ep) manager \<Rightarrow> string \<Rightarrow> bytes option \<Rightarrow> ('s, core_result + 'wal \<times> 'acc) op" where
  "mg_fetchAccount M name pubKey =
     (if name = [] \<and> pubKey = None then go_return (Inl ResultDenied)
      else
        go_bind (case pubKey of None \<Rightarrow> mg_FetchAccount M name | Some pk \<Rightarrow> mg_FetchAccountByKey M pk) (\<lambda>r.
          case r of Inl e \<Rightarrow> go_return (Inl ResultDenied) | Inr wa \<Rightarrow> go_return (Inr wa)))"

definition account_preCheck ::
  "('s, 'wal, 'acc, 'ep) manager \<Rightarrow> credentials option \<Rightarrow> string \<Rightarrow> bytes option \<Rightarrow> string \<Rightarrow>
     ('s, core_result + 'wal \<times> 'acc) op" where
  "account_preCheck M creds name pubKey action =
     go_bind (mg_fetchAccount M name pubKey) (\<lambda>f.
       case f of
         Inl r \<Rightarrow> go_return (Inl r)
       | Inr (wallet, account) \<Rightarrow>
           let accountName = account_path (wal_Name (mg_lib M) wallet) (acc_Name (mg_lib M) account);
               r = mg_checkAccess M creds accountName action in
           if r \<noteq> ResultSucceeded then go_return (Inl r) else go_return (Inr (wallet, account)))"

definition fetchWallet :: "('s, 'wal, 'acc, 'ep) manager \<Rightarrow> string \<Rightarrow> ('s, core_result + 'wal) op" where
  "fetchWallet M name =
     (if name = [] then go_return (Inl ResultDenied)
      else go_bind (mg_FetchWallet M name) (\<lambda>r.
        case r of Inl e \<Rightarrow> go_return (Inl ResultDenied) | Inr w \<Rightarrow> go_return (Inr w)))"

definition wallet_preCheck ::
  "('s, 'wal, 'acc, 'ep) manager \<Rightarrow> credentials option \<Rightarrow> string \<Rightarrow> string \<Rightarrow> ('s, core_result + 'wal) op" where
  "wallet_preCheck M creds name action =
     go_bind (fetchWallet M name) (\<lambda>f.
       case f of
         Inl r \<Rightarrow> go_return (Inl r)
       | Inr wallet \<Rightarrow>
           let r = mg_checkAccess M creds (wal_Name (mg_lib M) wallet) action in
           if r \<noteq> ResultSucceeded then go_return (Inl r) else go_return (Inr wallet))"

text \<open>\<open>results[0]\<close>, which panics on an empty list.\<close>

definition first_result :: "rules_result list \<Rightarrow> ('s, rules_result) op" where
  "first_result results = (case results of [] \<Rightarrow> go_panic index_out_of_range | r # _ \<Rightarrow> go_return r)"

section \<open>The account manager\<close>

definition account_rules :: "('s, 'wal, 'acc, 'ep) manager \<Rightarrow> 'wal \<Rightarrow> 'acc \<Rightarrow> any_data \<Rightarrow> rules_data option list" where
  "account_rules M wallet account data = [Some (rules_data_of (mg_lib M) wallet account data)]"

definition account_Lock ::
  "('s, 'wal, 'acc, 'ep) manager \<Rightarrow> go_runtime \<Rightarrow> credentials option \<Rightarrow> string \<Rightarrow> ('s, core_result \<times> err option) op" where
  "account_Lock M rt creds accountName =
     (if creds = None then go_return (ResultFailed, None)
      else
        go_bind (account_preCheck M creds accountName None ActionLockAccount) (\<lambda>c.
          case c of
            Inl r \<Rightarrow> go_return (r, None)
          | Inr (wallet, account) \<Rightarrow>
              go_bind (mg_RunRules M rt creds ActionLockAccount (account_rules M wallet account AnyLockAccountData)) (\<lambda>results.
                go_bind (first_result results) (\<lambda>res.
                  case res of
                    DENIED \<Rightarrow> go_return (ResultDenied, None)
                  | FAILED \<Rightarrow> go_return (ResultFailed, None)
                  | UNKNOWN \<Rightarrow> go_return (ResultFailed, None)
                  | APPROVED \<Rightarrow>
                      if \<not> acc_is_locker (mg_lib M) account then go_return (ResultSucceeded, None)
                      else go_bind (acc_Lock (mg_lib M) account) (\<lambda>e.
                        case e of Some _ \<Rightarrow> go_return (ResultDenied, None) | None \<Rightarrow> go_return (ResultSucceeded, None))))))"

definition account_Unlock ::
  "('s, 'wal, 'acc, 'ep) manager \<Rightarrow> go_runtime \<Rightarrow> credentials option \<Rightarrow> string \<Rightarrow> bytes option \<Rightarrow>
     ('s, core_result \<times> err option) op" where
  "account_Unlock M rt creds accountName passphrase =
     (if creds = None then go_return (ResultFailed, None)
      else
        go_bind (account_preCheck M creds accountName None ActionUnlockAccount) (\<lambda>c.
          case c of
            Inl r \<Rightarrow> go_return (r, None)
          | Inr (wallet, account) \<Rightarrow>
              go_bind (mg_RunRules M rt creds ActionUnlockAccount (account_rules M wallet account AnyUnlockAccountData)) (\<lambda>results.
                go_bind (first_result results) (\<lambda>res.
                  case res of
                    DENIED \<Rightarrow> go_return (ResultDenied, None)
                  | FAILED \<Rightarrow> go_return (ResultFailed, Some ''rules check failed'')
                  | UNKNOWN \<Rightarrow> go_return (ResultFailed, Some ''rules check indeterminate result'')
                  | APPROVED \<Rightarrow>
                      if \<not> acc_is_locker (mg_lib M) account then go_return (ResultSucceeded, None)
                      else go_bind (acc_Unlock (mg_lib M) account passphrase) (\<lambda>e.
                        case e of Some _ \<Rightarrow> go_return (ResultDenied, None) | None \<Rightarrow> go_return (ResultSucceeded, None))))))"

text \<open>\<open>Generate\<close>: the public key and the endpoints on success.\<close>

definition Generate ::
  "('s, 'wal, 'acc, 'ep) manager \<Rightarrow> go_runtime \<Rightarrow> credentials option \<Rightarrow> string \<Rightarrow> bytes option \<Rightarrow> u32 \<Rightarrow> u32 \<Rightarrow>
     ('s, core_result \<times> (bytes \<times> 'ep list) option \<times> err option) op" where
  "Generate M rt creds account passphrase signingThreshold participants =
     (if creds = None then go_return (ResultFailed, None, None)
      else
        let checkRes = mg_checkAccess M creds account ActionCreateAccount in
        if checkRes \<noteq> ResultSucceeded then go_return (checkRes, None, None)
        else if participants = 0 then go_return (ResultDenied, None, Some ''invalid number of participants'')
        else if participants < signingThreshold then go_return (ResultDenied, None, Some ''invalid signing threshold'')
        else case WalletAndAccountNames (mg_lib M) account of
               Inl e \<Rightarrow> go_return (ResultDenied, None, Some (wrap_err ''invalid account name'' e))
             | Inr (walletName, accountName) \<Rightarrow>
                 go_bind (mg_RunRules M rt creds ActionCreateAccount
                    [Some \<lparr>rd_WalletName = walletName, rd_AccountName = accountName, rd_PubKey = [],
                           rd_Data = Some AnyCreateAccountData\<rparr>]) (\<lambda>results.
                   go_bind (first_result results) (\<lambda>res.
                     case res of
                       DENIED \<Rightarrow> go_return (ResultDenied, None, None)
                     | FAILED \<Rightarrow> go_return (ResultFailed, None, Some ''rules check failed'')
                     | UNKNOWN \<Rightarrow> go_return (ResultFailed, None, Some ''rules check indeterminate result'')
                     | APPROVED \<Rightarrow>
                         go_bind (mg_OnGenerate M creds account passphrase signingThreshold participants) (\<lambda>g.
                           case g of
                             Inl e \<Rightarrow> go_return (ResultFailed, None, Some (wrap_err ''failed to generate account'' e))
                           | Inr x \<Rightarrow> go_return (ResultSucceeded, Some x, None)))))"

section \<open>The wallet manager\<close>

definition wallet_rules :: "('s, 'wal, 'acc, 'ep) manager \<Rightarrow> 'wal \<Rightarrow> any_data \<Rightarrow> rules_data option list" where
  "wallet_rules M wallet data =
     [Some \<lparr>rd_WalletName = wal_Name (mg_lib M) wallet, rd_AccountName = [], rd_PubKey = [], rd_Data = Some data\<rparr>]"

text \<open>
  \<open>Lock\<close> of the wallet manager. The case of an unknown result of the rules records a failure, but
  does not return: it goes on to lock the wallet.
\<close>

definition wallet_Lock ::
  "('s, 'wal, 'acc, 'ep) manager \<Rightarrow> go_runtime \<Rightarrow> credentials option \<Rightarrow> string \<Rightarrow> ('s, core_result \<times> err option) op" where
  "wallet_Lock M rt creds accountName =
     (if creds = None then go_return (ResultFailed, None)
      else
        go_bind (wallet_preCheck M creds accountName ActionLockWallet) (\<lambda>c.
          case c of
            Inl r \<Rightarrow> go_return (r, None)
          | Inr wallet \<Rightarrow>
              go_bind (mg_RunRules M rt creds ActionLockWallet (wallet_rules M wallet AnyLockWalletData)) (\<lambda>results.
                go_bind (first_result results) (\<lambda>res.
                  if res = DENIED then go_return (ResultDenied, None)
                  else if res = FAILED then go_return (ResultFailed, None)
                  else if \<not> wal_is_locker (mg_lib M) wallet then go_return (ResultSucceeded, None)
                  else go_bind (wal_Lock (mg_lib M) wallet) (\<lambda>e.
                    case e of Some _ \<Rightarrow> go_return (ResultDenied, None) | None \<Rightarrow> go_return (ResultSucceeded, None))))))"

definition wallet_Unlock ::
  "('s, 'wal, 'acc, 'ep) manager \<Rightarrow> go_runtime \<Rightarrow> credentials option \<Rightarrow> string \<Rightarrow> bytes option \<Rightarrow>
     ('s, core_result \<times> err option) op" where
  "wallet_Unlock M rt creds accountName passphrase =
     (if creds = None then go_return (ResultFailed, None)
      else
        go_bind (wallet_preCheck M creds accountName ActionUnlockWallet) (\<lambda>c.
          case c of
            Inl r \<Rightarrow> go_return (r, None)
          | Inr wallet \<Rightarrow>
              go_bind (mg_RunRules M rt creds ActionUnlockWallet (wallet_rules M wallet AnyUnlockWalletData)) (\<lambda>results.
                go_bind (first_result results) (\<lambda>res.
                  case res of
                    DENIED \<Rightarrow> go_return (ResultDenied, None)
                  | FAILED \<Rightarrow> go_return (ResultFailed, Some ''rules check failed'')
                  | UNKNOWN \<Rightarrow> go_return (ResultFailed, Some ''rules check indeterminate result'')
                  | APPROVED \<Rightarrow>
                      if \<not> wal_is_locker (mg_lib M) wallet then go_return (ResultSucceeded, None)
                      else go_bind (wal_Unlock (mg_lib M) wallet passphrase) (\<lambda>e.
                        case e of Some _ \<Rightarrow> go_return (ResultDenied, None) | None \<Rightarrow> go_return (ResultSucceeded, None))))))"

section \<open>What a success means\<close>

lemma account_preCheck_ok:
  assumes "account_preCheck M creds name None action s = (Ret (Inr (w, a)), s')"
  shows "mg_FetchAccount M name s = (Ret (Inr (w, a)), s') \<and>
    mg_Check M creds (account_path (wal_Name (mg_lib M) w) (acc_Name (mg_lib M) a)) action"
  using assms
  by (auto simp: account_preCheck_def mg_fetchAccount_def mg_checkAccess_def go_simps Let_def
           elim!: go_bind_RetE split: sum.splits if_splits)

lemma wallet_preCheck_ok:
  assumes "wallet_preCheck M creds name action s = (Ret (Inr w), s')"
  shows "mg_FetchWallet M name s = (Ret (Inr w), s') \<and> mg_Check M creds (wal_Name (mg_lib M) w) action"
  using assms
  by (auto simp: wallet_preCheck_def fetchWallet_def mg_checkAccess_def go_simps Let_def
           elim!: go_bind_RetE split: sum.splits if_splits)

lemma preCheck_refuses:
  "account_preCheck M creds name k action s = (Ret (Inl r), s') \<Longrightarrow> r = ResultDenied"
  "wallet_preCheck M creds name action s = (Ret (Inl r), s') \<Longrightarrow> r = ResultDenied"
  by (auto simp: account_preCheck_def mg_fetchAccount_def wallet_preCheck_def fetchWallet_def mg_checkAccess_def go_simps Let_def
           elim!: go_bind_RetE split: sum.splits if_splits option.splits)

text \<open>What comes after a check that succeeded.\<close>

lemma after_account_preCheck:
  assumes "go_bind (account_preCheck M creds name None action)
      (\<lambda>c. case c of Inl r \<Rightarrow> go_return (r, x) | Inr (w, a) \<Rightarrow> k w a) s = (Ret (ResultSucceeded, y), s')"
  obtains w a s1 where "mg_FetchAccount M name s = (Ret (Inr (w, a)), s1)"
    "mg_Check M creds (account_path (wal_Name (mg_lib M) w) (acc_Name (mg_lib M) a)) action"
    "k w a s1 = (Ret (ResultSucceeded, y), s')"
proof -
  from assms obtain c s1 where c: "account_preCheck M creds name None action s = (Ret c, s1)"
    "(case c of Inl r \<Rightarrow> go_return (r, x) | Inr (w, a) \<Rightarrow> k w a) s1 = (Ret (ResultSucceeded, y), s')"
    by (rule go_bind_RetE)
  show thesis
  proof (cases c)
    case (Inl r)
    from preCheck_refuses(1) [OF c(1) [unfolded Inl]] c(2) Inl show thesis by (simp add: go_simps)
  next
    case (Inr wa)
    obtain w a where wa: "wa = (w, a)" by force
    from account_preCheck_ok [OF c(1) [unfolded Inr wa]] c(2) Inr wa that show thesis by simp
  qed
qed

lemma after_wallet_preCheck:
  assumes "go_bind (wallet_preCheck M creds name action)
      (\<lambda>c. case c of Inl r \<Rightarrow> go_return (r, x) | Inr w \<Rightarrow> k w) s = (Ret (ResultSucceeded, y), s')"
  obtains w s1 where "mg_FetchWallet M name s = (Ret (Inr w), s1)" "mg_Check M creds (wal_Name (mg_lib M) w) action"
    "k w s1 = (Ret (ResultSucceeded, y), s')"
proof -
  from assms obtain c s1 where c: "wallet_preCheck M creds name action s = (Ret c, s1)"
    "(case c of Inl r \<Rightarrow> go_return (r, x) | Inr w \<Rightarrow> k w) s1 = (Ret (ResultSucceeded, y), s')"
    by (rule go_bind_RetE)
  show thesis
  proof (cases c)
    case (Inl r)
    from preCheck_refuses(2) [OF c(1) [unfolded Inl]] c(2) Inl show thesis by (simp add: go_simps)
  next
    case (Inr w)
    from wallet_preCheck_ok [OF c(1) [unfolded Inr]] c(2) Inr that show thesis by simp
  qed
qed

definition account_allowed ::
  "('s, 'wal, 'acc, 'ep) manager \<Rightarrow> go_runtime \<Rightarrow> credentials option \<Rightarrow> string \<Rightarrow> any_data \<Rightarrow> string \<Rightarrow> 's \<Rightarrow> 'acc \<Rightarrow> 's \<Rightarrow> bool" where
  "account_allowed M rt creds action data name s a s2 \<longleftrightarrow> (\<exists>w s1 rs.
     mg_FetchAccount M name s = (Ret (Inr (w, a)), s1) \<and>
     mg_Check M creds (account_path (wal_Name (mg_lib M) w) (acc_Name (mg_lib M) a)) action \<and>
     mg_RunRules M rt creds action (account_rules M w a data) s1 = (Ret (APPROVED # rs), s2))"

definition wallet_allowed ::
  "('s, 'wal, 'acc, 'ep) manager \<Rightarrow> go_runtime \<Rightarrow> credentials option \<Rightarrow> string \<Rightarrow> any_data \<Rightarrow> string \<Rightarrow> 's \<Rightarrow> rules_result \<Rightarrow> 'wal \<Rightarrow> 's \<Rightarrow> bool" where
  "wallet_allowed M rt creds action data name s res w s2 \<longleftrightarrow> (\<exists>s1 rs.
     mg_FetchWallet M name s = (Ret (Inr w), s1) \<and> mg_Check M creds (wal_Name (mg_lib M) w) action \<and>
     mg_RunRules M rt creds action (wallet_rules M w data) s1 = (Ret (res # rs), s2))"

lemma after_rules:
  assumes "go_bind (mg_RunRules M rt creds action rds) (\<lambda>results. go_bind (first_result results) k) s1 = (Ret y, s')"
  obtains res rs s2 where "mg_RunRules M rt creds action rds s1 = (Ret (res # rs), s2)" "k res s2 = (Ret y, s')"
  using assms by (auto simp: first_result_def go_simps elim!: go_bind_RetE split: list.splits)

lemma after_locker:
  "go_bind m (\<lambda>e. case e of Some _ \<Rightarrow> go_return (ResultDenied, None) | None \<Rightarrow> go_return (ResultSucceeded, None)) s2 =
     (Ret (ResultSucceeded, e), s') \<Longrightarrow> m s2 = (Ret None, s')"
  by (auto simp: go_simps elim!: go_bind_RetE split: option.splits)

lemma account_Unlock_succeeds:
  assumes run: "account_Unlock M rt creds name passphrase s = (Ret (ResultSucceeded, e), s')"
  shows "\<exists>a s2. account_allowed M rt creds ActionUnlockAccount AnyUnlockAccountData name s a s2 \<and>
    (if acc_is_locker (mg_lib M) a then acc_Unlock (mg_lib M) a passphrase s2 = (Ret None, s') else s' = s2)"
proof -
  from run have "creds \<noteq> None" by (auto simp: account_Unlock_def go_simps split: if_splits)
  note R = run [unfolded account_Unlock_def if_not_P [OF this]]
  show ?thesis
  proof (rule after_account_preCheck [OF R], goal_cases)
    case pre: (1 w a s1)
    show ?case
    proof (rule after_rules [OF pre(3)], goal_cases)
      case res: (1 res rs s2)
      from res(2) have "res = APPROVED" "if acc_is_locker (mg_lib M) a then acc_Unlock (mg_lib M) a passphrase s2 = (Ret None, s') else s' = s2"
        by (auto simp: go_simps split: rules_result.splits if_splits dest!: after_locker)+
      with pre(1,2) res(1) show ?case unfolding account_allowed_def by blast
    qed
  qed
qed

lemma account_Lock_succeeds:
  assumes run: "account_Lock M rt creds name s = (Ret (ResultSucceeded, e), s')"
  shows "\<exists>a s2. account_allowed M rt creds ActionLockAccount AnyLockAccountData name s a s2 \<and>
    (if acc_is_locker (mg_lib M) a then acc_Lock (mg_lib M) a s2 = (Ret None, s') else s' = s2)"
proof -
  from run have "creds \<noteq> None" by (auto simp: account_Lock_def go_simps split: if_splits)
  note R = run [unfolded account_Lock_def if_not_P [OF this]]
  show ?thesis
  proof (rule after_account_preCheck [OF R], goal_cases)
    case pre: (1 w a s1)
    show ?case
    proof (rule after_rules [OF pre(3)], goal_cases)
      case res: (1 res rs s2)
      from res(2) have "res = APPROVED" "if acc_is_locker (mg_lib M) a then acc_Lock (mg_lib M) a s2 = (Ret None, s') else s' = s2"
        by (auto simp: go_simps split: rules_result.splits if_splits dest!: after_locker)+
      with pre(1,2) res(1) show ?case unfolding account_allowed_def by blast
    qed
  qed
qed

lemma wallet_Unlock_succeeds:
  assumes run: "wallet_Unlock M rt creds name passphrase s = (Ret (ResultSucceeded, e), s')"
  shows "\<exists>w s2. wallet_allowed M rt creds ActionUnlockWallet AnyUnlockWalletData name s APPROVED w s2 \<and>
    (if wal_is_locker (mg_lib M) w then wal_Unlock (mg_lib M) w passphrase s2 = (Ret None, s') else s' = s2)"
proof -
  from run have "creds \<noteq> None" by (auto simp: wallet_Unlock_def go_simps split: if_splits)
  note R = run [unfolded wallet_Unlock_def if_not_P [OF this]]
  show ?thesis
  proof (rule after_wallet_preCheck [OF R], goal_cases)
    case pre: (1 w s1)
    show ?case
    proof (rule after_rules [OF pre(3)], goal_cases)
      case res: (1 res rs s2)
      from res(2) have "res = APPROVED" "if wal_is_locker (mg_lib M) w then wal_Unlock (mg_lib M) w passphrase s2 = (Ret None, s') else s' = s2"
        by (auto simp: go_simps split: rules_result.splits if_splits dest!: after_locker)+
      with pre(1,2) res(1) show ?case unfolding wallet_allowed_def by blast
    qed
  qed
qed

lemma wallet_Lock_succeeds:
  assumes run: "wallet_Lock M rt creds name s = (Ret (ResultSucceeded, e), s')"
  shows "\<exists>w s2 res. res \<in> {APPROVED, UNKNOWN} \<and> wallet_allowed M rt creds ActionLockWallet AnyLockWalletData name s res w s2 \<and>
    (if wal_is_locker (mg_lib M) w then wal_Lock (mg_lib M) w s2 = (Ret None, s') else s' = s2)"
proof -
  from run have "creds \<noteq> None" by (auto simp: wallet_Lock_def go_simps split: if_splits)
  note R = run [unfolded wallet_Lock_def if_not_P [OF this]]
  show ?thesis
  proof (rule after_wallet_preCheck [OF R], goal_cases)
    case pre: (1 w s1)
    show ?case
    proof (rule after_rules [OF pre(3)], goal_cases)
      case res: (1 res rs s2)
      from res(2) have "res \<in> {APPROVED, UNKNOWN}" "if wal_is_locker (mg_lib M) w then wal_Lock (mg_lib M) w s2 = (Ret None, s') else s' = s2"
        by (cases res; auto simp: go_simps split: if_splits dest!: after_locker)+
      with pre(1,2) res(1) show ?case unfolding wallet_allowed_def by blast
    qed
  qed
qed

text \<open>The converse: locking goes on with an unknown result of the rules as with an approval.\<close>

lemma wallet_Lock_goes_on:
  assumes "creds \<noteq> None \<and> name \<noteq> []" and "res \<in> {APPROVED, UNKNOWN}" and "wallet_allowed M rt creds ActionLockWallet AnyLockWalletData name s res w s2"
    and "if wal_is_locker (mg_lib M) w then wal_Lock (mg_lib M) w s2 = (Ret None, s') else s' = s2"
  shows "wallet_Lock M rt creds name s = (Ret (ResultSucceeded, None), s')"
proof -
  from assms(3) obtain s1 rs where f: "mg_FetchWallet M name s = (Ret (Inr w), s1)" "mg_Check M creds (wal_Name (mg_lib M) w) ActionLockWallet"
    and r: "mg_RunRules M rt creds ActionLockWallet (wallet_rules M w AnyLockWalletData) s1 = (Ret (res # rs), s2)"
    by (auto simp: wallet_allowed_def)
  have pre: "wallet_preCheck M creds name ActionLockWallet s = (Ret (Inr w), s1)"
    using f assms(1) by (simp add: wallet_preCheck_def fetchWallet_def mg_checkAccess_def go_bind_def go_simps)
  from assms(2) have "res \<noteq> DENIED" "res \<noteq> FAILED" by auto
  with assms(1,4) pre r show ?thesis by (auto simp: wallet_Lock_def go_bind_def go_simps first_result_def split: if_splits)
qed

lemma Generate_succeeds:
  assumes "Generate M rt creds account passphrase t n s = (Ret (ResultSucceeded, x, e), s')"
  shows "mg_Check M creds account ActionCreateAccount" "0 < n" "t \<le> n"
    "\<exists>s2 g. x = Some g \<and> mg_OnGenerate M creds account passphrase t n s2 = (Ret (Inr g), s')"
  using assms unfolding Generate_def
  by (auto simp: go_simps first_result_def mg_checkAccess_def Let_def word_neq_0_conv
           split: if_splits list.splits rules_result.splits sum.splits elim!: go_bind_RetE) blast

end
