(* ===== verification/Lister.thy ===== *)
theory Lister
  imports Managers Checker
begin

text \<open>
  The lister (\<open>services/lister/standard/listaccounts.go\<close>): the accounts below the given paths that
  the client may access. The accounts of a wallet are visited in the order in which the map is
  ranged over.
\<close>

definition anchor :: "string \<Rightarrow> string" where
  "anchor accountPath =
     (let p1 = (if HasPrefix accountPath ''^'' then accountPath else ''^'' @ accountPath) in
      if HasSuffix p1 ''$'' then p1 else p1 @ ''$'')"

text \<open>The key that is given to the rules; \<open>None\<close> when the account has none.\<close>

definition listed_key :: "('s, 'wal, 'acc) wallet_lib \<Rightarrow> 'acc \<Rightarrow> bytes option" where
  "listed_key W account =
     (if \<not> acc_is_pubkey_provider W account then None
      else case acc_CompositePublicKey W account of Some k \<Rightarrow> Some k | None \<Rightarrow> Some (acc_PublicKey W account))"

definition list_account ::
  "('s, 'wal, 'acc, 'ep) manager \<Rightarrow> go_runtime \<Rightarrow> credentials option \<Rightarrow> string list \<Rightarrow> ('acc \<Rightarrow> bool) \<Rightarrow> 'wal \<Rightarrow> 'acc \<Rightarrow>
     ('s, bool) op" where
  "list_account M rt creds paths matches wallet account =
     (if \<not> matches account then go_return False
      else if mg_checkAccess M creds (account_path (wal_Name (mg_lib M) wallet) (acc_Name (mg_lib M) account)) ActionAccessAccount
              \<noteq> ResultSucceeded then go_return False
      else case listed_key (mg_lib M) account of
             None \<Rightarrow> go_return False
           | Some pubKey \<Rightarrow>
               go_bind (mg_RunRules M rt creds ActionAccessAccount
                  [Some \<lparr>rd_WalletName = wal_Name (mg_lib M) wallet, rd_AccountName = acc_Name (mg_lib M) account,
                         rd_PubKey = pubKey, rd_Data = Some (AnyAccessAccountData paths)\<rparr>]) (\<lambda>results.
                 go_bind (first_result results) (\<lambda>res. go_return (res = APPROVED))))"

fun list_wallet ::
  "('s, 'wal, 'acc, 'ep) manager \<Rightarrow> go_runtime \<Rightarrow> credentials option \<Rightarrow> string list \<Rightarrow> ('acc \<Rightarrow> bool) \<Rightarrow> 'wal \<Rightarrow>
     (string \<times> 'acc) list \<Rightarrow> ('s, 'acc list) op" where
  "list_wallet M rt creds paths matches wallet [] = go_return []"
| "list_wallet M rt creds paths matches wallet ((_, account) # as) =
     go_bind (list_account M rt creds paths matches wallet account) (\<lambda>ok.
       go_bind (list_wallet M rt creds paths matches wallet as) (\<lambda>rest.
         go_return (if ok then account # rest else rest)))"

definition list_path ::
  "'re regexp_lib \<Rightarrow> ('s, 'wal, 'acc, 'ep) manager \<Rightarrow> go_runtime \<Rightarrow> credentials option \<Rightarrow> string list \<Rightarrow> string \<Rightarrow>
     ('s, 'acc list) op" where
  "list_path X M rt creds paths path =
     (case WalletAndAccountNames (mg_lib M) path of
        Inl e \<Rightarrow> go_return []
      | Inr (walletName, accountPath) \<Rightarrow>
          if walletName = [] then go_return []
          else
            (case (if accountPath = [] then Inr (\<lambda>_. True)
                   else case re_Compile X (anchor accountPath) of
                          Inl e \<Rightarrow> Inl e
                        | Inr re \<Rightarrow> Inr (\<lambda>a. re_MatchString X re (acc_Name (mg_lib M) a))) of
               Inl e \<Rightarrow> go_return []
             | Inr matches \<Rightarrow>
                 go_bind (mg_FetchWallet M path) (\<lambda>w.
                   case w of
                     Inl e \<Rightarrow> go_return []
                   | Inr wallet \<Rightarrow>
                       go_bind (mg_FetchAccounts M (wal_Name (mg_lib M) wallet)) (\<lambda>as.
                         case as of
                           Inl e \<Rightarrow> go_return []
                         | Inr walletAccounts \<Rightarrow> list_wallet M rt creds paths matches wallet walletAccounts))))"

fun list_paths ::
  "'re regexp_lib \<Rightarrow> ('s, 'wal, 'acc, 'ep) manager \<Rightarrow> go_runtime \<Rightarrow> credentials option \<Rightarrow> string list \<Rightarrow> string list \<Rightarrow>
     ('s, 'acc list) op" where
  "list_paths X M rt creds paths [] = go_return []"
| "list_paths X M rt creds paths (p # ps) =
     go_bind (list_path X M rt creds paths p) (\<lambda>xs.
       go_bind (list_paths X M rt creds paths ps) (\<lambda>ys. go_return (xs @ ys)))"

definition ListAccounts ::
  "'re regexp_lib \<Rightarrow> ('s, 'wal, 'acc, 'ep) manager \<Rightarrow> go_runtime \<Rightarrow> credentials option \<Rightarrow> string list \<Rightarrow>
     ('s, core_result \<times> 'acc list option) op" where
  "ListAccounts X M rt creds paths =
     (if creds = None then go_return (ResultFailed, None)
      else go_bind (list_paths X M rt creds paths paths) (\<lambda>accounts. go_return (ResultSucceeded, Some accounts)))"

section \<open>What is listed\<close>

text \<open>
  The accounts of a request, in its order: those of the wallets of the paths whose names match,
  that the client may access and that have a public key. \<open>fetch_wallet\<close> and \<open>fetch_accounts\<close> are
  what the fetcher holds, and the rules approve.
\<close>

definition visible :: "('s, 'wal, 'acc, 'ep) manager \<Rightarrow> credentials option \<Rightarrow> 'wal \<Rightarrow> 'acc \<Rightarrow> bool" where
  "visible M creds w a \<longleftrightarrow>
     mg_Check M creds (account_path (wal_Name (mg_lib M) w) (acc_Name (mg_lib M) a)) ActionAccessAccount \<and>
     acc_is_pubkey_provider (mg_lib M) a"

definition path_accounts ::
  "'re regexp_lib \<Rightarrow> ('s, 'wal, 'acc, 'ep) manager \<Rightarrow> (string \<Rightarrow> err + 'wal) \<Rightarrow> (string \<Rightarrow> err + (string \<times> 'acc) list) \<Rightarrow>
     credentials option \<Rightarrow> string \<Rightarrow> 'acc list" where
  "path_accounts X M fetch_wallet fetch_accounts creds path =
     (case WalletAndAccountNames (mg_lib M) path of
        Inl e \<Rightarrow> []
      | Inr (walletName, accountPath) \<Rightarrow>
          (case (fetch_wallet path, re_Compile X (anchor accountPath)) of
             (Inr w, re) \<Rightarrow>
               (case fetch_accounts (wal_Name (mg_lib M) w) of
                  Inl e \<Rightarrow> []
                | Inr as \<Rightarrow> if walletName = [] then [] else
                    filter (\<lambda>a. visible M creds w a \<and>
                      (accountPath = [] \<or> (\<exists>r. re = Inr r \<and> re_MatchString X r (acc_Name (mg_lib M) a)))) (map snd as))
           | _ \<Rightarrow> []))"

locale listing =
  fixes X :: "'re regexp_lib" and M :: "('s, 'wal, 'acc, 'ep) manager" and I :: "'s \<Rightarrow> bool"
    and fetch_wallet :: "string \<Rightarrow> err + 'wal" and fetch_accounts :: "string \<Rightarrow> err + (string \<times> 'acc) list"
    and rt :: go_runtime and creds :: "credentials option"
  assumes wallet: "I s \<Longrightarrow> mg_FetchWallet M p s = (Ret (fetch_wallet p), s)"
    and accounts: "I s \<Longrightarrow> mg_FetchAccounts M n s = (Ret (fetch_accounts n), s)"
    and rules: "I s \<Longrightarrow> rd_Data rd = Some (AnyAccessAccountData ps) \<Longrightarrow>
      \<exists>s'. mg_RunRules M rt creds ActionAccessAccount [Some rd] s = (Ret [APPROVED], s') \<and> I s'"
begin

lemma list_account_spec:
  assumes "I s"
  shows "\<exists>s'. list_account M rt creds paths matches w a s = (Ret (matches a \<and> visible M creds w a), s') \<and> I s'"
proof -
  let ?rd = "\<lambda>k. \<lparr>rd_WalletName = wal_Name (mg_lib M) w, rd_AccountName = acc_Name (mg_lib M) a,
                         rd_PubKey = k, rd_Data = Some (AnyAccessAccountData paths)\<rparr>"
  have "\<exists>s'. go_bind (mg_RunRules M rt creds ActionAccessAccount [Some (?rd k)]) (\<lambda>results.
                 go_bind (first_result results) (\<lambda>res. go_return (res = APPROVED))) s = (Ret True, s') \<and> I s'" for k
    using rules [OF assms, of "?rd k" paths] by (auto simp: go_bind_def first_result_def go_simps)
  with assms show ?thesis
    by (auto simp: list_account_def visible_def mg_checkAccess_def listed_key_def go_simps split: option.split)
qed

lemma list_wallet_spec:
  "I s \<Longrightarrow> \<exists>s'. list_wallet M rt creds paths matches w as s =
     (Ret (filter (\<lambda>a. matches a \<and> visible M creds w a) (map snd as)), s') \<and> I s'"
proof (induction as arbitrary: s)
  case (Cons x as)
  obtain n a where x: "x = (n, a)" by force
  from list_account_spec [OF Cons.prems] obtain s1 where
    "list_account M rt creds paths matches w a s = (Ret (matches a \<and> visible M creds w a), s1)" "I s1" by blast
  with Cons.IH [of s1] show ?case by (auto simp: x go_bind_def go_simps)
qed (simp add: go_simps)

lemma list_path_spec:
  assumes "I s"
  shows "\<exists>s'. list_path X M rt creds paths p s = (Ret (path_accounts X M fetch_wallet fetch_accounts creds p), s') \<and> I s'"
proof (cases "WalletAndAccountNames (mg_lib M) p")
  case (Inl e)
  with assms show ?thesis by (simp add: list_path_def path_accounts_def go_simps)
next
  case (Inr wa)
  obtain wn ap where names: "WalletAndAccountNames (mg_lib M) p = Inr (wn, ap)" using Inr by (cases wa) simp
  have tail: "\<exists>s'. go_bind (mg_FetchWallet M p) (\<lambda>w.
                   case w of
                     Inl e \<Rightarrow> go_return []
                   | Inr wallet \<Rightarrow>
                       go_bind (mg_FetchAccounts M (wal_Name (mg_lib M) wallet)) (\<lambda>as.
                         case as of
                           Inl e \<Rightarrow> go_return []
                         | Inr walletAccounts \<Rightarrow> list_wallet M rt creds paths matches wallet walletAccounts)) s =
      (Ret (case fetch_wallet p of Inl e \<Rightarrow> [] | Inr w \<Rightarrow> (case fetch_accounts (wal_Name (mg_lib M) w) of
              Inl e \<Rightarrow> [] | Inr as \<Rightarrow> filter (\<lambda>a. matches a \<and> visible M creds w a) (map snd as))), s') \<and> I s'" for matches
    using assms list_wallet_spec [OF assms]
    by (cases "fetch_wallet p") (auto simp: go_bind_def go_simps wallet accounts split: sum.split)
  show ?thesis
  proof (cases "wn = [] \<or> ap \<noteq> [] \<and> (\<exists>e. re_Compile X (anchor ap) = Inl e)")
    case True
    with assms names show ?thesis by (auto simp: list_path_def path_accounts_def go_simps split: sum.split)
  next
    case False
    define matches where "matches = (\<lambda>a. ap = [] \<or>
        (\<exists>r. re_Compile X (anchor ap) = Inr r \<and> re_MatchString X r (acc_Name (mg_lib M) a)))"
    have m: "(if ap = [] then Inr (\<lambda>_. True)
                   else case re_Compile X (anchor ap) of Inl e \<Rightarrow> Inl e
                        | Inr re \<Rightarrow> Inr (\<lambda>a. re_MatchString X re (acc_Name (mg_lib M) a))) = (Inr matches :: err + _)"
      using False by (cases "ap = []"; cases "re_Compile X (anchor ap)") (auto simp: matches_def)
    have "path_accounts X M fetch_wallet fetch_accounts creds p =
        (case fetch_wallet p of Inl e \<Rightarrow> [] | Inr w \<Rightarrow> (case fetch_accounts (wal_Name (mg_lib M) w) of
              Inl e \<Rightarrow> [] | Inr as \<Rightarrow> filter (\<lambda>a. matches a \<and> visible M creds w a) (map snd as)))"
      using False by (simp add: path_accounts_def names matches_def conj_commute split: sum.split)
    with tail [of matches] False show ?thesis by (simp add: list_path_def names m)
  qed
qed

lemma ListAccounts_spec:
  assumes "I s" and "creds \<noteq> None"
  shows "\<exists>s'. ListAccounts X M rt creds paths s =
    (Ret (ResultSucceeded, Some (concat (map (path_accounts X M fetch_wallet fetch_accounts creds) paths))), s') \<and> I s'"
proof -
  have "I s \<Longrightarrow> \<exists>s'. list_paths X M rt creds paths ps s =
      (Ret (concat (map (path_accounts X M fetch_wallet fetch_accounts creds) ps)), s') \<and> I s'" for ps s
  proof (induction ps arbitrary: s)
    case (Cons p ps)
    from list_path_spec [OF Cons.prems, of paths p] obtain s1 where
      "list_path X M rt creds paths p s = (Ret (path_accounts X M fetch_wallet fetch_accounts creds p), s1)" "I s1" by blast
    with Cons.IH [of s1] show ?case by (auto simp: go_bind_def go_simps)
  qed (simp add: go_simps)
  from this [OF assms(1), of paths] assms(2) show ?thesis by (auto simp: ListAccounts_def go_bind_def go_simps)
qed

end

end
