(* ===== verification/Dirk.thy ===== *)
theory Dirk
  imports Checker Fetcher Unlocker Signer_Safety Serving Ruler_Generic Lister
begin

text \<open>
  The signing side of the program put together, as \<open>main.go\<close> does it: the signer is given the
  static checker, the in-memory fetcher, the local unlocker and the ruler with the standard rules.
  The state of the whole is the ruler's state, the state of the wallets and the fetcher's caches.
\<close>

record ('db, 'v, 'wal, 'acc) world =
  w_ruler :: "'db ruler_state"
  w_wallets :: 'v
  w_fetcher :: "('wal, 'acc) fetcher"

record ('db, 'v, 'wal, 'acc, 're) config =
  cf_rules :: "'db rules_service"
  cf_wallets :: "('v, 'wal, 'acc) wallet_lib"
  cf_regexp :: "'re regexp_lib"
  cf_access :: "'re access"
  cf_unlocker :: unlocker
  cf_ssz :: ssz_lib

definition world_lib :: "('db, 'v, 'wal, 'acc, 're) config \<Rightarrow> (('db, 'v, 'wal, 'acc) world, 'wal, 'acc) wallet_lib" where
  "world_lib C = lift_lib w_wallets (\<lambda>v w. w\<lparr>w_wallets := v\<rparr>) (cf_wallets C)"

definition dirk_signer :: "('db, 'v, 'wal, 'acc, 're) config \<Rightarrow> (('db, 'v, 'wal, 'acc) world, 'wal, 'acc) signer" where
  "dirk_signer C = \<lparr>
     sg_lib = world_lib C,
     sg_ssz = cf_ssz C,
     sg_Check = Check (cf_regexp C) (WalletAndAccountNames (cf_wallets C)) (cf_access C),
     sg_FetchAccount = (\<lambda>name w. (Ret (FetchAccount (cf_wallets C) (w_fetcher w) name), w)),
     sg_FetchAccountByKey = (\<lambda>key w. (Ret (FetchAccountByKey (cf_wallets C) (w_fetcher w) key), w)),
     sg_UnlockAccount = UnlockAccount (world_lib C) (cf_unlocker C),
     sg_RunRules = (\<lambda>rt creds action rds.
       go_zoom w_ruler (\<lambda>r w. w\<lparr>w_ruler := r\<rparr>) (RunRules (cf_rules C) rt creds action rds))\<rparr>"

text \<open>The managers and the lister get the same services; \<open>generate\<close> is that of the key generation.\<close>

definition dirk_manager ::
  "('db, 'v, 'wal, 'acc, 're) config \<Rightarrow>
     (credentials option \<Rightarrow> string \<Rightarrow> bytes option \<Rightarrow> u32 \<Rightarrow> u32 \<Rightarrow> (('db, 'v, 'wal, 'acc) world, err + bytes \<times> 'ep list) op) \<Rightarrow>
     (('db, 'v, 'wal, 'acc) world, 'wal, 'acc, 'ep) manager" where
  "dirk_manager C generate = \<lparr>
     mg_lib = world_lib C,
     mg_Check = Check (cf_regexp C) (WalletAndAccountNames (cf_wallets C)) (cf_access C),
     mg_FetchWallet = (\<lambda>name w. (Ret (FetchWallet (cf_wallets C) (w_fetcher w) name), w)),
     mg_FetchAccount = (\<lambda>name w. (Ret (FetchAccount (cf_wallets C) (w_fetcher w) name), w)),
     mg_FetchAccountByKey = (\<lambda>key w. (Ret (FetchAccountByKey (cf_wallets C) (w_fetcher w) key), w)),
     mg_FetchAccounts = (\<lambda>name w. (Ret (FetchAccounts (cf_wallets C) (w_fetcher w) name), w)),
     mg_RunRules = (\<lambda>rt creds action rds.
       go_zoom w_ruler (\<lambda>r w. w\<lparr>w_ruler := r\<rparr>) (RunRules (cf_rules C) rt creds action rds)),
     mg_OnGenerate = generate\<rparr>"

section \<open>The services keep what the signer relies on\<close>

text \<open>Operations that only touch the state of the wallets.\<close>

definition wallet_only :: "(('db, 'v, 'wal, 'acc) world, 'a) op \<Rightarrow> bool" where
  "wallet_only m \<longleftrightarrow> (\<forall>w r w'. m w = (r, w') \<longrightarrow> w_ruler w' = w_ruler w \<and> w_fetcher w' = w_fetcher w)"

lemma wallet_only_zoom: "wallet_only (go_zoom w_wallets (\<lambda>v w. w\<lparr>w_wallets := v\<rparr>) m)"
  by (auto simp: wallet_only_def go_zoom_def split: prod.splits)

lemma wallet_only_return: "wallet_only (go_return x)"
  by (simp add: wallet_only_def go_return_def)

lemma wallet_only_bind: "wallet_only m \<Longrightarrow> (\<And>x. wallet_only (f x)) \<Longrightarrow> wallet_only (go_bind m f)"
  unfolding wallet_only_def go_bind_def by (fastforce split: prod.splits go.splits)

lemma wallet_only_try:
  "(\<And>p. wallet_only (unlock p)) \<Longrightarrow> wallet_only (try_passphrases unlock ps)"
  by (induction ps) (auto intro!: wallet_only_bind wallet_only_return split: option.split)

lemma wallet_only_lib:
  "wallet_only (acc_IsUnlocked (world_lib C) a)" "wallet_only (acc_Unlock (world_lib C) a p)"
  "wallet_only (acc_Sign (world_lib C) a r)"
  by (simp_all add: world_lib_def lift_lib_def wallet_only_zoom)

lemma wallet_only_UnlockAccount: "wallet_only (UnlockAccount (world_lib C) U w a)"
  unfolding UnlockAccount_def
  by (auto intro!: wallet_only_return wallet_only_bind wallet_only_try wallet_only_lib split: option.split)

locale dirk = standard_rules "cf_rules C" contents
  for C :: "('db, 'v, 'wal, 'acc, 're) config" and contents :: "'db \<Rightarrow> bytes \<Rightarrow> bytes option" +
  fixes f :: "('wal, 'acc) fetcher"
begin

definition world_ok ::
  "(bytes \<times> int \<times> int) list \<Rightarrow> (bytes \<times> int) list \<Rightarrow> ('db, 'v, 'wal, 'acc) world \<Rightarrow> bool" where
  "world_ok alog plog w \<longleftrightarrow> quiet (w_ruler w) \<and> inv alog plog (ruler_db (w_ruler w)) \<and> w_fetcher w = f"

definition world_crashed ::
  "(bytes \<times> int \<times> int) list \<Rightarrow> (bytes \<times> int) list \<Rightarrow> ('db, 'v, 'wal, 'acc) world \<Rightarrow> bool" where
  "world_crashed alog plog w \<longleftrightarrow> inv alog plog (ruler_db (w_ruler w)) \<and> w_fetcher w = f"

lemma wallet_only_triple:
  assumes "wallet_only m"
  shows "go_triple (world_ok al pl) m (\<lambda>_. world_ok al pl) (world_crashed al pl)"
  using assms by (fastforce simp: wallet_only_def go_triple_def world_ok_def world_crashed_def split: prod.splits go.splits)

definition approvable :: "credentials option \<Rightarrow> string \<Rightarrow> rules_data \<Rightarrow> bool" where
  "approvable creds action rd \<longleftrightarrow> (action = ActionSign \<longrightarrow> sign_ok (cf_rules C) creds rd)"

lemma RunRules_triple:
  assumes fair: "fair_runtime rt" and rng: "\<forall>rd \<in> set rds. rd_in_range rd"
  shows "go_triple (world_ok al pl) (go_zoom w_ruler (\<lambda>r w. w\<lparr>w_ruler := r\<rparr>) (RunRules (cf_rules C) rt creds action rds))
    (\<lambda>rs w. length rs = max 1 (length rds) \<and>
       (\<forall>j < length rs. rs ! j = APPROVED \<longrightarrow> j < length rds \<and> (\<exists>rd. rds ! j = Some rd \<and> approvable creds action rd)) \<and>
       world_ok (al @ att_approvals action rds rs) (pl @ prop_approvals action rds rs) w) (world_crashed al pl)"
proof (rule go_triple_zoom)
  fix w assume w: "world_ok al pl w"
  then have q: "quiet (w_ruler w)" and I: "inv al pl (ruler_db (w_ruler w))" and f: "w_fetcher w = f"
    by (auto simp: world_ok_def)
  show "go_triple (\<lambda>s. s = w_ruler w) (RunRules (cf_rules C) rt creds action rds)
     (\<lambda>rs s. length rs = max 1 (length rds) \<and>
       (\<forall>j < length rs. rs ! j = APPROVED \<longrightarrow> j < length rds \<and> (\<exists>rd. rds ! j = Some rd \<and> approvable creds action rd)) \<and>
       world_ok (al @ att_approvals action rds rs) (pl @ prop_approvals action rds rs) (w\<lparr>w_ruler := s\<rparr>))
     (\<lambda>s. world_crashed al pl (w\<lparr>w_ruler := s\<rparr>))"
  proof (rule go_tripleI)
    fix s rs t assume "s = w_ruler w" "RunRules (cf_rules C) rt creds action rds s = (Ret rs, t)"
    with q have call: "RunRules (cf_rules C) rt creds action rds (w_ruler w) = (Ret rs, t)" by simp
    have "\<forall>j < length rs. rs ! j = APPROVED \<longrightarrow> j < length rds \<and> (\<exists>rd. rds ! j = Some rd \<and> approvable creds action rd)"
    proof (intro allI impI)
      fix j assume j: "j < length rs" "rs ! j = APPROVED"
      with RunRules_shape [OF fair q call] obtain rd where rd: "j < length rds" "rds ! j = Some rd" by auto
      have "sign_ok (cf_rules C) creds rd" if "action = ActionSign"
        using RunRules_sign_ok [OF fair q call [unfolded that] rd(1) j(2)] rd(2) by simp
      with rd show "j < length rds \<and> (\<exists>rd. rds ! j = Some rd \<and> approvable creds action rd)" by (simp add: approvable_def)
    qed
    with RunRules_shape [OF fair q call] RunRules_inv [OF q call fair rng I] f
    show "length rs = max 1 (length rds) \<and> (\<forall>j < length rs. rs ! j = APPROVED \<longrightarrow> j < length rds \<and> (\<exists>rd. rds ! j = Some rd \<and> approvable creds action rd)) \<and>
       world_ok (al @ att_approvals action rds rs) (pl @ prop_approvals action rds rs) (w\<lparr>w_ruler := t\<rparr>)"
      by (simp add: world_ok_def)
  next
    fix s e t assume "s = w_ruler w" "RunRules (cf_rules C) rt creds action rds s = (Panic e, t)"
    with RunRules_inv(3) [OF q _ fair rng I] f show "world_crashed al pl (w\<lparr>w_ruler := t\<rparr>)"
      by (auto simp: world_crashed_def)
  next
    fix s t assume "s = w_ruler w" "RunRules (cf_rules C) rt creds action rds s = (Block, t)"
    with RunRules_inv(3) [OF q _ fair rng I] f show "world_crashed al pl (w\<lparr>w_ruler := t\<rparr>)"
      by (auto simp: world_crashed_def)
  qed
qed

end

sublocale dirk \<subseteq> sg: signing "dirk_signer C" world_ok world_crashed
  "FetchAccount (cf_wallets C) f" "FetchAccountByKey (cf_wallets C) f" approvable
proof unfold_locales
  show "world_crashed al pl s" if "world_ok al pl s" for al pl s
    using that by (simp add: world_ok_def world_crashed_def)
  show "world_crashed al pl s" if "world_crashed (al @ al') (pl @ pl') s" for al al' pl pl' s
    using that inv_prefix by (auto simp: world_crashed_def)
  show "sg_FetchAccount (dirk_signer C) n s = (Ret (FetchAccount (cf_wallets C) f n), s)" if "world_ok al pl s" for al pl s n
    using that by (simp add: dirk_signer_def world_ok_def)
  show "sg_FetchAccountByKey (dirk_signer C) k s = (Ret (FetchAccountByKey (cf_wallets C) f k), s)"
    if "world_ok al pl s" for al pl s k
    using that by (simp add: dirk_signer_def world_ok_def)
  show "go_triple (world_ok al pl) (acc_IsUnlocked (sg_lib (dirk_signer C)) a) (\<lambda>_. world_ok al pl) (world_crashed al pl)" for al pl a
    by (rule wallet_only_triple) (simp add: dirk_signer_def wallet_only_lib)
  show "go_triple (world_ok al pl) (sg_UnlockAccount (dirk_signer C) w a') (\<lambda>_. world_ok al pl) (world_crashed al pl)" for al pl w a'
    by (rule wallet_only_triple) (simp add: dirk_signer_def wallet_only_UnlockAccount)
  show "go_triple (world_ok al pl) (acc_Sign (sg_lib (dirk_signer C)) a root) (\<lambda>_. world_ok al pl) (world_crashed al pl)" for al pl a root
    by (rule wallet_only_triple) (simp add: dirk_signer_def wallet_only_lib)
  show "go_triple (world_ok al pl) (sg_RunRules (dirk_signer C) rt creds action rds)
        (\<lambda>rs s. length rs = max 1 (length rds) \<and>
           (\<forall>j < length rs. rs ! j = APPROVED \<longrightarrow> j < length rds \<and> (\<exists>rd. rds ! j = Some rd \<and> approvable creds action rd)) \<and>
           world_ok (al @ att_approvals action rds rs) (pl @ prop_approvals action rds rs) s) (world_crashed al pl)"
    if "fair_runtime rt" "\<forall>rd \<in> set rds. rd_in_range rd" for rt rds al pl creds action
    using RunRules_triple [OF that] by (simp add: dirk_signer_def)
qed

text \<open>The same services serve the lister, for a client that gave its name.\<close>

locale dirk_client = dirk C contents f
  for C :: "('db, 'v, 'wal, 'acc, 're) config" and contents :: "'db \<Rightarrow> bytes \<Rightarrow> bytes option"
    and f :: "('wal, 'acc) fetcher" +
  fixes generate :: "credentials option \<Rightarrow> string \<Rightarrow> bytes option \<Rightarrow> u32 \<Rightarrow> u32 \<Rightarrow>
      (('db, 'v, 'wal, 'acc) world, err + bytes \<times> 'ep list) op"
    and rt :: go_runtime and c :: credentials
  assumes fair: "fair_runtime rt" and named: "cr_Client c \<noteq> []"

sublocale dirk_client \<subseteq> ls: listing "cf_regexp C" "dirk_manager C generate" "\<lambda>w. quiet (w_ruler w) \<and> w_fetcher w = f"
  "FetchWallet (cf_wallets C) f" "FetchAccounts (cf_wallets C) f" rt "Some c"
proof unfold_locales
  show "mg_FetchWallet (dirk_manager C generate) p s = (Ret (FetchWallet (cf_wallets C) f p), s)"
    if "quiet (w_ruler s) \<and> w_fetcher s = f" for s p
    using that by (simp add: dirk_manager_def)
  show "mg_FetchAccounts (dirk_manager C generate) n s = (Ret (FetchAccounts (cf_wallets C) f n), s)"
    if "quiet (w_ruler s) \<and> w_fetcher s = f" for s n
    using that by (simp add: dirk_manager_def)
  show "\<exists>s'. mg_RunRules (dirk_manager C generate) rt (Some c) ActionAccessAccount [Some rd] s = (Ret [APPROVED], s') \<and>
      quiet (w_ruler s') \<and> w_fetcher s' = f"
    if s: "quiet (w_ruler s) \<and> w_fetcher s = f" and rd: "rd_Data rd = Some (AnyAccessAccountData ps)" for s rd ps
  proof -
    from RunRules_approves [OF fair _ refl named, of "w_ruler s" ActionAccessAccount rd ps "cf_rules C"] s rd
    obtain t where "RunRules (cf_rules C) rt (Some c) ActionAccessAccount [Some rd] (w_ruler s) = (Ret [APPROVED], t)" "quiet t"
      by auto
    with s show ?thesis by (simp add: dirk_manager_def go_zoom_def)
  qed
qed

section \<open>A life of requests\<close>

text \<open>
  The requests a daemon gets over its life: signing requests of any kind, accounts that are added
  to the fetcher, and restarts, after which the wallets and the caches may be any but the database
  of the rules is the same.
\<close>

datatype ('v, 'wal, 'acc) request =
    ReqSignGeneric go_runtime "credentials option" string "bytes option" "sign_data option"
  | ReqMultisign go_runtime "credentials option" "string list" "bytes option list" "sign_data option list"
  | ReqAttestation go_runtime "credentials option" string "bytes option" "att_data option"
  | ReqAttestations go_runtime "credentials option" "string list" "bytes option list" "att_data option list"
  | ReqProposal go_runtime "credentials option" string "bytes option" "prop_data option"
  | ReqAddAccount 'wal 'acc
  | ReqRestart 'v "('wal, 'acc) fetcher"

datatype answer =
    AnsOne core_result "bytes option"
  | AnsMany "core_result list" "bytes option list option"
  | AnsDone

definition restart :: "'v \<Rightarrow> ('wal, 'acc) fetcher \<Rightarrow> ('db, 'v, 'wal, 'acc) world \<Rightarrow> ('db, 'v, 'wal, 'acc) world" where
  "restart v f w = \<lparr>w_ruler = (w_ruler w)\<lparr>ruler_locker := new_locker\<rparr>, w_wallets = v, w_fetcher = f\<rparr>"

fun handle ::
  "('db, 'v, 'wal, 'acc, 're) config \<Rightarrow> ('v, 'wal, 'acc) request \<Rightarrow> (('db, 'v, 'wal, 'acc) world, answer) op" where
  "handle C (ReqSignGeneric rt creds name key data) =
     go_bind (SignGeneric (dirk_signer C) rt creds name key data) (\<lambda>(r, g). go_return (AnsOne r g))"
| "handle C (ReqMultisign rt creds names keys data) =
     go_bind (Multisign (dirk_signer C) rt creds names keys data) (\<lambda>(rs, gs). go_return (AnsMany rs gs))"
| "handle C (ReqAttestation rt creds name key data) =
     go_bind (SignBeaconAttestation (dirk_signer C) rt creds name key data) (\<lambda>(r, g). go_return (AnsOne r g))"
| "handle C (ReqAttestations rt creds names keys data) =
     go_bind (SignBeaconAttestations (dirk_signer C) rt creds names keys data) (\<lambda>(rs, gs). go_return (AnsMany rs gs))"
| "handle C (ReqProposal rt creds name key data) =
     go_bind (SignBeaconProposal (dirk_signer C) rt creds name key data) (\<lambda>(r, g). go_return (AnsOne r g))"
| "handle C (ReqAddAccount wal acc) =
     go_bind (go_zoom w_fetcher (\<lambda>f w. w\<lparr>w_fetcher := f\<rparr>) (AddAccount (cf_wallets C) wal acc)) (\<lambda>_. go_return AnsDone)"
| "handle C (ReqRestart v f) = go_bind (go_update (restart v f)) (\<lambda>_. go_return AnsDone)"

text \<open>The public key of the account that a request names, by path or by key.\<close>

definition key_at ::
  "('db, 'v, 'wal, 'acc, 're) config \<Rightarrow> ('wal, 'acc) fetcher \<Rightarrow> string \<Rightarrow> bytes option \<Rightarrow> bytes" where
  "key_at C f name key =
     (case (case key of None \<Rightarrow> FetchAccount (cf_wallets C) f name | Some k \<Rightarrow> FetchAccountByKey (cf_wallets C) f k) of
        Inl e \<Rightarrow> [] | Inr (w, a) \<Rightarrow> acc_PublicKey (cf_wallets C) a)"

text \<open>The attestations and proposals that an answer carries signatures for.\<close>

fun signed_atts ::
  "('db, 'v, 'wal, 'acc, 're) config \<Rightarrow> ('wal, 'acc) fetcher \<Rightarrow> ('v, 'wal, 'acc) request \<Rightarrow> answer \<Rightarrow> (bytes \<times> int \<times> int) list" where
  "signed_atts C f (ReqAttestation rt creds name key data) (AnsOne r g) =
     (if r = ResultSucceeded then [(key_at C f name key, the (att_epochs (the data)))] else [])"
| "signed_atts C f (ReqAttestations rt creds names keys data) (AnsMany rs gs) =
     concat (map (\<lambda>j. if rs ! j = ResultSucceeded
        then [(key_at C f (if j < length names then names ! j else []) (if j < length keys then keys ! j else None),
               the (att_epochs (the (data ! j))))] else []) [0..<length data])"
| "signed_atts C f req ans = []"

fun signed_props ::
  "('db, 'v, 'wal, 'acc, 're) config \<Rightarrow> ('wal, 'acc) fetcher \<Rightarrow> ('v, 'wal, 'acc) request \<Rightarrow> answer \<Rightarrow> (bytes \<times> int) list" where
  "signed_props C f (ReqProposal rt creds name key data) (AnsOne r g) =
     (if r = ResultSucceeded then [(key_at C f name key, uint (pd_Slot (the data)))] else [])"
| "signed_props C f req ans = []"

text \<open>A request that ends the process (a panic, or a goroutine blocked for ever) is not answered.\<close>

fun live ::
  "('db, 'v, 'wal, 'acc, 're) config \<Rightarrow> ('v, 'wal, 'acc) request list \<Rightarrow> ('db, 'v, 'wal, 'acc) world \<Rightarrow>
     (bytes \<times> int \<times> int) list \<times> (bytes \<times> int) list" where
  "live C [] w = ([], [])"
| "live C (q # qs) w =
     (case handle C q w of
        (Ret ans, w') \<Rightarrow> (case live C qs w' of
           (al, pl) \<Rightarrow> (signed_atts C (w_fetcher w) q ans @ al, signed_props C (w_fetcher w) q ans @ pl))
      | (_, w') \<Rightarrow> live C qs (restart (w_wallets w') (w_fetcher w') w'))"

fun good_request :: "('v, 'wal, 'acc) request \<Rightarrow> bool" where
  "good_request (ReqSignGeneric rt creds name key data) = fair_runtime rt"
| "good_request (ReqMultisign rt creds names keys data) = fair_runtime rt"
| "good_request (ReqAttestation rt creds name key data) = (fair_runtime rt \<and> att_in_range data)"
| "good_request (ReqAttestations rt creds names keys data) = (fair_runtime rt \<and> (\<forall>d \<in> set data. att_in_range d))"
| "good_request (ReqProposal rt creds name key data) = (fair_runtime rt \<and> prop_in_range data)"
| "good_request (ReqAddAccount wal acc) = True"
| "good_request (ReqRestart v f) = True"

lemma lib_pubkey [simp]: "acc_PublicKey (sg_lib (dirk_signer C)) = acc_PublicKey (cf_wallets C)"
  by (simp add: dirk_signer_def world_lib_def lift_lib_def)

context dirk
begin

lemma look_key: "sg.look name key = Some (w, a) \<Longrightarrow> acc_PublicKey (cf_wallets C) a = key_at C f name key"
  by (auto simp: sg.look_def key_at_def split: if_splits option.splits sum.splits)

text \<open>Every request leaves a quiet ruler whose database protects all that was signed.\<close>

definition answered ::
  "(bytes \<times> int \<times> int) list \<Rightarrow> (bytes \<times> int) list \<Rightarrow> ('v, 'wal, 'acc) request \<Rightarrow> answer \<Rightarrow>
     ('db, 'v, 'wal, 'acc) world \<Rightarrow> bool" where
  "answered al pl q ans w \<longleftrightarrow> (\<exists>al' pl'. quiet (w_ruler w) \<and> inv (al @ al') (pl @ pl') (ruler_db (w_ruler w)) \<and>
     subseq (signed_atts C f q ans) al' \<and> subseq (signed_props C f q ans) pl')"

lemma answeredI:
  "world_ok (al @ al') (pl @ pl') w \<Longrightarrow> subseq (signed_atts C f q ans) al' \<Longrightarrow> subseq (signed_props C f q ans) pl' \<Longrightarrow>
     answered al pl q ans w"
  unfolding answered_def world_ok_def by blast

lemma answered_same:
  "world_ok al pl w \<Longrightarrow> signed_atts C f q ans = [] \<Longrightarrow> signed_props C f q ans = [] \<Longrightarrow> answered al pl q ans w"
  using answeredI [of al "[]" pl "[]"] by simp

lemma answer_triple:
  assumes "go_triple (world_ok al pl) m Q (world_crashed al pl)" and "\<And>x w. Q x w \<Longrightarrow> answered al pl q (k x) w"
  shows "go_triple (world_ok al pl) (go_bind m (\<lambda>x. go_return (k x))) (answered al pl q) (world_crashed al pl)"
  by (rule go_triple_bind [OF assms(1)]) (use assms(2) in \<open>auto intro: go_triple_return\<close>)

lemma handle_attestation:
  assumes "fair_runtime rt" and "att_in_range data"
  shows "go_triple (world_ok al pl) (handle C (ReqAttestation rt creds name key data))
    (answered al pl (ReqAttestation rt creds name key data)) (world_crashed al pl)"
  unfolding handle.simps case_prod_beta
proof (rule answer_triple [OF sg.SignBeaconAttestation_triple [OF assms, of al pl creds name key]], goal_cases)
  case (1 x w)
  then obtain r g al' where x: "x = (r, g)" and I: "world_ok (al @ al') pl w"
    and s: "r = ResultSucceeded \<longrightarrow> (\<exists>w a d. sg.look name key = Some (w, a) \<and> data = Some d \<and>
        al' = [(acc_PublicKey (sg_lib (dirk_signer C)) a, the (att_epochs d))])"
    by (cases x) fastforce
  show ?case
    by (rule answeredI [of al al' pl "[]"]) (use I s look_key in \<open>auto simp: x\<close>)
qed

lemma handle_proposal:
  assumes "fair_runtime rt" and "prop_in_range data"
  shows "go_triple (world_ok al pl) (handle C (ReqProposal rt creds name key data))
    (answered al pl (ReqProposal rt creds name key data)) (world_crashed al pl)"
  unfolding handle.simps case_prod_beta
proof (rule answer_triple [OF sg.SignBeaconProposal_triple [OF assms, of al pl creds name key]], goal_cases)
  case (1 x w)
  then obtain r g pl' where x: "x = (r, g)" and I: "world_ok al (pl @ pl') w"
    and s: "r = ResultSucceeded \<longrightarrow> (\<exists>w a d. sg.look name key = Some (w, a) \<and> data = Some d \<and>
        pl' = [(acc_PublicKey (sg_lib (dirk_signer C)) a, uint (pd_Slot d))])"
    by (cases x) fastforce
  show ?case
    by (rule answeredI [of al "[]" pl pl']) (use I s look_key in \<open>auto simp: x\<close>)
qed

lemma handle_attestations:
  assumes "fair_runtime rt" and "\<forall>d \<in> set data. att_in_range d"
  shows "go_triple (world_ok al pl) (handle C (ReqAttestations rt creds names keys data))
    (answered al pl (ReqAttestations rt creds names keys data)) (world_crashed al pl)"
  unfolding handle.simps case_prod_beta
proof (rule answer_triple [OF sg.SignBeaconAttestations_triple [OF assms, of al pl creds names keys]], goal_cases)
  case (1 x w)
  then obtain rs gs al' where x: "x = (rs, gs)" and I: "world_ok (al @ al') pl w"
    and sub: "subseq (sg.batch_log names keys data rs) al'"
    and s: "\<forall>j < length data. rs ! j = ResultSucceeded \<longrightarrow> (\<exists>w a. sg.entry_target names keys j = Some (w, a))"
    by (cases x) fastforce
  have "sg.batch_log names keys data rs = signed_atts C f (ReqAttestations rt creds names keys data) (AnsMany rs gs)"
    unfolding sg.batch_log_def signed_atts.simps
  proof (rule arg_cong [where f = concat], rule map_cong [OF refl], goal_cases)
    case (1 j)
    show ?case
    proof (cases "rs ! j = ResultSucceeded")
      case True
      with 1 s obtain w a where t: "sg.entry_target names keys j = Some (w, a)" by auto
      with look_key [OF t [unfolded sg.entry_target_def]] show ?thesis by simp
    qed simp
  qed
  with sub I show ?case by (auto simp: x intro: answeredI [of al al' pl "[]"])
qed

lemma handle_triple:
  assumes "good_request q"
  shows "go_triple (world_ok al pl) (handle C q) (answered al pl q) (\<lambda>w. inv al pl (ruler_db (w_ruler w)))"
proof -
  have weak: "go_triple (world_ok al pl) (handle C q) (answered al pl q) (\<lambda>w. inv al pl (ruler_db (w_ruler w)))"
    if "go_triple (world_ok al pl) (handle C q) (answered al pl q) (world_crashed al pl)"
    by (rule go_triple_conseq [OF that]) (auto simp: world_crashed_def)
  show ?thesis
  proof (cases q)
    case (ReqSignGeneric rt creds name key data)
    have "go_triple (world_ok al pl) (handle C q) (answered al pl q) (world_crashed al pl)"
      unfolding ReqSignGeneric handle.simps case_prod_beta
      by (rule answer_triple [OF sg.SignGeneric_triple]) (use assms ReqSignGeneric in \<open>auto intro: answered_same\<close>)
    then show ?thesis by (rule weak)
  next
    case (ReqMultisign rt creds names keys data)
    have "go_triple (world_ok al pl) (handle C q) (answered al pl q) (world_crashed al pl)"
      unfolding ReqMultisign handle.simps case_prod_beta
      by (rule answer_triple [OF sg.Multisign_triple]) (use assms ReqMultisign in \<open>auto intro: answered_same\<close>)
    then show ?thesis by (rule weak)
  next
    case ReqAttestation
    with handle_attestation assms show ?thesis by (intro weak) auto
  next
    case ReqAttestations
    with handle_attestations assms show ?thesis by (intro weak) auto
  next
    case ReqProposal
    with handle_proposal assms show ?thesis by (intro weak) auto
  next
    case (ReqAddAccount wal acc)
    then show ?thesis
      by (auto simp: go_triple_def go_bind_def go_zoom_def go_simps answered_def world_ok_def AddAccount_def Let_def
          intro!: exI [of _ "[]"])
  next
    case (ReqRestart v g)
    then show ?thesis
      by (auto simp: go_triple_def go_bind_def go_simps answered_def world_ok_def restart_def quiet_new_locker intro!: exI [of _ "[]"])
  qed
qed

end

text \<open>Over a life of requests, the messages that were signed are among those that are protected.\<close>

lemma live_protected:
  assumes R: "standard_rules (cf_rules C) contents"
  shows "\<forall>q \<in> set qs. good_request q \<Longrightarrow> quiet (w_ruler w) \<Longrightarrow>
    standard_rules.inv (cf_rules C) contents al pl (ruler_db (w_ruler w)) \<Longrightarrow> live C qs w = (sal, spl) \<Longrightarrow>
    \<exists>al' pl' db. standard_rules.inv (cf_rules C) contents (al @ al') (pl @ pl') db \<and> subseq sal al' \<and> subseq spl pl'"
proof (induction qs arbitrary: w al pl sal spl)
  case Nil
  then show ?case by (auto intro!: exI [of _ "[]"])
next
  case (Cons q qs)
  have D: "dirk C contents" using R by (simp add: dirk_def)
  have ok: "dirk.world_ok C contents (w_fetcher w) al pl w"
    using Cons.prems by (simp add: dirk.world_ok_def [OF D])
  obtain out w' where out: "handle C q w = (out, w')" by force
  note T = dirk.handle_triple [OF D, of q "w_fetcher w" al pl]
  show ?case
  proof (cases "\<exists>ans. out = Ret ans")
    case True
    then obtain ans where ans: "out = Ret ans" by blast
    from Cons.prems(4) out ans obtain sal2 spl2 where l: "live C qs w' = (sal2, spl2)"
      "sal = signed_atts C (w_fetcher w) q ans @ sal2" "spl = signed_props C (w_fetcher w) q ans @ spl2"
      by (auto split: prod.splits)
    have "dirk.answered C contents (w_fetcher w) al pl q ans w'"
      using go_tripleD_Ret [OF T ok] Cons.prems(1) out ans by simp
    then obtain al1 pl1 where a: "quiet (w_ruler w')" "standard_rules.inv (cf_rules C) contents (al @ al1) (pl @ pl1) (ruler_db (w_ruler w'))"
      "subseq (signed_atts C (w_fetcher w) q ans) al1" "subseq (signed_props C (w_fetcher w) q ans) pl1"
      by (auto simp: dirk.answered_def [OF D])
    from Cons.IH [OF _ a(1,2) l(1)] Cons.prems(1) obtain al2 pl2 db where
      "standard_rules.inv (cf_rules C) contents ((al @ al1) @ al2) ((pl @ pl1) @ pl2) db" "subseq sal2 al2" "subseq spl2 pl2"
      by auto
    with a(3,4) l show ?thesis
      by (intro exI [of _ "al1 @ al2"] exI [of _ "pl1 @ pl2"] exI [of _ db]) (auto intro: list_emb_append_mono)
  next
    case False
    with Cons.prems(4) out have l: "live C qs (restart (w_wallets w') (w_fetcher w') w') = (sal, spl)"
      by (auto split: go.splits)
    have "standard_rules.inv (cf_rules C) contents al pl (ruler_db (w_ruler w'))"
      using go_tripleD_stop [OF T ok out] Cons.prems(1) False by auto
    with Cons.IH [OF _ _ _ l] Cons.prems(1) show ?thesis by (simp add: restart_def quiet_new_locker)
  qed
qed

lemma sorted_wrt_subseq: "subseq xs ys \<Longrightarrow> sorted_wrt P ys \<Longrightarrow> sorted_wrt P xs"
proof (induction rule: list_emb.induct)
  case (list_emb_Cons2 x y xs ys)
  then show ?case using list_emb_set [of "(=)" xs ys] by auto
qed auto

lemma ordered_log_subseq: "subseq xs ys \<Longrightarrow> ordered_log follows ys \<Longrightarrow> ordered_log follows xs"
  unfolding ordered_log_def by (rule sorted_wrt_subseq)

end
