(* ===== verification/Dirk_Signing.thy ===== *)
theory Dirk_Signing
  imports Dirk
begin

text \<open>
  What a signature of the daemon says: which account made it, over which root, and that the client
  was permitted to have it made. The lemmas restate those of the signer for the daemon's services.
\<close>

definition account_of ::
  "('db, 'v, 'wal, 'acc, 're) config \<Rightarrow> ('wal, 'acc) fetcher \<Rightarrow> string \<Rightarrow> bytes option \<Rightarrow> err + 'wal \<times> 'acc" where
  "account_of C f name key =
     (case key of None \<Rightarrow> FetchAccount (cf_wallets C) f name | Some k \<Rightarrow> FetchAccountByKey (cf_wallets C) f k)"

definition permitted :: "('db, 'v, 'wal, 'acc, 're) config \<Rightarrow> credentials option \<Rightarrow> string \<Rightarrow> 'wal \<Rightarrow> 'acc \<Rightarrow> bool" where
  "permitted C creds action w a \<longleftrightarrow>
     Check (cf_regexp C) (WalletAndAccountNames (cf_wallets C)) (cf_access C) creds
       (account_path (wal_Name (cf_wallets C) w) (acc_Name (cf_wallets C) a)) action"

definition signature_by :: "('db, 'v, 'wal, 'acc, 're) config \<Rightarrow> 'acc \<Rightarrow> err + bytes \<Rightarrow> bytes \<Rightarrow> bool" where
  "signature_by C a root sig \<longleftrightarrow> acc_is_signer (cf_wallets C) a \<and>
     (\<exists>r v v'. root = Inr r \<and> acc_Sign (cf_wallets C) a r v = (Ret (Inr sig), v'))"

text \<open>A success for one request: found, permitted, and signed by the account that was found.\<close>

definition granted ::
  "('db, 'v, 'wal, 'acc, 're) config \<Rightarrow> ('wal, 'acc) fetcher \<Rightarrow> credentials option \<Rightarrow> string \<Rightarrow> string \<Rightarrow> bytes option \<Rightarrow>
     err + bytes \<Rightarrow> bytes \<Rightarrow> bool" where
  "granted C f creds action name key root sig \<longleftrightarrow>
     (\<exists>w a. account_of C f name key = Inr (w, a) \<and> permitted C creds action w a \<and> signature_by C a root sig)"

text \<open>The generic domain rule: no attestation, no proposal, exits from administrators only.\<close>

definition generic_domain_ok :: "('db, 'v, 'wal, 'acc, 're) config \<Rightarrow> credentials option \<Rightarrow> sign_data \<Rightarrow> bool" where
  "generic_domain_ok C creds d \<longleftrightarrow> (\<exists>c dt. creds = Some c \<and> domain_type (sd_Domain d) = Some dt \<and>
     dt \<noteq> DomainBeaconAttester (rules_lib (cf_rules C)) \<and> dt \<noteq> DomainBeaconProposer (rules_lib (cf_rules C)) \<and>
     (dt = DomainVoluntaryExit (rules_lib (cf_rules C)) \<longrightarrow> cr_IP c \<noteq> [] \<and> cr_IP c \<in> set (adminIPs (cf_rules C))))"

lemma signer_parts:
  "sg_ssz (dirk_signer C) = cf_ssz C"
  "sg_Check (dirk_signer C) = Check (cf_regexp C) (WalletAndAccountNames (cf_wallets C)) (cf_access C)"
  "wal_Name (sg_lib (dirk_signer C)) = wal_Name (cf_wallets C)" "acc_Name (sg_lib (dirk_signer C)) = acc_Name (cf_wallets C)"
  "acc_is_signer (sg_lib (dirk_signer C)) = acc_is_signer (cf_wallets C)"
  "acc_Sign (sg_lib (dirk_signer C)) a r = go_zoom w_wallets (\<lambda>v w. w\<lparr>w_wallets := v\<rparr>) (acc_Sign (cf_wallets C) a r)"
  by (simp_all add: dirk_signer_def world_lib_def lift_lib_def)

context dirk
begin

lemma look_account: "sg.look name key = Some (w, a) \<Longrightarrow> account_of C f name key = Inr (w, a)"
  by (auto simp: sg.look_def account_of_def split: if_splits option.splits sum.splits)

lemma allowed_permitted: "sg.allowed creds action w a = permitted C creds action w a"
  by (simp add: sg.allowed_def permitted_def signer_parts)

lemma signed_signature: "sg.signed_by a root sig \<Longrightarrow> signature_by C a root sig"
  unfolding sg.signed_by_def signature_by_def signer_parts go_zoom_def
proof (elim conjE exE)
  fix r s s'
  assume "acc_is_signer (cf_wallets C) a" "root = Inr r"
    "(case acc_Sign (cf_wallets C) a r (w_wallets s) of (x, t) \<Rightarrow> (x, s\<lparr>w_wallets := t\<rparr>)) = (Ret (Inr sig), s')"
  then show "acc_is_signer (cf_wallets C) a \<and> (\<exists>r v v'. root = Inr r \<and> acc_Sign (cf_wallets C) a r v = (Ret (Inr sig), v'))"
    by (cases "acc_Sign (cf_wallets C) a r (w_wallets s)") auto
qed

lemma approvable_domain:
  "approvable creds ActionSign (rules_data_of W w a (AnySignData (Some d))) \<Longrightarrow> generic_domain_ok C creds d"
  by (auto simp: approvable_def sign_ok_def generic_domain_ok_def rules_data_of_def)

lemma start: "quiet (w_ruler w) \<Longrightarrow> w_fetcher w = f \<Longrightarrow> world_ok [] [] w"
  by (simp add: world_ok_def inv_start)

lemma attestation_granted:
  assumes "fair_runtime rt" "att_in_range data" "quiet (w_ruler w)" "w_fetcher w = f"
    and "SignBeaconAttestation (dirk_signer C) rt creds name key data w = (Ret (res, sig), w')"
  shows "res \<noteq> ResultSucceeded \<Longrightarrow> sig = None"
    and "res = ResultSucceeded \<Longrightarrow> \<exists>d g. data = Some d \<and> sig = Some g \<and>
       granted C f creds ActionSignBeaconAttestation name key (attestation_root (cf_ssz C) d) g"
proof -
  note T = go_tripleD_Ret [OF sg.SignBeaconAttestation_triple [OF assms(1,2)] start [OF assms(3,4)] assms(5)]
  from T show "sig = None" if "res \<noteq> ResultSucceeded" using that by auto
  assume "res = ResultSucceeded"
  with T obtain w a d g where "sg.look name key = Some (w, a)" "data = Some d" "sg.allowed creds ActionSignBeaconAttestation w a"
    "sig = Some g" "sg.signed_by a (attestation_root (sg_ssz (dirk_signer C)) d) g"
    by auto
  then show "\<exists>d g. data = Some d \<and> sig = Some g \<and>
       granted C f creds ActionSignBeaconAttestation name key (attestation_root (cf_ssz C) d) g"
    unfolding granted_def using look_account signed_signature  by (fastforce simp: allowed_permitted signer_parts)
qed

lemma proposal_granted:
  assumes "fair_runtime rt" "prop_in_range data" "quiet (w_ruler w)" "w_fetcher w = f"
    and "SignBeaconProposal (dirk_signer C) rt creds name key data w = (Ret (res, sig), w')"
  shows "res \<noteq> ResultSucceeded \<Longrightarrow> sig = None"
    and "res = ResultSucceeded \<Longrightarrow> \<exists>d g. data = Some d \<and> sig = Some g \<and>
       granted C f creds ActionSignBeaconProposal name key (proposal_root (cf_ssz C) d) g"
proof -
  note T = go_tripleD_Ret [OF sg.SignBeaconProposal_triple [OF assms(1,2)] start [OF assms(3,4)] assms(5)]
  from T show "sig = None" if "res \<noteq> ResultSucceeded" using that by auto
  assume "res = ResultSucceeded"
  with T obtain w a d g where "sg.look name key = Some (w, a)" "data = Some d" "sg.allowed creds ActionSignBeaconProposal w a"
    "sig = Some g" "sg.signed_by a (proposal_root (sg_ssz (dirk_signer C)) d) g"
    by auto
  then show "\<exists>d g. data = Some d \<and> sig = Some g \<and>
       granted C f creds ActionSignBeaconProposal name key (proposal_root (cf_ssz C) d) g"
    unfolding granted_def using look_account signed_signature  by (fastforce simp: allowed_permitted signer_parts)
qed

lemma generic_granted:
  assumes "fair_runtime rt" "quiet (w_ruler w)" "w_fetcher w = f"
    and "SignGeneric (dirk_signer C) rt creds name key data w = (Ret (res, sig), w')"
  shows "res \<noteq> ResultSucceeded \<Longrightarrow> sig = None"
    and "res = ResultSucceeded \<Longrightarrow> \<exists>d g. data = Some d \<and> sig = Some g \<and> generic_domain_ok C creds d \<and>
       granted C f creds ActionSign name key (generic_root (cf_ssz C) d) g"
proof -
  note T = go_tripleD_Ret [OF sg.SignGeneric_triple [OF assms(1)] start [OF assms(2,3)] assms(4)]
  from T show "sig = None" if "res \<noteq> ResultSucceeded" using that by auto
  assume "res = ResultSucceeded"
  with T obtain w a d g where "sg.look name key = Some (w, a)" "data = Some d" "sg.allowed creds ActionSign w a"
    "approvable creds ActionSign (rules_data_of (sg_lib (dirk_signer C)) w a (AnySignData data))"
    "sig = Some g" "sg.signed_by a (generic_root (sg_ssz (dirk_signer C)) d) g"
    by auto
  then show "\<exists>d g. data = Some d \<and> sig = Some g \<and> generic_domain_ok C creds d \<and>
       granted C f creds ActionSign name key (generic_root (cf_ssz C) d) g"
    unfolding granted_def using look_account signed_signature approvable_domain by (fastforce simp: allowed_permitted signer_parts)
qed

lemma target_account:
  "sg.entry_target names keys j = Some (w, a) \<Longrightarrow>
     account_of C f (if j < length names then names ! j else []) (if j < length keys then keys ! j else None) = Inr (w, a)"
  unfolding sg.entry_target_def by (rule look_account)

lemma multisign_granted:
  assumes "fair_runtime rt" "quiet (w_ruler w)" "w_fetcher w = f"
    and "Multisign (dirk_signer C) rt creds names keys data w = (Ret (results, sigs), w')"
    and "j < length data" "results ! j = ResultSucceeded"
  shows "\<exists>gs g. sigs = Some gs \<and> gs ! j = Some g \<and>
       (\<forall>d. data ! j = Some d \<longrightarrow> generic_domain_ok C creds d) \<and>
       granted C f creds ActionSign (if j < length names then names ! j else []) (if j < length keys then keys ! j else None)
         (generic_root (cf_ssz C) (the (data ! j))) g"
proof -
  from go_tripleD_Ret [OF sg.Multisign_triple [OF assms(1)] start [OF assms(2,3)] assms(4)] assms(5,6)
  obtain w a gs g where "sg.entry_target names keys j = Some (w, a)" "sg.allowed creds ActionSign w a"
    "approvable creds ActionSign (rules_data_of (sg_lib (dirk_signer C)) w a (AnySignData (data ! j)))"
    "sigs = Some gs" "gs ! j = Some g" "sg.signed_by a (generic_root (sg_ssz (dirk_signer C)) (the (data ! j))) g"
    by auto
  then show ?thesis using target_account signed_signature
    by (auto simp: granted_def allowed_permitted signer_parts dest: approvable_domain)
qed

lemma attestations_granted:
  assumes "fair_runtime rt" "\<forall>d \<in> set data. att_in_range d" "quiet (w_ruler w)" "w_fetcher w = f"
    and "SignBeaconAttestations (dirk_signer C) rt creds names keys data w = (Ret (results, sigs), w')"
    and "j < length data" "results ! j = ResultSucceeded"
  shows "\<exists>gs g. sigs = Some gs \<and> gs ! j = Some g \<and>
       granted C f creds ActionSignBeaconAttestation (if j < length names then names ! j else []) (if j < length keys then keys ! j else None)
         (attestation_root (cf_ssz C) (the (data ! j))) g"
proof -
  from go_tripleD_Ret [OF sg.SignBeaconAttestations_triple [OF assms(1,2)] start [OF assms(3,4)] assms(5)] assms(6,7)
  obtain w a gs g where "sg.entry_target names keys j = Some (w, a)" "sg.allowed creds ActionSignBeaconAttestation w a"
    "sigs = Some gs" "gs ! j = Some g" "sg.signed_by a (attestation_root (sg_ssz (dirk_signer C)) (the (data ! j))) g"
    by auto
  then show ?thesis using target_account signed_signature
    by (auto simp: granted_def allowed_permitted signer_parts)
qed

end

section \<open>What a client sees\<close>

context dirk_client
begin

lemma accounts_listed:
  assumes "quiet (w_ruler w)" and "w_fetcher w = f"
  shows "\<exists>w'. ListAccounts (cf_regexp C) (dirk_manager C generate) rt (Some c) paths w =
    (Ret (ResultSucceeded, Some (concat (map (path_accounts (cf_regexp C) (dirk_manager C generate)
       (FetchWallet (cf_wallets C) f) (FetchAccounts (cf_wallets C) f) (Some c)) paths))), w') \<and> quiet (w_ruler w') \<and> w_fetcher w' = f"
  using ls.ListAccounts_spec [of w paths] assms by blast

end

text \<open>The accounts that one path of a listing denotes: those of its wallet that match and that the client may access.\<close>

definition listable ::
  "('db, 'v, 'wal, 'acc, 're) config \<Rightarrow> ('wal, 'acc) fetcher \<Rightarrow> credentials \<Rightarrow> string \<Rightarrow> 'acc \<Rightarrow> bool" where
  "listable C f c path a \<longleftrightarrow> (\<exists>wn an w as n. WalletAndAccountNames (cf_wallets C) path = Inr (wn, an) \<and> wn \<noteq> [] \<and>
     FetchWallet (cf_wallets C) f path = Inr w \<and> FetchAccounts (cf_wallets C) f (wal_Name (cf_wallets C) w) = Inr as \<and>
     (n, a) \<in> set as \<and> permitted C (Some c) ActionAccessAccount w a \<and> acc_is_pubkey_provider (cf_wallets C) a \<and>
     (an = [] \<or> (\<exists>r. re_Compile (cf_regexp C) (anchor an) = Inr r \<and>
        re_MatchString (cf_regexp C) r (acc_Name (cf_wallets C) a))))"

lemma manager_parts:
  "WalletAndAccountNames (mg_lib (dirk_manager C g)) = WalletAndAccountNames (cf_wallets C)"
  "wal_Name (mg_lib (dirk_manager C g)) = wal_Name (cf_wallets C)" "acc_Name (mg_lib (dirk_manager C g)) = acc_Name (cf_wallets C)"
  "acc_is_pubkey_provider (mg_lib (dirk_manager C g)) = acc_is_pubkey_provider (cf_wallets C)"
  "mg_Check (dirk_manager C g) = Check (cf_regexp C) (WalletAndAccountNames (cf_wallets C)) (cf_access C)"
  by (simp_all add: dirk_manager_def world_lib_def lift_lib_def)

lemma path_accounts_listable:
  "a \<in> set (path_accounts (cf_regexp C) (dirk_manager C g) (FetchWallet (cf_wallets C) f) (FetchAccounts (cf_wallets C) f) (Some c) path) \<longleftrightarrow>
     listable C f c path a"
proof (cases "WalletAndAccountNames (cf_wallets C) path")
  case (Inr wa)
  obtain wn an where names: "WalletAndAccountNames (cf_wallets C) path = Inr (wn, an)" using Inr by (cases wa) simp
  show ?thesis
  proof (cases "FetchWallet (cf_wallets C) f path")
    case w: (Inr w)
    show ?thesis
      by (cases "FetchAccounts (cf_wallets C) f (wal_Name (cf_wallets C) w)")
        (auto simp: path_accounts_def listable_def permitted_def visible_def manager_parts names w image_iff Bex_def)
  qed (simp add: path_accounts_def listable_def manager_parts names)
qed (simp add: path_accounts_def listable_def manager_parts)

end
