(* ===== verification/Interchange.thy ===== *)
theory Interchange
  imports Rules_Safety Scatter
begin

text \<open>
  Moving the slashing-protection database: the export and import of the rules service
  (\<open>rules/standard/slashingprotection.go\<close>) and the commands that read and write the interchange
  file (\<open>slashingprotection.go\<close>). A Go map is an association list; ranging over it visits the
  entries in an order that the runtime picks. The JSON package and the file system are parameters.
\<close>

text \<open>\<open>fmt.Sprintf("%x", b)\<close> for a single byte.\<close>

definition sprint_hex_byte :: "byte \<Rightarrow> string" where
  "sprint_hex_byte b =
     (if unat b < 16 then [hex_digit (unat b)] else [hex_digit (unat b div 16), hex_digit (unat b mod 16)])"

section \<open>Export\<close>

definition no_protection :: "bytes \<Rightarrow> slashing_protection" where
  "no_protection pubKey = \<lparr>sp_PubKey = pubKey, sp_HighestProposedSlot = -1,
     sp_HighestAttestedSourceEpoch = -1, sp_HighestAttestedTargetEpoch = -1\<rparr>"

definition export_entry ::
  "rules_lib \<Rightarrow> bytes \<times> bytes \<Rightarrow> (bytes \<times> slashing_protection) list \<Rightarrow> err + (bytes \<times> slashing_protection) list" where
  "export_entry L = (\<lambda>(key, value) results.
     (let pubKey = copyN 48 key;
          results = (if map_of results pubKey = None then AList.update pubKey (no_protection pubKey) results else results);
          entry = the (map_of results pubKey) in
      if key ! 48 = actionSignBeaconAttestation ! 0 then
        (case Decode_att L value \<lparr>SourceEpoch = 0, TargetEpoch = 0\<rparr> of
           Inl e \<Rightarrow> Inl (wrap_err (''failed to decode attestation state for '' @ sprint_hex0x key @ '' ('' @ sprint_hex value @ '')'') e)
         | Inr state \<Rightarrow> Inr (AList.update pubKey
             (entry\<lparr>sp_HighestAttestedSourceEpoch := SourceEpoch state, sp_HighestAttestedTargetEpoch := TargetEpoch state\<rparr>) results))
      else if key ! 48 = actionSignBeaconProposal ! 0 then
        (case Decode_prop L value \<lparr>PropSlot = 0\<rparr> of
           Inl e \<Rightarrow> Inl (wrap_err ''failed to decode proposal state'' e)
         | Inr state \<Rightarrow> Inr (AList.update pubKey (entry\<lparr>sp_HighestProposedSlot := PropSlot state\<rparr>) results))
      else Inl (''unknown byte '' @ sprint_hex_byte (key ! 48))))"

fun export_entries ::
  "rules_lib \<Rightarrow> (bytes \<times> bytes) list \<Rightarrow> (bytes \<times> slashing_protection) list \<Rightarrow> err + (bytes \<times> slashing_protection) list" where
  "export_entries L [] results = Inr results"
| "export_entries L (kv # kvs) results =
     (case export_entry L kv results of Inl e \<Rightarrow> Inl e | Inr results' \<Rightarrow> export_entries L kvs results')"

definition ExportSlashingProtection ::
  "'db rules_service \<Rightarrow> go_runtime \<Rightarrow> ('db, err + (bytes \<times> slashing_protection) list) op" where
  "ExportSlashingProtection S rt =
     go_bind (FetchAll (rules_store S)) (\<lambda>r.
       case r of
         Inl e \<Rightarrow> go_return (Inl (wrap_err ''failed to obtain data from store'' e))
       | Inr entries \<Rightarrow> go_return (export_entries (rules_lib S) (map_range rt entries) []))"

section \<open>Import\<close>

definition import_entry :: "'db rules_service \<Rightarrow> bytes \<Rightarrow> slashing_protection \<Rightarrow> ('db, err option) op" where
  "import_entry S k v =
     go_bind (if sp_HighestProposedSlot v \<noteq> -1
              then Store (rules_store S) ((copyN 49 k)[48 := actionSignBeaconProposal ! 0])
                     (Encode_prop (Some \<lparr>PropSlot = sp_HighestProposedSlot v\<rparr>))
              else go_return None) (\<lambda>e1.
       case e1 of
         Some e \<Rightarrow> go_return (Some (wrap_err ''failed to store attestation state'' e))
       | None \<Rightarrow>
           if sp_HighestAttestedSourceEpoch v \<noteq> -1 then
             go_bind (Store (rules_store S) ((copyN 49 k)[48 := actionSignBeaconAttestation ! 0])
                        (Encode_att (Some \<lparr>SourceEpoch = sp_HighestAttestedSourceEpoch v,
                                           TargetEpoch = sp_HighestAttestedTargetEpoch v\<rparr>))) (\<lambda>e2.
               go_return (map_option (wrap_err ''failed to store attestation state'') e2))
           else go_return None)"

fun import_entries :: "'db rules_service \<Rightarrow> (bytes \<times> slashing_protection) list \<Rightarrow> ('db, err option) op" where
  "import_entries S [] = go_return None"
| "import_entries S ((k, v) # ps) =
     go_bind (import_entry S k v) (\<lambda>e. case e of Some x \<Rightarrow> go_return (Some x) | None \<Rightarrow> import_entries S ps)"

definition ImportSlashingProtection ::
  "'db rules_service \<Rightarrow> go_runtime \<Rightarrow> (bytes \<times> slashing_protection) list \<Rightarrow> ('db, err option) op" where
  "ImportSlashingProtection S rt protection = import_entries S (map_range rt protection)"

section \<open>The interchange file\<close>

record sp_attestation =
  sa_SourceEpoch :: string
  sa_TargetEpoch :: string

record sp_proposal =
  sb_Slot :: string

record sp_data =
  sd_PublicKey :: string
  sd_SignedBlocks :: "sp_proposal option list"
  sd_SignedAttestations :: "sp_attestation option list"

record sp_metadata =
  sm_InterchangeFormatVersion :: string
  sm_GenesisValidatorsRoot :: string

record interchange =
  ic_Metadata :: "sp_metadata option"
  ic_Data :: "sp_data option list"

definition export_data :: "slashing_protection \<Rightarrow> sp_data" where
  "export_data v = \<lparr>
     sd_PublicKey = sprint_hex0x (sp_PubKey v),
     sd_SignedBlocks = (if sp_HighestProposedSlot v \<noteq> -1
        then [Some \<lparr>sb_Slot = sprint_int (sint (sp_HighestProposedSlot v))\<rparr>] else []),
     sd_SignedAttestations = (if sp_HighestAttestedSourceEpoch v \<noteq> -1
        then [Some \<lparr>sa_SourceEpoch = sprint_int (sint (sp_HighestAttestedSourceEpoch v)),
                    sa_TargetEpoch = sprint_int (sint (sp_HighestAttestedTargetEpoch v))\<rparr>] else [])\<rparr>"

text \<open>\<open>root\<close> is \<open>viper.GetString("genesis-validators-root")\<close>, \<open>rules\<close> the outcome of \<open>initRules\<close>.\<close>

definition fetchSlashingProtection ::
  "go_runtime \<Rightarrow> string \<Rightarrow> err + 'db rules_service \<Rightarrow> ('db, err + interchange) op" where
  "fetchSlashingProtection rt root rules =
     (if root = [] then go_return (Inl ''genesis-validators-root is required for export'')
      else case DecodeString (TrimPrefix root ''0x'') of
             Inl e \<Rightarrow> go_return (Inl (wrap_err ''genesis-validators-root is invalid'' e))
           | Inr genesisValidatorsRoot \<Rightarrow>
               if length genesisValidatorsRoot \<noteq> 32 then go_return (Inl ''genesis-validators-root must be 32 bytes'')
               else case rules of
                      Inl e \<Rightarrow> go_return (Inl (wrap_err ''failed to set up rules'' e))
                    | Inr rulesSvc \<Rightarrow>
                        go_bind (ExportSlashingProtection rulesSvc rt) (\<lambda>p.
                          case p of
                            Inl e \<Rightarrow> go_return (Inl (wrap_err ''failed to obtain slashing protection'' e))
                          | Inr protection \<Rightarrow> go_return (Inr \<lparr>
                              ic_Metadata = Some \<lparr>sm_InterchangeFormatVersion = ''5'',
                                sm_GenesisValidatorsRoot = sprint_hex0x genesisValidatorsRoot\<rparr>,
                              ic_Data = map (\<lambda>(_, v). Some (export_data v)) (map_range rt protection)\<rparr>)))"

section \<open>Reading a file\<close>

text \<open>The highest epochs and slot over the entries of one key; a nil entry panics.\<close>

fun highest_attestations ::
  "sp_attestation option list \<Rightarrow> slashing_protection \<Rightarrow> (err + slashing_protection) go" where
  "highest_attestations [] kp = Ret (Inr kp)"
| "highest_attestations (None # as) kp = Panic nil_deref"
| "highest_attestations (Some a # as) kp =
     (case ParseInt64 (sa_SourceEpoch a) of
        Inl e \<Rightarrow> Ret (Inl (wrap_err ''invalid attestation source epoch'' e))
      | Inr sourceEpoch \<Rightarrow>
          let kp = (if sint (sp_HighestAttestedSourceEpoch kp) < sint sourceEpoch
                    then kp\<lparr>sp_HighestAttestedSourceEpoch := sourceEpoch\<rparr> else kp) in
          (case ParseInt64 (sa_TargetEpoch a) of
             Inl e \<Rightarrow> Ret (Inl (wrap_err ''invalid attestation target epoch'' e))
           | Inr targetEpoch \<Rightarrow>
               highest_attestations as
                 (if sint (sp_HighestAttestedTargetEpoch kp) < sint targetEpoch
                  then kp\<lparr>sp_HighestAttestedTargetEpoch := targetEpoch\<rparr> else kp)))"

fun highest_proposals ::
  "sp_proposal option list \<Rightarrow> slashing_protection \<Rightarrow> (err + slashing_protection) go" where
  "highest_proposals [] kp = Ret (Inr kp)"
| "highest_proposals (None # ps) kp = Panic nil_deref"
| "highest_proposals (Some p # ps) kp =
     (case ParseInt64 (sb_Slot p) of
        Inl e \<Rightarrow> Ret (Inl (wrap_err ''invalid proposal slot'' e))
      | Inr slot \<Rightarrow>
          highest_proposals ps
            (if sint (sp_HighestProposedSlot kp) < sint slot then kp\<lparr>sp_HighestProposedSlot := slot\<rparr> else kp))"

text \<open>An imported protection is only taken when it is nowhere below the existing one.\<close>

definition newer :: "slashing_protection \<Rightarrow> slashing_protection \<Rightarrow> bool" where
  "newer existing kp \<longleftrightarrow>
     sint (sp_HighestAttestedSourceEpoch existing) \<le> sint (sp_HighestAttestedSourceEpoch kp) \<and>
     sint (sp_HighestAttestedTargetEpoch existing) \<le> sint (sp_HighestAttestedTargetEpoch kp) \<and>
     sint (sp_HighestProposedSlot existing) \<le> sint (sp_HighestProposedSlot kp)"

text \<open>\<open>keyProtection\<close> leaves the field \<open>PubKey\<close> nil.\<close>

definition key_protection :: "sp_data option \<Rightarrow> (err + bytes \<times> slashing_protection) go" where
  "key_protection d =
     (case d of
        None \<Rightarrow> Panic nil_deref
      | Some data \<Rightarrow>
          (case DecodeString (TrimPrefix (sd_PublicKey data) ''0x'') of
             Inl e \<Rightarrow> Ret (Inl (wrap_err ''failed to decode public key'' e))
           | Inr bs \<Rightarrow>
               (case highest_attestations (sd_SignedAttestations data) (no_protection []) of
                  Ret (Inr kp) \<Rightarrow>
                    (case highest_proposals (sd_SignedBlocks data) kp of
                       Ret (Inr kp') \<Rightarrow> Ret (Inr (copyN 48 bs, kp'))
                     | Ret (Inl e) \<Rightarrow> Ret (Inl e) | Panic e \<Rightarrow> Panic e | Block \<Rightarrow> Block)
                | Ret (Inl e) \<Rightarrow> Ret (Inl e) | Panic e \<Rightarrow> Panic e | Block \<Rightarrow> Block)))"

fun build_protection ::
  "(bytes \<times> slashing_protection) list \<Rightarrow> sp_data option list \<Rightarrow> (bytes \<times> slashing_protection) list \<Rightarrow>
     (err + (bytes \<times> slashing_protection) list) go" where
  "build_protection existing [] m = Ret (Inr m)"
| "build_protection existing (d # ds) m =
     (case key_protection d of
        Ret (Inr (key, kp)) \<Rightarrow>
          build_protection existing ds
            (case map_of existing key of
               Some ekp \<Rightarrow> if newer ekp kp then AList.update key kp m else m
             | None \<Rightarrow> AList.update key kp m)
      | Ret (Inl e) \<Rightarrow> Ret (Inl e) | Panic e \<Rightarrow> Panic e | Block \<Rightarrow> Block)"

definition check_metadata :: "string \<Rightarrow> interchange option \<Rightarrow> err option" where
  "check_metadata root protection =
     (case protection of
        None \<Rightarrow> Some ''slashing protection missing''
      | Some p \<Rightarrow>
          (case ic_Metadata p of
             None \<Rightarrow> Some ''no metadata in file''
           | Some m \<Rightarrow>
               if sm_InterchangeFormatVersion m \<noteq> ''5''
               then Some (''interchange format incorrect; expected 5, found '' @ sm_InterchangeFormatVersion m)
               else if root = [] then Some ''genesis-validators-root is required for import''
               else case DecodeString (TrimPrefix root ''0x'') of
                      Inl e \<Rightarrow> Some (wrap_err ''genesis-validators-root is invalid'' e)
                    | Inr genesisValidatorsRoot \<Rightarrow>
                        if length genesisValidatorsRoot \<noteq> 32 then Some ''genesis-validators-root must be 32 bytes''
                        else if root \<noteq> sm_GenesisValidatorsRoot m
                        then Some (''genesis validators root incorrect; expected '' @ root @ '', found '' @ sm_GenesisValidatorsRoot m)
                        else None))"

definition storeSlashingProtection ::
  "go_runtime \<Rightarrow> string \<Rightarrow> err + 'db rules_service \<Rightarrow> interchange option \<Rightarrow> ('db, err option) op" where
  "storeSlashingProtection rt root rules protection =
     (case check_metadata root protection of
        Some e \<Rightarrow> go_return (Some e)
      | None \<Rightarrow>
          (case rules of
             Inl e \<Rightarrow> go_return (Some (wrap_err ''failed to set up rules'' e))
           | Inr rulesSvc \<Rightarrow>
               go_bind (ExportSlashingProtection rulesSvc rt) (\<lambda>x.
                 case x of
                   Inl e \<Rightarrow> go_return (Some (wrap_err ''failed to obtain existing protection'' e))
                 | Inr existingProtection \<Rightarrow>
                     go_bind (go_lift (build_protection existingProtection (ic_Data (the protection)) [])) (\<lambda>b.
                       case b of
                         Inl e \<Rightarrow> go_return (Some e)
                       | Inr protectionMap \<Rightarrow>
                           go_bind (ImportSlashingProtection rulesSvc rt protectionMap) (\<lambda>e.
                             go_return (map_option (wrap_err ''failed to obtain slashing protection'') e))))))"

section \<open>The commands\<close>

text \<open>\<open>file\<close> is \<open>viper.GetString("slashing-protection-file")\<close>; the result is the exit status and what
  went to the standard output.\<close>

record 'fs os_lib =
  json_Marshal :: "interchange \<Rightarrow> err + bytes"
  json_Unmarshal :: "bytes \<Rightarrow> err + interchange"
  os_ReadFile :: "'fs \<Rightarrow> string \<Rightarrow> err + bytes"
  os_WriteFile :: "'fs \<Rightarrow> string \<Rightarrow> bytes \<Rightarrow> err option \<times> 'fs"

definition exportSlashingProtection ::
  "'fs os_lib \<Rightarrow> go_runtime \<Rightarrow> string \<Rightarrow> string \<Rightarrow> err + 'db rules_service \<Rightarrow> ('db \<times> 'fs, int \<times> bytes option) op" where
  "exportSlashingProtection O' rt root file rules =
     go_bind (go_on_fst (fetchSlashingProtection rt root rules)) (\<lambda>p.
       case p of
         Inl e \<Rightarrow> go_return (1, None)
       | Inr protection \<Rightarrow>
           (case json_Marshal O' protection of
              Inl e \<Rightarrow> go_return (1, None)
            | Inr data \<Rightarrow>
                if file \<noteq> [] then
                  (\<lambda>(db, fs). case os_WriteFile O' fs file data of
                     (Some e, fs') \<Rightarrow> (Ret (1, None), (db, fs')) | (None, fs') \<Rightarrow> (Ret (0, None), (db, fs')))
                else go_return (0, Some data)))"

definition importSlashingProtection ::
  "'fs os_lib \<Rightarrow> go_runtime \<Rightarrow> string \<Rightarrow> string \<Rightarrow> err + 'db rules_service \<Rightarrow> ('db \<times> 'fs, int) op" where
  "importSlashingProtection O' rt root file rules =
     (if file = [] then go_return 1
      else (\<lambda>(db, fs).
        (case os_ReadFile O' fs file of
           Inl e \<Rightarrow> go_return 1
         | Inr data \<Rightarrow>
             (case json_Unmarshal O' data of
                Inl e \<Rightarrow> go_return 1
              | Inr protection \<Rightarrow>
                  go_bind (go_on_fst (storeSlashingProtection rt root rules (Some protection))) (\<lambda>e.
                    go_return (case e of Some _ \<Rightarrow> 1 | None \<Rightarrow> 0)))) (db, fs)))"

end
