(* ===== verification/Interchange_Safety.thy ===== *)
theory Interchange_Safety
  imports Interchange
begin

text \<open>
  An import never weakens the protection that the database gives, it protects what the file says
  was signed, and an export carries all marks of a database to an empty one.
\<close>

section \<open>Maps and their ranges\<close>

lemma update_fresh: "k \<notin> set (map fst m) \<Longrightarrow> AList.update k v m = m @ [(k, v)]"
  by (induction m) auto

lemma foldl_update_fresh:
  "distinct (map fst (acc @ items)) \<Longrightarrow> foldl (\<lambda>m (k, v). AList.update k v m) acc items = acc @ items"
proof (induction items arbitrary: acc)
  case (Cons x items)
  obtain k v where x: "x = (k, v)" by force
  with Cons.prems have "k \<notin> set (map fst acc)" by auto
  with x Cons.IH [of "acc @ [(k, v)]"] Cons.prems show ?case by (auto simp: update_fresh)
qed simp

section \<open>What an export holds\<close>

definition exported :: "rules_lib \<Rightarrow> kv \<Rightarrow> bytes \<Rightarrow> slashing_protection" where
  "exported L c pk = \<lparr>sp_PubKey = pk,
     sp_HighestProposedSlot = (case c (pk @ actionSignBeaconProposal) of
        None \<Rightarrow> -1 | Some v \<Rightarrow> PropSlot (projr (prop_decode L v))),
     sp_HighestAttestedSourceEpoch = (case c (pk @ actionSignBeaconAttestation) of
        None \<Rightarrow> -1 | Some v \<Rightarrow> SourceEpoch (projr (att_decode L v))),
     sp_HighestAttestedTargetEpoch = (case c (pk @ actionSignBeaconAttestation) of
        None \<Rightarrow> -1 | Some v \<Rightarrow> TargetEpoch (projr (att_decode L v)))\<rparr>"

definition known :: "kv \<Rightarrow> bytes \<Rightarrow> bool" where
  "known c pk \<longleftrightarrow> c (pk @ actionSignBeaconAttestation) \<noteq> None \<or> c (pk @ actionSignBeaconProposal) \<noteq> None"

definition export_of :: "rules_lib \<Rightarrow> kv \<Rightarrow> (bytes \<times> slashing_protection) list \<Rightarrow> bool" where
  "export_of L c results \<longleftrightarrow> distinct (map fst results) \<and>
     (\<forall>pk. map_of results pk = (if length pk = 48 \<and> known c pk then Some (exported L c pk) else None))"

definition tagged :: "kv \<Rightarrow> bool" where
  "tagged c \<longleftrightarrow> (\<forall>k \<in> dom c. length k = 49)"

lemma distinct_update_keys: "distinct (map fst m) \<Longrightarrow> distinct (map fst (AList.update k v m))"
  by (rule distinct_update)

lemma export_entry_step:
  assumes m: "export_of L c results" and new: "c k = None" and len: "length k = 49"
    and run: "export_entry L (k, v) results = Inr results'"
  shows "export_of L (c(k \<mapsto> v)) results'"
proof -
  from len obtain pk b where k: "k = pk @ [b]" and pk: "length pk = 48"
    by (cases k rule: rev_cases) auto
  have cp: "copyN 48 k = pk" and kb: "k ! 48 = b" using pk k by (auto simp: copyN_def nth_append)
  let ?A = "actionSignBeaconAttestation" and ?P = "actionSignBeaconProposal"
  define results1 where "results1 = (if map_of results pk = None then AList.update pk (no_protection pk) results else results)"
  have r1: "distinct (map fst results1)" "map_of results1 = (map_of results)(pk \<mapsto> exported L c pk)"
    using m pk unfolding results1_def export_of_def
    by (auto simp: distinct_update_keys update_conv' fun_eq_iff exported_def known_def no_protection_def split: if_splits)
  have run': "(if b = 2 then
        (case Decode_att L v \<lparr>SourceEpoch = 0, TargetEpoch = 0\<rparr> of Inl e \<Rightarrow> False
         | Inr state \<Rightarrow> results' = AList.update pk ((exported L c pk)\<lparr>sp_HighestAttestedSourceEpoch := SourceEpoch state,
             sp_HighestAttestedTargetEpoch := TargetEpoch state\<rparr>) results1)
      else b = 3 \<and>
        (case Decode_prop L v \<lparr>PropSlot = 0\<rparr> of Inl e \<Rightarrow> False
         | Inr state \<Rightarrow> results' = AList.update pk ((exported L c pk)\<lparr>sp_HighestProposedSlot := PropSlot state\<rparr>) results1))"
    using run r1(2) unfolding export_entry_def prod.case cp kb results1_def [symmetric] Let_def
    by (auto simp: actionSignBeaconAttestation_def actionSignBeaconProposal_def split: if_splits sum.splits)
  show ?thesis
  proof (cases "b = 2")
    case True
    with run' obtain state where st: "att_decode L v = Inr state"
      and res: "results' = AList.update pk ((exported L c pk)\<lparr>sp_HighestAttestedSourceEpoch := SourceEpoch state,
             sp_HighestAttestedTargetEpoch := TargetEpoch state\<rparr>) results1"
      by (auto simp: att_decode_def split: sum.splits)
    have "exported L (c(k \<mapsto> v)) pk = (exported L c pk)\<lparr>sp_HighestAttestedSourceEpoch := SourceEpoch state,
             sp_HighestAttestedTargetEpoch := TargetEpoch state\<rparr>"
      using st True k by (simp add: exported_def actionSignBeaconAttestation_def actionSignBeaconProposal_def)
    moreover have "known (c(k \<mapsto> v)) q = (q = pk \<or> known c q)" "q \<noteq> pk \<Longrightarrow> exported L (c(k \<mapsto> v)) q = exported L c q" for q
      using True k by (auto simp: known_def exported_def actionSignBeaconAttestation_def actionSignBeaconProposal_def)
    ultimately show ?thesis using m pk r1
      unfolding export_of_def res by (auto simp: distinct_update_keys update_conv')
  next
    case False
    with run' obtain state where b: "b = 3" and st: "prop_decode L v = Inr state"
      and res: "results' = AList.update pk ((exported L c pk)\<lparr>sp_HighestProposedSlot := PropSlot state\<rparr>) results1"
      by (auto simp: prop_decode_def split: sum.splits)
    have "exported L (c(k \<mapsto> v)) pk = (exported L c pk)\<lparr>sp_HighestProposedSlot := PropSlot state\<rparr>"
      using st b k by (simp add: exported_def actionSignBeaconAttestation_def actionSignBeaconProposal_def)
    moreover have "known (c(k \<mapsto> v)) q = (q = pk \<or> known c q)" "q \<noteq> pk \<Longrightarrow> exported L (c(k \<mapsto> v)) q = exported L c q" for q
      using b k by (auto simp: known_def exported_def actionSignBeaconAttestation_def actionSignBeaconProposal_def)
    ultimately show ?thesis using m pk r1
      unfolding export_of_def res by (auto simp: distinct_update_keys update_conv')
  qed
qed

lemma export_entries_spec:
  assumes "export_of L c results" and "distinct (map fst kvs)" and "\<forall>(k, v) \<in> set kvs. length k = 49 \<and> c k = None"
    and "export_entries L kvs results = Inr results'"
  shows "export_of L (c ++ map_of kvs) results'"
  using assms
proof (induction kvs arbitrary: c results)
  case (Cons x kvs)
  obtain k v where x: "x = (k, v)" by force
  from Cons.prems(4) obtain r1 where r1: "export_entry L (k, v) results = Inr r1" "export_entries L kvs r1 = Inr results'"
    by (auto simp: x split: sum.splits)
  have one: "export_of L (c(k \<mapsto> v)) r1"
    using export_entry_step [OF Cons.prems(1) _ _ r1(1)] Cons.prems(3) by (auto simp: x)
  have fresh: "\<forall>(k', v') \<in> set kvs. length k' = 49 \<and> (c(k \<mapsto> v)) k' = None"
    using Cons.prems(2,3) by (auto simp: x) force+
  from Cons.prems(2) have "distinct (map fst kvs)" by simp
  from Cons.IH [OF one this fresh r1(2)] have "export_of L (c(k \<mapsto> v) ++ map_of kvs) results'" .
  moreover have "c(k \<mapsto> v) ++ map_of kvs = c ++ map_of ((k, v) # kvs)"
    using Cons.prems(2) by (auto simp: x map_add_def fun_eq_iff map_of_eq_None_iff [THEN iffD2] split: option.splits)
  ultimately show ?case unfolding x by metis
qed (simp add: map_add_def)

text \<open>The database lists every key once, with its committed value.\<close>

locale iterable_rules = standard_rules S contents
  for S :: "'db rules_service" and contents :: "'db \<Rightarrow> bytes \<Rightarrow> bytes option" +
  assumes items: "badger_items (rules_store S) db = Inr kvs \<Longrightarrow> distinct (map fst kvs) \<and> map_of kvs = contents db"
begin

lemma FetchAll_contents:
  assumes run: "FetchAll (rules_store S) db = (Ret (Inr es), db')" and keys: "tagged (contents db)"
  shows "distinct (map fst es)" "map_of es = contents db"
proof -
  from run obtain kvs where kvs: "badger_items (rules_store S) db = Inr kvs"
    and es: "es = foldl (\<lambda>m (k, v). AList.update (copyN 49 k) v m) [] kvs"
    by (auto simp: FetchAll_def split: sum.splits)
  from items [OF kvs] have d: "distinct (map fst kvs)" "map_of kvs = contents db" by auto
  have "\<forall>x \<in> set kvs. length (fst x) = 49"
    using keys d weak_map_of_SomeI by (fastforce simp: tagged_def)
  then have "es = foldl (\<lambda>m (k, v). AList.update k v m) [] kvs"
    unfolding es by (intro foldl_cong) auto
  with foldl_update_fresh [of "[]" kvs] d have "es = kvs" by simp
  with d show "distinct (map fst es)" "map_of es = contents db" by simp_all
qed

lemma ExportSlashingProtection_export:
  assumes fair: "fair_runtime rt" and keys: "tagged (contents db)"
    and run: "ExportSlashingProtection S rt db = (Ret (Inr results), db')"
  shows "export_of (rules_lib S) (contents db) results"
proof -
  from run obtain es where es: "FetchAll (rules_store S) db = (Ret (Inr es), db')"
    and ex: "export_entries (rules_lib S) (map_range rt es) [] = Inr results"
    by (auto simp: ExportSlashingProtection_def go_bind_def go_simps split: prod.splits go.splits sum.splits)
  note F = FetchAll_contents [OF es keys]
  have "export_of (rules_lib S) (Map.empty ++ map_of (map_range rt es)) results"
  proof (rule export_entries_spec [OF _ distinct_map_range [OF fair F(1)] _ ex])
    show "export_of (rules_lib S) Map.empty []" by (simp add: export_of_def known_def)
    show "\<forall>(k, v) \<in> set (map_range rt es). length k = 49 \<and> Map.empty k = None"
      using keys F(2) weak_map_of_SomeI set_map_range [OF fair, of es] by (fastforce simp: tagged_def)
  qed
  then show ?thesis by (simp add: map_of_map_range [OF fair F(1)] F(2))
qed

lemma ExportSlashingProtection_pure: "ExportSlashingProtection S rt db = (r, db') \<Longrightarrow> db' = db"
  by (auto simp: ExportSlashingProtection_def FetchAll_def go_bind_def go_simps split: sum.splits)

end

section \<open>What is taken from a file\<close>

lemma highest_attestations_spec:
  "highest_attestations as kp = Ret (Inr kp') \<Longrightarrow>
     sint (sp_HighestAttestedSourceEpoch kp) \<le> sint (sp_HighestAttestedSourceEpoch kp') \<and>
     sint (sp_HighestAttestedTargetEpoch kp) \<le> sint (sp_HighestAttestedTargetEpoch kp') \<and>
     sp_HighestProposedSlot kp' = sp_HighestProposedSlot kp \<and>
     (\<forall>a \<in> set as. \<exists>s t. ParseInt64 (sa_SourceEpoch (the a)) = Inr s \<and> ParseInt64 (sa_TargetEpoch (the a)) = Inr t \<and>
        sint s \<le> sint (sp_HighestAttestedSourceEpoch kp') \<and> sint t \<le> sint (sp_HighestAttestedTargetEpoch kp'))"
proof (induction as kp rule: highest_attestations.induct)
  case (3 a as kp)
  from 3(2) obtain s t where st: "ParseInt64 (sa_SourceEpoch a) = Inr s" "ParseInt64 (sa_TargetEpoch a) = Inr t"
    by (auto simp: Let_def split: sum.splits)
  from 3(1) [OF st(1) refl st(2)] 3(2) show ?case
    by (auto simp: st Let_def split: if_splits)
qed auto

lemma highest_proposals_spec:
  "highest_proposals ps kp = Ret (Inr kp') \<Longrightarrow>
     sint (sp_HighestProposedSlot kp) \<le> sint (sp_HighestProposedSlot kp') \<and>
     sp_HighestAttestedSourceEpoch kp' = sp_HighestAttestedSourceEpoch kp \<and>
     sp_HighestAttestedTargetEpoch kp' = sp_HighestAttestedTargetEpoch kp \<and>
     (\<forall>p \<in> set ps. \<exists>n. ParseInt64 (sb_Slot (the p)) = Inr n \<and> sint n \<le> sint (sp_HighestProposedSlot kp'))"
proof (induction ps kp rule: highest_proposals.induct)
  case (3 p ps kp)
  from 3(2) obtain n where n: "ParseInt64 (sb_Slot p) = Inr n" by (auto split: sum.splits)
  from 3(1) [OF n] 3(2) show ?case by (auto simp: n split: if_splits)
qed auto

text \<open>The protection of a key is at least that of every message of its entry.\<close>

lemma key_protection_spec:
  assumes "key_protection (Some d) = Ret (Inr (key, kp))"
  shows "length key = 48"
    and "a \<in> set (sd_SignedAttestations d) \<Longrightarrow>
      \<exists>s t. ParseInt64 (sa_SourceEpoch (the a)) = Inr s \<and> ParseInt64 (sa_TargetEpoch (the a)) = Inr t \<and>
        sint s \<le> sint (sp_HighestAttestedSourceEpoch kp) \<and> sint t \<le> sint (sp_HighestAttestedTargetEpoch kp)"
    and "p \<in> set (sd_SignedBlocks d) \<Longrightarrow>
      \<exists>n. ParseInt64 (sb_Slot (the p)) = Inr n \<and> sint n \<le> sint (sp_HighestProposedSlot kp)"
proof -
  from assms obtain kp1 bs where k: "highest_attestations (sd_SignedAttestations d) (no_protection []) = Ret (Inr kp1)"
    "highest_proposals (sd_SignedBlocks d) kp1 = Ret (Inr kp)" "key = copyN 48 bs"
    by (auto simp: key_protection_def split: sum.splits go.splits)
  note A = highest_attestations_spec [OF k(1)] and P = highest_proposals_spec [OF k(2)]
  show "length key = 48" using k(3) by simp
  show "\<exists>s t. ParseInt64 (sa_SourceEpoch (the a)) = Inr s \<and> ParseInt64 (sa_TargetEpoch (the a)) = Inr t \<and>
        sint s \<le> sint (sp_HighestAttestedSourceEpoch kp) \<and> sint t \<le> sint (sp_HighestAttestedTargetEpoch kp)"
    if "a \<in> set (sd_SignedAttestations d)" using A P that by simp
  show "\<exists>n. ParseInt64 (sb_Slot (the p)) = Inr n \<and> sint n \<le> sint (sp_HighestProposedSlot kp)"
    if "p \<in> set (sd_SignedBlocks d)" using P that by simp
qed

definition not_below :: "(bytes \<times> slashing_protection) list \<Rightarrow> bytes \<Rightarrow> slashing_protection \<Rightarrow> bool" where
  "not_below existing key kp \<longleftrightarrow> (\<forall>ekp. map_of existing key = Some ekp \<longrightarrow> newer ekp kp)"

lemma build_protection_sound:
  assumes "build_protection existing ds m = Ret (Inr m')" and "distinct (map fst m)"
    and "\<forall>key kp. map_of m key = Some kp \<longrightarrow> length key = 48 \<and> not_below existing key kp"
  shows "distinct (map fst m') \<and> (\<forall>key kp. map_of m' key = Some kp \<longrightarrow> length key = 48 \<and> not_below existing key kp)"
  using assms
proof (induction ds arbitrary: m)
  case (Cons d ds)
  from Cons.prems(1) obtain key kp where d: "key_protection d = Ret (Inr (key, kp))"
    by (auto split: go.splits sum.splits)
  then obtain data where "d = Some data" by (cases d) (auto simp: key_protection_def)
  with d have len: "length key = 48" using key_protection_spec(1) by blast
  let ?m = "case map_of existing key of Some ekp \<Rightarrow> if newer ekp kp then AList.update key kp m else m
             | None \<Rightarrow> AList.update key kp m"
  have "distinct (map fst ?m)" using Cons.prems(2) by (auto simp: distinct_update_keys split: option.split)
  moreover have "\<forall>key kp. map_of ?m key = Some kp \<longrightarrow> length key = 48 \<and> not_below existing key kp"
    using Cons.prems(3) len by (auto simp: update_conv' not_below_def split: option.splits if_splits)
  moreover have "build_protection existing ds ?m = Ret (Inr m')" using Cons.prems(1) d by simp
  ultimately show ?case using Cons.IH by blast
qed simp

section \<open>What an import writes\<close>

definition written_att :: "slashing_protection \<Rightarrow> bytes option" where
  "written_att v = (if sp_HighestAttestedSourceEpoch v = -1 then None
     else Some (Encode_att (Some \<lparr>SourceEpoch = sp_HighestAttestedSourceEpoch v, TargetEpoch = sp_HighestAttestedTargetEpoch v\<rparr>)))"

definition written_prop :: "slashing_protection \<Rightarrow> bytes option" where
  "written_prop v = (if sp_HighestProposedSlot v = -1 then None
     else Some (Encode_prop (Some \<lparr>PropSlot = sp_HighestProposedSlot v\<rparr>)))"

definition import_one :: "kv \<Rightarrow> bytes \<times> slashing_protection \<Rightarrow> kv" where
  "import_one c = (\<lambda>(pk, v).
     (c ++ (case written_prop v of None \<Rightarrow> Map.empty | Some x \<Rightarrow> [pk @ actionSignBeaconProposal \<mapsto> x]))
        ++ (case written_att v of None \<Rightarrow> Map.empty | Some x \<Rightarrow> [pk @ actionSignBeaconAttestation \<mapsto> x]))"

definition wrote :: "(bytes \<times> slashing_protection) list \<Rightarrow> bytes \<Rightarrow> bytes \<Rightarrow> bool" where
  "wrote ps k x \<longleftrightarrow> (\<exists>(pk, v) \<in> set ps.
     k = pk @ actionSignBeaconAttestation \<and> written_att v = Some x \<or> k = pk @ actionSignBeaconProposal \<and> written_prop v = Some x)"

definition may_write :: "(bytes \<times> slashing_protection) list \<Rightarrow> kv \<Rightarrow> kv \<Rightarrow> bool" where
  "may_write ps c c' \<longleftrightarrow> (\<forall>k. c' k = c k \<or> (\<exists>x. c' k = Some x \<and> wrote ps k x))"

lemma wrote_mono: "wrote ps k x \<Longrightarrow> set ps \<subseteq> set qs \<Longrightarrow> wrote qs k x"
  unfolding wrote_def by blast

lemma may_write_same: "may_write ps c c"
  by (simp add: may_write_def)

lemma may_write_trans:
  assumes "may_write ps c c'" and "may_write ps' c' c''" and "set ps \<subseteq> set qs" and "set ps' \<subseteq> set qs"
  shows "may_write qs c c''"
  unfolding may_write_def
proof
  fix k
  show "c'' k = c k \<or> (\<exists>x. c'' k = Some x \<and> wrote qs k x)"
  proof (cases "c'' k = c' k")
    case True
    with assms(1,3) show ?thesis unfolding may_write_def by (metis wrote_mono)
  next
    case False
    with assms(2,4) show ?thesis unfolding may_write_def by (metis wrote_mono)
  qed
qed

lemma actions_differ [simp]:
  "actionSignBeaconProposal \<noteq> actionSignBeaconAttestation" "actionSignBeaconAttestation \<noteq> actionSignBeaconProposal"
  by (simp_all add: actionSignBeaconProposal_def actionSignBeaconAttestation_def)

lemma import_key: "length k = 48 \<Longrightarrow> (copyN 49 k)[48 := x] = k @ [x]"
  by (simp add: copyN_def list_update_append)

lemma import_keys:
  assumes "length k = 48"
  shows "(copyN 49 k)[48 := actionSignBeaconProposal ! 0] = k @ actionSignBeaconProposal"
    "(copyN 49 k)[48 := actionSignBeaconAttestation ! 0] = k @ actionSignBeaconAttestation"
  using assms by (simp_all add: import_key actionSignBeaconProposal_def actionSignBeaconAttestation_def)

lemma import_one_att:
  "import_one c (pk, v) (q @ actionSignBeaconAttestation) =
     (if q = pk \<and> written_att v \<noteq> None then written_att v else c (q @ actionSignBeaconAttestation))"
  by (auto simp: import_one_def map_add_def split: option.splits)

lemma import_one_prop:
  "import_one c (pk, v) (q @ actionSignBeaconProposal) =
     (if q = pk \<and> written_prop v \<noteq> None then written_prop v else c (q @ actionSignBeaconProposal))"
  by (auto simp: import_one_def map_add_def split: option.splits)

lemma foldl_import:
  assumes "distinct (map fst ps)"
  shows "foldl import_one c ps (q @ actionSignBeaconAttestation) =
      (case map_of ps q of Some v \<Rightarrow> if written_att v \<noteq> None then written_att v else c (q @ actionSignBeaconAttestation)
       | None \<Rightarrow> c (q @ actionSignBeaconAttestation))"
    and "foldl import_one c ps (q @ actionSignBeaconProposal) =
      (case map_of ps q of Some v \<Rightarrow> if written_prop v \<noteq> None then written_prop v else c (q @ actionSignBeaconProposal)
       | None \<Rightarrow> c (q @ actionSignBeaconProposal))"
  using assms
proof (induction ps arbitrary: c)
  case (Cons x ps)
  obtain pk v where x: "x = (pk, v)" by force
  have none: "map_of ps pk = None" if "distinct (map fst (x # ps))"
    using that by (simp add: x map_of_eq_None_iff)
  {
    case 1
    from Cons.IH(1) [of "import_one c x"] none [OF 1] 1 show ?case by (simp add: x import_one_att split: option.split)
  next
    case 2
    from Cons.IH(2) [of "import_one c x"] none [OF 2] 2 show ?case by (simp add: x import_one_prop split: option.split)
  }
qed simp_all

context standard_rules
begin

lemma import_entry_effect:
  assumes len: "length k = 48" and run: "import_entry S k v db = (out, db')"
  shows "(\<exists>e. out = Ret e) \<and> may_write [(k, v)] (contents db) (contents db')"
    and "out = Ret None \<Longrightarrow> contents db' = import_one (contents db) (k, v)"
proof -
  let ?P = "k @ actionSignBeaconProposal" and ?A = "k @ actionSignBeaconAttestation"
  obtain e0 db0 where "Store (rules_store S) ?P (Encode_prop (Some \<lparr>PropSlot = sp_HighestProposedSlot v\<rparr>)) db = (Ret e0, db0)"
    using kv.store_returns by blast
  then obtain e1 db1 where p: "(if sp_HighestProposedSlot v \<noteq> -1
              then Store (rules_store S) ?P (Encode_prop (Some \<lparr>PropSlot = sp_HighestProposedSlot v\<rparr>))
              else go_return None) db = (Ret e1, db1)"
    by (cases "sp_HighestProposedSlot v = -1") (auto simp: go_return_def)
  have mw1: "may_write [(k, v)] (contents db) (contents db1)"
    using p kv.store_any by (fastforce simp: may_write_def wrote_def written_prop_def go_return_def split: if_splits)
  have c1: "contents db1 = contents db ++ (case written_prop v of None \<Rightarrow> Map.empty | Some x \<Rightarrow> [?P \<mapsto> x])" if "e1 = None"
    using p that kv.store_done by (auto simp: written_prop_def go_return_def split: if_splits)
  note run' = run [unfolded import_entry_def import_keys [OF len] go_bind_def p]
  show "(\<exists>e. out = Ret e) \<and> may_write [(k, v)] (contents db) (contents db')"
  proof (cases "e1 = None \<and> sp_HighestAttestedSourceEpoch v \<noteq> -1")
    case True
    obtain e2 db2 where s: "Store (rules_store S) ?A (Encode_att (Some \<lparr>SourceEpoch = sp_HighestAttestedSourceEpoch v,
                                           TargetEpoch = sp_HighestAttestedTargetEpoch v\<rparr>)) db1 = (Ret e2, db2)"
      using kv.store_returns by metis
    with run' True have r: "out = Ret (map_option (wrap_err ''failed to store attestation state'') e2)" "db' = db2"
      by (auto simp: go_bind_def go_simps)
    have "may_write [(k, v)] (contents db1) (contents db2)"
      using kv.store_any [OF s] True by (auto simp: may_write_def wrote_def written_att_def)
    with mw1 r show ?thesis by (auto intro: may_write_trans)
  next
    case False
    with run' have "db' = db1" "\<exists>e. out = Ret e" by (auto simp: go_simps split: option.splits)
    with mw1 show ?thesis by simp
  qed
  show "contents db' = import_one (contents db) (k, v)" if "out = Ret None"
    using run' that c1 kv.store_done [where k = ?A and db = db1]
    by (auto simp: go_simps go_bind_def import_one_def written_att_def split: option.splits if_splits prod.splits go.splits)
qed

lemma import_entries_effect:
  assumes "\<forall>x \<in> set ps. length (fst x) = 48" and "import_entries S ps db = (out, db')"
  shows "(\<exists>e. out = Ret e) \<and> may_write ps (contents db) (contents db') \<and>
    (out = Ret None \<longrightarrow> contents db' = foldl import_one (contents db) ps)"
  using assms
proof (induction ps arbitrary: db)
  case (Cons x ps)
  obtain k v where x: "x = (k, v)" by force
  obtain out1 db1 where one: "import_entry S k v db = (out1, db1)" by force
  from Cons.prems(1) have len: "length k = 48" by (simp add: x)
  note E = import_entry_effect [OF len one]
  from E(1) obtain e where e: "out1 = Ret e" by blast
  show ?case
  proof (cases e)
    case None
    with Cons.prems(2) one e have rest: "import_entries S ps db1 = (out, db')"
      by (simp add: x go_bind_def)
    from Cons.IH [OF _ rest] Cons.prems(1) E None e show ?thesis
      by (auto simp: x intro: may_write_trans)
  next
    case (Some err)
    with Cons.prems(2) one e have "out = Ret (Some err)" "db' = db1"
      by (auto simp: x go_bind_def go_simps)
    with E(1) show ?thesis by (auto simp: x intro: may_write_trans [OF _ may_write_same])
  qed
qed (auto simp: go_simps may_write_same)

end

section \<open>An import keeps the protection there is\<close>

lemma storeSlashingProtection_cases:
  assumes "storeSlashingProtection rt root (Inr S) p db = (out, db')"
    and pure: "\<And>r db'. ExportSlashingProtection S rt db = (r, db') \<Longrightarrow> db' = db"
  obtains (refused) "db' = db" "out \<noteq> Ret None"
  | (imported) existing m out' where "ExportSlashingProtection S rt db = (Ret (Inr existing), db)"
      "build_protection existing (ic_Data (the p)) [] = Ret (Inr m)" "check_metadata root p = None"
      "ImportSlashingProtection S rt m db = (out', db')" "out = Ret None \<longleftrightarrow> out' = Ret None"
proof -
  obtain r db1 where ex: "ExportSlashingProtection S rt db = (r, db1)" by force
  from pure [OF ex] have db1: "db1 = db" .
  note run = assms(1) [unfolded storeSlashingProtection_def]
  show thesis
  proof (cases "check_metadata root p")
    case None
    note run = run [unfolded None option.case sum.case go_bind_def ex db1]
    show thesis
    proof (cases "\<exists>existing m. r = Ret (Inr existing) \<and> build_protection existing (ic_Data (the p)) [] = Ret (Inr m)")
      case True
      then obtain existing m where r: "r = Ret (Inr existing)" "build_protection existing (ic_Data (the p)) [] = Ret (Inr m)" by blast
      obtain out' db2 where im: "ImportSlashingProtection S rt m db = (out', db2)" by force
      from run r im have "db2 = db'" "out = Ret None \<longleftrightarrow> out' = Ret None"
        by (auto simp: go_simps split: go.splits)
      with im ex db1 r show thesis by (intro imported [OF _ r(2) None]) auto
    next
      case False
      with run show thesis
        by (intro refused) (auto simp: go_simps split: go.splits sum.splits)
    qed
  qed (use run refused in \<open>auto simp: go_simps\<close>)
qed

context iterable_rules
begin

lemma newer_covers:
  assumes ex: "export_of (rules_lib S) c existing" and pk: "length pk = 48" and nb: "not_below existing pk v"
  shows "\<And>d st r. c (pk @ actionSignBeaconAttestation) = Some d \<Longrightarrow> att_decode (rules_lib S) d = Inr st \<Longrightarrow> att_covers st r \<Longrightarrow>
      att_covers \<lparr>SourceEpoch = sp_HighestAttestedSourceEpoch v, TargetEpoch = sp_HighestAttestedTargetEpoch v\<rparr> r"
    and "\<And>d st r. c (pk @ actionSignBeaconProposal) = Some d \<Longrightarrow> prop_decode (rules_lib S) d = Inr st \<Longrightarrow> prop_covers st r \<Longrightarrow>
      prop_covers \<lparr>PropSlot = sp_HighestProposedSlot v\<rparr> r"
proof -
  have new: "newer (exported (rules_lib S) c pk) v" if "known c pk"
    using ex nb pk that by (auto simp: export_of_def not_below_def)
  show "att_covers \<lparr>SourceEpoch = sp_HighestAttestedSourceEpoch v, TargetEpoch = sp_HighestAttestedTargetEpoch v\<rparr> r"
    if "c (pk @ actionSignBeaconAttestation) = Some d" "att_decode (rules_lib S) d = Inr st" "att_covers st r" for d st r
    using new that by (cases r) (auto simp: known_def newer_def exported_def att_covers.simps)
  show "prop_covers \<lparr>PropSlot = sp_HighestProposedSlot v\<rparr> r"
    if "c (pk @ actionSignBeaconProposal) = Some d" "prop_decode (rules_lib S) d = Inr st" "prop_covers st r" for d st r
    using new that by (auto simp: known_def newer_def exported_def prop_covers_def)
qed

lemma import_inv:
  assumes ex: "export_of (rules_lib S) (contents db) existing" and mw: "may_write ps (contents db) (contents db')"
    and ps: "\<forall>(pk, v) \<in> set ps. length pk = 48 \<and> not_below existing pk v" and I: "inv al pl db"
  shows "inv al pl db'"
proof -
  have w: "contents db' k = contents db k \<or> (\<exists>pk v x. (pk, v) \<in> set ps \<and> contents db' k = Some x \<and>
       (k = pk @ actionSignBeaconAttestation \<and> written_att v = Some x \<or> k = pk @ actionSignBeaconProposal \<and> written_prop v = Some x))" for k
    using mw by (fastforce simp: may_write_def wrote_def)
  have "att.safe (rules_lib S) (contents db') al"
  proof (rule att.safe_mono)
    show "att.safe (rules_lib S) (contents db) al" using I by (simp add: inv_def)
    fix pk
    from w [of "pk @ actionSignBeaconAttestation"] ps newer_covers(1) [OF ex, of pk]
    show "contents db' (pk @ actionSignBeaconAttestation) = contents db (pk @ actionSignBeaconAttestation) \<or>
       (\<exists>st'. contents db' (pk @ actionSignBeaconAttestation) = Some (Encode_att (Some st')) \<and>
         (\<forall>d st r. contents db (pk @ actionSignBeaconAttestation) = Some d \<longrightarrow> att_decode (rules_lib S) d = Inr st \<longrightarrow>
            att_covers st r \<longrightarrow> att_covers st' r))"
      by (fastforce simp: written_att_def split: if_splits)
  qed
  moreover have "pro.safe (rules_lib S) (contents db') pl"
  proof (rule pro.safe_mono)
    show "pro.safe (rules_lib S) (contents db) pl" using I by (simp add: inv_def)
    fix pk
    from w [of "pk @ actionSignBeaconProposal"] ps newer_covers(2) [OF ex, of pk]
    show "contents db' (pk @ actionSignBeaconProposal) = contents db (pk @ actionSignBeaconProposal) \<or>
       (\<exists>st'. contents db' (pk @ actionSignBeaconProposal) = Some (Encode_prop (Some st')) \<and>
         (\<forall>d st r. contents db (pk @ actionSignBeaconProposal) = Some d \<longrightarrow> prop_decode (rules_lib S) d = Inr st \<longrightarrow>
            prop_covers st r \<longrightarrow> prop_covers st' r))"
      by (fastforce simp: written_prop_def split: if_splits)
  qed
  ultimately show ?thesis by (simp add: inv_def)
qed

lemma storeSlashingProtection_inv:
  assumes fair: "fair_runtime rt" and keys: "tagged (contents db)" and I: "inv al pl db"
    and run: "storeSlashingProtection rt root (Inr S) p db = (out, db')"
  shows "inv al pl db'"
proof (rule storeSlashingProtection_cases [OF run ExportSlashingProtection_pure], assumption, goal_cases)
  case 1
  with I show ?case by simp
next
  case imported: (2 existing m out')
  note ex = ExportSlashingProtection_export [OF fair keys imported(1)]
  from build_protection_sound [OF imported(2)]
  have m: "distinct (map fst m)" "\<forall>key kp. map_of m key = Some kp \<longrightarrow> length key = 48 \<and> not_below existing key kp" by auto
  have ps: "\<forall>(pk, v) \<in> set (map_range rt m). length pk = 48 \<and> not_below existing pk v"
    using m unfolding set_map_range [OF fair] by auto
  have "may_write (map_range rt m) (contents db) (contents db')"
    using import_entries_effect [of "map_range rt m" db] imported(4) ps
    by (fastforce simp: ImportSlashingProtection_def)
  from import_inv [OF ex this ps I] show ?case .
qed

end

section \<open>An import protects what the file says was signed\<close>

lemma build_protection_absent:
  "build_protection existing ds m = Ret (Inr m') \<Longrightarrow> \<forall>d \<in> set ds. \<forall>kp. key_protection d \<noteq> Ret (Inr (key, kp)) \<Longrightarrow>
     map_of m' key = map_of m key"
proof (induction ds arbitrary: m)
  case (Cons d ds)
  from Cons.prems(1) obtain key' kp where d: "key_protection d = Ret (Inr (key', kp))"
    by (auto split: go.splits sum.splits)
  with Cons.prems(2) have "key' \<noteq> key" by auto
  with Cons.IH Cons.prems d show ?case by (auto simp: update_conv' split: option.splits if_splits)
qed simp

lemma build_protection_present:
  "build_protection existing ds m = Ret (Inr m') \<Longrightarrow> not_below existing key kp \<Longrightarrow>
     \<forall>d \<in> set ds. \<forall>kp'. key_protection d = Ret (Inr (key, kp')) \<longrightarrow> kp' = kp \<Longrightarrow>
     map_of m key = Some kp \<or> (\<exists>d \<in> set ds. key_protection d = Ret (Inr (key, kp))) \<Longrightarrow> map_of m' key = Some kp"
proof (induction ds arbitrary: m)
  case (Cons d ds)
  from Cons.prems(1) obtain key' kp' where d: "key_protection d = Ret (Inr (key', kp'))"
    by (auto split: go.splits sum.splits)
  let ?m = "case map_of existing key' of Some ekp \<Rightarrow> if newer ekp kp' then AList.update key' kp' m else m
             | None \<Rightarrow> AList.update key' kp' m"
  have "map_of ?m key = Some kp \<or> (\<exists>d \<in> set ds. key_protection d = Ret (Inr (key, kp)))"
    using Cons.prems(2-4) d by (cases "key' = key") (auto simp: update_conv' not_below_def split: option.split)
  with Cons.IH [of ?m] Cons.prems d show ?case by simp
qed simp

lemma build_protection_total:
  "\<forall>d \<in> set ds. \<exists>key kp. key_protection d = Ret (Inr (key, kp)) \<Longrightarrow> \<exists>m'. build_protection existing ds m = Ret (Inr m')"
  by (induction ds arbitrary: m) fastforce+

context iterable_rules
begin

lemma imported_state:
  assumes fair: "fair_runtime rt" and keys: "tagged (contents db)"
    and run: "storeSlashingProtection rt root (Inr S) p db = (Ret None, db')"
    and d: "d \<in> set (ic_Data (the p))" "key_protection d = Ret (Inr (key, kp))"
    and uniq: "\<forall>d' \<in> set (ic_Data (the p)). \<forall>kp'. key_protection d' = Ret (Inr (key, kp')) \<longrightarrow> kp' = kp"
    and new: "newer (exported (rules_lib S) (contents db) key) kp"
  shows "written_att kp \<noteq> None \<Longrightarrow> contents db' (key @ actionSignBeaconAttestation) = written_att kp"
    and "written_prop kp \<noteq> None \<Longrightarrow> contents db' (key @ actionSignBeaconProposal) = written_prop kp"
proof -
  obtain existing m where ex: "ExportSlashingProtection S rt db = (Ret (Inr existing), db)"
    and b: "build_protection existing (ic_Data (the p)) [] = Ret (Inr m)"
    and im: "ImportSlashingProtection S rt m db = (Ret None, db')"
    by (rule storeSlashingProtection_cases [OF run ExportSlashingProtection_pure]) auto
  from ExportSlashingProtection_export [OF fair keys ex] new
  have nb: "not_below existing key kp" by (auto simp: export_of_def not_below_def)
  from build_protection_sound [OF b]
  have m: "distinct (map fst m)" "\<forall>key kp. map_of m key = Some kp \<longrightarrow> length key = 48" by auto
  have key: "map_of m key = Some kp" using build_protection_present [OF b nb uniq] d by blast
  have len: "\<forall>x \<in> set (map_range rt m). length (fst x) = 48"
    using m unfolding set_map_range [OF fair] by auto
  have c: "contents db' = foldl import_one (contents db) (map_range rt m)"
    using import_entries_effect [OF len] im by (auto simp: ImportSlashingProtection_def)
  note F = foldl_import [OF distinct_map_range [OF fair m(1)], of "contents db" key, unfolded map_of_map_range [OF fair m(1)] key c [symmetric]]
  show "contents db' (key @ actionSignBeaconAttestation) = written_att kp" if "written_att kp \<noteq> None" using F that by simp
  show "contents db' (key @ actionSignBeaconProposal) = written_prop kp" if "written_prop kp \<noteq> None" using F that by simp
qed

text \<open>Every attestation and block of the entry of a key is covered afterwards.\<close>

lemma imported_protected:
  assumes fair: "fair_runtime rt" and keys: "tagged (contents db)"
    and run: "storeSlashingProtection rt root (Inr S) p db = (Ret None, db')"
    and d: "Some data \<in> set (ic_Data (the p))" "key_protection (Some data) = Ret (Inr (key, kp))"
    and uniq: "\<forall>d' \<in> set (ic_Data (the p)). \<forall>kp'. key_protection d' = Ret (Inr (key, kp')) \<longrightarrow> kp' = kp"
    and new: "newer (exported (rules_lib S) (contents db) key) kp"
  shows "Some a \<in> set (sd_SignedAttestations data) \<Longrightarrow> ParseInt64 (sa_SourceEpoch a) = Inr s \<Longrightarrow>
      ParseInt64 (sa_TargetEpoch a) = Inr t \<Longrightarrow> 0 \<le> sint s \<Longrightarrow>
      protected (att_decode (rules_lib S)) actionSignBeaconAttestation att_covers (contents db') [(key, sint s, sint t)]"
    and "Some b \<in> set (sd_SignedBlocks data) \<Longrightarrow> ParseInt64 (sb_Slot b) = Inr n \<Longrightarrow> 0 \<le> sint n \<Longrightarrow>
      protected (prop_decode (rules_lib S)) actionSignBeaconProposal prop_covers (contents db') [(key, sint n)]"
proof -
  note W = imported_state [OF fair keys run d uniq new]
  show "protected (att_decode (rules_lib S)) actionSignBeaconAttestation att_covers (contents db') [(key, sint s, sint t)]"
    if a: "Some a \<in> set (sd_SignedAttestations data)" "ParseInt64 (sa_SourceEpoch a) = Inr s"
      "ParseInt64 (sa_TargetEpoch a) = Inr t" "0 \<le> sint s"
  proof -
    from key_protection_spec(2) [OF d(2) a(1)] a(2,3)
    have le: "sint s \<le> sint (sp_HighestAttestedSourceEpoch kp)" "sint t \<le> sint (sp_HighestAttestedTargetEpoch kp)" by auto
    with a(4) have "sp_HighestAttestedSourceEpoch kp \<noteq> -1" by auto
    with W(1) have "contents db' (key @ actionSignBeaconAttestation) = Some (Encode_att (Some
        \<lparr>SourceEpoch = sp_HighestAttestedSourceEpoch kp, TargetEpoch = sp_HighestAttestedTargetEpoch kp\<rparr>))"
      by (simp add: written_att_def)
    with le show ?thesis by (simp add: protected_def att_decode_def att_covers.simps)
  qed
  show "protected (prop_decode (rules_lib S)) actionSignBeaconProposal prop_covers (contents db') [(key, sint n)]"
    if b: "Some b \<in> set (sd_SignedBlocks data)" "ParseInt64 (sb_Slot b) = Inr n" "0 \<le> sint n"
  proof -
    from key_protection_spec(3) [OF d(2) b(1)] b(2)
    have le: "sint n \<le> sint (sp_HighestProposedSlot kp)" by auto
    with b(3) have "sp_HighestProposedSlot kp \<noteq> -1" by auto
    with W(2) have "contents db' (key @ actionSignBeaconProposal) = Some (Encode_prop (Some \<lparr>PropSlot = sp_HighestProposedSlot kp\<rparr>))"
      by (simp add: written_prop_def)
    with le show ?thesis by (simp add: protected_def prop_decode_def prop_covers_def)
  qed
qed

end

context standard_rules
begin

text \<open>What is covered at one time is respected by every later approval.\<close>

lemma approved_after_attestation:
  assumes "protected (att_decode (rules_lib S)) actionSignBeaconAttestation att_covers (contents db) [(md_PubKey m, r)]"
    and "OnSignBeaconAttestation S (Some m) (Some q) db = (Ret APPROVED, db')" and "att_in_range (Some q)"
  shows "att_follows r (the (att_epochs q))"
  using OnSignBeaconAttestation_effect [OF assms(2,3)] assms(1)
  by (auto simp: fetched_def protected_def intro: att.accept_follows)

lemma approved_after_proposal:
  assumes "protected (prop_decode (rules_lib S)) actionSignBeaconProposal prop_covers (contents db) [(md_PubKey m, n)]"
    and "OnSignBeaconProposal S (Some m) (Some q) db = (Ret APPROVED, db')" and "prop_in_range (Some q)"
  shows "n < uint (pd_Slot q)"
  using OnSignBeaconProposal_effect [OF assms(2,3)] assms(1)
  by (auto simp: fetched_def protected_def intro: pro.accept_follows)

end

section \<open>From one database to another\<close>

definition att_mark :: "rules_lib \<Rightarrow> kv \<Rightarrow> bytes \<Rightarrow> att_state" where
  "att_mark L c pk = (case c (pk @ actionSignBeaconAttestation) of None \<Rightarrow> att_init | Some d \<Rightarrow> projr (att_decode L d))"

definition prop_mark :: "rules_lib \<Rightarrow> kv \<Rightarrow> bytes \<Rightarrow> prop_state" where
  "prop_mark L c pk = (case c (pk @ actionSignBeaconProposal) of None \<Rightarrow> prop_init | Some d \<Rightarrow> projr (prop_decode L d))"

text \<open>No mark has wrapped to a negative number; an unset mark is \<open>-1\<close> throughout.\<close>

definition marks_ok :: "rules_lib \<Rightarrow> kv \<Rightarrow> bool" where
  "marks_ok L c \<longleftrightarrow> (\<forall>pk.
     (c (pk @ actionSignBeaconAttestation) \<noteq> None \<longrightarrow>
        0 \<le> sint (SourceEpoch (att_mark L c pk)) \<and> 0 \<le> sint (TargetEpoch (att_mark L c pk))) \<and>
     (c (pk @ actionSignBeaconProposal) \<noteq> None \<longrightarrow> 0 \<le> sint (PropSlot (prop_mark L c pk))))"

lemma exported_marks:
  "exported L c pk = \<lparr>sp_PubKey = pk, sp_HighestProposedSlot = PropSlot (prop_mark L c pk),
     sp_HighestAttestedSourceEpoch = SourceEpoch (att_mark L c pk),
     sp_HighestAttestedTargetEpoch = TargetEpoch (att_mark L c pk)\<rparr>"
  by (simp add: exported_def att_mark_def prop_mark_def att_init_def prop_init_def split: option.split)

lemma key_protection_export:
  assumes "length pk = 48" and "marks_ok L c"
  shows "key_protection (Some (export_data (exported L c pk))) = Ret (Inr (pk, (exported L c pk)\<lparr>sp_PubKey := []\<rparr>))"
proof -
  have "c (pk @ actionSignBeaconAttestation) = None \<Longrightarrow> att_mark L c pk = \<lparr>SourceEpoch = -1, TargetEpoch = -1\<rparr>"
    "c (pk @ actionSignBeaconProposal) = None \<Longrightarrow> prop_mark L c pk = \<lparr>PropSlot = -1\<rparr>"
    by (simp_all add: att_mark_def prop_mark_def att_init_def prop_init_def)
  moreover have "c (pk @ actionSignBeaconAttestation) \<noteq> None \<Longrightarrow>
        0 \<le> sint (SourceEpoch (att_mark L c pk)) \<and> 0 \<le> sint (TargetEpoch (att_mark L c pk))"
    "c (pk @ actionSignBeaconProposal) \<noteq> None \<Longrightarrow> 0 \<le> sint (PropSlot (prop_mark L c pk))"
    using assms(2) by (simp_all add: marks_ok_def)
  ultimately show ?thesis using assms(1)
    by (cases "c (pk @ actionSignBeaconAttestation) = None"; cases "c (pk @ actionSignBeaconProposal) = None")
      (auto simp: key_protection_def export_data_def exported_marks no_protection_def DecodeString_sprint_hex0x ParseInt64_sprint_int)
qed

text \<open>A database whose calls succeed, from a state on that satisfies \<open>up\<close>.\<close>

definition reliable :: "'db badger \<Rightarrow> ('db \<Rightarrow> bool) \<Rightarrow> bool" where
  "reliable B up \<longleftrightarrow> (\<forall>db. up db \<longrightarrow> (\<exists>kvs. badger_items B db = Inr kvs) \<and>
     (\<forall>k v. \<exists>db'. badger_set B db k v = (None, db') \<and> up db'))"

lemma import_entries_reliable:
  assumes rel: "reliable (rules_store S) up"
  shows "up db \<Longrightarrow> \<exists>db'. import_entries S ps db = (Ret None, db') \<and> up db'"
proof -
  have st: "\<exists>db'. Store (rules_store S) (l[i := x]) y db = (Ret None, db') \<and> up db'"
    if "length l = 49" "y \<noteq> []" "up db" for l i x y db
  proof -
    from rel that(3) obtain db' where "badger_set (rules_store S) db (l[i := x]) y = (None, db')" "up db'"
      unfolding reliable_def by blast
    with that show ?thesis by (auto simp: Store_def)
  qed
  have ne: "Encode_prop y \<noteq> []" "Encode_att z \<noteq> []" for y z by (simp_all add: Encode_prop_def Encode_att_def)
  have one: "\<exists>db'. import_entry S k v db = (Ret None, db') \<and> up db'" if db: "up db" for k v db
  proof -
    obtain db1 where "(if sp_HighestProposedSlot v \<noteq> -1
              then Store (rules_store S) ((copyN 49 k)[48 := actionSignBeaconProposal ! 0])
                     (Encode_prop (Some \<lparr>PropSlot = sp_HighestProposedSlot v\<rparr>))
              else go_return None) db = (Ret None, db1)" and up: "up db1"
      using st [OF length_copyN ne(1) db, of k 48 "actionSignBeaconProposal ! 0" "Some \<lparr>PropSlot = sp_HighestProposedSlot v\<rparr>"] db
      by (cases "sp_HighestProposedSlot v = -1") (auto simp: go_return_def)
    moreover obtain db2 where "Store (rules_store S) ((copyN 49 k)[48 := actionSignBeaconAttestation ! 0])
        (Encode_att (Some \<lparr>SourceEpoch = sp_HighestAttestedSourceEpoch v, TargetEpoch = sp_HighestAttestedTargetEpoch v\<rparr>)) db1 = (Ret None, db2)"
      "up db2"
      using st [OF length_copyN ne(2) up] by blast
    ultimately show ?thesis by (simp add: import_entry_def go_bind_def go_simps)
  qed
  show "up db \<Longrightarrow> \<exists>db'. import_entries S ps db = (Ret None, db') \<and> up db'"
  proof (induction ps arbitrary: db)
    case (Cons x ps)
    obtain k v db1 where "x = (k, v)" "import_entry S k v db = (Ret None, db1)" "up db1"
      using one [OF Cons.prems] by (cases x) blast
    with Cons.IH [of db1] show ?case by (simp add: go_bind_def)
  qed (simp add: go_simps)
qed

lemma written_exported:
  assumes "marks_ok L c"
  shows "written_att ((exported L c pk)\<lparr>sp_PubKey := []\<rparr>) =
      (if c (pk @ actionSignBeaconAttestation) = None then None else Some (Encode_att (Some (att_mark L c pk))))"
    and "written_prop ((exported L c pk)\<lparr>sp_PubKey := []\<rparr>) =
      (if c (pk @ actionSignBeaconProposal) = None then None else Some (Encode_prop (Some (prop_mark L c pk))))"
proof -
  have eta: "\<lparr>SourceEpoch = SourceEpoch st, TargetEpoch = TargetEpoch st\<rparr> = st" "\<lparr>PropSlot = PropSlot ps\<rparr> = ps" for st ps
    by simp_all
  show "written_att ((exported L c pk)\<lparr>sp_PubKey := []\<rparr>) =
      (if c (pk @ actionSignBeaconAttestation) = None then None else Some (Encode_att (Some (att_mark L c pk))))"
  proof (cases "c (pk @ actionSignBeaconAttestation)")
    case (Some d)
    then have "0 \<le> sint (SourceEpoch (att_mark L c pk))" using assms by (auto simp: marks_ok_def)
    then have "SourceEpoch (att_mark L c pk) \<noteq> -1" by auto
    with Some show ?thesis by (simp add: written_att_def exported_marks eta)
  qed (simp add: written_att_def exported_marks att_mark_def att_init_def)
  show "written_prop ((exported L c pk)\<lparr>sp_PubKey := []\<rparr>) =
      (if c (pk @ actionSignBeaconProposal) = None then None else Some (Encode_prop (Some (prop_mark L c pk))))"
  proof (cases "c (pk @ actionSignBeaconProposal)")
    case (Some d)
    then have "0 \<le> sint (PropSlot (prop_mark L c pk))" using assms by (auto simp: marks_ok_def)
    then have "PropSlot (prop_mark L c pk) \<noteq> -1" by auto
    with Some show ?thesis by (simp add: written_prop_def exported_marks eta)
  qed (simp add: written_prop_def exported_marks prop_mark_def prop_init_def)
qed

text \<open>What a file exported from a database brings into an empty one.\<close>

lemma build_exported:
  assumes p: "export_of L c p" and ok: "marks_ok L c" and rt: "fair_runtime rt"
  defines "ds \<equiv> map (\<lambda>(_, v). Some (export_data v)) (map_range rt p)"
  shows "\<exists>m. build_protection [] ds [] = Ret (Inr m) \<and>
    (\<forall>pk. map_of m pk = (if length pk = 48 \<and> known c pk then Some ((exported L c pk)\<lparr>sp_PubKey := []\<rparr>) else None))"
proof -
  have kv: "length k = 48 \<and> known c k \<and> v = exported L c k" if "(k, v) \<in> set p" for k v
    using p map_of_is_SomeI [OF _ that] by (auto simp: export_of_def split: if_splits)
  have kp: "key_protection (Some (export_data v)) = Ret (Inr (k, (exported L c k)\<lparr>sp_PubKey := []\<rparr>))" if "(k, v) \<in> set p" for k v
    using kv [OF that] key_protection_export [OF _ ok] by blast
  have ds: "set ds = {Some (export_data v) | k v. (k, v) \<in> set p}"
    unfolding ds_def set_map set_map_range [OF rt] by force
  have "\<forall>d \<in> set ds. \<exists>key kp. key_protection d = Ret (Inr (key, kp))" using kp unfolding ds by blast
  then obtain m where m: "build_protection [] ds [] = Ret (Inr m)" using build_protection_total by blast
  have keys: "\<exists>v. (pk, v) \<in> set p" if "d \<in> set ds" "key_protection d = Ret (Inr (pk, kp'))" for d pk kp'
    using that kp unfolding ds by fastforce
  have vals: "kp' = (exported L c pk)\<lparr>sp_PubKey := []\<rparr>" if "d \<in> set ds" "key_protection d = Ret (Inr (pk, kp'))" for d pk kp'
    using that kp unfolding ds by fastforce
  have "map_of m pk = (if length pk = 48 \<and> known c pk then Some ((exported L c pk)\<lparr>sp_PubKey := []\<rparr>) else None)" for pk
  proof (cases "length pk = 48 \<and> known c pk")
    case True
    with p have "(pk, exported L c pk) \<in> set p" by (auto simp: export_of_def intro: map_of_SomeD)
    with kp ds have "\<exists>d \<in> set ds. key_protection d = Ret (Inr (pk, (exported L c pk)\<lparr>sp_PubKey := []\<rparr>))" by blast
    with build_protection_present [OF m, of pk "(exported L c pk)\<lparr>sp_PubKey := []\<rparr>"] vals True
    show ?thesis by (auto simp: not_below_def)
  next
    case False
    have "key_protection d \<noteq> Ret (Inr (pk, kp'))" if "d \<in> set ds" for d kp'
      using keys [OF that] kv False by blast
    with build_protection_absent [OF m, of pk] False show ?thesis by auto
  qed
  with m show ?thesis by blast
qed

lemma empty_export:
  assumes it: "iterable_rules S c" and fair: "fair_runtime rt" and empty: "c db = Map.empty"
    and rel: "reliable (rules_store S) up" and up: "up db"
  shows "ExportSlashingProtection S rt db = (Ret (Inr []), db)"
proof -
  have "badger_items (rules_store S) db = Inr []"
    using rel up iterable_rules.items [OF it, of db] empty by (fastforce simp: reliable_def)
  then show ?thesis
    by (simp add: ExportSlashingProtection_def FetchAll_def go_bind_def go_simps map_range_def schedule_0 [OF fair])
qed

lemma export_transfers:
  assumes it1: "iterable_rules S1 c1" and it2: "iterable_rules S2 c2"
    and fair: "fair_runtime rt1" "fair_runtime rt2" and keys: "tagged (c1 db1)" and ok: "marks_ok (rules_lib S1) (c1 db1)"
    and empty: "c2 db2 = Map.empty" and rel: "reliable (rules_store S2) up" and up: "up db2"
    and root: "root = sprint_hex0x g" "length g = 32"
    and ex: "fetchSlashingProtection rt1 root (Inr S1) db1 = (Ret (Inr file), db1')"
  shows "\<exists>db2'. storeSlashingProtection rt2 root (Inr S2) (Some file) db2 = (Ret None, db2') \<and>
    (\<forall>pk. length pk = 48 \<longrightarrow> att_mark (rules_lib S2) (c2 db2') pk = att_mark (rules_lib S1) (c1 db1) pk \<and>
       prop_mark (rules_lib S2) (c2 db2') pk = prop_mark (rules_lib S1) (c1 db1) pk)"
proof -
  let ?L1 = "rules_lib S1" and ?c1 = "c1 db1"
  have dec: "DecodeString (TrimPrefix root ''0x'') = Inr g" by (simp add: root DecodeString_sprint_hex0x)
  have ne: "root \<noteq> []" using root by (auto simp: sprint_hex0x_def)
  from ex dec ne obtain p where p: "ExportSlashingProtection S1 rt1 db1 = (Ret (Inr p), db1')"
    and content: "file = \<lparr>ic_Metadata = Some \<lparr>sm_InterchangeFormatVersion = ''5'', sm_GenesisValidatorsRoot = root\<rparr>,
        ic_Data = map (\<lambda>(_, v). Some (export_data v)) (map_range rt1 p)\<rparr>"
    by (auto simp: fetchSlashingProtection_def root go_bind_def go_simps split: prod.splits go.splits sum.splits)
  note exp = iterable_rules.ExportSlashingProtection_export [OF it1 fair(1) keys p]
  obtain m where m: "build_protection [] (ic_Data file) [] = Ret (Inr m)"
    and val: "\<And>pk. map_of m pk = (if length pk = 48 \<and> known ?c1 pk then Some ((exported ?L1 ?c1 pk)\<lparr>sp_PubKey := []\<rparr>) else None)"
    using build_exported [OF exp ok fair(1)] by (auto simp: content)
  note ex2 = empty_export [OF it2 fair(2) empty rel up]
  obtain db2' where im: "import_entries S2 (map_range rt2 m) db2 = (Ret None, db2')"
    using import_entries_reliable [OF rel up] by blast
  have run: "storeSlashingProtection rt2 root (Inr S2) (Some file) db2 = (Ret None, db2')"
    using m im ex2 dec ne root(2)
    by (simp add: storeSlashingProtection_def check_metadata_def content go_bind_def go_simps ImportSlashingProtection_def)
  have dist: "distinct (map fst m)" and len: "\<forall>x \<in> set (map_range rt2 m). length (fst x) = 48"
    using build_protection_sound [OF m] unfolding set_map_range [OF fair(2)] by auto
  have std: "standard_rules S2 c2" using it2 by (rule iterable_rules.axioms)
  have c2: "c2 db2' = foldl import_one Map.empty (map_range rt2 m)"
    using standard_rules.import_entries_effect [OF std len im] empty by simp
  have "att_mark (rules_lib S2) (c2 db2') pk = att_mark ?L1 ?c1 pk \<and> prop_mark (rules_lib S2) (c2 db2') pk = prop_mark ?L1 ?c1 pk"
    if "length pk = 48" for pk
    unfolding att_mark_def [of "rules_lib S2"] prop_mark_def [of "rules_lib S2"] c2
      foldl_import [OF distinct_map_range [OF fair(2) dist]] map_of_map_range [OF fair(2) dist] val
    using that by (auto simp: written_exported [OF ok] att_decode_def prop_decode_def known_def att_mark_def prop_mark_def split: option.splits)
  with run show ?thesis by blast
qed

section \<open>What an import makes of a file\<close>

text \<open>A database in which every entry is a mark that can be read.\<close>

definition readable :: "rules_lib \<Rightarrow> kv \<Rightarrow> bool" where
  "readable L c \<longleftrightarrow> (\<forall>k v. c k = Some v \<longrightarrow> (\<exists>pk. length pk = 48 \<and>
     (k = pk @ actionSignBeaconAttestation \<and> \<not> isl (att_decode L v) \<or> k = pk @ actionSignBeaconProposal \<and> \<not> isl (prop_decode L v))))"

lemma readable_tagged: "readable L c \<Longrightarrow> tagged c"
  by (fastforce simp: readable_def tagged_def actionSignBeaconAttestation_def actionSignBeaconProposal_def)

lemma export_entry_readable:
  assumes "length pk = 48"
    and "k = pk @ actionSignBeaconAttestation \<and> \<not> isl (att_decode L v) \<or> k = pk @ actionSignBeaconProposal \<and> \<not> isl (prop_decode L v)"
  shows "\<exists>results'. export_entry L (k, v) results = Inr results'"
  using assms
  by (auto simp: export_entry_def Let_def nth_append att_decode_def prop_decode_def actionSignBeaconAttestation_def actionSignBeaconProposal_def
      split: sum.splits)

lemma export_entries_readable:
  assumes "\<forall>(k, v) \<in> set kvs. \<forall>results. \<exists>results'. export_entry L (k, v) results = Inr results'"
  shows "\<exists>results'. export_entries L kvs results = Inr results'"
  using assms
proof (induction kvs arbitrary: results)
  case (Cons x kvs)
  obtain k v r where r: "x = (k, v)" "export_entry L (k, v) results = Inr r" using Cons.prems by (cases x) fastforce
  with Cons.IH [of r] Cons.prems show ?case by simp
qed simp

text \<open>The entry of a file that an import takes: nowhere below what the database holds for its key.\<close>

definition accepted :: "rules_lib \<Rightarrow> kv \<Rightarrow> bytes \<Rightarrow> sp_data option \<Rightarrow> slashing_protection \<Rightarrow> bool" where
  "accepted L c key d kp \<longleftrightarrow> key_protection d = Ret (Inr (key, kp)) \<and> (known c key \<longrightarrow> newer (exported L c key) kp)"

lemma key_protection_length: "key_protection d = Ret (Inr (key, kp)) \<Longrightarrow> length key = 48"
  by (auto simp: key_protection_def split: option.splits sum.splits go.splits)

lemma accepted_not_below:
  assumes "export_of L c existing"
  shows "accepted L c key d kp \<longleftrightarrow> key_protection d = Ret (Inr (key, kp)) \<and> not_below existing key kp"
  using assms key_protection_length by (fastforce simp: accepted_def not_below_def export_of_def)

lemma build_protection_dropped:
  "build_protection existing ds m = Ret (Inr m') \<Longrightarrow>
     \<forall>d \<in> set ds. \<forall>kp. key_protection d = Ret (Inr (key, kp)) \<longrightarrow> \<not> not_below existing key kp \<Longrightarrow> map_of m' key = map_of m key"
proof (induction ds arbitrary: m)
  case (Cons d ds)
  from Cons.prems(1) obtain key' kp where d: "key_protection d = Ret (Inr (key', kp))"
    by (auto split: go.splits sum.splits)
  with Cons.IH Cons.prems show ?case by (cases "key' = key") (auto simp: update_conv' not_below_def split: option.splits if_splits)
qed simp

lemma build_protection_last:
  "build_protection existing (ds @ d # ds') m = Ret (Inr m') \<Longrightarrow> key_protection d = Ret (Inr (key, kp)) \<Longrightarrow> not_below existing key kp \<Longrightarrow>
     \<forall>d' \<in> set ds'. \<forall>kp'. key_protection d' = Ret (Inr (key, kp')) \<longrightarrow> \<not> not_below existing key kp' \<Longrightarrow> map_of m' key = Some kp"
proof (induction ds arbitrary: m)
  case Nil
  from build_protection_dropped [of existing ds' _ m' key, OF _ Nil.prems(4)] Nil.prems(1-3)
  show ?case by (auto simp: update_conv' not_below_def split: option.splits)
next
  case (Cons x ds)
  from Cons.prems(1) obtain key' kp' where "key_protection x = Ret (Inr (key', kp'))"
    by (auto split: go.splits sum.splits)
  with Cons show ?case by simp
qed

text \<open>
  On a database whose calls succeed, a file whose entries can all be read is imported: the outcome
  for a key is what was built for it, and other keys keep their marks.
\<close>

lemma import_outcome:
  assumes it: "iterable_rules S c" and fair: "fair_runtime rt" and old: "readable (rules_lib S) (c db)"
    and rel: "reliable (rules_store S) up" and up: "up db"
    and meta: "check_metadata root (Some p) = None" and data: "\<forall>d \<in> set (ic_Data p). \<exists>key kp. key_protection d = Ret (Inr (key, kp))"
  obtains db' existing m where "storeSlashingProtection rt root (Inr S) (Some p) db = (Ret None, db')"
    and "export_of (rules_lib S) (c db) existing" and "build_protection existing (ic_Data p) [] = Ret (Inr m)"
    and "\<And>key. c db' (key @ actionSignBeaconAttestation) = (case Option.bind (map_of m key) written_att of
           None \<Rightarrow> c db (key @ actionSignBeaconAttestation) | Some x \<Rightarrow> Some x)"
    and "\<And>key. c db' (key @ actionSignBeaconProposal) = (case Option.bind (map_of m key) written_prop of
           None \<Rightarrow> c db (key @ actionSignBeaconProposal) | Some x \<Rightarrow> Some x)"
proof -
  note keys = readable_tagged [OF old] and std = iterable_rules.axioms(1) [OF it]
  obtain kvs where kvs: "badger_items (rules_store S) db = Inr kvs" using rel up by (auto simp: reliable_def)
  then obtain es where es: "FetchAll (rules_store S) db = (Ret (Inr es), db)" by (auto simp: FetchAll_def)
  note F = iterable_rules.FetchAll_contents [OF it es keys]
  have "\<exists>r. export_entry (rules_lib S) (k, v) results = Inr r" if "(k, v) \<in> set (map_range rt es)" for k v results
  proof -
    from that F have "c db k = Some v" unfolding set_map_range [OF fair] by (metis map_of_is_SomeI)
    with old export_entry_readable show ?thesis unfolding readable_def by blast
  qed
  then obtain existing where ex: "ExportSlashingProtection S rt db = (Ret (Inr existing), db)"
    using export_entries_readable [of "map_range rt es" "rules_lib S" "[]"] es
    by (fastforce simp: ExportSlashingProtection_def go_bind_def go_simps)
  note exp = iterable_rules.ExportSlashingProtection_export [OF it fair keys ex]
  obtain m where m: "build_protection existing (ic_Data p) [] = Ret (Inr m)" using build_protection_total [OF data] by blast
  obtain db' where im: "import_entries S (map_range rt m) db = (Ret None, db')" using import_entries_reliable [OF rel up] by blast
  have run: "storeSlashingProtection rt root (Inr S) (Some p) db = (Ret None, db')"
    using m im ex meta by (simp add: storeSlashingProtection_def go_bind_def go_simps ImportSlashingProtection_def)
  have dist: "distinct (map fst m)" and len: "\<forall>x \<in> set (map_range rt m). length (fst x) = 48"
    using build_protection_sound [OF m] unfolding set_map_range [OF fair] by auto
  have c': "c db' = foldl import_one (c db) (map_range rt m)" using standard_rules.import_entries_effect [OF std len im] by simp
  note W = foldl_import [OF distinct_map_range [OF fair dist], of "c db", unfolded map_of_map_range [OF fair dist] c' [symmetric]]
  show thesis by (rule that [OF run exp m]) (auto simp: W split: option.split)
qed

text \<open>The last accepted entry of a key is the one that is written, whatever the entries before it say.\<close>

lemma import_last_accepted:
  assumes prems: "iterable_rules S c" "fair_runtime rt" "readable (rules_lib S) (c db)" "reliable (rules_store S) up" "up db"
      "check_metadata root (Some p) = None" "\<forall>d \<in> set (ic_Data p). \<exists>key kp. key_protection d = Ret (Inr (key, kp))"
    and data: "ic_Data p = ds @ d # ds'" and last: "accepted (rules_lib S) (c db) key d kp"
    and later: "\<forall>d' \<in> set ds'. \<forall>kp'. \<not> accepted (rules_lib S) (c db) key d' kp'"
  shows "\<exists>db'. storeSlashingProtection rt root (Inr S) (Some p) db = (Ret None, db') \<and>
    att_mark (rules_lib S) (c db') key = (if sp_HighestAttestedSourceEpoch kp = -1 then att_mark (rules_lib S) (c db) key
      else \<lparr>SourceEpoch = sp_HighestAttestedSourceEpoch kp, TargetEpoch = sp_HighestAttestedTargetEpoch kp\<rparr>) \<and>
    prop_mark (rules_lib S) (c db') key = (if sp_HighestProposedSlot kp = -1 then prop_mark (rules_lib S) (c db) key
      else \<lparr>PropSlot = sp_HighestProposedSlot kp\<rparr>)"
proof (rule import_outcome [OF prems], goal_cases)
  case (1 db' existing m)
  note acc = accepted_not_below [OF 1(2)]
  from build_protection_last [OF 1(3) [unfolded data]] last later have "map_of m key = Some kp" unfolding acc by blast
  with 1(1,4,5) show ?case
    by (auto simp: att_mark_def prop_mark_def written_att_def written_prop_def att_decode_def prop_decode_def)
qed

text \<open>A key none of whose entries is accepted keeps its marks.\<close>

lemma import_none_accepted:
  assumes prems: "iterable_rules S c" "fair_runtime rt" "readable (rules_lib S) (c db)" "reliable (rules_store S) up" "up db"
      "check_metadata root (Some p) = None" "\<forall>d \<in> set (ic_Data p). \<exists>key kp. key_protection d = Ret (Inr (key, kp))"
    and none: "\<forall>d \<in> set (ic_Data p). \<forall>kp. \<not> accepted (rules_lib S) (c db) key d kp"
  shows "\<exists>db'. storeSlashingProtection rt root (Inr S) (Some p) db = (Ret None, db') \<and>
    c db' (key @ actionSignBeaconAttestation) = c db (key @ actionSignBeaconAttestation) \<and>
    c db' (key @ actionSignBeaconProposal) = c db (key @ actionSignBeaconProposal)"
proof (rule import_outcome [OF prems], goal_cases)
  case (1 db' existing m)
  note acc = accepted_not_below [OF 1(2)]
  from build_protection_dropped [OF 1(3), of key] none have "map_of m key = None" unfolding acc by auto
  with 1(1,4,5) show ?case by simp
qed

end
