(* ===== verification/Decisions.thy ===== *)
theory Decisions
  imports Interchange_Safety
begin

text \<open>
  The decisions of the slashing-protection rules on a database whose calls succeed, in full: which
  requests are approved, which are denied, and what the marks are afterwards. The batch rule for
  attestations is shown to decide as the single rule does when it is run on one entry after another.
\<close>

section \<open>Databases that work\<close>

definition dependable :: "'db badger \<Rightarrow> ('db \<Rightarrow> bool) \<Rightarrow> bool" where
  "dependable B up \<longleftrightarrow> (\<forall>db. up db \<longrightarrow>
     (\<forall>k. badger_get B db k = Key_not_found \<or> (\<exists>v. badger_get B db k = Got v)) \<and>
     (\<forall>k v. \<exists>db'. badger_set B db k v = (None, db') \<and> up db') \<and>
     (\<forall>kvs. \<exists>db'. badger_batch B db kvs = (None, db') \<and> up db'))"

text \<open>All stored state can be decoded.\<close>

definition decodable :: "rules_lib \<Rightarrow> kv \<Rightarrow> bool" where
  "decodable L c \<longleftrightarrow> (\<forall>pk d. (c (pk @ actionSignBeaconAttestation) = Some d \<longrightarrow> (\<exists>st. att_decode L d = Inr st)) \<and>
     (c (pk @ actionSignBeaconProposal) = Some d \<longrightarrow> (\<exists>st. prop_decode L d = Inr st)))"

section \<open>The verdicts\<close>

definition att_verdict :: "rules_lib \<Rightarrow> att_state \<Rightarrow> att_data \<Rightarrow> rules_result" where
  "att_verdict L st r = (case att_epochs r of None \<Rightarrow> DENIED | Some (s, t) \<Rightarrow>
     if domain_type (ad_Domain r) = Some (DomainBeaconAttester L) \<and> (s < t \<or> s = 0 \<and> t = 0) \<and>
        sint (SourceEpoch st) \<le> s \<and> sint (TargetEpoch st) < t
     then APPROVED else DENIED)"

definition att_next :: "rules_lib \<Rightarrow> att_state \<Rightarrow> att_data \<Rightarrow> att_state" where
  "att_next L st r = (if att_verdict L st r = APPROVED then att_bump (the (att_epochs r)) else st)"

definition prop_verdict :: "rules_lib \<Rightarrow> prop_state \<Rightarrow> prop_data \<Rightarrow> rules_result" where
  "prop_verdict L st r = (if domain_type (pd_Domain r) = Some (DomainBeaconProposer L) \<and> sint (PropSlot st) < uint (pd_Slot r)
     then APPROVED else DENIED)"

text \<open>Requests with a domain of four bytes or more and both checkpoints, as the API builds them.\<close>

definition att_formed :: "att_data \<Rightarrow> bool" where
  "att_formed r \<longleftrightarrow> domain_type (ad_Domain r) \<noteq> None \<and> att_epochs r \<noteq> None \<and> att_in_range (Some r)"

text \<open>A batch in which every entry is well formed, and what it decides.\<close>

definition entries_formed :: "(req_metadata \<times> att_data) list \<Rightarrow> bool" where
  "entries_formed xs \<longleftrightarrow> xs \<noteq> [] \<and> distinct (map (\<lambda>(m, r). md_PubKey m) xs) \<and> (\<forall>(m, r) \<in> set xs. att_formed r)"

lemma mark_passed: "sint m < uint x \<longleftrightarrow> \<not> (nonneg64 m \<and> x \<le> m)"
  using above_mark [of m x] by (auto simp: nonneg64_sint word_le_def)

lemma mark_reached: "sint m \<le> uint x \<longleftrightarrow> \<not> (nonneg64 m \<and> x < m)"
  using at_mark [of m x] by (auto simp: nonneg64_sint word_less_def)

lemma checks_verdict:
  assumes "att_formed r"
  shows "runSignBeaconAttestationChecks L (Some m) (Some r) st = Ret (att_verdict L st r, att_next L st r)"
proof -
  from assms obtain d src tgt where r: "domain_type (ad_Domain r) = Some d" "ad_Source r = Some src" "ad_Target r = Some tgt"
    by (auto simp: att_formed_def att_epochs_def split: option.splits)
  have ord: "(uint (cp_Epoch src) < uint (cp_Epoch tgt) \<or> uint (cp_Epoch src) = 0 \<and> uint (cp_Epoch tgt) = 0) \<longleftrightarrow>
      \<not> ((cp_Epoch src \<noteq> 0 \<or> cp_Epoch tgt \<noteq> 0) \<and> cp_Epoch tgt \<le> cp_Epoch src)"
    by (auto simp: word_le_def uint_0_iff)
  show ?thesis
    unfolding att_next_def att_verdict_def att_epochs_def r option.case prod.case ord mark_passed mark_reached
    by (cases st) (auto simp: runSignBeaconAttestationChecks_def r att_bump.simps Let_def)
qed

section \<open>Reading the marks\<close>

lemma mark_att_write:
  "att_mark L (c(pk @ actionSignBeaconAttestation \<mapsto> Encode_att (Some st))) = (att_mark L c)(pk := st)"
  "prop_mark L (c(pk @ actionSignBeaconAttestation \<mapsto> Encode_att (Some st))) = prop_mark L c"
  by (auto simp: att_mark_def prop_mark_def att_decode_def fun_eq_iff)

lemma mark_prop_write:
  "prop_mark L (c(pk @ actionSignBeaconProposal \<mapsto> Encode_prop (Some ps))) = (prop_mark L c)(pk := ps)"
  "att_mark L (c(pk @ actionSignBeaconProposal \<mapsto> Encode_prop (Some ps))) = att_mark L c"
  by (auto simp: att_mark_def prop_mark_def prop_decode_def fun_eq_iff)

lemma decodable_write:
  "decodable L c \<Longrightarrow> decodable L (c(pk @ actionSignBeaconAttestation \<mapsto> Encode_att (Some st)))"
  "decodable L c \<Longrightarrow> decodable L (c(pk @ actionSignBeaconProposal \<mapsto> Encode_prop (Some ps)))"
  by (auto simp: decodable_def att_decode_def prop_decode_def)

context standard_rules
begin

lemma fetch_att_works:
  assumes "dependable (rules_store S) up" "up db" "decodable (rules_lib S) (contents db)"
  shows "fetchSignBeaconAttestationState S pk db = (Ret (Inr (att_mark (rules_lib S) (contents db) pk)), db)"
proof -
  let ?k = "pk @ actionSignBeaconAttestation"
  consider "badger_get (rules_store S) db ?k = Key_not_found" | v where "badger_get (rules_store S) db ?k = Got v"
    using assms(1,2) unfolding dependable_def by blast
  then show ?thesis
  proof cases
    case 1
    then show ?thesis using get_missing [OF 1]
      by (simp add: fetchSignBeaconAttestationState_def Fetch_def go_bind_def go_simps att_mark_def att_init_def actionSignBeaconAttestation_def)
  next
    case 2
    with get_value have c: "contents db ?k = Some v" by blast
    with assms(3) obtain st where "att_decode (rules_lib S) v = Inr st" unfolding decodable_def by blast
    with 2 c show ?thesis
      by (simp add: fetchSignBeaconAttestationState_def Fetch_def go_bind_def go_simps att_mark_def att_decode_def actionSignBeaconAttestation_def)
  qed
qed

lemma fetch_prop_works:
  assumes "dependable (rules_store S) up" "up db" "decodable (rules_lib S) (contents db)"
  shows "fetchSignBeaconProposalState S pk db = (Ret (Inr (prop_mark (rules_lib S) (contents db) pk)), db)"
proof -
  let ?k = "pk @ actionSignBeaconProposal"
  consider "badger_get (rules_store S) db ?k = Key_not_found" | v where "badger_get (rules_store S) db ?k = Got v"
    using assms(1,2) unfolding dependable_def by blast
  then show ?thesis
  proof cases
    case 1
    then show ?thesis using get_missing [OF 1]
      by (simp add: fetchSignBeaconProposalState_def Fetch_def go_bind_def go_simps prop_mark_def prop_init_def actionSignBeaconProposal_def)
  next
    case 2
    with get_value have c: "contents db ?k = Some v" by blast
    with assms(3) obtain st where "prop_decode (rules_lib S) v = Inr st" unfolding decodable_def by blast
    with 2 c show ?thesis
      by (simp add: fetchSignBeaconProposalState_def Fetch_def go_bind_def go_simps prop_mark_def prop_decode_def actionSignBeaconProposal_def)
  qed
qed

lemma store_works:
  assumes "dependable (rules_store S) up" "up db" "k \<noteq> []" "v \<noteq> []"
  shows "\<exists>db'. Store (rules_store S) k v db = (Ret None, db') \<and> up db' \<and> contents db' = (contents db)(k \<mapsto> v)"
proof -
  obtain db' where "badger_set (rules_store S) db k v = (None, db')" "up db'"
    using assms(1,2) unfolding dependable_def by blast
  with assms(3,4) set_done [OF this(1)] show ?thesis by (simp add: Store_def)
qed

lemma encoded_nonempty: "Encode_att x \<noteq> []" "Encode_prop y \<noteq> []"
  by (simp_all add: Encode_att_def Encode_prop_def)

lemma attestation_decided:
  fixes m :: req_metadata
  assumes W: "dependable (rules_store S) up" "up db" "decodable (rules_lib S) (contents db)" and r: "att_formed r"
  defines "L \<equiv> rules_lib S"
  defines "v \<equiv> att_verdict L (att_mark L (contents db) (md_PubKey m)) r"
  shows "\<exists>db'. OnSignBeaconAttestation S (Some m) (Some r) db = (Ret v, db') \<and> up db' \<and> decodable L (contents db') \<and>
    att_mark L (contents db') = (att_mark L (contents db))(md_PubKey m := att_next L (att_mark L (contents db) (md_PubKey m)) r) \<and>
    prop_mark L (contents db') = prop_mark L (contents db)"
proof (cases "v = APPROVED")
  case False
  with fetch_att_works [OF W, of "md_PubKey m"] W(2,3) show ?thesis
    by (auto simp: OnSignBeaconAttestation_def go_bind_def go_simps checks_verdict [OF r] v_def L_def att_next_def)
next
  case True
  from r obtain src tgt where cp: "ad_Source r = Some src" "ad_Target r = Some tgt"
    by (auto simp: att_formed_def att_epochs_def split: option.splits)
  have n: "att_next L (att_mark L (contents db) (md_PubKey m)) r = \<lparr>SourceEpoch = cp_Epoch src, TargetEpoch = cp_Epoch tgt\<rparr>"
    using True cp by (simp add: v_def att_next_def att_epochs_def att_bump.simps)
  obtain db' where "Store (rules_store S) (md_PubKey m @ actionSignBeaconAttestation)
      (Encode_att (Some \<lparr>SourceEpoch = cp_Epoch src, TargetEpoch = cp_Epoch tgt\<rparr>)) db = (Ret None, db')" "up db'"
    "contents db' = (contents db)(md_PubKey m @ actionSignBeaconAttestation \<mapsto>
       Encode_att (Some \<lparr>SourceEpoch = cp_Epoch src, TargetEpoch = cp_Epoch tgt\<rparr>))"
    using store_works [OF W(1,2) _ encoded_nonempty(1)] by (metis actionSignBeaconAttestation_def snoc_eq_iff_butlast)
  with True n show ?thesis
    by (simp add: OnSignBeaconAttestation_def go_bind_def go_simps fetch_att_works [OF W] checks_verdict [OF r] cp
        storeSignBeaconAttestationState_def v_def L_def mark_att_write decodable_write(1) [OF W(3)])
qed

lemma proposal_decided:
  fixes m :: req_metadata
  assumes W: "dependable (rules_store S) up" "up db" "decodable (rules_lib S) (contents db)"
    and d: "domain_type (pd_Domain r) \<noteq> None"
  defines "L \<equiv> rules_lib S"
  defines "v \<equiv> prop_verdict L (prop_mark L (contents db) (md_PubKey m)) r"
  shows "\<exists>db'. OnSignBeaconProposal S (Some m) (Some r) db = (Ret v, db') \<and> up db' \<and> decodable L (contents db') \<and>
    prop_mark L (contents db') = (if v = APPROVED then (prop_mark L (contents db))(md_PubKey m := \<lparr>PropSlot = pd_Slot r\<rparr>)
       else prop_mark L (contents db)) \<and>
    att_mark L (contents db') = att_mark L (contents db)"
proof (cases "v = APPROVED")
  case False
  with fetch_prop_works [OF W, of "md_PubKey m"] W(2,3) d show ?thesis
    by (auto simp: OnSignBeaconProposal_def go_bind_def go_simps v_def prop_verdict_def L_def mark_passed split: if_splits)
next
  case True
  obtain db' where "Store (rules_store S) (md_PubKey m @ actionSignBeaconProposal)
      (Encode_prop (Some \<lparr>PropSlot = pd_Slot r\<rparr>)) db = (Ret None, db')" "up db'"
    "contents db' = (contents db)(md_PubKey m @ actionSignBeaconProposal \<mapsto> Encode_prop (Some \<lparr>PropSlot = pd_Slot r\<rparr>))"
    using store_works [OF W(1,2) _ encoded_nonempty(2)] by (metis actionSignBeaconProposal_def snoc_eq_iff_butlast)
  moreover have set_slot: "st\<lparr>PropSlot := x\<rparr> = \<lparr>PropSlot = x\<rparr>" for st :: prop_state and x
    by (cases st) simp
  ultimately show ?thesis using True fetch_prop_works [OF W, of "md_PubKey m"]
    by (auto simp: OnSignBeaconProposal_def go_bind_def go_simps storeSignBeaconProposalState_def v_def prop_verdict_def L_def
        set_slot mark_passed mark_prop_write decodable_write(2) [OF W(3)] split: if_splits)
qed

section \<open>The batch rule against the single rule\<close>

lemma fetch_states_work:
  assumes "dependable (rules_store S) up" "up db" "decodable (rules_lib S) (contents db)"
  shows "fetchSignBeaconAttestationStates S pks db = (Ret (Inr (map (att_mark (rules_lib S) (contents db)) pks)), db)"
  by (induction pks) (simp_all add: go_simps go_bind_def fetch_att_works [OF assms])

lemma all_checks_verdicts:
  "\<forall>(m, r) \<in> set xs. att_formed r \<Longrightarrow>
   run_all_checks L (map (\<lambda>(m, r). Some m) xs) (map (\<lambda>(m, r). Some r) xs) (map (\<lambda>(m, r). f (md_PubKey m)) xs) =
     Ret (map (\<lambda>(m, r). (att_verdict L (f (md_PubKey m)) r, att_next L (f (md_PubKey m)) r)) xs)"
  by (induction xs) (auto simp: checks_verdict)

lemma marks_batch:
  "distinct (map (\<lambda>(m, r). md_PubKey m) xs) \<Longrightarrow>
   att_mark L (c ++ map_of (rev (map (\<lambda>(m, r). (md_PubKey m @ actionSignBeaconAttestation, Encode_att (Some (g m r)))) xs))) =
     foldl (\<lambda>f (m, r). f(md_PubKey m := g m r)) (att_mark L c) xs \<and>
   prop_mark L (c ++ map_of (rev (map (\<lambda>(m, r). (md_PubKey m @ actionSignBeaconAttestation, Encode_att (Some (g m r)))) xs))) = prop_mark L c"
proof (induction xs rule: rev_induct)
  case (snoc x xs)
  obtain m r where x: "x = (m, r)" by force
  have upd: "c ++ map_of ((k, v) # ys) = (c ++ map_of ys)(k \<mapsto> v)" for c :: kv and k v ys by simp
  show ?case using snoc by (simp add: x mark_att_write del: fun_upd_apply)
qed simp

text \<open>What a batch does to the marks, entry after entry.\<close>

definition marks_after :: "(bytes \<Rightarrow> att_state) \<Rightarrow> (req_metadata \<times> att_data) list \<Rightarrow> bytes \<Rightarrow> att_state" where
  "marks_after f xs = foldl (\<lambda>f' (m, r). f'(md_PubKey m := att_next (rules_lib S) (f (md_PubKey m)) r)) f xs"

definition verdicts :: "(bytes \<Rightarrow> att_state) \<Rightarrow> (req_metadata \<times> att_data) list \<Rightarrow> rules_result list" where
  "verdicts f xs = map (\<lambda>(m, r). att_verdict (rules_lib S) (f (md_PubKey m)) r) xs"

lemma batch_decided:
  assumes W: "dependable (rules_store S) up" "up db" "decodable (rules_lib S) (contents db)" and xs: "entries_formed xs"
  shows "\<exists>db'. OnSignBeaconAttestations S (map (\<lambda>(m, r). Some m) xs) (map (\<lambda>(m, r). Some r) xs) db =
      (Ret (verdicts (att_mark (rules_lib S) (contents db)) xs), db') \<and> up db' \<and>
    att_mark (rules_lib S) (contents db') = marks_after (att_mark (rules_lib S) (contents db)) xs \<and>
    prop_mark (rules_lib S) (contents db') = prop_mark (rules_lib S) (contents db)"
proof -
  let ?L = "rules_lib S" and ?f = "att_mark (rules_lib S) (contents db)"
  let ?g = "\<lambda>m r. att_next ?L (?f (md_PubKey m)) r"
  let ?ks = "map (\<lambda>(m, r). md_PubKey m @ actionSignBeaconAttestation) xs"
  let ?vs = "map (\<lambda>(m, r). Encode_att (Some (?g m r))) xs"
  have xs': "xs \<noteq> []" "distinct (map (\<lambda>(m, r). md_PubKey m) xs)" "\<forall>(m, r) \<in> set xs. att_formed r"
    using xs by (auto simp: entries_formed_def)
  have no1: "first_index (\<lambda>md. md = None) (map (\<lambda>(m, r). Some m) xs) = None" by (auto simp: first_index_None)
  have no2: "first_index bad_att_req (map (\<lambda>(m, r). Some r) xs) = None"
    using xs'(3) by (fastforce simp: first_index_None bad_att_req_def att_formed_def att_epochs_def split: option.splits)
  have zip: "zip ?ks ?vs = map (\<lambda>(m, r). (md_PubKey m @ actionSignBeaconAttestation, Encode_att (Some (?g m r)))) xs"
    by (induction xs) auto
  have chk: "check_pairs (map (\<lambda>(m, r). (md_PubKey m @ actionSignBeaconAttestation, Encode_att (Some (h m r)))) ys) = None" for h ys
    by (induction ys) (auto simp: encoded_nonempty actionSignBeaconAttestation_def)
  obtain db' where db': "badger_batch (rules_store S) db (zip ?ks ?vs) = (None, db')" "up db'"
    using W(1,2) unfolding dependable_def by blast
  have c: "contents db' = contents db ++ map_of (rev (zip ?ks ?vs))" using write_batch_done [OF db'(1)] .
  have st: "storeSignBeaconAttestationStates S (map (\<lambda>(m, r). md_PubKey m) xs) (map (\<lambda>(m, r). ?g m r) xs) db = (Ret None, db')"
    using db'(1) xs'(1) chk [of ?g xs] zip
    by (simp add: storeSignBeaconAttestationStates_def BatchStore_def comp_def case_prod_beta')
  have keys: "map (\<lambda>md. md_PubKey (the md)) (map (\<lambda>(m, r). Some m) xs) = map (\<lambda>(m, r). md_PubKey m) xs" by auto
  have sts: "map ?f (map (\<lambda>(m, r). md_PubKey m) xs) = map (\<lambda>(m, r). ?f (md_PubKey m)) xs" by auto
  have "OnSignBeaconAttestations S (map (\<lambda>(m, r). Some m) xs) (map (\<lambda>(m, r). Some r) xs) db = (Ret (verdicts ?f xs), db')"
    unfolding OnSignBeaconAttestations_def Let_def no1 no2 keys
    using st by (simp add: go_bind_def go_simps fetch_states_work [OF W] sts comp_def case_prod_beta' verdicts_def
        all_checks_verdicts [OF xs'(3), of ?L ?f, unfolded case_prod_beta'])
  with db'(2) marks_batch [OF xs'(2), of ?L "contents db" ?g] show ?thesis
    by (simp add: c zip marks_after_def)
qed

end

text \<open>The entries of a batch given to the single rule, one after the other.\<close>

fun one_by_one :: "'db rules_service \<Rightarrow> (req_metadata \<times> att_data) list \<Rightarrow> ('db, rules_result list) op" where
  "one_by_one S [] = go_return []"
| "one_by_one S ((m, r) # xs) =
     go_bind (OnSignBeaconAttestation S (Some m) (Some r)) (\<lambda>v. go_bind (one_by_one S xs) (\<lambda>vs. go_return (v # vs)))"

context standard_rules
begin

lemma marks_after_Cons:
  assumes "md_PubKey m \<notin> (\<lambda>(m, r). md_PubKey m) ` set xs"
  shows "marks_after (f(md_PubKey m := att_next (rules_lib S) (f (md_PubKey m)) r)) xs = marks_after f ((m, r) # xs)"
  unfolding marks_after_def foldl_Cons prod.case
  by (rule foldl_cong) (use assms in force)+

lemma verdicts_Cons:
  assumes "md_PubKey m \<notin> (\<lambda>(m, r). md_PubKey m) ` set xs"
  shows "verdicts (f(md_PubKey m := st)) xs = verdicts f xs"
  unfolding verdicts_def using assms by (intro map_cong) force+

lemma one_by_one_decided:
  assumes dep: "dependable (rules_store S) up"
  shows "up db \<Longrightarrow> decodable (rules_lib S) (contents db) \<Longrightarrow> distinct (map (\<lambda>(m, r). md_PubKey m) xs) \<Longrightarrow>
    \<forall>(m, r) \<in> set xs. att_formed r \<Longrightarrow>
    \<exists>db'. one_by_one S xs db = (Ret (verdicts (att_mark (rules_lib S) (contents db)) xs), db') \<and> up db' \<and>
      att_mark (rules_lib S) (contents db') = marks_after (att_mark (rules_lib S) (contents db)) xs \<and>
      prop_mark (rules_lib S) (contents db') = prop_mark (rules_lib S) (contents db)"
proof (induction xs arbitrary: db)
  case Nil
  then show ?case by (simp add: go_simps verdicts_def marks_after_def)
next
  case (Cons x xs)
  obtain m r where x: "x = (m, r)" by force
  let ?L = "rules_lib S" and ?f = "att_mark (rules_lib S) (contents db)"
  from Cons.prems x have r: "att_formed r" and new: "md_PubKey m \<notin> (\<lambda>(m, r). md_PubKey m) ` set xs" by auto
  obtain db1 where db1: "OnSignBeaconAttestation S (Some m) (Some r) db = (Ret (att_verdict ?L (?f (md_PubKey m)) r), db1)"
    "up db1" "decodable ?L (contents db1)" "att_mark ?L (contents db1) = ?f(md_PubKey m := att_next ?L (?f (md_PubKey m)) r)"
    "prop_mark ?L (contents db1) = prop_mark ?L (contents db)"
    using attestation_decided [OF dep Cons.prems(1,2) r, of m] by blast
  from Cons.IH [OF db1(2,3)] Cons.prems(3,4)
  obtain db' where db': "one_by_one S xs db1 = (Ret (verdicts (att_mark ?L (contents db1)) xs), db')" "up db'"
    "att_mark ?L (contents db') = marks_after (att_mark ?L (contents db1)) xs"
    "prop_mark ?L (contents db') = prop_mark ?L (contents db1)" by auto
  from db1(1) db'(1) have "one_by_one S (x # xs) db =
      (Ret (att_verdict ?L (?f (md_PubKey m)) r # verdicts (att_mark ?L (contents db1)) xs), db')"
    by (simp add: x go_bind_def go_simps)
  with db' db1(4,5) show ?case
    unfolding db1(4) verdicts_Cons [OF new] marks_after_Cons [OF new]
    by (simp add: x verdicts_def)
qed

end

end
