(* ===== verification/Progress.thy ===== *)
theory Progress
  imports Ruler_Safety
begin

text \<open>
  A call of the ruler never hangs: the locks are the only operations that can block, and from a
  state in which no key is held they do not, since a call with a repeated key is refused before it
  locks anything.
\<close>

definition no_block :: "('s, 'a) op \<Rightarrow> bool" where
  "no_block m \<longleftrightarrow> (\<forall>s t. m s \<noteq> (Block, t))"

named_theorems no_block_intros \<open>operations that do not block\<close>

lemma no_block_return [no_block_intros]: "no_block (go_return x)"
  by (simp add: no_block_def go_simps)

lemma no_block_panic [no_block_intros]: "no_block (go_panic e)"
  by (simp add: no_block_def go_simps)

lemma no_block_update [no_block_intros]: "no_block (go_update f)"
  by (simp add: no_block_def go_simps)

lemma no_block_lift [no_block_intros]: "r \<noteq> Block \<Longrightarrow> no_block (go_lift r)"
  by (simp add: no_block_def go_simps)

lemma no_block_bind [no_block_intros]: "no_block m \<Longrightarrow> (\<And>x. no_block (f x)) \<Longrightarrow> no_block (go_bind m f)"
  by (auto simp: no_block_def go_bind_def split: prod.splits go.splits)

lemma no_block_local [no_block_intros]: "no_block m \<Longrightarrow> no_block (go_local l m)"
  by (auto simp: no_block_def go_local_def split: prod.splits go.splits)

lemma no_block_on_fst [no_block_intros]: "no_block m \<Longrightarrow> no_block (go_on_fst m)"
  by (auto simp: no_block_def go_on_fst_def split: prod.splits)

lemma no_block_for [no_block_intros]: "(\<And>i. no_block (body i)) \<Longrightarrow> no_block (go_for is body)"
  by (induction "is") (auto intro: no_block_intros)

lemma no_block_workers [no_block_intros]: "(\<And>w. no_block (work w)) \<Longrightarrow> no_block (run_workers ws work)"
  by (induction ws) (auto intro!: no_block_intros)

lemma no_block_Scatter [no_block_intros]: "(\<And>i n. no_block (work i n)) \<Longrightarrow> no_block (Scatter rt k work)"
  by (auto simp: Scatter_def Let_def intro!: no_block_intros)

section \<open>The rules\<close>

lemma no_block_store [no_block_intros]:
  "no_block (Fetch B k)" "no_block (Store B k v)" "no_block (BatchStore B ks vs)"
  by (auto simp: no_block_def Fetch_def Store_def BatchStore_def split: badger_read.splits prod.splits option.splits batch_err.splits)

lemma checks_no_block [simp]: "runSignBeaconAttestationChecks L md req st \<noteq> Block"
  by (auto simp: runSignBeaconAttestationChecks_def Let_def split: option.splits)

lemma all_checks_no_block [simp]: "run_all_checks L mds reqs sts \<noteq> Block"
  by (induction L mds reqs sts rule: run_all_checks.induct) (auto split: go.splits)

lemma no_block_att_state [no_block_intros]:
  "no_block (fetchSignBeaconAttestationState S pk)" "no_block (storeSignBeaconAttestationState S pk st)"
  "no_block (fetchSignBeaconProposalState S pk)" "no_block (storeSignBeaconProposalState S pk ps)"
  "no_block (storeSignBeaconAttestationStates S pks sts)"
  by (auto simp: fetchSignBeaconAttestationState_def storeSignBeaconAttestationState_def fetchSignBeaconProposalState_def
      storeSignBeaconProposalState_def storeSignBeaconAttestationStates_def intro!: no_block_intros split: sum.split)

lemma no_block_fetch_states [no_block_intros]: "no_block (fetchSignBeaconAttestationStates S pks)"
  by (induction pks) (auto intro!: no_block_intros split: sum.split)

lemma no_block_rules [no_block_intros]:
  "no_block (OnSign S md sd)" "no_block (OnSignBeaconAttestation S md ad)" "no_block (OnSignBeaconProposal S md pd)"
  "no_block (OnListAccounts S)" "no_block (OnLockWallet S)" "no_block (OnUnlockWallet S)" "no_block (OnLockAccount S)"
  "no_block (OnUnlockAccount S)" "no_block (OnCreateAccount S)"
  by (auto simp: OnSign_def OnSignBeaconAttestation_def OnSignBeaconProposal_def OnListAccounts_def OnLockWallet_def
      OnUnlockWallet_def OnLockAccount_def OnUnlockAccount_def OnCreateAccount_def
      intro!: no_block_intros split: option.split sum.split)

lemma no_block_batch [no_block_intros]: "no_block (OnSignBeaconAttestations S mds reqs)"
  by (auto simp: OnSignBeaconAttestations_def Let_def intro!: no_block_intros split: option.split sum.split)

lemma no_block_dispatch [no_block_intros]: "no_block (dispatch_rule S action md data)"
  by (auto simp: dispatch_rule_def intro!: no_block_intros split: option.split any_data.split)

lemma no_block_run_entry [no_block_intros]: "no_block (run_entry S creds action rds i)"
  by (auto simp: run_entry_def intro!: no_block_intros split: option.split sum.split)

lemma no_block_prep [no_block_intros]: "no_block (prep_entries creds rds is)"
  by (induction "is") (auto intro!: no_block_intros split: option.split sum.split any_data.split)

lemma no_block_runRules: "no_block (runRules S rt creds action rds)"
  by (auto simp: runRules_def runRulesForMultipleBeaconAttestations_def Let_def intro!: no_block_intros split: prod.split)

section \<open>A call\<close>

lemma RunRules_progress:
  assumes "quiet s" and "RunRules S rt creds action rds s = (out, s')"
  shows "out \<noteq> Block" and "out = Ret rs \<Longrightarrow> quiet s'"
  using RunRules_cases [OF assms] no_block_runRules [of S rt creds action rds] assms(1)
  unfolding no_block_def by (metis go.distinct(3))+

text \<open>What is refused before the rules are asked.\<close>

definition refusable :: "string \<Rightarrow> rules_data option list \<Rightarrow> bool" where
  "refusable action rds \<longleftrightarrow> rds = [] \<or> (\<exists>rd \<in> set rds. rd = None \<or> rd_Data (the rd) = None) \<or>
     locking_action action \<and> ((\<exists>rd \<in> set rds. rd_PubKey (the rd) = []) \<or>
       \<not> distinct (map (\<lambda>rd. copyN 48 (rd_PubKey (the rd))) rds))"

lemma RunRules_refuses:
  assumes "refusable action rds"
  shows "\<exists>rs. RunRules S rt creds action rds s = (Ret rs, s) \<and> set rs \<subseteq> {UNKNOWN, FAILED}"
proof (cases "rds = []")
  case False
  let ?pks = "map (\<lambda>rd. rd_PubKey (the rd)) rds" and ?bad = "\<lambda>rd. rd = None \<or> rd_Data (the rd) = None"
  show ?thesis
  proof (cases "first_index ?bad rds")
    case (Some i)
    with False refused_results(1) [OF first_index_bound [OF Some]] show ?thesis by (simp add: RunRules_def go_simps)
  next
    case None
    with assms False have l: "locking_action action" and "check_pubkeys [] ?pks \<noteq> None"
      unfolding first_index_None check_pubkeys_None refusable_def by (auto simp: comp_def)
    then obtain i where i: "check_pubkeys [] ?pks = Some i" by blast
    with refused_results(1) [of i "length rds"] check_pubkeys_bound [OF i] None l False show ?thesis
      by (simp add: RunRules_def go_simps)
  qed
qed (simp add: RunRules_def go_simps)

end
