(* ===== verification/Samples_Dirk.thy ===== *)
theory Samples_Dirk
  imports Samples Dirk Dirk_Signing Decisions Progress
begin

text \<open>
  A whole daemon for evaluation: one wallet with one account, whose wallet library keeps the names
  of the accounts that are unlocked and signs a root by prefixing it with the public key.
\<close>

definition sample_wallets :: "(string list, string, string \<times> bytes) wallet_lib" where
  "sample_wallets = \<lparr>
     WalletAndAccountNames = (\<lambda>p. if p = [] then Inl ''invalid account format''
        else Inr (takeWhile (\<lambda>c. c \<noteq> CHR ''/'') p, drop 1 (dropWhile (\<lambda>c. c \<noteq> CHR ''/'') p))),
     wal_Name = (\<lambda>w. w), wal_Type = (\<lambda>_. ''non-deterministic''), wal_is_locker = (\<lambda>_. False),
     wal_Unlock = (\<lambda>_ _. go_return None), wal_Lock = (\<lambda>_. go_return None),
     acc_Name = fst, acc_is_pubkey_provider = (\<lambda>_. True), acc_PublicKey = snd, acc_CompositePublicKey = (\<lambda>_. None),
     acc_is_locker = (\<lambda>_. True),
     acc_IsUnlocked = (\<lambda>a s. (Ret (Inr (fst a \<in> set s)), s)),
     acc_Unlock = (\<lambda>a p s. if p = Some (string_bytes ''secret'') then (Ret None, fst a # s) else (Ret (Some ''incorrect passphrase''), s)),
     acc_Lock = (\<lambda>a s. (Ret None, filter (\<lambda>n. n \<noteq> fst a) s)),
     acc_is_signer = (\<lambda>_. True), acc_Sign = (\<lambda>a r. go_return (Inr (snd a @ r)))\<rparr>"

definition sample_account :: "string \<times> bytes" where
  "sample_account = (''Account'', replicate 48 1)"

definition sample_fetcher :: "(string, string \<times> bytes) fetcher" where
  "sample_fetcher = \<lparr>pubKeyPaths = [replicate 48 1 \<mapsto> ''Wallet/Account''], wallets = [''Wallet'' \<mapsto> ''Wallet''],
     walletAccounts = [''Wallet'' \<mapsto> [(''Account'', sample_account)]],
     rwPubKeyPaths = (\<lambda>_. None), rwWalletAccounts = (\<lambda>_. None)\<rparr>"

text \<open>Regular expressions without operators, anchored at both ends.\<close>

definition sample_regexp :: "string regexp_lib" where
  "sample_regexp = \<lparr>re_Compile = Inr, re_MatchString = (\<lambda>re s. re = ''(?i)^'' @ s @ ''$'')\<rparr>"

definition sample_access :: "string access" where
  "sample_access = [''client1'' \<mapsto> [\<lparr>p_wallet = ''(?i)^Wallet$'', p_account = ''(?i)^Account$'', p_operations = [''~Create account'', ''All'']\<rparr>]]"

definition sample_ssz :: ssz_lib where
  "sample_ssz = \<lparr>ssz_attestation_root = (\<lambda>_. Inr (replicate 32 5)), ssz_header_root = (\<lambda>_. Inr (replicate 32 6)),
     ssz_ErrBytesLength = (\<lambda>_ _ _. ''bytes length''), ssz_ErrSize = ''incorrect size'', ssz_hash_root = (\<lambda>cs. Inr (concat cs))\<rparr>"

definition sample_config :: "(mem_db, string list, string, string \<times> bytes, string) config" where
  "sample_config = \<lparr>cf_rules = sample_rules, cf_wallets = sample_wallets, cf_regexp = sample_regexp, cf_access = sample_access,
     cf_unlocker = \<lparr>walletPassphrases = [], accountPassphrases = [''wrong'', ''secret'']\<rparr>, cf_ssz = sample_ssz\<rparr>"

definition sample_world :: "(mem_db, string list, string, string \<times> bytes) world" where
  "sample_world = \<lparr>w_ruler = sample_state, w_wallets = [], w_fetcher = sample_fetcher\<rparr>"

definition sample_att_requests :: "(string list, string, string \<times> bytes) request list" where
  "sample_att_requests =
     [ReqAttestation sample_runtime (Some sample_creds) ''Wallet/Account'' None (Some (sample_att 3 4)),
      ReqRestart [] sample_fetcher,
      ReqAttestations sample_runtime (Some sample_creds) [''Wallet/Account''] [] [Some (sample_att 4 6)]]"

lemma sample_live_atts:
  "live sample_config sample_att_requests sample_world = ([(replicate 48 1, 3, 4), (replicate 48 1, 4, 6)], [])"
  by code_simp

definition sample_prop_requests :: "(string list, string, string \<times> bytes) request list" where
  "sample_prop_requests =
     [ReqProposal sample_runtime (Some sample_creds) ''Wallet/Account'' None (Some (sample_prop 100)),
      ReqProposal sample_runtime (Some sample_creds) ''Wallet/Account'' None (Some (sample_prop 101))]"

lemma sample_live_props:
  "live sample_config sample_prop_requests sample_world = ([], [(replicate 48 1, 100), (replicate 48 1, 101)])"
  by code_simp

lemma sample_requests_good: "\<forall>q \<in> set sample_att_requests. good_request q" "\<forall>q \<in> set sample_prop_requests. good_request q"
  by (simp_all add: sample_att_requests_def sample_prop_requests_def sample_runtime_fair att_in_range_def prop_in_range_def
      sample_att_def sample_prop_def att_epochs_def)

definition sample_generic :: sign_data where
  "sample_generic = \<lparr>sd_Domain = Some (Slice (7 # replicate 31 0) []), sd_Data = Some (replicate 32 3)\<rparr>"

lemma sample_sign_attestation:
  "fst (SignBeaconAttestation (dirk_signer sample_config) sample_runtime (Some sample_creds) ''Wallet/Account'' None
     (Some (sample_att 3 4)) sample_world) =
   Ret (ResultSucceeded, Some (replicate 48 1 @ replicate 32 5 @ 1 # replicate 31 0))"
  by code_simp

lemma sample_sign_proposal:
  "fst (SignBeaconProposal (dirk_signer sample_config) sample_runtime (Some sample_creds) [] (Some (replicate 48 1))
     (Some (sample_prop 100)) sample_world) =
   Ret (ResultSucceeded, Some (replicate 48 1 @ replicate 32 6 @ replicate 32 0))"
  by code_simp

lemma sample_sign_generic:
  "fst (SignGeneric (dirk_signer sample_config) sample_runtime (Some sample_creds) ''Wallet/Account'' None
     (Some sample_generic) sample_world) =
   Ret (ResultSucceeded, Some (replicate 48 1 @ replicate 32 3 @ 7 # replicate 31 0))"
  by code_simp

lemma sample_multisign:
  "fst (Multisign (dirk_signer sample_config) sample_runtime (Some sample_creds) [''Wallet/Account''] []
     [Some sample_generic] sample_world) =
   Ret ([ResultSucceeded], Some [Some (replicate 48 1 @ replicate 32 3 @ 7 # replicate 31 0)])"
  by code_simp

lemma sample_sign_attestations:
  "fst (SignBeaconAttestations (dirk_signer sample_config) sample_runtime (Some sample_creds) [''Wallet/Account''] []
     [Some (sample_att 3 4)] sample_world) =
   Ret ([ResultSucceeded], Some [Some (replicate 48 1 @ replicate 32 5 @ 1 # replicate 31 0)])"
  by code_simp

interpretation sample_dirk: dirk sample_config mem_contents sample_fetcher
  unfolding dirk_def by (simp add: sample_config_def sample.standard_rules_axioms)

interpretation sample_client: dirk_client sample_config mem_contents sample_fetcher
  "\<lambda>_ _ _ _ _. go_return (Inl ''no process'') :: (_, err + bytes \<times> unit list) op" sample_runtime sample_creds
  by unfold_locales (simp_all add: sample_runtime_fair sample_creds_def)

interpretation sample_iterable: iterable_rules sample_rules mem_contents
  by unfold_locales
    (auto simp: sample_rules_def mem_badger_def mem_contents_def map_of_clearjunk distinct_clearjunk split: if_splits)

lemma mem_reliable: "reliable (rules_store sample_rules) (\<lambda>db. \<not> mem_broken db)"
  by (auto simp: reliable_def sample_rules_def mem_badger_def)

lemma mem_dependable: "dependable (rules_store sample_rules) (\<lambda>db. \<not> mem_broken db)"
  by (auto simp: dependable_def sample_rules_def mem_badger_def split: option.split)

definition sample_db :: mem_db where
  "sample_db = \<lparr>mem_items = [], mem_broken = False\<rparr>"

lemma sample_db_parts: "\<not> mem_broken sample_db" "mem_contents sample_db = (\<lambda>_. None)"
  "decodable L (mem_contents sample_db)"
  by (simp_all add: sample_db_def mem_contents_def decodable_def fun_eq_iff)

definition sample_md :: "byte \<Rightarrow> req_metadata" where
  "sample_md k = \<lparr>md_Account = ''Account'', md_PubKey = replicate 48 k, md_IP = ''10.0.0.1'', md_Client = ''client1''\<rparr>"

lemma sample_att_formed: "uint s < 2 ^ 63 \<Longrightarrow> uint t < 2 ^ 63 \<Longrightarrow> att_formed (sample_att s t)"
  by (simp add: att_formed_def sample_att_def domain_type_def reslice_to_def att_epochs_def att_in_range_def)

end
