(* ===== verification/Samples_Interchange.thy ===== *)
theory Samples_Interchange
  imports Samples_Dirk
begin

text \<open>
  A slashing protection file with one entry, imported into an empty database.
\<close>

section \<open>Slashing protection files\<close>

definition sample_root :: string where "sample_root = sprint_hex0x (replicate 32 10)"

definition sample_entry :: "(string \<times> string) list \<Rightarrow> string list \<Rightarrow> sp_data" where
  "sample_entry atts slots = \<lparr>sd_PublicKey = sprint_hex0x (replicate 48 1),
     sd_SignedBlocks = map (\<lambda>n. Some \<lparr>sb_Slot = n\<rparr>) slots,
     sd_SignedAttestations = map (\<lambda>(s, t). Some \<lparr>sa_SourceEpoch = s, sa_TargetEpoch = t\<rparr>) atts\<rparr>"

definition sample_file :: interchange where
  "sample_file = \<lparr>ic_Metadata = Some \<lparr>sm_InterchangeFormatVersion = ''5'', sm_GenesisValidatorsRoot = sample_root\<rparr>,
     ic_Data = [Some (sample_entry [(''3'', ''4'')] [''100''])]\<rparr>"

definition sample_imported :: mem_db where
  "sample_imported = snd (storeSlashingProtection sample_runtime sample_root (Inr sample_rules) (Some sample_file) sample_db)"

lemma sample_import:
  "storeSlashingProtection sample_runtime sample_root (Inr sample_rules) (Some sample_file) sample_db = (Ret None, sample_imported)"
proof -
  have "fst (storeSlashingProtection sample_runtime sample_root (Inr sample_rules) (Some sample_file) sample_db) = Ret None"
    by code_simp
  then show ?thesis by (simp add: sample_imported_def prod_eq_iff)
qed

definition sample_kp :: "i64 \<Rightarrow> i64 \<Rightarrow> i64 \<Rightarrow> slashing_protection" where
  "sample_kp s t n = \<lparr>sp_PubKey = [], sp_HighestProposedSlot = n, sp_HighestAttestedSourceEpoch = s, sp_HighestAttestedTargetEpoch = t\<rparr>"

lemma sample_key_protection:
  "key_protection (Some (sample_entry [(''3'', ''4'')] [''100''])) = Ret (Inr (replicate 48 1, sample_kp 3 4 100))"
  "key_protection (Some (sample_entry [(''1'', ''2'')] [])) = Ret (Inr (replicate 48 1, sample_kp 1 2 (-1)))"
  by code_simp+

lemma sample_parse: "ParseInt64 ''3'' = Inr 3" "ParseInt64 ''4'' = Inr 4" "ParseInt64 ''100'' = Inr 100"
  by code_simp+

lemma sample_approved_later:
  "fst (OnSignBeaconAttestation sample_rules (Some (sample_md 1)) (Some (sample_att 4 6)) sample_imported) = Ret APPROVED"
  "fst (OnSignBeaconProposal sample_rules (Some (sample_md 1)) (Some (sample_prop 101)) sample_imported) = Ret APPROVED"
  by code_simp+

text \<open>What the import wrote, and the file that is exported from it.\<close>

lemma sample_imported_items:
  "mem_items sample_imported =
     [(replicate 48 1 @ actionSignBeaconProposal, Encode_prop (Some \<lparr>PropSlot = 100\<rparr>)),
      (replicate 48 1 @ actionSignBeaconAttestation, Encode_att (Some \<lparr>SourceEpoch = 3, TargetEpoch = 4\<rparr>))]"
  by code_simp

lemma sample_imported_parts:
  "tagged (mem_contents sample_imported)" "marks_ok L (mem_contents sample_imported)"
  "known (mem_contents sample_imported) (replicate 48 1)"
  by (simp_all add: tagged_def marks_ok_def known_def mem_contents_def sample_imported_items att_mark_def prop_mark_def
      att_decode_def prop_decode_def actionSignBeaconProposal_def actionSignBeaconAttestation_def)

lemma sample_export:
  "fst (fetchSlashingProtection sample_runtime sample_root (Inr sample_rules) sample_imported) = Ret (Inr sample_file)"
  by code_simp

definition sample_lower_file :: interchange where
  "sample_lower_file = sample_file\<lparr>ic_Data := [Some (sample_entry [(''7'', ''8'')] [])]\<rparr>"

text \<open>A database that has approved an attestation from epoch 3 to 4.\<close>

definition sample_signed :: mem_db where
  "sample_signed = snd (OnSignBeaconAttestation sample_rules (Some (sample_md 1)) (Some (sample_att 3 4)) sample_db)"

lemma sample_signed_items:
  "mem_items sample_signed = [(replicate 48 1 @ actionSignBeaconAttestation, Encode_att (Some \<lparr>SourceEpoch = 3, TargetEpoch = 4\<rparr>))]"
  by code_simp

lemma sample_signed_parts:
  "tagged (mem_contents sample_signed)" "sample.inv [(replicate 48 1, 3, 4)] [] sample_signed"
proof -
  show "tagged (mem_contents sample_signed)"
    by (simp add: tagged_def mem_contents_def sample_signed_items actionSignBeaconAttestation_def)
  have run: "OnSignBeaconAttestation sample_rules (Some (sample_md 1)) (Some (sample_att 3 4)) sample_db = (Ret APPROVED, sample_signed)"
  proof -
    have "fst (OnSignBeaconAttestation sample_rules (Some (sample_md 1)) (Some (sample_att 3 4)) sample_db) = Ret APPROVED"
      by code_simp
    then show ?thesis by (simp add: sample_signed_def prod_eq_iff)
  qed
  have "att_in_range (Some (sample_att 3 4))" by (simp add: att_in_range_def sample_att_def att_epochs_def)
  from go_tripleD_Ret [OF sample.triple_OnSignBeaconAttestation [OF this] sample.inv_start run]
  show "sample.inv [(replicate 48 1, 3, 4)] [] sample_signed" by (simp add: att_entry_def sample_md_def sample_att_def att_epochs_def)
qed

definition sample_double_file :: interchange where
  "sample_double_file = sample_file\<lparr>ic_Data := [Some (sample_entry [(''3'', ''4'')] [''100'']), Some (sample_entry [(''1'', ''2'')] [])]\<rparr>"

lemma sample_lower_key: "key_protection (Some (sample_entry [(''7'', ''8'')] [])) = Ret (Inr (replicate 48 1, sample_kp 7 8 (-1)))"
  by code_simp

lemma sample_lower_metadata: "check_metadata sample_root (Some sample_lower_file) = None"
  by code_simp

lemma sample_lower_keys: "\<forall>d \<in> set (ic_Data sample_lower_file). \<exists>key kp. key_protection d = Ret (Inr (key, kp))"
  using sample_lower_key by (simp add: sample_lower_file_def)

lemma sample_double_metadata: "check_metadata sample_root (Some sample_double_file) = None"
  by code_simp

lemma sample_double_keys: "\<forall>d \<in> set (ic_Data sample_double_file). \<exists>key kp. key_protection d = Ret (Inr (key, kp))"
  using sample_key_protection by (simp add: sample_double_file_def)

text \<open>Both databases can be read, and the second one answers as the first.\<close>

lemma sample_readable:
  "readable L (mem_contents sample_db)" "readable L (mem_contents sample_imported)"
  by (simp add: readable_def sample_db_parts)
     (auto simp: readable_def mem_contents_def sample_imported_items att_decode_def prop_decode_def split: if_splits)

lemma sample_imported_up: "\<not> mem_broken sample_imported"
  by code_simp

end
