(* ===== verification/Locker_Threads.thy ===== *)
theory Locker_Threads
  imports Ruler
begin

text \<open>
  Goroutines that call the ruler at the same time, as far as the locker is concerned: each takes
  the locks of its keys between \<open>PreLock\<close> and \<open>PostLock\<close>, runs its rules, and frees the locks in the
  opposite order. A step is one call of the locker by one goroutine; a call that blocks is not a
  step, and its goroutine waits. Two goroutines never hold the same key, no goroutine panics, none
  waits for ever, and all of them end.
\<close>

section \<open>Goroutines\<close>

datatype phase = Start | Locking "bytes list" | Locked | Unlocking "bytes list"

type_synonym thread = "bytes list \<times> phase"

inductive thread_step :: "locker \<Rightarrow> thread \<Rightarrow> locker \<Rightarrow> thread \<Rightarrow> bool" where
  pre: "PreLock l = (Ret (), l') \<Longrightarrow> thread_step l (ks, Start) l' (ks, Locking ks)"
| lock: "Lock k l = (Ret (), l') \<Longrightarrow> thread_step l (ks, Locking (k # rest)) l' (ks, Locking rest)"
| post: "PostLock l = (Ret (), l') \<Longrightarrow> thread_step l (ks, Locking []) l' (ks, Locked)"
| rules: "thread_step l (ks, Locked) l (ks, Unlocking (rev ks))"
| unlock: "Unlock k l = (Ret (), l') \<Longrightarrow> thread_step l (ks, Unlocking (k # rest)) l' (ks, Unlocking rest)"

inductive_cases thread_stepE: "thread_step l t l' t'"

inductive system_step :: "locker \<times> thread list \<Rightarrow> locker \<times> thread list \<Rightarrow> bool" where
  "i < length ts \<Longrightarrow> thread_step l (ts ! i) l' t' \<Longrightarrow> system_step (l, ts) (l', ts[i := t'])"

definition finished :: "thread \<Rightarrow> bool" where
  "finished t \<longleftrightarrow> snd t = Unlocking []"

fun holds :: "thread \<Rightarrow> bytes set" where
  "holds (ks, Start) = {}"
| "holds (ks, Locking rest) = set ks - set rest"
| "holds (ks, Locked) = set ks"
| "holds (ks, Unlocking rest) = set rest"

fun in_locking :: "thread \<Rightarrow> bool" where
  "in_locking (ks, Locking rest) = True"
| "in_locking _ = False"

text \<open>The number of steps a goroutine still has to make.\<close>

fun steps_left :: "thread \<Rightarrow> nat" where
  "steps_left (ks, Start) = 2 * length ks + 3"
| "steps_left (ks, Locking rest) = length rest + length ks + 2"
| "steps_left (ks, Locked) = length ks + 1"
| "steps_left (ks, Unlocking rest) = length rest"

text \<open>A goroutine that is alone takes the steps of \<open>lock_keys\<close> and \<open>unlock_keys\<close>.\<close>

definition solo :: "locker \<times> thread \<Rightarrow> locker \<times> thread \<Rightarrow> bool" where
  "solo = (\<lambda>(l, t) (l', t'). thread_step l t l' t')\<^sup>*\<^sup>*"

lemma solo_step: "thread_step l t l1 t1 \<Longrightarrow> solo (l1, t1) s \<Longrightarrow> solo (l, t) s"
  unfolding solo_def by (rule converse_rtranclp_into_rtranclp) auto

lemma solo_locks: "go_for rest Lock l = (Ret (), l') \<Longrightarrow> solo (l', (ks, Locking [])) s \<Longrightarrow> solo (l, (ks, Locking rest)) s"
proof (induction rest arbitrary: l)
  case (Cons k rest)
  then obtain l1 where "Lock k l = (Ret (), l1)" "go_for rest Lock l1 = (Ret (), l')" by (auto elim: go_bind_RetE)
  with Cons show ?case by (blast intro: solo_step thread_step.lock)
qed (simp add: go_simps)

lemma solo_unlocks: "go_for rest Unlock l = (Ret (), l') \<Longrightarrow> solo (l, (ks, Unlocking rest)) (l', (ks, Unlocking []))"
proof (induction rest arbitrary: l)
  case (Cons k rest)
  then obtain l1 where "Unlock k l = (Ret (), l1)" "go_for rest Unlock l1 = (Ret (), l')" by (auto elim: go_bind_RetE)
  with Cons show ?case by (blast intro: solo_step thread_step.unlock)
qed (simp add: go_simps solo_def)

lemma solo_call:
  assumes "lock_keys ks l = (Ret (), l1)" and "unlock_keys ks l1 = (Ret (), l2)"
  shows "solo (l, (ks, Start)) (l2, (ks, Unlocking []))"
proof -
  from assms(1) obtain la lb where "PreLock l = (Ret (), la)" "go_for ks Lock la = (Ret (), lb)" "PostLock lb = (Ret (), l1)"
    unfolding lock_keys_def by (auto elim!: go_bind_RetE)
  with solo_unlocks [OF assms(2) [unfolded unlock_keys_def], of ks] show ?thesis
    by (blast intro: solo_step solo_locks thread_step.pre thread_step.post thread_step.rules)
qed

section \<open>The invariant\<close>

fun thread_ok :: "thread \<Rightarrow> bool" where
  "thread_ok (ks, Locking rest) \<longleftrightarrow> distinct ks \<and> (\<exists>xs. ks = xs @ rest)"
| "thread_ok (ks, Unlocking rest) \<longleftrightarrow> distinct ks \<and> distinct rest \<and> set rest \<subseteq> set ks"
| "thread_ok (ks, _) \<longleftrightarrow> distinct ks"

definition system_ok :: "locker \<times> thread list \<Rightarrow> bool" where
  "system_ok = (\<lambda>(l, ts). \<not> newLockMutex l \<and> (\<forall>i < length ts. thread_ok (ts ! i)) \<and> held_keys l = (\<Union>i < length ts. holds (ts ! i)) \<and>
     (\<forall>i < length ts. \<forall>j < length ts. i \<noteq> j \<longrightarrow> holds (ts ! i) \<inter> holds (ts ! j) = {} \<and> \<not> (in_locking (ts ! i) \<and> in_locking (ts ! j))) \<and>
     (mapLock l \<longleftrightarrow> (\<exists>i < length ts. in_locking (ts ! i))))"

text \<open>The calls of the locker that do not block.\<close>

lemma PreLock_effect: "PreLock l = (Ret (), l') \<longleftrightarrow> \<not> mapLock l \<and> l' = l\<lparr>mapLock := True\<rparr>"
  by (auto simp: PreLock_def mutex_lock_def)

lemma PostLock_effect: "PostLock l = (Ret (), l') \<longleftrightarrow> mapLock l \<and> l' = l\<lparr>mapLock := False\<rparr>"
  by (auto simp: PostLock_def mutex_unlock_def)

lemma Lock_effect:
  assumes "Lock k l = (Ret (), l')" and "\<not> newLockMutex l"
  shows "k \<notin> held_keys l" "held_keys l' = insert k (held_keys l)" "mapLock l' = mapLock l" "\<not> newLockMutex l'"
proof -
  show k: "k \<notin> held_keys l" using syncmap.lock_held [of l k] assms by auto
  from syncmap.lock_free [of l k] assms k show "held_keys l' = insert k (held_keys l)" "mapLock l' = mapLock l" "\<not> newLockMutex l'" by auto
qed

lemma Unlock_effect:
  assumes "Unlock k l = (Ret (), l')"
  shows "k \<in> held_keys l" "held_keys l' = held_keys l - {k}" "mapLock l' = mapLock l" "newLockMutex l' = newLockMutex l"
  using assms by (auto simp: Unlock_def mutex_unlock_def held_keys_def split: if_splits)

lemma held_keys_mapLock [simp]: "held_keys (l\<lparr>mapLock := b\<rparr>) = held_keys l"
  by (simp add: held_keys_def)

text \<open>The effect of one step on what its goroutine holds.\<close>

lemma thread_step_effect:
  assumes "thread_step l t l' t'" and "thread_ok t" and "\<not> newLockMutex l" and "holds t \<subseteq> held_keys l" and "in_locking t \<longrightarrow> mapLock l"
  shows "thread_ok t' \<and> \<not> newLockMutex l' \<and> held_keys l' = (held_keys l - holds t) \<union> holds t' \<and> (holds t' - holds t) \<inter> held_keys l = {} \<and>
    mapLock l' = (mapLock l \<and> \<not> in_locking t \<or> in_locking t') \<and> (in_locking t' \<and> \<not> in_locking t \<longrightarrow> \<not> mapLock l) \<and>
    Suc (steps_left t') = steps_left t"
  using assms(1)
proof (cases rule: thread_step.cases)
  case (pre ks)
  with assms show ?thesis by (auto simp: PreLock_effect)
next
  case (lock k ks rest)
  with assms obtain xs where ks: "ks = xs @ k # rest" "distinct ks" by auto
  then have "set ks - set rest = insert k (set ks - set (k # rest))" by auto
  with ks lock Lock_effect [OF lock(3) assms(3)] assms(4,5) show ?thesis by auto
next
  case (post ks)
  with assms show ?thesis by (auto simp: PostLock_effect)
next
  case (rules ks)
  with assms show ?thesis by auto
next
  case (unlock k ks rest)
  with Unlock_effect [OF unlock(3)] assms show ?thesis by auto
qed

lemma system_step_ok:
  assumes "system_ok (l, ts)" and "i < length ts" and step: "thread_step l (ts ! i) l' t'"
  shows "system_ok (l', ts[i := t'])" and "Suc (steps_left t') = steps_left (ts ! i)"
proof -
  let ?t = "ts ! i"
  from assms(1,2) have inv: "\<not> newLockMutex l" "thread_ok ?t" "holds ?t \<subseteq> held_keys l" "in_locking ?t \<longrightarrow> mapLock l"
    and held: "held_keys l = (\<Union>j < length ts. holds (ts ! j))" and oks: "\<And>j. j < length ts \<Longrightarrow> thread_ok (ts ! j)"
    and disj: "\<And>j k. j < length ts \<Longrightarrow> k < length ts \<Longrightarrow> j \<noteq> k \<Longrightarrow> holds (ts ! j) \<inter> holds (ts ! k) = {}"
    and one: "\<And>j k. j < length ts \<Longrightarrow> k < length ts \<Longrightarrow> j \<noteq> k \<Longrightarrow> \<not> (in_locking (ts ! j) \<and> in_locking (ts ! k))"
    and ml: "mapLock l \<longleftrightarrow> (\<exists>j < length ts. in_locking (ts ! j))"
    by (auto simp: system_ok_def)
  note eff = thread_step_effect [OF step inv(2,1,3,4)]
  from eff show "Suc (steps_left t') = steps_left ?t" by blast
  have others: "(\<Union>j \<in> {..<length ts} - {i}. holds (ts ! j)) = held_keys l - holds ?t"
    using disj [OF assms(2)] assms(2) unfolding held by blast
  have "(\<Union>j < length ts. holds (ts[i := t'] ! j)) = holds t' \<union> (\<Union>j \<in> {..<length ts} - {i}. holds (ts ! j))"
    using assms(2) by (auto simp: nth_list_update split: if_splits)
  moreover from eff have h': "held_keys l' = (held_keys l - holds ?t) \<union> holds t'" and fresh: "(holds t' - holds ?t) \<inter> held_keys l = {}" by simp_all
  ultimately have held': "held_keys l' = (\<Union>j < length ts. holds (ts[i := t'] ! j))" unfolding others by (simp only: Un_commute)
  have new: "holds t' \<inter> holds (ts ! j) = {}" if j: "j < length ts" "j \<noteq> i" for j
  proof -
    have "holds (ts ! j) \<subseteq> held_keys l" "holds ?t \<inter> holds (ts ! j) = {}" using disj [OF assms(2) j(1)] j held by auto
    with fresh show ?thesis by blast
  qed
  have ml': "mapLock l' \<longleftrightarrow> (\<exists>j < length ts. in_locking (ts[i := t'] ! j))"
    using eff ml one [OF assms(2)] assms(2) by (auto simp: nth_list_update split: if_splits)
  have alone: "\<not> in_locking (ts ! k)" if "in_locking t'" "k < length ts" "k \<noteq> i" for k
    using that eff ml one [OF assms(2) that(2)] by (cases "in_locking ?t") auto
  have one': "\<not> (in_locking (ts[i := t'] ! j) \<and> in_locking (ts[i := t'] ! k))" if "j < length ts" "k < length ts" "j \<noteq> k" for j k
    using that alone one [OF that] by (cases "j = i"; cases "k = i") auto
  have disj': "holds (ts[i := t'] ! j) \<inter> holds (ts[i := t'] ! k) = {}" if "j < length ts" "k < length ts" "j \<noteq> k" for j k
    using that new disj [OF that] by (cases "j = i"; cases "k = i") (auto simp: Int_commute)
  have oks': "thread_ok (ts[i := t'] ! j)" if "j < length ts" for j
    using that oks eff by (cases "j = i") auto
  show "system_ok (l', ts[i := t'])"
    unfolding system_ok_def prod.case length_list_update using eff held' ml' one' disj' oks' by blast
qed

section \<open>Progress\<close>

lemma thread_ready:
  assumes "thread_ok t" and "\<not> newLockMutex l" and "holds t \<subseteq> held_keys l"
    and "(\<exists>ks. t = (ks, Start)) \<longrightarrow> \<not> mapLock l" and "in_locking t \<longrightarrow> mapLock l \<and> held_keys l = holds t" and "\<not> finished t"
  shows "\<exists>l' t'. thread_step l t l' t'"
proof -
  obtain ks ph where t: "t = (ks, ph)" by force
  show ?thesis
  proof (cases ph)
    case Start
    with assms t have "thread_step l t (l\<lparr>mapLock := True\<rparr>) (ks, Locking ks)" by (auto simp: PreLock_effect intro: thread_step.pre)
    then show ?thesis by blast
  next
    case (Locking rest)
    show ?thesis
    proof (cases rest)
      case Nil
      with assms t Locking have "thread_step l t (l\<lparr>mapLock := False\<rparr>) (ks, Locked)" by (auto simp: PostLock_effect intro: thread_step.post)
      then show ?thesis by blast
    next
      case (Cons k rest')
      with assms t Locking have "k \<notin> held_keys l" by auto
      with syncmap.lock_free [of l k] assms(2) obtain l' where "Lock k l = (Ret (), l')" by blast
      from thread_step.lock [OF this] show ?thesis unfolding t Locking Cons by blast
    qed
  next
    case Locked
    from thread_step.rules show ?thesis unfolding t Locked by blast
  next
    case (Unlocking rest)
    with assms(6) t obtain k rest' where r: "rest = k # rest'" by (cases rest) (auto simp: finished_def)
    with assms(3) t Unlocking have "k \<in> held_keys l" by auto
    with syncmap.unlock_held [of l k] assms(2) obtain l' where "Unlock k l = (Ret (), l')" by blast
    from thread_step.unlock [OF this] show ?thesis unfolding t Unlocking r by blast
  qed
qed

lemma idle_or_busy:
  "finished t \<or> (\<exists>ks. t = (ks, Start)) \<or> in_locking t \<or> \<not> finished t \<and> \<not> (\<exists>ks. t = (ks, Start)) \<and> \<not> in_locking t"
  by blast

lemma idle_holds: "finished t \<or> (\<exists>ks. t = (ks, Start)) \<Longrightarrow> holds t = {}"
  by (cases t) (auto simp: finished_def)

lemma system_progress:
  assumes ok: "system_ok (l, ts)" and i: "i < length ts" "\<not> finished (ts ! i)"
  shows "\<exists>s'. system_step (l, ts) s'"
proof -
  from ok have nl: "\<not> newLockMutex l" and oks: "\<And>j. j < length ts \<Longrightarrow> thread_ok (ts ! j)"
    and held: "held_keys l = (\<Union>j < length ts. holds (ts ! j))" and ml: "mapLock l \<longleftrightarrow> (\<exists>j < length ts. in_locking (ts ! j))"
    and one: "\<And>j k. j < length ts \<Longrightarrow> k < length ts \<Longrightarrow> in_locking (ts ! j) \<Longrightarrow> in_locking (ts ! k) \<Longrightarrow> j = k"
    by (auto simp: system_ok_def)
  define ready where "ready j \<longleftrightarrow> j < length ts \<and> \<not> finished (ts ! j) \<and> ((\<exists>ks. ts ! j = (ks, Start)) \<longrightarrow> \<not> mapLock l) \<and>
    (in_locking (ts ! j) \<longrightarrow> mapLock l \<and> held_keys l = holds (ts ! j))" for j
  have go: ?thesis if "ready j" for j
  proof -
    from that have j: "j < length ts" by (simp add: ready_def)
    then have "holds (ts ! j) \<subseteq> held_keys l" using held by blast
    with thread_ready [OF oks [OF j] nl] that obtain l' t' where "thread_step l (ts ! j) l' t'" by (auto simp: ready_def)
    with system_step.intros [OF j] show ?thesis by blast
  qed
  consider (work) j where "j < length ts" "\<not> finished (ts ! j)" "\<not> (\<exists>ks. ts ! j = (ks, Start))" "\<not> in_locking (ts ! j)"
    | (lock) j where "j < length ts" "in_locking (ts ! j)"
        "\<And>k. k < length ts \<Longrightarrow> finished (ts ! k) \<or> (\<exists>ks. ts ! k = (ks, Start)) \<or> in_locking (ts ! k)"
    | (start) "\<And>k. k < length ts \<Longrightarrow> finished (ts ! k) \<or> (\<exists>ks. ts ! k = (ks, Start))" "\<not> mapLock l"
    using ml by blast
  then show ?thesis
  proof cases
    case work
    then show ?thesis by (intro go [of j]) (simp add: ready_def)
  next
    case lock
    have sub: "holds (ts ! k) \<subseteq> holds (ts ! j)" if k: "k < length ts" for k
    proof (cases "in_locking (ts ! k)")
      case True
      with one [OF k lock(1)] lock(2) show ?thesis by simp
    next
      case False
      with lock(3) [OF k] idle_holds show ?thesis by blast
    qed
    have "held_keys l = holds (ts ! j)" unfolding held by (intro antisym UN_least UN_upper) (simp_all add: sub lock(1))
    moreover have "\<not> finished (ts ! j)" "\<not> (\<exists>ks. ts ! j = (ks, Start))" using lock(2) by (cases "ts ! j"; auto simp: finished_def)+
    ultimately show ?thesis using lock ml by (intro go [of j]) (auto simp: ready_def)
  next
    case start
    with i have "\<not> in_locking (ts ! i)" by (metis in_locking.simps(2))
    with start i show ?thesis by (intro go [of i]) (simp add: ready_def)
  qed
qed

section \<open>Runs\<close>

definition starting :: "bytes list list \<Rightarrow> locker \<times> thread list" where
  "starting kss = (new_locker, map (\<lambda>ks. (ks, Start)) kss)"

lemma starting_ok: "\<forall>ks \<in> set kss. distinct ks \<Longrightarrow> system_ok (starting kss)"
  by (auto simp: system_ok_def starting_def new_locker_def held_keys_def)

lemma run_ok: "system_step\<^sup>*\<^sup>* s s' \<Longrightarrow> system_ok s \<Longrightarrow> system_ok s' \<and> length (snd s') = length (snd s)"
proof (induction rule: rtranclp_induct)
  case (step s1 s2)
  from step(2) show ?case
  proof (cases rule: system_step.cases)
    case (1 i ts l l' t')
    have "system_ok (l, ts) \<and> length ts = length (snd s)" using step.IH [OF step.prems] unfolding 1(1) by simp
    with system_step_ok(1) [OF _ 1(3,4)] show ?thesis unfolding 1(2) by simp
  qed
qed simp

lemma step_decreases:
  assumes "system_step s s'" and "system_ok s"
  shows "Suc (sum_list (map steps_left (snd s'))) = sum_list (map steps_left (snd s))"
  using assms(1)
proof (cases rule: system_step.cases)
  case (1 i ts l l' t')
  have "system_ok (l, ts)" using assms(2) 1(1) by simp
  from system_step_ok(2) [OF this 1(3,4)] have "Suc (steps_left t') = steps_left (ts ! i)" .
  moreover have "steps_left (ts ! i) \<le> sum_list (map steps_left ts)" using elem_le_sum_list [of i "map steps_left ts"] 1(3) by simp
  moreover have "sum_list (map steps_left (ts[i := t'])) = sum_list (map steps_left ts) + steps_left t' - steps_left (ts ! i)"
    using 1(3) by (simp add: map_update sum_list_update)
  ultimately show ?thesis unfolding 1(1,2) by simp
qed

lemma run_length:
  "(system_step ^^ n) s s' \<Longrightarrow> system_ok s \<Longrightarrow> n + sum_list (map steps_left (snd s')) = sum_list (map steps_left (snd s))"
proof (induction n arbitrary: s')
  case (Suc n)
  then obtain s1 where s1: "(system_step ^^ n) s s1" "system_step s1 s'" by auto
  from s1(1) have "system_step\<^sup>*\<^sup>* s s1" by (rule relpowp_imp_rtranclp)
  with run_ok Suc.prems(2) have "system_ok s1" by blast
  from step_decreases [OF s1(2) this] Suc.IH [OF s1(1) Suc.prems(2)] show ?case by simp
qed simp

end
