(* ===== verification/Interleaving.thy ===== *)
theory Interleaving
  imports Locker_Threads Ruler_Generic
begin

text \<open>
  The rules of several requests at the same time. A rule is a program of database transactions with
  other code between them, and the transactions of different goroutines can be interleaved in any
  way; the goroutines take the locks of their keys first, as \<open>services/ruler/golang/runner.go\<close> does.
  The process may be killed at any moment and started again on the same database. Whatever happens,
  the protection holds: the theorems about calls that are taken one after another lose nothing by
  concurrency.
\<close>

section \<open>Programs of transactions\<close>

datatype ('db, 'a) tx = Done "'a go" | Access "'db \<Rightarrow> ('db, 'a) tx \<times> 'db"

primrec tx_run :: "('db, 'a) tx \<Rightarrow> ('db, 'a) op" where
  "tx_run (Done r) = (\<lambda>db. (r, db))"
| "tx_run (Access f) = (\<lambda>db. case map_prod tx_run id (f db) of (m, db') \<Rightarrow> m db')"

primrec tx_bind :: "('db, 'a) tx \<Rightarrow> ('a \<Rightarrow> ('db, 'b) tx) \<Rightarrow> ('db, 'b) tx" where
  "tx_bind (Done r) k = (case r of Ret x \<Rightarrow> k x | Panic e \<Rightarrow> Done (Panic e) | Block \<Rightarrow> Done Block)"
| "tx_bind (Access f) k = Access (\<lambda>db. map_prod (\<lambda>t. tx_bind t k) id (f db))"

text \<open>One transaction.\<close>

definition atomic :: "('db, 'a) op \<Rightarrow> ('db, 'a) tx" where
  "atomic m = Access (\<lambda>db. case m db of (r, db') \<Rightarrow> (Done r, db'))"

definition tx_return :: "'a \<Rightarrow> ('db, 'a) tx" where
  "tx_return x = Done (Ret x)"

lemma tx_run_atomic [simp]: "tx_run (atomic m) = m"
  by (rule ext) (simp add: atomic_def split: prod.split)

lemma tx_run_return [simp]: "tx_run (tx_return x) = go_return x"
  by (simp add: tx_return_def go_return_def)

lemma tx_run_Done [simp]: "tx_run (Done r) = go_lift r"
  by (simp add: go_lift_def)

lemma tx_run_bind [simp]: "tx_run (tx_bind t k) = go_bind (tx_run t) (\<lambda>x. tx_run (k x))"
proof (induction t)
  case (Done r)
  show ?case by (cases r) (auto simp: go_bind_def go_lift_def)
next
  case (Access f)
  show ?case
  proof (intro ext)
    fix db
    obtain t db' where t: "f db = (t, db')" by force
    from rangeI [of f db] Access [of "f db" t] t have "tx_run (tx_bind t k) = go_bind (tx_run t) (\<lambda>x. tx_run (k x))" by simp
    with t show "tx_run (tx_bind (Access f) k) db = go_bind (tx_run (Access f)) (\<lambda>x. tx_run (k x)) db"
      by (simp add: go_bind_def)
  qed
qed

declare tx_run.simps [simp del] tx_bind.simps [simp del]

section \<open>The rules as programs\<close>

definition prog_attestation_checked :: "'db rules_service \<Rightarrow> req_metadata \<Rightarrow> att_data option \<Rightarrow> att_state \<Rightarrow> ('db, rules_result) tx" where
  "prog_attestation_checked S md req state =
     tx_bind (Done (runSignBeaconAttestationChecks (rules_lib S) (Some md) req state)) (\<lambda>(res, state').
       if res \<noteq> APPROVED then tx_return res
       else
         (case (ad_Source (the req), ad_Target (the req)) of
            (Some src, Some tgt) \<Rightarrow>
              tx_bind (atomic (storeSignBeaconAttestationState S (md_PubKey md)
                         (state'\<lparr>SourceEpoch := cp_Epoch src, TargetEpoch := cp_Epoch tgt\<rparr>)))
                (\<lambda>e. case e of Some _ \<Rightarrow> tx_return FAILED | None \<Rightarrow> tx_return res)
          | _ \<Rightarrow> Done (Panic nil_deref)))"

definition prog_attestation :: "'db rules_service \<Rightarrow> req_metadata option \<Rightarrow> att_data option \<Rightarrow> ('db, rules_result) tx" where
  "prog_attestation S metadata req =
     (case metadata of
        None \<Rightarrow> Done (Panic nil_deref)
      | Some md \<Rightarrow>
          tx_bind (atomic (fetchSignBeaconAttestationState S (md_PubKey md))) (\<lambda>f.
            case f of Inl e \<Rightarrow> tx_return FAILED | Inr state \<Rightarrow> prog_attestation_checked S md req state))"

definition prog_proposal :: "'db rules_service \<Rightarrow> req_metadata option \<Rightarrow> prop_data option \<Rightarrow> ('db, rules_result) tx" where
  "prog_proposal S metadata req =
     (case (metadata, req) of
        (Some md, Some r) \<Rightarrow>
          (case domain_type (pd_Domain r) of
             None \<Rightarrow> Done (Panic slice_bounds)
           | Some d \<Rightarrow>
               if d \<noteq> DomainBeaconProposer (rules_lib S) then tx_return DENIED
               else
                 tx_bind (atomic (fetchSignBeaconProposalState S (md_PubKey md))) (\<lambda>f.
                   case f of
                     Inl e \<Rightarrow> tx_return FAILED
                   | Inr state \<Rightarrow>
                       if nonneg64 (PropSlot state) \<and> pd_Slot r \<le> PropSlot state
                       then tx_return DENIED
                       else
                         tx_bind (atomic (storeSignBeaconProposalState S (md_PubKey md)
                                    (state\<lparr>PropSlot := pd_Slot r\<rparr>))) (\<lambda>e.
                           case e of Some _ \<Rightarrow> tx_return FAILED | None \<Rightarrow> tx_return APPROVED)))
      | _ \<Rightarrow> Done (Panic nil_deref))"

fun prog_fetch_states :: "'db rules_service \<Rightarrow> bytes list \<Rightarrow> ('db, err + att_state list) tx" where
  "prog_fetch_states S [] = tx_return (Inr [])"
| "prog_fetch_states S (pk # pks) =
     tx_bind (atomic (fetchSignBeaconAttestationState S pk)) (\<lambda>r.
       case r of
         Inl e \<Rightarrow> tx_return (Inl e)
       | Inr st \<Rightarrow>
           tx_bind (prog_fetch_states S pks) (\<lambda>rs.
             case rs of Inl e \<Rightarrow> tx_return (Inl e) | Inr sts \<Rightarrow> tx_return (Inr (st # sts))))"

definition prog_attestations ::
  "'db rules_service \<Rightarrow> req_metadata option list \<Rightarrow> att_data option list \<Rightarrow> ('db, rules_result list) tx" where
  "prog_attestations S metadata req =
     (let res = replicate (length req) UNKNOWN;
          all_failed = replicate (length req) FAILED in
      if length req \<noteq> length metadata then tx_return all_failed
      else case first_index (\<lambda>md. md = None) metadata of
             Some i \<Rightarrow> tx_return (res[i := FAILED])
           | None \<Rightarrow>
               (case first_index bad_att_req req of
                  Some i \<Rightarrow> tx_return (res[i := FAILED])
                | None \<Rightarrow>
                    let pubKeys = map (\<lambda>md. md_PubKey (the md)) metadata in
                    tx_bind (prog_fetch_states S pubKeys) (\<lambda>f.
                      case f of
                        Inl e \<Rightarrow> tx_return all_failed
                      | Inr states \<Rightarrow>
                          tx_bind (Done (run_all_checks (rules_lib S) metadata req states)) (\<lambda>rs.
                            tx_bind (atomic (storeSignBeaconAttestationStates S pubKeys (map snd rs))) (\<lambda>e.
                              case e of Some _ \<Rightarrow> tx_return all_failed
                                      | None \<Rightarrow> tx_return (map fst rs))))))"

text \<open>Run without interruption, the programs are the rules.\<close>

lemma case_tx_run:
  "tx_run (case_option a b x) = case_option (tx_run a) (\<lambda>y. tx_run (b y)) x"
  "tx_run (case_sum l r s) = case_sum (\<lambda>y. tx_run (l y)) (\<lambda>y. tx_run (r y)) s"
  "tx_run (case_prod h p) = case_prod (\<lambda>u v. tx_run (h u v)) p"
  "tx_run (if c then a else d) = (if c then tx_run a else tx_run d)"
  by (simp_all split: option.split sum.split prod.split)

lemma go_lift_panic: "go_lift (Panic e) = go_panic e"
  by (simp add: go_lift_def go_panic_def)

lemma prog_attestation_run: "tx_run (prog_attestation S md req) = OnSignBeaconAttestation S md req"
  by (simp add: prog_attestation_def prog_attestation_checked_def OnSignBeaconAttestation_def case_tx_run go_lift_panic
      cong: option.case_cong sum.case_cong if_cong)

lemma prog_proposal_run: "tx_run (prog_proposal S md req) = OnSignBeaconProposal S md req"
  by (simp add: prog_proposal_def OnSignBeaconProposal_def case_tx_run go_lift_panic
      cong: option.case_cong sum.case_cong if_cong)

lemma prog_fetch_states_run: "tx_run (prog_fetch_states S pks) = fetchSignBeaconAttestationStates S pks"
  by (induction pks) (simp_all add: case_tx_run cong: sum.case_cong)

lemma prog_attestations_run: "tx_run (prog_attestations S mds reqs) = OnSignBeaconAttestations S mds reqs"
  by (simp add: prog_attestations_def OnSignBeaconAttestations_def case_tx_run prog_fetch_states_run Let_def
      cong: option.case_cong sum.case_cong if_cong)

section \<open>Goroutines that run rules\<close>

datatype rule_call =
    Call_attestation "req_metadata option" "att_data option"
  | Call_proposal "req_metadata option" "prop_data option"
  | Call_attestations "req_metadata option list" "att_data option list"

fun call_prog :: "'db rules_service \<Rightarrow> rule_call \<Rightarrow> ('db, rules_result list) tx" where
  "call_prog S (Call_attestation md req) = tx_bind (prog_attestation S md req) (\<lambda>r. tx_return [if r = UNKNOWN then FAILED else r])"
| "call_prog S (Call_proposal md req) = tx_bind (prog_proposal S md req) (\<lambda>r. tx_return [if r = UNKNOWN then FAILED else r])"
| "call_prog S (Call_attestations mds reqs) = prog_attestations S mds reqs"

text \<open>The keys a call locks: the first 48 bytes of its public keys.\<close>

fun call_keys :: "rule_call \<Rightarrow> bytes list" where
  "call_keys (Call_attestation md req) = [copyN 48 (md_PubKey (the md))]"
| "call_keys (Call_proposal md req) = [copyN 48 (md_PubKey (the md))]"
| "call_keys (Call_attestations mds reqs) = map (\<lambda>md. copyN 48 (md_PubKey (the md))) mds"

text \<open>What a call approved with its results.\<close>

fun call_atts :: "rule_call \<Rightarrow> rules_result list \<Rightarrow> (bytes \<times> int \<times> int) list" where
  "call_atts (Call_attestation md req) rs = att_news [md] [req] rs"
| "call_atts (Call_proposal md req) rs = []"
| "call_atts (Call_attestations mds reqs) rs = att_news mds reqs rs"

fun call_props :: "rule_call \<Rightarrow> rules_result list \<Rightarrow> (bytes \<times> int) list" where
  "call_props (Call_proposal md req) [r] = (if r = APPROVED then prop_entry md req else [])"
| "call_props c rs = []"

text \<open>Epochs and slots below \<open>2^63\<close>, and no key twice: the ruler refuses a batch with a repeated key.\<close>

fun call_ok :: "rule_call \<Rightarrow> bool" where
  "call_ok (Call_attestation md req) = att_in_range req"
| "call_ok (Call_proposal md req) = prop_in_range req"
| "call_ok (Call_attestations mds reqs) =
     ((\<forall>req \<in> set reqs. att_in_range req) \<and> distinct (call_keys (Call_attestations mds reqs)))"

datatype 'db stage = Waiting | Acquiring "bytes list" | Running "('db, rules_result list) tx"
  | Releasing "bytes list" "rules_result list" | Lost

type_synonym 'db task = "rule_call \<times> 'db stage"

inductive task_step :: "'db rules_service \<Rightarrow> locker \<times> 'db \<Rightarrow> 'db task \<Rightarrow> locker \<times> 'db \<Rightarrow> 'db task \<Rightarrow> bool" for S where
  begin_lock: "PreLock l = (Ret (), l') \<Longrightarrow> task_step S (l, db) (c, Waiting) (l', db) (c, Acquiring (call_keys c))"
| take_lock: "Lock k l = (Ret (), l') \<Longrightarrow> task_step S (l, db) (c, Acquiring (k # rest)) (l', db) (c, Acquiring rest)"
| all_locked: "PostLock l = (Ret (), l') \<Longrightarrow> task_step S (l, db) (c, Acquiring []) (l', db) (c, Running (call_prog S c))"
| transaction: "f db = (t, db') \<Longrightarrow> task_step S (l, db) (c, Running (Access f)) (l, db') (c, Running t)"
| rules_done: "task_step S (l, db) (c, Running (Done (Ret rs))) (l, db) (c, Releasing (rev (call_keys c)) rs)"
| free_lock: "Unlock k l = (Ret (), l') \<Longrightarrow> task_step S (l, db) (c, Releasing (k # rest) rs) (l', db) (c, Releasing rest rs)"

text \<open>The process is killed: what waits is served by the next process, what has returned stays, the rest is lost.\<close>

fun lose :: "'db task \<Rightarrow> 'db task" where
  "lose (c, Waiting) = (c, Waiting)"
| "lose (c, Releasing [] rs) = (c, Releasing [] rs)"
| "lose (c, stage) = (c, Lost)"

inductive interleaved :: "'db rules_service \<Rightarrow> (locker \<times> 'db) \<times> 'db task list \<Rightarrow> (locker \<times> 'db) \<times> 'db task list \<Rightarrow> bool" for S where
  one: "i < length ts \<Longrightarrow> task_step S s (ts ! i) s' t' \<Longrightarrow> interleaved S (s, ts) (s', ts[i := t'])"
| killed: "interleaved S ((l, db), ts) ((new_locker, db), map lose ts)"

inductive_cases interleavedE: "interleaved S x y"

section \<open>Locks\<close>

text \<open>For the locker such a goroutine is one of \<open>Locker_Threads\<close>.\<close>

fun thread_of :: "'db task \<Rightarrow> thread" where
  "thread_of (c, Waiting) = (call_keys c, Start)"
| "thread_of (c, Acquiring rest) = (call_keys c, Locking rest)"
| "thread_of (c, Running t) = (call_keys c, Locked)"
| "thread_of (c, Releasing rest rs) = (call_keys c, Unlocking rest)"
| "thread_of (c, Lost) = (call_keys c, Unlocking [])"

lemma call_keys_distinct: "call_ok c \<Longrightarrow> distinct (call_keys c)"
  by (cases c) simp_all

lemma thread_of_step:
  assumes "task_step S (l, db) t (l', db') t'"
  shows "thread_step l (thread_of t) l' (thread_of t') \<or> l' = l \<and> thread_of t' = thread_of t"
  using assms by cases (auto intro: thread_step.intros)

lemma lose_thread: "call_ok (fst t) \<Longrightarrow> holds (thread_of (lose t)) = {} \<and> \<not> in_locking (thread_of (lose t)) \<and> thread_ok (thread_of (lose t))"
  by (cases t rule: lose.cases) (simp_all add: call_keys_distinct)

lemma interleaved_locks:
  assumes "system_ok (l, map thread_of ts)" and "\<forall>t \<in> set ts. call_ok (fst t)" and "interleaved S ((l, db), ts) ((l', db'), ts')"
  shows "system_ok (l', map thread_of ts')"
  using assms(3)
proof (cases rule: interleaved.cases)
  case (one i t')
  with thread_of_step [of S l db "ts ! i" l' db' t'] consider
      "thread_step l (map thread_of ts ! i) l' (thread_of t')" | "l' = l" "thread_of t' = thread_of (ts ! i)" by auto
  then show ?thesis
  proof cases
    case 1
    from system_step_ok(1) [OF assms(1) _ 1] one show ?thesis by (simp add: map_update)
  next
    case 2
    with one have "map thread_of ts' = map thread_of ts" by (simp add: map_update list_update_same_conv)
    with assms(1) 2 show ?thesis by simp
  qed
next
  case killed
  have "holds (map thread_of ts' ! i) = {} \<and> \<not> in_locking (map thread_of ts' ! i) \<and> thread_ok (map thread_of ts' ! i)"
    if "i < length ts" for i
    using lose_thread [of "ts ! i"] assms(2) that killed by simp
  with killed show ?thesis by (auto simp: system_ok_def new_locker_def held_keys_def)
qed

lemma interleaved_calls:
  assumes "interleaved S (s, ts) (s', ts')"
  shows "map fst ts' = map fst ts"
  using assms
proof (cases rule: interleaved.cases)
  case (one i t')
  from one(3) have "fst t' = fst (ts ! i)" by cases auto
  with one show ?thesis by (simp add: map_update list_update_same_conv)
next
  case (killed l db)
  have "fst (lose t) = fst t" for t :: "'a task" by (cases t rule: lose.cases) simp_all
  with killed show ?thesis by simp
qed

section \<open>A call that is alone\<close>

text \<open>
  A goroutine that runs without interruption makes one call of the ruler as the sequential model has
  it: the interleaved system contains the runs of the sequential one.
\<close>

definition alone :: "'db rules_service \<Rightarrow> (locker \<times> 'db) \<times> 'db task \<Rightarrow> (locker \<times> 'db) \<times> 'db task \<Rightarrow> bool" where
  "alone S = (\<lambda>(s, t) (s', t'). task_step S s t s' t')\<^sup>*\<^sup>*"

lemma alone_refl: "alone S x x"
  by (simp add: alone_def)

lemma alone_step: "task_step S s t s1 t1 \<Longrightarrow> alone S (s1, t1) x \<Longrightarrow> alone S (s, t) x"
  unfolding alone_def by (rule converse_rtranclp_into_rtranclp) auto

lemma alone_interleaved:
  assumes "alone S (s, t) (s', t')" and "i < length ts" and "ts ! i = t"
  shows "(interleaved S)\<^sup>*\<^sup>* (s, ts) (s', ts[i := t'])"
  using assms(1) unfolding alone_def
proof (induction "(s', t')" arbitrary: s' t' rule: rtranclp_induct)
  case base
  with assms(3) show ?case by auto
next
  case (step y)
  obtain s1 t1 where y: "y = (s1, t1)" by (cases y)
  from step(2) y have "task_step S s1 (ts[i := t1] ! i) s' t'" using assms(2) by simp
  from interleaved.one [OF _ this] assms(2) have "interleaved S (s1, ts[i := t1]) (s', ts[i := t'])" by simp
  with step(3) [OF y] show ?case by simp
qed

lemma alone_locks:
  "go_for rest Lock l = (Ret (), l') \<Longrightarrow> alone S ((l', db), (c, Acquiring [])) x \<Longrightarrow> alone S ((l, db), (c, Acquiring rest)) x"
proof (induction rest arbitrary: l)
  case (Cons k rest)
  then obtain l1 where "Lock k l = (Ret (), l1)" "go_for rest Lock l1 = (Ret (), l')" by (auto elim: go_bind_RetE)
  with Cons show ?case by (blast intro: alone_step take_lock)
qed (simp add: go_simps)

lemma alone_unlocks:
  "go_for rest Unlock l = (Ret (), l') \<Longrightarrow> alone S ((l, db), (c, Releasing rest rs)) ((l', db), (c, Releasing [] rs))"
proof (induction rest arbitrary: l)
  case (Cons k rest)
  then obtain l1 where "Unlock k l = (Ret (), l1)" "go_for rest Unlock l1 = (Ret (), l')" by (auto elim: go_bind_RetE)
  with Cons show ?case by (blast intro: alone_step free_lock)
qed (simp add: go_simps alone_refl)

lemma alone_program:
  "tx_run p db = (Ret rs, db') \<Longrightarrow> alone S ((l, db'), (c, Running (Done (Ret rs)))) x \<Longrightarrow> alone S ((l, db), (c, Running p)) x"
proof (induction p arbitrary: db)
  case (Done r)
  then show ?case by (simp add: go_lift_def)
next
  case (Access f)
  obtain t db1 where t: "f db = (t, db1)" by force
  with Access.prems(1) have "tx_run t db1 = (Ret rs, db')" by (simp add: tx_run.simps)
  with Access.IH [of "(t, db1)" t db1] t Access.prems(2) have "alone S ((l, db1), (c, Running t)) x" by (metis fst_conv rangeI fsts.intros)
  with transaction [of f db t db1, OF t] show ?case by (blast intro: alone_step)
qed

lemma alone_call:
  assumes "lock_keys (call_keys c) l = (Ret (), l1)" and "tx_run (call_prog S c) db = (Ret rs, db')"
    and "unlock_keys (call_keys c) l1 = (Ret (), l2)"
  shows "alone S ((l, db), (c, Waiting)) ((l2, db'), (c, Releasing [] rs))"
proof -
  from assms(1) obtain la lb where "PreLock l = (Ret (), la)" "go_for (call_keys c) Lock la = (Ret (), lb)" "PostLock lb = (Ret (), l1)"
    unfolding lock_keys_def by (auto elim!: go_bind_RetE)
  note locked = this
  note alone_unlocks [OF assms(3) [unfolded unlock_keys_def], of S db' c rs]
  with rules_done have "alone S ((l1, db'), (c, Running (Done (Ret rs)))) ((l2, db'), (c, Releasing [] rs))" by (rule alone_step)
  with assms(2) have "alone S ((l1, db), (c, Running (call_prog S c))) ((l2, db'), (c, Releasing [] rs))" by (rule alone_program)
  with all_locked [OF locked(3)] have "alone S ((lb, db), (c, Acquiring [])) ((l2, db'), (c, Releasing [] rs))" by (rule alone_step)
  with locked(2) have "alone S ((la, db), (c, Acquiring (call_keys c))) ((l2, db'), (c, Releasing [] rs))" by (rule alone_locks)
  with begin_lock [OF locked(1)] show ?thesis by (rule alone_step)
qed

text \<open>The rule that the ruler calls for a request with one entry, where it uses the database.\<close>

definition call_of :: "string \<Rightarrow> req_metadata \<Rightarrow> any_data option \<Rightarrow> rule_call option" where
  "call_of action md data =
     (case data of
        Some (AnySignBeaconProposalData r) \<Rightarrow> if action = ActionSignBeaconProposal then Some (Call_proposal (Some md) r) else None
      | Some (AnySignBeaconAttestationData r) \<Rightarrow> if action = ActionSignBeaconAttestation then Some (Call_attestation (Some md) r) else None
      | _ \<Rightarrow> None)"

lemma call_of_rule:
  assumes "call_of action md data = Some c"
  shows "tx_run (call_prog S c) = go_bind (dispatch_rule S action md data) (\<lambda>res. go_return [if res = UNKNOWN then FAILED else res])"
    and "call_keys c = [copyN 48 (md_PubKey md)]" and "locking_action action" and "data \<noteq> None"
  using assms
  by (auto simp: call_of_def dispatch_attestation dispatch_proposal prog_attestation_run prog_proposal_run locking_action_def
      split: option.splits any_data.splits if_splits)

text \<open>A call of the ruler that returns went through the locks and the rules.\<close>

lemma RunRules_returned:
  assumes "RunRules S rt creds action rds s = (Ret rs, s')" and "locking_action action"
    and "first_index (\<lambda>rd. rd = None \<or> rd_Data (the rd) = None) rds = None" and "rds \<noteq> []"
    and "check_pubkeys [] (map (\<lambda>rd. rd_PubKey (the rd)) rds) = None"
  defines "keys \<equiv> map (copyN 48) (map (\<lambda>rd. rd_PubKey (the rd)) rds)"
  obtains l1 where "lock_keys keys (ruler_locker s) = (Ret (), l1)"
    "runRules S rt creds action rds (ruler_db s) = (Ret rs, ruler_db s')" "unlock_keys keys l1 = (Ret (), ruler_locker s')"
proof -
  from assms have "go_bind (on_locker (lock_keys keys)) (\<lambda>_. go_bind (on_db (runRules S rt creds action rds)) (\<lambda>results.
      go_bind (on_locker (unlock_keys keys)) (\<lambda>_. go_return results))) s = (Ret rs, s')"
    by (simp add: RunRules_def Let_def)
  then obtain s1 s2 where "on_locker (lock_keys keys) s = (Ret (), s1)" "on_db (runRules S rt creds action rds) s1 = (Ret rs, s2)"
    "on_locker (unlock_keys keys) s2 = (Ret (), s')"
    by (auto elim!: go_bind_RetE simp: go_simps)
  then show thesis
    by (intro that [of "ruler_locker s1"]) (auto simp: on_locker_def on_db_def go_zoom_def split: prod.splits)
qed

lemma RunRules_alone:
  assumes "fair_runtime rt" and run: "RunRules S rt creds action [Some rd] s = (Ret rs, s')" and "rd_PubKey rd \<noteq> []"
    and md: "assembleMetadata creds (rd_AccountName rd) (rd_PubKey rd) = Inr md" and c: "call_of action md (rd_Data rd) = Some c"
  shows "alone S ((ruler_locker s, ruler_db s), (c, Waiting)) ((ruler_locker s', ruler_db s'), (c, Releasing [] rs))"
proof -
  note rule = call_of_rule [OF c]
  have keys: "map (copyN 48) (map (\<lambda>rd. rd_PubKey (the rd)) [Some rd]) = call_keys c"
    using rule(2) assembleMetadata_key [OF md] by simp
  have "runRules S rt creds action [Some rd] = tx_run (call_prog S c)"
    unfolding runRules_single [OF assms(1)] rule(1) by (simp add: entry_result_def md)
  with RunRules_returned [OF run rule(3)] rule(4) assms(3) keys show ?thesis
    by (auto intro: alone_call)
qed

lemma batch_prepared:
  assumes "fair_runtime rt" and "rds \<noteq> []" and run: "runRulesForMultipleBeaconAttestations S rt creds rds db = (Ret rs, db')"
  obtains (unfit) "db' = db" "set rs \<subseteq> {UNKNOWN, FAILED}"
  | (fit) mds reqs where "length mds = length rds" "length reqs = length rds" "\<forall>j < length rds. prepared creds rds mds reqs j"
      "OnSignBeaconAttestations S mds reqs db = (Ret rs, db')"
proof -
  let ?prep = "go_local (replicate (length rds) UNKNOWN, replicate (length rds) None, replicate (length rds) None)
      (Scatter rt (int (length rds)) (\<lambda>offset entries. go_bind (prep_entries creds rds [offset..<offset + entries]) (\<lambda>_. go_return (Inr ()))))"
  from run obtain x results mds reqs db1 where prep: "?prep db = (Ret (x, results, mds, reqs), db1)"
    and rest: "(if list_ex (\<lambda>r. r = FAILED) results then go_return results else OnSignBeaconAttestations S mds reqs) db1 = (Ret rs, db')"
    unfolding runRulesForMultipleBeaconAttestations_def Let_def by (auto elim!: go_bind_RetE)
  have "prep_inv (\<lambda>d. d = db) creds rds {..<length rds} (db1, results, mds, reqs)"
    using go_tripleD_Ret [OF prepare_batch [OF assms(1,2), of "\<lambda>d. d = db" creds] _ prep] by simp
  then have "db1 = db" "length mds = length rds" "length reqs = length rds" "set results \<subseteq> {UNKNOWN, FAILED}"
    "FAILED \<in> set results \<or> (\<forall>j < length rds. prepared creds rds mds reqs j)"
    by (auto simp: prep_inv_def)
  with rest that show thesis by (auto simp: list_ex_iff go_simps split: if_splits)
qed

lemma RunRules_batch_alone:
  assumes "fair_runtime rt" and run: "RunRules S rt creds ActionSignBeaconAttestation rds s = (Ret rs, s')" and "1 < length rds"
  obtains (refused) "ruler_db s' = ruler_db s" "set rs \<subseteq> {UNKNOWN, FAILED}"
  | (approved) mds reqs where "length mds = length rds" "length reqs = length rds" "\<forall>j < length rds. prepared creds rds mds reqs j"
      "alone S ((ruler_locker s, ruler_db s), (Call_attestations mds reqs, Waiting))
         ((ruler_locker s', ruler_db s'), (Call_attestations mds reqs, Releasing [] rs))"
proof -
  let ?bad = "\<lambda>rd. rd = None \<or> rd_Data (the rd) = None" and ?pks = "map (\<lambda>rd. rd_PubKey (the rd)) rds"
  have lock: "locking_action ActionSignBeaconAttestation" and n: "rds \<noteq> []" using assms(3) by (auto simp: locking_action_def)
  show thesis
  proof (cases "first_index ?bad rds = None \<and> check_pubkeys [] ?pks = None")
    case False
    then have "\<exists>i < length rds. rs = (replicate (length rds) UNKNOWN)[i := FAILED] \<and> s' = s"
      using run n lock first_index_bound [of ?bad rds] check_pubkeys_bound [of "[]" ?pks]
      by (auto simp: RunRules_def Let_def go_simps split: option.splits)
    with refused_results(1) show thesis by (intro refused) auto
  next
    case True
    from RunRules_returned [OF run lock] True n obtain l1 where L: "lock_keys (map (copyN 48) ?pks) (ruler_locker s) = (Ret (), l1)"
      "runRules S rt creds ActionSignBeaconAttestation rds (ruler_db s) = (Ret rs, ruler_db s')"
      "unlock_keys (map (copyN 48) ?pks) l1 = (Ret (), ruler_locker s')" by blast
    from L(2) assms(3) have "runRulesForMultipleBeaconAttestations S rt creds rds (ruler_db s) = (Ret rs, ruler_db s')"
      by (simp add: runRules_def)
    from assms(1) n this show thesis
    proof (cases rule: batch_prepared)
      case unfit
      then show thesis by (rule refused)
    next
      case (fit mds reqs)
      have keys: "call_keys (Call_attestations mds reqs) = map (copyN 48) ?pks"
        using arg_cong [OF prepared_keys [OF fit(1,3)], of "map (copyN 48)"] by (simp add: comp_def)
      with alone_call [of "Call_attestations mds reqs" "ruler_locker s" l1 S "ruler_db s" rs "ruler_db s'" "ruler_locker s'"] L fit(4)
      show thesis by (intro approved [OF fit(1-3)]) (simp add: prog_attestations_run)
    qed
  qed
qed

end
