(* ===== verification/Interleaving_Safety.thy ===== *)
theory Interleaving_Safety
  imports Interleaving
begin

text \<open>
  The protection under interleaving. A program that only touches the entries of the keys it holds,
  and keeps the protection with each of its transactions whatever the rest of the database is, can
  be interleaved with any other such program; the rules are such programs.
\<close>

section \<open>Programs that keep the protection\<close>

text \<open>The entries of the database that belong to locked keys.\<close>

definition own :: "bytes set \<Rightarrow> bytes \<Rightarrow> bool" where
  "own K key \<longleftrightarrow> key \<noteq> [] \<and> copyN 48 (butlast key) \<in> K"

definition agree :: "bytes set \<Rightarrow> kv \<Rightarrow> kv \<Rightarrow> bool" where
  "agree K c c' \<longleftrightarrow> (\<forall>key. own K key \<longrightarrow> c key = c' key)"

lemma own_tags [simp]:
  "own K (pk @ actionSignBeaconAttestation) \<longleftrightarrow> copyN 48 pk \<in> K" "own K (pk @ actionSignBeaconProposal) \<longleftrightarrow> copyN 48 pk \<in> K"
  by (simp_all add: own_def actionSignBeaconAttestation_def actionSignBeaconProposal_def)

lemma agree_refl [simp]: "agree K c c"
  by (simp add: agree_def)

lemma agree_trans: "agree K c c' \<Longrightarrow> agree K c' c'' \<Longrightarrow> agree K c c''"
  by (simp add: agree_def)

lemma fetched_agree_att:
  "agree K c c' \<Longrightarrow> copyN 48 pk \<in> K \<Longrightarrow>
     fetched dec ini actionSignBeaconAttestation c' pk st = fetched dec ini actionSignBeaconAttestation c pk st"
  by (simp add: fetched_def agree_def)

lemma fetched_agree_prop:
  "agree K c c' \<Longrightarrow> copyN 48 pk \<in> K \<Longrightarrow>
     fetched dec ini actionSignBeaconProposal c' pk st = fetched dec ini actionSignBeaconProposal c pk st"
  by (simp add: fetched_def agree_def)

context standard_rules
begin

text \<open>
  A program that owns the keys \<open>K\<close> is secure when each of its transactions, made on any database
  that has not changed at those keys, touches no other entry and keeps the protection, with the
  messages that it adds. \<open>Q\<close> is what holds at the end of the outcome, of all that was added and of
  the database.
\<close>

primrec secure ::
  "bytes set \<Rightarrow> ('a go \<Rightarrow> (bytes \<times> int \<times> int) list \<Rightarrow> (bytes \<times> int) list \<Rightarrow> kv \<Rightarrow> bool) \<Rightarrow> ('db, 'a) tx \<Rightarrow>
     (bytes \<times> int \<times> int) list \<Rightarrow> (bytes \<times> int) list \<Rightarrow> kv \<Rightarrow> bool" where
  "secure K Q (Done r) = (\<lambda>la lp c. Q r la lp c)"
| "secure K Q (Access f) = (\<lambda>la lp c. \<forall>db alog plog. inv alog plog db \<longrightarrow> agree K c (contents db) \<longrightarrow>
     (case map_prod (secure K Q) id (f db) of (sec, db') \<Rightarrow>
        (\<forall>key. \<not> own K key \<longrightarrow> contents db' key = contents db key) \<and>
        (\<exists>la' lp'. inv (alog @ la') (plog @ lp') db' \<and> sec (la @ la') (lp @ lp') (contents db'))))"

declare secure.simps [simp del]

lemma secure_bind:
  assumes "secure K R t la lp c"
    and "\<And>x la lp c. R (Ret x) la lp c \<Longrightarrow> secure K Q (k x) la lp c"
    and "\<And>e la lp c. R (Panic e) la lp c \<Longrightarrow> Q (Panic e) la lp c" and "\<And>la lp c. R Block la lp c \<Longrightarrow> Q Block la lp c"
  shows "secure K Q (tx_bind t k) la lp c"
  using assms(1)
proof (induction t arbitrary: la lp c)
  case (Done r)
  with assms(2-4) show ?case by (cases r) (simp_all add: secure.simps tx_bind.simps)
next
  case (Access f)
  show ?case
    unfolding tx_bind.simps secure.simps
  proof (intro allI impI)
    fix db alog plog assume db: "inv alog plog db" "agree K c (contents db)"
    obtain t db' where t: "f db = (t, db')" by force
    from Access.prems db t obtain la' lp' where step: "\<forall>key. \<not> own K key \<longrightarrow> contents db' key = contents db key"
      "inv (alog @ la') (plog @ lp') db'" "secure K R t (la @ la') (lp @ lp') (contents db')"
      unfolding secure.simps by fastforce
    have "(t, db') \<in> range f" using t by (metis rangeI)
    with Access.IH [of "(t, db')" t, OF _ _ step(3)] step(1,2) t
    show "case map_prod (secure K Q) id (map_prod (\<lambda>t. tx_bind t k) id (f db)) of (sec, db') \<Rightarrow>
        (\<forall>key. \<not> own K key \<longrightarrow> contents db' key = contents db key) \<and>
        (\<exists>la' lp'. inv (alog @ la') (plog @ lp') db' \<and> sec (la @ la') (lp @ lp') (contents db'))"
      by auto
  qed
qed

lemma secure_agree:
  assumes "secure K Q t la lp c" and "agree K c c'" and "\<And>r la lp c c'. Q r la lp c \<Longrightarrow> agree K c c' \<Longrightarrow> Q r la lp c'"
  shows "secure K Q t la lp c'"
proof (cases t)
  case (Done r)
  with assms show ?thesis by (auto simp: secure.simps)
next
  case (Access f)
  show ?thesis
    unfolding Access secure.simps
  proof (intro allI impI)
    fix db alog plog assume "inv alog plog db" "agree K c' (contents db)"
    with assms(1) [unfolded Access secure.simps, rule_format, of alog plog db] agree_trans [OF assms(2), of "contents db"]
    show "case map_prod (secure K Q) id (f db) of (sec, db') \<Rightarrow>
        (\<forall>key. \<not> own K key \<longrightarrow> contents db' key = contents db key) \<and>
        (\<exists>la' lp'. inv (alog @ la') (plog @ lp') db' \<and> sec (la @ la') (lp @ lp') (contents db'))" by simp
  qed
qed

text \<open>One transaction that only touches what it owns.\<close>

lemma secure_atomic:
  assumes "\<And>db alog plog r db'. inv alog plog db \<Longrightarrow> agree K c (contents db) \<Longrightarrow> m db = (r, db') \<Longrightarrow>
    (\<forall>key. \<not> own K key \<longrightarrow> contents db' key = contents db key) \<and>
    (\<exists>la' lp'. inv (alog @ la') (plog @ lp') db' \<and> Q r (la @ la') (lp @ lp') (contents db'))"
  shows "secure K Q (atomic m) la lp c"
  unfolding atomic_def secure.simps
proof (intro allI impI)
  fix db alog plog assume db: "inv alog plog db" "agree K c (contents db)"
  obtain r db' where m: "m db = (r, db')" by force
  from assms [OF db m] m show "case map_prod (secure K Q) id (case m db of (r, db') \<Rightarrow> (Done r, db')) of (sec, db') \<Rightarrow>
        (\<forall>key. \<not> own K key \<longrightarrow> contents db' key = contents db key) \<and>
        (\<exists>la' lp'. inv (alog @ la') (plog @ lp') db' \<and> sec (la @ la') (lp @ lp') (contents db'))"
    by (simp add: secure.simps)
qed

text \<open>A read, and a write of an accepted message.\<close>

abbreviation att_fetched :: "kv \<Rightarrow> bytes \<Rightarrow> att_state \<Rightarrow> bool" where
  "att_fetched \<equiv> fetched (att_decode (rules_lib S)) att_init actionSignBeaconAttestation"

abbreviation prop_fetched :: "kv \<Rightarrow> bytes \<Rightarrow> prop_state \<Rightarrow> bool" where
  "prop_fetched \<equiv> fetched (prop_decode (rules_lib S)) prop_init actionSignBeaconProposal"

lemma secure_fetch_att:
  "secure K (\<lambda>r la' lp' c'. la' = la \<and> lp' = lp \<and> agree K c c' \<and> (\<forall>st. r = Ret (Inr st) \<longrightarrow> att_fetched c' pk st))
     (atomic (fetchSignBeaconAttestationState S pk)) la lp c"
proof (rule secure_atomic)
  fix db alog plog r db'
  assume "inv alog plog db" "agree K c (contents db)" "fetchSignBeaconAttestationState S pk db = (r, db')"
  with fetch_att [of pk db r db'] show "(\<forall>key. \<not> own K key \<longrightarrow> contents db' key = contents db key) \<and>
    (\<exists>la' lp'. inv (alog @ la') (plog @ lp') db' \<and> la @ la' = la \<and> lp @ lp' = lp \<and> agree K c (contents db') \<and>
       (\<forall>st. r = Ret (Inr st) \<longrightarrow> att_fetched (contents db') pk st))"
    by (intro conjI exI [of _ "[]"]) auto
qed

lemma secure_fetch_prop:
  "secure K (\<lambda>r la' lp' c'. la' = la \<and> lp' = lp \<and> agree K c c' \<and> (\<forall>st. r = Ret (Inr st) \<longrightarrow> prop_fetched c' pk st))
     (atomic (fetchSignBeaconProposalState S pk)) la lp c"
proof (rule secure_atomic)
  fix db alog plog r db'
  assume "inv alog plog db" "agree K c (contents db)" "fetchSignBeaconProposalState S pk db = (r, db')"
  with fetch_prop [of pk db r db'] show "(\<forall>key. \<not> own K key \<longrightarrow> contents db' key = contents db key) \<and>
    (\<exists>la' lp'. inv (alog @ la') (plog @ lp') db' \<and> la @ la' = la \<and> lp @ lp' = lp \<and> agree K c (contents db') \<and>
       (\<forall>st. r = Ret (Inr st) \<longrightarrow> prop_fetched (contents db') pk st))"
    by (intro conjI exI [of _ "[]"]) auto
qed

lemma secure_store_att:
  assumes "copyN 48 pk \<in> K" and "att_fetched c pk st" and "att_accepts st e"
  shows "secure K (\<lambda>r la' lp' c'. lp' = lp \<and> (\<exists>w. r = Ret w \<and> la' = (if w = None then la @ [(pk, e)] else la)))
     (atomic (storeSignBeaconAttestationState S pk (att_bump e))) la lp c"
proof (rule secure_atomic)
  fix db alog plog r db'
  assume I: "inv alog plog db" and a: "agree K c (contents db)" and run: "storeSignBeaconAttestationState S pk (att_bump e) db = (r, db')"
  obtain w where w: "r = Ret w" using kv.store_returns run unfolding storeSignBeaconAttestationState_def by (metis prod.inject)
  have f: "att_fetched (contents db) pk st" using assms(2) unfolding fetched_agree_att [OF a assms(1)] .
  have c': "contents db' = contents db \<and> w \<noteq> None \<or>
      contents db' = (contents db)(pk @ actionSignBeaconAttestation \<mapsto> Encode_att (Some (att_bump e)))"
    using run w kv.store_any kv.store_done unfolding storeSignBeaconAttestationState_def by (cases w) blast+
  have "inv (alog @ (if w = None then [(pk, e)] else [])) plog db'"
    using c'
  proof
    assume "contents db' = contents db \<and> w \<noteq> None"
    with inv_contents [OF I, of db'] show ?thesis by auto
  next
    assume up: "contents db' = (contents db)(pk @ actionSignBeaconAttestation \<mapsto> Encode_att (Some (att_bump e)))"
    from inv_att_write [OF I assms(3) f up] show ?thesis by simp
  qed
  with c' assms(1) w show "(\<forall>key. \<not> own K key \<longrightarrow> contents db' key = contents db key) \<and>
    (\<exists>la' lp'. inv (alog @ la') (plog @ lp') db' \<and> lp @ lp' = lp \<and> (\<exists>w. r = Ret w \<and> la @ la' = (if w = None then la @ [(pk, e)] else la)))"
    by (intro conjI exI [of _ "if w = None then [(pk, e)] else []"] exI [of _ "[]"]) auto
qed

lemma secure_store_prop:
  assumes "copyN 48 pk \<in> K" and "prop_fetched c pk st" and "prop_accepts st n"
  shows "secure K (\<lambda>r la' lp' c'. la' = la \<and> (\<exists>w. r = Ret w \<and> lp' = (if w = None then lp @ [(pk, n)] else lp)))
     (atomic (storeSignBeaconProposalState S pk (prop_bump n))) la lp c"
proof (rule secure_atomic)
  fix db alog plog r db'
  assume I: "inv alog plog db" and a: "agree K c (contents db)" and run: "storeSignBeaconProposalState S pk (prop_bump n) db = (r, db')"
  obtain w where w: "r = Ret w" using kv.store_returns run unfolding storeSignBeaconProposalState_def by (metis prod.inject)
  have f: "prop_fetched (contents db) pk st" using assms(2) unfolding fetched_agree_prop [OF a assms(1)] .
  have c': "contents db' = contents db \<and> w \<noteq> None \<or>
      contents db' = (contents db)(pk @ actionSignBeaconProposal \<mapsto> Encode_prop (Some (prop_bump n)))"
    using run w kv.store_any kv.store_done unfolding storeSignBeaconProposalState_def by (cases w) blast+
  have "inv alog (plog @ (if w = None then [(pk, n)] else [])) db'"
    using c'
  proof
    assume "contents db' = contents db \<and> w \<noteq> None"
    with inv_contents [OF I, of db'] show ?thesis by auto
  next
    assume up: "contents db' = (contents db)(pk @ actionSignBeaconProposal \<mapsto> Encode_prop (Some (prop_bump n)))"
    from inv_prop_write [OF I assms(3) f up] show ?thesis by simp
  qed
  with c' assms(1) w show "(\<forall>key. \<not> own K key \<longrightarrow> contents db' key = contents db key) \<and>
    (\<exists>la' lp'. inv (alog @ la') (plog @ lp') db' \<and> la @ la' = la \<and> (\<exists>w. r = Ret w \<and> lp @ lp' = (if w = None then lp @ [(pk, n)] else lp)))"
    by (intro conjI exI [of _ "[]"] exI [of _ "if w = None then [(pk, n)] else []"]) auto
qed

section \<open>The rules are secure\<close>

text \<open>What a program adds, by its result.\<close>

definition adds ::
  "('a \<Rightarrow> (bytes \<times> int \<times> int) list) \<Rightarrow> ('a \<Rightarrow> (bytes \<times> int) list) \<Rightarrow> (bytes \<times> int \<times> int) list \<Rightarrow> (bytes \<times> int) list \<Rightarrow>
     'a go \<Rightarrow> (bytes \<times> int \<times> int) list \<Rightarrow> (bytes \<times> int) list \<Rightarrow> kv \<Rightarrow> bool" where
  "adds fa fp la lp r la' lp' c \<longleftrightarrow> (\<forall>x. r = Ret x \<longrightarrow> la' = la @ fa x \<and> lp' = lp @ fp x)"

lemma adds_stop [simp]: "adds fa fp la lp (Panic e) la' lp' c" "adds fa fp la lp Block la' lp' c"
  by (simp_all add: adds_def)

lemma adds_Ret [simp]: "adds fa fp la lp (Ret x) la' lp' c \<longleftrightarrow> la' = la @ fa x \<and> lp' = lp @ fp x"
  by (simp add: adds_def)

lemma secure_return: "Q (Ret x) la lp c \<Longrightarrow> secure K Q (tx_return x) la lp c"
  by (simp add: tx_return_def secure.simps)

lemma secure_attestation:
  assumes rng: "att_in_range req" and K: "copyN 48 (md_PubKey (the md)) \<in> K"
  shows "secure K (adds (\<lambda>x. if x = APPROVED then att_entry md req else []) (\<lambda>_. []) la lp) (prog_attestation S md req) la lp c"
    (is "secure K ?Q _ _ _ _")
proof (cases md)
  case None
  then show ?thesis by (simp add: prog_attestation_def secure.simps)
next
  case (Some m)
  have stored: "secure K ?Q (prog_attestation_checked S m req st) la lp c'"
    if f: "att_fetched c' (md_PubKey m) st" for st c'
  proof (cases "\<exists>st'. runSignBeaconAttestationChecks (rules_lib S) (Some m) req st = Ret (APPROVED, st')")
    case False
    then show ?thesis
      by (cases "runSignBeaconAttestationChecks (rules_lib S) (Some m) req st")
         (auto simp: prog_attestation_checked_def tx_bind.simps secure.simps intro!: secure_return split: prod.splits)
  next
    case True
    then obtain st' where chk: "runSignBeaconAttestationChecks (rules_lib S) (Some m) req st = Ret (APPROVED, st')" by blast
    from checks_req [OF chk] obtain r where r: "req = Some r" by blast
    from checks_approved [OF chk [unfolded r]] rng r
    obtain e where e: "att_epochs r = Some e" "att_accepts st e" "st' = att_bump e" by blast
    then obtain src tgt where cp: "ad_Source r = Some src" "ad_Target r = Some tgt"
      "e = (uint (cp_Epoch src), uint (cp_Epoch tgt))"
      by (auto simp: att_epochs_def split: option.splits)
    have st'': "st'\<lparr>SourceEpoch := cp_Epoch src, TargetEpoch := cp_Epoch tgt\<rparr> = att_bump e"
      using e(3) cp(3) by (simp add: att_bump.simps)
    have entry: "att_entry md req = [(md_PubKey m, e)]" using Some r e(1) by (simp add: att_entry_def)
    have "copyN 48 (md_PubKey m) \<in> K" using K Some by simp
    note store = secure_store_att [OF this f e(2), of lp la]
    have "secure K ?Q (tx_bind (atomic (storeSignBeaconAttestationState S (md_PubKey m) (att_bump e)))
        (\<lambda>e. case e of Some _ \<Rightarrow> tx_return FAILED | None \<Rightarrow> tx_return APPROVED)) la lp c'"
      by (rule secure_bind [OF store]) (auto intro!: secure_return simp: entry split: option.splits)
    then show ?thesis
      unfolding prog_attestation_checked_def chk tx_bind.simps(1) go.case prod.case using r cp(1,2) st'' by simp
  qed
  have "secure K ?Q (tx_bind (atomic (fetchSignBeaconAttestationState S (md_PubKey m))) (\<lambda>f.
       case f of Inl e \<Rightarrow> tx_return FAILED | Inr state \<Rightarrow> prog_attestation_checked S m req state)) la lp c"
    by (rule secure_bind [OF secure_fetch_att]) (auto intro!: secure_return stored split: sum.splits)
  then show ?thesis by (simp add: prog_attestation_def Some)
qed

lemma secure_proposal:
  assumes rng: "prop_in_range req" and K: "copyN 48 (md_PubKey (the md)) \<in> K"
  shows "secure K (adds (\<lambda>_. []) (\<lambda>x. if x = APPROVED then prop_entry md req else []) la lp) (prog_proposal S md req) la lp c"
    (is "secure K ?Q _ _ _ _")
proof (cases "\<exists>m r. md = Some m \<and> req = Some r \<and> domain_type (pd_Domain r) = Some (DomainBeaconProposer (rules_lib S))")
  case False
  then show ?thesis
    by (auto simp: prog_proposal_def secure.simps tx_return_def split: option.splits)
next
  case True
  then obtain m r where m: "md = Some m" and r: "req = Some r"
    and d: "domain_type (pd_Domain r) = Some (DomainBeaconProposer (rules_lib S))" by blast
  have stored: "secure K ?Q (tx_bind (atomic (storeSignBeaconProposalState S (md_PubKey m) (st\<lparr>PropSlot := pd_Slot r\<rparr>)))
      (\<lambda>e. case e of Some _ \<Rightarrow> tx_return FAILED | None \<Rightarrow> tx_return APPROVED)) la lp c'"
    if f: "prop_fetched c' (md_PubKey m) st" and chk: "\<not> (nonneg64 (PropSlot st) \<and> pd_Slot r \<le> PropSlot st)" for st c'
  proof -
    have rng': "uint (pd_Slot r) < 2 ^ 63" using rng r by (simp add: prop_in_range_def)
    have acc: "prop_accepts st (uint (pd_Slot r))"
      using above_mark [OF chk] rng' by (simp add: prop_accepts_def)
    have st': "st\<lparr>PropSlot := pd_Slot r\<rparr> = prop_bump (uint (pd_Slot r))"
      by (cases st) (simp add: prop_bump_def)
    have "copyN 48 (md_PubKey m) \<in> K" using K m by simp
    note store = secure_store_prop [OF this f acc, of la lp]
    show ?thesis
      unfolding st' by (rule secure_bind [OF store]) (auto intro!: secure_return simp: m r prop_entry_def split: option.splits)
  qed
  have "secure K ?Q (tx_bind (atomic (fetchSignBeaconProposalState S (md_PubKey m))) (\<lambda>f.
       case f of Inl e \<Rightarrow> tx_return FAILED
       | Inr state \<Rightarrow> if nonneg64 (PropSlot state) \<and> pd_Slot r \<le> PropSlot state then tx_return DENIED
           else tx_bind (atomic (storeSignBeaconProposalState S (md_PubKey m) (state\<lparr>PropSlot := pd_Slot r\<rparr>))) (\<lambda>e.
                  case e of Some _ \<Rightarrow> tx_return FAILED | None \<Rightarrow> tx_return APPROVED))) la lp c"
    by (rule secure_bind [OF secure_fetch_prop]) (auto intro!: secure_return stored split: sum.splits)
  then show ?thesis by (simp add: prog_proposal_def m r d)
qed

text \<open>The states of a batch stay what they are while the rest of them is fetched.\<close>

lemma fetched_all_agree:
  assumes "agree K c c'" and "\<forall>pk \<in> set pks. copyN 48 pk \<in> K" and "list_all2 (att_fetched c) pks sts"
  shows "list_all2 (att_fetched c') pks sts"
  using assms(2,3) by (simp add: list_all2_conv_all_nth fetched_agree_att [OF assms(1)])

lemma secure_fetch_states:
  "\<forall>pk \<in> set pks. copyN 48 pk \<in> K \<Longrightarrow>
   secure K (\<lambda>r la' lp' c'. la' = la \<and> lp' = lp \<and> agree K c c' \<and> (\<forall>sts. r = Ret (Inr sts) \<longrightarrow> list_all2 (att_fetched c') pks sts))
     (prog_fetch_states S pks) la lp c"
proof (induction pks arbitrary: c)
  case Nil
  show ?case by (auto intro: secure_return)
next
  case (Cons pk pks)
  let ?Q = "\<lambda>r la' lp' c'. la' = la \<and> lp' = lp \<and> agree K c c' \<and> (\<forall>sts. r = Ret (Inr sts) \<longrightarrow> list_all2 (att_fetched c') (pk # pks) sts)"
  have rest: "secure K ?Q (tx_bind (prog_fetch_states S pks) (\<lambda>rs.
      case rs of Inl e \<Rightarrow> tx_return (Inl e) | Inr sts \<Rightarrow> tx_return (Inr (st # sts)))) la lp c1"
    if c1: "agree K c c1" "att_fetched c1 pk st" for st c1
  proof (rule secure_bind [OF Cons.IH])
    show "\<forall>pk \<in> set pks. copyN 48 pk \<in> K" using Cons.prems by simp
  next
    fix rs la' lp' c2
    assume c2: "la' = la \<and> lp' = lp \<and> agree K c1 c2 \<and> (\<forall>sts. Ret rs = Ret (Inr sts) \<longrightarrow> list_all2 (att_fetched c2) pks sts)"
    with c1 Cons.prems have "agree K c c2" "att_fetched c2 pk st" by (auto simp: fetched_agree_att intro: agree_trans)
    with c2 show "secure K ?Q (case rs of Inl e \<Rightarrow> tx_return (Inl e) | Inr sts \<Rightarrow> tx_return (Inr (st # sts))) la' lp' c2"
      by (auto intro!: secure_return split: sum.splits)
  qed (auto intro: agree_trans [OF c1(1)])
  show ?case
    unfolding prog_fetch_states.simps
    by (rule secure_bind [OF secure_fetch_att]) (auto intro!: secure_return rest split: sum.splits)
qed

lemma secure_store_atts:
  assumes chk: "run_all_checks (rules_lib S) mds reqs sts = Ret xs" and len: "length mds = length reqs"
    and fet: "list_all2 (att_fetched c) (map (\<lambda>md. md_PubKey (the md)) mds) sts"
    and rng: "\<forall>req \<in> set reqs. att_in_range req" and some: "\<forall>md \<in> set mds. md \<noteq> None"
    and dist: "distinct (map (\<lambda>md. md_PubKey (the md)) mds)" and K: "\<forall>md \<in> set mds. copyN 48 (md_PubKey (the md)) \<in> K"
  shows "secure K (\<lambda>r la' lp' c'. lp' = lp \<and> (\<forall>w. r = Ret w \<longrightarrow> la' = (if w = None then la @ att_news mds reqs (map fst xs) else la)))
    (atomic (storeSignBeaconAttestationStates S (map (\<lambda>md. md_PubKey (the md)) mds) (map snd xs))) la lp c"
proof (rule secure_atomic)
  fix db alog plog r db'
  assume I: "inv alog plog db" and a: "agree K c (contents db)"
    and wr: "storeSignBeaconAttestationStates S (map (\<lambda>md. md_PubKey (the md)) mds) (map snd xs) db = (r, db')"
  have f: "list_all2 (att_fetched (contents db)) (map (\<lambda>md. md_PubKey (the md)) mds) sts"
    using fetched_all_agree [OF a _ fet] K by simp
  note bw = batch_write [OF I chk len f rng wr]
  let ?k = "\<lambda>pk. pk @ actionSignBeaconAttestation"
  have "length xs = length mds" using run_all_checks_nth [OF chk len] list_all2_lengthD [OF fet] len by simp
  with wr have "BatchStore (rules_store S) (map ?k (map (\<lambda>md. md_PubKey (the md)) mds)) (map (\<lambda>st. Encode_att (Some st)) (map snd xs)) db = (r, db')"
    by (simp add: storeSignBeaconAttestationStates_def)
  note any = kv.batch_any [OF this]
  have "contents db' key = contents db key" if "\<not> own K key" for key
    using any [of key] that K by (auto simp: set_zip)
  moreover have "inv (alog @ (if r = Ret None then att_news mds reqs (map fst xs) else [])) plog db'"
    using bw(1) bw(2) [OF _ some dist] by simp
  ultimately show "(\<forall>key. \<not> own K key \<longrightarrow> contents db' key = contents db key) \<and>
    (\<exists>la' lp'. inv (alog @ la') (plog @ lp') db' \<and> lp @ lp' = lp \<and>
       (\<forall>w. r = Ret w \<longrightarrow> la @ la' = (if w = None then la @ att_news mds reqs (map fst xs) else la)))"
    by (intro conjI exI [of _ "if r = Ret None then att_news mds reqs (map fst xs) else []"] exI [of _ "[]"]) auto
qed

lemma att_news_failed:
  "att_news mds reqs (replicate n FAILED) = []" "att_news mds reqs ((replicate n UNKNOWN)[i := FAILED]) = []"
  by (auto intro!: att_news_none dest: set_update_subset_insert [THEN subsetD])

lemma secure_attestations:
  assumes rng: "\<forall>req \<in> set reqs. att_in_range req"
    and dist: "distinct (map (\<lambda>md. md_PubKey (the md)) mds)" and K: "\<forall>md \<in> set mds. copyN 48 (md_PubKey (the md)) \<in> K"
  shows "secure K (adds (att_news mds reqs) (\<lambda>_. []) la lp) (prog_attestations S mds reqs) la lp c" (is "secure K ?Q _ _ _ _")
proof (cases "length reqs = length mds \<and> first_index (\<lambda>md. md = None) mds = None \<and> first_index bad_att_req reqs = None")
  case False
  then show ?thesis
    by (auto simp: prog_attestations_def Let_def att_news_failed split: option.splits intro!: secure_return)
next
  case True
  then have some: "\<forall>md \<in> set mds. md \<noteq> None" and len: "length mds = length reqs" by (simp_all add: first_index_None)
  let ?pks = "map (\<lambda>md. md_PubKey (the md)) mds"
  let ?store = "\<lambda>rs. tx_bind (atomic (storeSignBeaconAttestationStates S ?pks (map snd rs))) (\<lambda>e.
      case e of Some _ \<Rightarrow> tx_return (replicate (length reqs) FAILED) | None \<Rightarrow> tx_return (map fst rs))"
  have checked: "secure K ?Q (tx_bind (Done (run_all_checks (rules_lib S) mds reqs sts)) ?store) la lp c'"
    if fet: "list_all2 (att_fetched c') ?pks sts" for sts c'
  proof (cases "run_all_checks (rules_lib S) mds reqs sts")
    case (Ret rs)
    note store = secure_store_atts [OF Ret len fet rng some dist K, of lp la]
    have "secure K ?Q (?store rs) la lp c'"
      by (rule secure_bind [OF store]) (auto intro!: secure_return simp: att_news_failed split: option.splits)
    then show ?thesis unfolding Ret tx_bind.simps(1) go.case .
  qed (simp_all add: tx_bind.simps secure.simps)
  have "secure K ?Q (tx_bind (prog_fetch_states S ?pks) (\<lambda>f.
      case f of Inl e \<Rightarrow> tx_return (replicate (length reqs) FAILED)
      | Inr states \<Rightarrow> tx_bind (Done (run_all_checks (rules_lib S) mds reqs states)) ?store)) la lp c"
    by (rule secure_bind [OF secure_fetch_states]) (auto intro!: secure_return checked simp: K att_news_failed split: sum.splits)
  with True show ?thesis by (simp add: prog_attestations_def Let_def cong: sum.case_cong option.case_cong)
qed

text \<open>Every call, with the keys that it locks.\<close>

lemma secure_call:
  assumes "call_ok c"
  shows "secure (set (call_keys c)) (adds (call_atts c) (call_props c) [] []) (call_prog S c) [] [] con"
proof (cases c)
  case (Call_attestation md req)
  have "secure (set (call_keys c)) (adds (\<lambda>x. if x = APPROVED then att_entry md req else []) (\<lambda>_. []) [] []) (prog_attestation S md req) [] [] con"
    using assms Call_attestation by (intro secure_attestation) simp_all
  then show ?thesis
    unfolding Call_attestation call_prog.simps by (rule secure_bind) (auto intro!: secure_return)
next
  case (Call_proposal md req)
  have "secure (set (call_keys c)) (adds (\<lambda>_. []) (\<lambda>x. if x = APPROVED then prop_entry md req else []) [] []) (prog_proposal S md req) [] [] con"
    using assms Call_proposal by (intro secure_proposal) simp_all
  then show ?thesis
    unfolding Call_proposal call_prog.simps by (rule secure_bind) (auto intro!: secure_return)
next
  case (Call_attestations mds reqs)
  have "distinct (map (\<lambda>md. md_PubKey (the md)) mds)"
    using assms Call_attestations distinct_of_copies [of "map (\<lambda>md. md_PubKey (the md)) mds"] by (simp add: comp_def)
  with assms Call_attestations have "secure (set (call_keys c)) (adds (att_news mds reqs) (\<lambda>_. []) [] []) (prog_attestations S mds reqs) [] [] con"
    by (intro secure_attestations) simp_all
  moreover have "call_props c = (\<lambda>_. [])" "call_atts c = att_news mds reqs" using Call_attestations by auto
  ultimately show ?thesis by (simp add: Call_attestations)
qed

end

section \<open>The whole system\<close>

text \<open>What one goroutine added to a log whose entries carry the number of their goroutine.\<close>

definition mine :: "nat \<Rightarrow> (nat \<times> 'e) list \<Rightarrow> 'e list" where
  "mine i log = map snd (filter (\<lambda>e. fst e = i) log)"

lemma mine_append [simp]: "mine i (log @ map (Pair j) xs) = mine i log @ (if i = j then xs else [])"
  by (simp add: mine_def filter_map comp_def)

lemma mine_Nil [simp]: "mine i [] = []"
  by (simp add: mine_def)

lemma map_snd_Pair [simp]: "map (snd \<circ> Pair j) xs = xs"
  by (simp add: comp_def)

lemma mine_log: "e \<in> set (mine i log) \<Longrightarrow> \<exists>k < length log. log ! k = (i, e)"
  by (auto simp: mine_def in_set_conv_nth)

text \<open>Messages of two goroutines stand in a log that is ordered, one after the other.\<close>

lemma mine_ordered:
  assumes "ordered_log follows (map snd log)" and "i \<noteq> j" and "(pk, r) \<in> set (mine i log)" and "(pk, r') \<in> set (mine j log)"
  shows "follows r r' \<or> follows r' r"
proof -
  obtain k k' where k: "k < length log" "log ! k = (i, pk, r)" "k' < length log" "log ! k' = (j, pk, r')"
    using mine_log [OF assms(3)] mine_log [OF assms(4)] by blast
  with assms(2) have "k < k' \<or> k' < k" by (metis linorder_neqE_nat prod.inject)
  moreover have "fst (snd (log ! a)) = fst (snd (log ! b)) \<longrightarrow> follows (snd (snd (log ! a))) (snd (snd (log ! b)))"
    if "a < b" "b < length log" for a b
    using assms(1) that by (simp add: ordered_log_def sorted_wrt_iff_nth_less case_prod_unfold)
  note this [of k k'] this [of k' k]
  ultimately show ?thesis using k by auto
qed

context standard_rules
begin

fun task_ok :: "'db task \<Rightarrow> (bytes \<times> int \<times> int) list \<Rightarrow> (bytes \<times> int) list \<Rightarrow> kv \<Rightarrow> bool" where
  "task_ok (c, Waiting) la lp con \<longleftrightarrow> la = [] \<and> lp = []"
| "task_ok (c, Acquiring rest) la lp con \<longleftrightarrow> la = [] \<and> lp = []"
| "task_ok (c, Running t) la lp con \<longleftrightarrow> secure (set (call_keys c)) (adds (call_atts c) (call_props c) [] []) t la lp con"
| "task_ok (c, Releasing rest rs) la lp con \<longleftrightarrow> la = call_atts c rs \<and> lp = call_props c rs"
| "task_ok (c, Lost) la lp con \<longleftrightarrow> True"

definition tasks_ok :: "'db \<Rightarrow> 'db task list \<Rightarrow> bool" where
  "tasks_ok db ts \<longleftrightarrow> (\<exists>alog plog. inv (map snd alog) (map snd plog) db \<and>
     (\<forall>i < length ts. task_ok (ts ! i) (mine i alog) (mine i plog) (contents db)))"

lemma task_ok_agree:
  assumes "task_ok t la lp con" and "agree (holds (thread_of t)) con con'"
  shows "task_ok t la lp con'"
proof (cases "\<exists>c p. t = (c, Running p)")
  case True
  then obtain c p where t: "t = (c, Running p)" by blast
  with assms have sec: "secure (set (call_keys c)) (adds (call_atts c) (call_props c) [] []) p la lp con"
    and a: "agree (set (call_keys c)) con con'" by simp_all
  have "secure (set (call_keys c)) (adds (call_atts c) (call_props c) [] []) p la lp con'"
    by (rule secure_agree [OF sec a]) (simp add: adds_def)
  with t show ?thesis by simp
next
  case False
  with assms(1) show ?thesis by (cases t rule: thread_of.cases) auto
qed

text \<open>What a step does for its own goroutine, and that the entries of the others stay as they are.\<close>

lemma task_step_effect:
  assumes step: "task_step S (l, db) t (l', db') t'" and "call_ok (fst t)" and I: "inv alog plog db"
    and ok: "task_ok t la lp (contents db)"
  shows "\<exists>la' lp'. inv (alog @ la') (plog @ lp') db' \<and> task_ok t' (la @ la') (lp @ lp') (contents db') \<and>
    (\<forall>key. \<not> own (holds (thread_of t)) key \<longrightarrow> contents db' key = contents db key)"
  using step
proof cases
  case (transaction f u c)
  from ok transaction have "secure (set (call_keys c)) (adds (call_atts c) (call_props c) [] []) (Access f) la lp (contents db)" by simp
  from this [unfolded secure.simps, rule_format, OF I agree_refl] transaction
  show ?thesis by auto
next
  case (all_locked c)
  with ok assms(2) secure_call [of c] I show ?thesis by (intro exI [of _ "[]"]) auto
qed (use ok I in \<open>auto intro!: exI [of _ "[]"] simp: secure.simps\<close>)

lemma one_step_ok:
  assumes sys: "system_ok (l, map thread_of ts)" and calls: "\<forall>t \<in> set ts. call_ok (fst t)" and ok: "tasks_ok db ts"
    and i: "i < length ts" and step: "task_step S (l, db) (ts ! i) (l', db') t'"
  shows "tasks_ok db' (ts[i := t'])"
proof -
  from ok obtain alog plog where I: "inv (map snd alog) (map snd plog) db"
    and oks: "\<And>j. j < length ts \<Longrightarrow> task_ok (ts ! j) (mine j alog) (mine j plog) (contents db)"
    unfolding tasks_ok_def by blast
  from task_step_effect [OF step _ I oks [OF i]] calls i obtain la' lp' where
    I': "inv (map snd alog @ la') (map snd plog @ lp') db'"
    and t': "task_ok t' (mine i alog @ la') (mine i plog @ lp') (contents db')"
    and fr: "\<forall>key. \<not> own (holds (thread_of (ts ! i))) key \<longrightarrow> contents db' key = contents db key" by auto
  have "task_ok (ts ! j) (mine j alog) (mine j plog) (contents db')" if j: "j < length ts" "j \<noteq> i" for j
  proof (rule task_ok_agree [OF oks [OF j(1)]])
    have "holds (thread_of (ts ! i)) \<inter> holds (thread_of (ts ! j)) = {}" using sys i j by (simp add: system_ok_def)
    with fr show "agree (holds (thread_of (ts ! j))) (contents db) (contents db')" by (auto simp: agree_def own_def)
  qed
  with t' i have "\<forall>j < length (ts[i := t']). task_ok (ts[i := t'] ! j) (mine j (alog @ map (Pair i) la')) (mine j (plog @ map (Pair i) lp')) (contents db')"
    by (auto simp: nth_list_update)
  moreover from I' have "inv (map snd (alog @ map (Pair i) la')) (map snd (plog @ map (Pair i) lp')) db'" by simp
  ultimately show ?thesis unfolding tasks_ok_def by blast
qed

lemma lose_ok: "task_ok t la lp con \<Longrightarrow> task_ok (lose t) la lp con"
  by (cases t rule: lose.cases) simp_all

definition system_inv :: "(locker \<times> 'db) \<times> 'db task list \<Rightarrow> bool" where
  "system_inv = (\<lambda>((l, db), ts). system_ok (l, map thread_of ts) \<and> (\<forall>t \<in> set ts. call_ok (fst t)) \<and> tasks_ok db ts)"

lemma interleaved_inv:
  assumes "interleaved S s s'" and "system_inv s"
  shows "system_inv s'"
proof -
  obtain l db ts l' db' ts' where s: "s = ((l, db), ts)" "s' = ((l', db'), ts')" by (metis prod.exhaust)
  note inv = assms(2) [unfolded system_inv_def s prod.case]
  note st = assms(1) [unfolded s]
  from inv have ok: "system_ok (l, map thread_of ts)" "\<forall>t \<in> set ts. call_ok (fst t)" "tasks_ok db ts" by simp_all
  have "tasks_ok db' ts'" using st
  proof (cases rule: interleaved.cases)
    case (one i t')
    with one_step_ok [OF ok] show ?thesis by blast
  next
    case killed
    from ok(3) obtain alog plog where I: "inv (map snd alog) (map snd plog) db"
      and oks: "\<And>i. i < length ts \<Longrightarrow> task_ok (ts ! i) (mine i alog) (mine i plog) (contents db)"
      unfolding tasks_ok_def by blast
    have "\<forall>i < length (map lose ts). task_ok (map lose ts ! i) (mine i alog) (mine i plog) (contents db)"
      using lose_ok [OF oks] by simp
    with I show ?thesis unfolding killed tasks_ok_def by blast
  qed
  moreover have "\<forall>t \<in> set ts'. call_ok (fst t)"
    using ok(2) interleaved_calls [OF st] by (metis (no_types, lifting) image_iff list.set_map)
  ultimately show ?thesis using interleaved_locks [OF ok(1,2) st] by (simp add: system_inv_def s)
qed

lemma reachable_inv: "(interleaved S)\<^sup>*\<^sup>* s s' \<Longrightarrow> system_inv s \<Longrightarrow> system_inv s'"
  by (induction rule: rtranclp_induct) (auto intro: interleaved_inv)

lemma start_inv:
  assumes "\<forall>c \<in> set cs. call_ok c"
  shows "system_inv ((new_locker, db), map (\<lambda>c. (c, Waiting)) cs)"
proof -
  have "system_ok (starting (map call_keys cs))" using assms call_keys_distinct by (intro starting_ok) auto
  moreover have "tasks_ok db (map (\<lambda>c. (c, Waiting)) cs)"
    unfolding tasks_ok_def by (intro exI [of _ "[]"]) (simp add: inv_def att.safe_Nil pro.safe_Nil)
  ultimately show ?thesis using assms by (simp add: system_inv_def starting_def comp_def)
qed

lemma returned_not_slashable:
  assumes "system_inv (s, ts)" and "i < length ts" and "j < length ts" and "i \<noteq> j"
    and "ts ! i = (c, Releasing ks rs)" and "ts ! j = (c', Releasing ks' rs')"
  shows "(pk, e) \<in> set (call_atts c rs) \<Longrightarrow> (pk, e') \<in> set (call_atts c' rs') \<Longrightarrow> att_follows e e' \<or> att_follows e' e"
    and "(pk, n) \<in> set (call_props c rs) \<Longrightarrow> (pk, n') \<in> set (call_props c' rs') \<Longrightarrow> n \<noteq> n'"
proof -
  from assms(1) obtain db alog plog where I: "inv (map snd alog) (map snd plog) db"
    and oks: "\<And>j. j < length ts \<Longrightarrow> task_ok (ts ! j) (mine j alog) (mine j plog) (contents db)"
    by (auto simp: system_inv_def tasks_ok_def split: prod.splits)
  from oks [OF assms(2)] oks [OF assms(3)] assms(5,6)
  have m: "mine i alog = call_atts c rs" "mine i plog = call_props c rs" "mine j alog = call_atts c' rs'" "mine j plog = call_props c' rs'"
    by simp_all
  from I have o: "ordered_log att_follows (map snd alog)" "ordered_log (<) (map snd plog)"
    by (simp_all add: inv_def att.safe_def pro.safe_def)
  show "att_follows e e' \<or> att_follows e' e" if "(pk, e) \<in> set (call_atts c rs)" "(pk, e') \<in> set (call_atts c' rs')"
    using mine_ordered [OF o(1) assms(4)] that m by simp
  show "n \<noteq> n'" if "(pk, n) \<in> set (call_props c rs)" "(pk, n') \<in> set (call_props c' rs')"
    using mine_ordered [OF o(2) assms(4)] that m by fastforce
qed

end

end
