(* ===== verification/Samples_Interleaving.thy ===== *)
theory Samples_Interleaving
  imports Samples Interleaving_Safety
begin

text \<open>
  Two goroutines that ask for attestations of the same key over a database in memory: a run of the
  interleaved system that the theorems are applied to. Its steps come from two calls of the ruler.
\<close>

definition sample_att_rd :: "u64 \<times> u64 \<Rightarrow> rules_data" where
  "sample_att_rd = (\<lambda>(s, t). the (sample_rd 1 (AnySignBeaconAttestationData (Some (sample_att s t)))))"

definition sample_rule_call :: "u64 \<times> u64 \<Rightarrow> rule_call" where
  "sample_rule_call = (\<lambda>(s, t). Call_attestation
     (Some \<lparr>md_Account = ''Account'', md_PubKey = replicate 48 1, md_IP = ''10.0.0.1'', md_Client = ''client1''\<rparr>) (Some (sample_att s t)))"

definition sample_ruler_call :: "u64 \<times> u64 \<Rightarrow> (mem_db ruler_state, rules_result list) op" where
  "sample_ruler_call e = RunRules sample_rules sample_runtime (Some sample_creds) ActionSignBeaconAttestation [Some (sample_att_rd e)]"

definition sample_tasks :: "mem_db task list" where
  "sample_tasks = [(sample_rule_call (3, 4), Releasing [] [APPROVED]), (sample_rule_call (4, 6), Releasing [] [APPROVED])]"

lemma sample_first: "fst (sample_ruler_call (3, 4) sample_state) = Ret [APPROVED]"
  by code_simp

lemma sample_second: "fst (sample_ruler_call (4, 6) (snd (sample_ruler_call (3, 4) sample_state))) = Ret [APPROVED]"
  by code_simp

lemma sample_alone:
  assumes "fst (sample_ruler_call e s) = Ret rs"
  shows "alone sample_rules ((ruler_locker s, ruler_db s), (sample_rule_call e, Waiting))
    ((ruler_locker (snd (sample_ruler_call e s)), ruler_db (snd (sample_ruler_call e s))), (sample_rule_call e, Releasing [] rs))"
proof (rule RunRules_alone [OF sample_runtime_fair])
  show "RunRules sample_rules sample_runtime (Some sample_creds) ActionSignBeaconAttestation [Some (sample_att_rd e)] s = (Ret rs, snd (sample_ruler_call e s))"
    using assms by (simp add: sample_ruler_call_def prod_eq_iff)
qed (simp_all add: sample_att_rd_def sample_rd_def sample_rule_call_def call_of_def assembleMetadata_def sample_creds_def split: prod.split)

lemma sample_interleaved:
  "\<exists>s. (interleaved sample_rules)\<^sup>*\<^sup>* ((new_locker, ruler_db sample_state), map (\<lambda>c. (c, Waiting)) [sample_rule_call (3, 4), sample_rule_call (4, 6)])
     (s, sample_tasks)"
proof -
  let ?s1 = "snd (sample_ruler_call (3, 4) sample_state)"
  have start: "ruler_locker sample_state = new_locker" by (simp add: sample_state_def)
  from alone_interleaved [OF sample_alone [OF sample_first], of 0 "[(sample_rule_call (3, 4), Waiting), (sample_rule_call (4, 6), Waiting)]"] start
  have "(interleaved sample_rules)\<^sup>*\<^sup>* ((new_locker, ruler_db sample_state), [(sample_rule_call (3, 4), Waiting), (sample_rule_call (4, 6), Waiting)])
      ((ruler_locker ?s1, ruler_db ?s1), [(sample_rule_call (3, 4), Releasing [] [APPROVED]), (sample_rule_call (4, 6), Waiting)])" by simp
  moreover from alone_interleaved [OF sample_alone [OF sample_second], of 1 "[(sample_rule_call (3, 4), Releasing [] [APPROVED]), (sample_rule_call (4, 6), Waiting)]"]
  have "\<exists>s. (interleaved sample_rules)\<^sup>*\<^sup>* ((ruler_locker ?s1, ruler_db ?s1), [(sample_rule_call (3, 4), Releasing [] [APPROVED]), (sample_rule_call (4, 6), Waiting)])
      (s, sample_tasks)" by (auto simp: sample_tasks_def)
  ultimately show ?thesis by (auto intro: rtranclp_trans)
qed

lemma sample_calls_ok: "\<forall>c \<in> set [sample_rule_call (3, 4), sample_rule_call (4, 6)]. call_ok c"
  by (simp add: sample_rule_call_def att_in_range_def att_epochs_def sample_att_def)

lemma sample_call_atts:
  "call_atts (sample_rule_call (3, 4)) [APPROVED] = [(replicate 48 1, 3, 4)]"
  "call_atts (sample_rule_call (4, 6)) [APPROVED] = [(replicate 48 1, 4, 6)]"
  by (simp_all add: sample_rule_call_def att_entry_def att_epochs_def sample_att_def)

end
