(* ===== verification/Spec_Services.thy ===== *)
theory Spec_Services
  imports Samples_Dirk
begin

text \<open>
  The properties of the services around the signer: permissions, the fetcher, the unlocker, the
  managers, the lister, the scattering of work and the locker, each with a concrete instance.
\<close>

section \<open>Permissions\<close>

text \<open>
  C20. A request is allowed exactly when the client is named and known, the account has a wallet,
  and among the operations of the paths that match the account, read in order, the first one that
  speaks about the operation grants it. Everything else is denied. The implicit denial stands after
  the operations of all matching paths and not after those of each: a path that matches and says
  nothing about the operation leaves the decision to the paths after it.
\<close>

theorem check_first_decision:
  "Check R names access creds account operation \<longleftrightarrow>
     (\<exists>c w a paths ops i. creds = Some c \<and> cr_Client c \<noteq> [] \<and> names account = Inr (w, a) \<and> w \<noteq> [] \<and>
        access (cr_Client c) = Some paths \<and> ops = concat (map p_operations (filter (path_matches R w a) paths)) \<and>
        i < length ops \<and> grants operation (ops ! i) \<and> \<not> denies operation (ops ! i) \<and>
        (\<forall>j. j < i \<longrightarrow> \<not> denies operation (ops ! j) \<and> \<not> grants operation (ops ! j)))"
  by (auto simp: Check_def check_paths_decision first_decision_grant split: option.splits sum.splits if_splits)

text \<open>The first path has the list that the documentation reads as a denial of everything else; the second one grants all the same.\<close>

definition silent_access :: "string access" where
  "silent_access = [''client1'' \<mapsto>
     [\<lparr>p_wallet = ''(?i)^Wallet$'', p_account = ''(?i)^Account$'', p_operations = [''Unlock account'', ''Unlock wallet'']\<rparr>,
      \<lparr>p_wallet = ''(?i)^Wallet$'', p_account = ''(?i)^Account$'', p_operations = [''~Create account'', ''All'']\<rparr>]]"

theorem check_first_decision_witness:
  "\<not> Check sample_regexp (WalletAndAccountNames sample_wallets) silent_access (Some sample_creds) ''Wallet/Account'' ''Create account'' \<and>
   Check sample_regexp (WalletAndAccountNames sample_wallets) silent_access (Some sample_creds) ''Wallet/Account'' ''Sign''"
proof -
  let ?ops = "[''Unlock account'', ''Unlock wallet'', ''~Create account'', ''All'']"
  let ?p = "\<lparr>p_wallet = ''(?i)^Wallet$'', p_account = ''(?i)^Account$'', p_operations = [''Unlock account'', ''Unlock wallet'']\<rparr>"
  let ?q = "\<lparr>p_wallet = ''(?i)^Wallet$'', p_account = ''(?i)^Account$'', p_operations = [''~Create account'', ''All'']\<rparr>"
  have m: "path_matches sample_regexp ''Wallet'' ''Account'' ?p" "path_matches sample_regexp ''Wallet'' ''Account'' ?q" by code_simp+
  have d: "grants ''Sign'' (?ops ! 3)" "\<not> denies ''Sign'' (?ops ! 3)"
    "\<forall>j < 3. \<not> denies ''Sign'' (?ops ! j) \<and> \<not> grants ''Sign'' (?ops ! j)" by code_simp+
  have no: "\<not> Check sample_regexp (WalletAndAccountNames sample_wallets) silent_access (Some sample_creds) ''Wallet/Account'' ''Create account''"
    by code_simp
  have n: "WalletAndAccountNames sample_wallets ''Wallet/Account'' = Inr (''Wallet'', ''Account'')" by code_simp
  have a: "silent_access (cr_Client sample_creds) = Some [?p, ?q]" "cr_Client sample_creds \<noteq> []"
    by (simp_all add: silent_access_def sample_creds_def)
  have ops: "?ops = concat (map p_operations (filter (path_matches sample_regexp ''Wallet'' ''Account'') [?p, ?q]))"
    using m by simp
  have "Check sample_regexp (WalletAndAccountNames sample_wallets) silent_access (Some sample_creds) ''Wallet/Account'' ''Sign''"
    unfolding check_first_decision
    by (rule exI [of _ sample_creds], rule exI [of _ "''Wallet''"], rule exI [of _ "''Account''"], rule exI [of _ "[?p, ?q]"],
        rule exI [of _ ?ops], rule exI [of _ 3], intro conjI refl ops a d n) simp_all
  with no show ?thesis ..
qed

text \<open>
  C21. The permissions a checker is built from are those it applies: every configured client has
  one path per configured permission, in the order of the configuration, with its operations and
  with the expressions of the wallet and of the account that its name gives, each anchored at both
  ends and independent of case (all accounts, when there is no account). A client that is not
  configured is denied everything.
\<close>

theorem checker_applies_configuration:
  assumes "checker_New R names perms = Inr access" and "distinct (map fst perms)"
  shows "(\<forall>(client, ps) \<in> set perms. \<exists>paths. access client = Some paths \<and>
      list_all2 (\<lambda>pm path. p_operations path = pm_Operations pm \<and>
        (\<exists>w a. names (pm_Path pm) = Inr (w, a) \<and> w \<noteq> [] \<and> regexify R w = Inr (p_wallet path) \<and> regexify R a = Inr (p_account path))) ps paths) \<and>
    regexify R [] = re_Compile R ''(?i)^(?i).*$'' \<and>
    (\<forall>name. name \<noteq> [] \<and> \<not> HasPrefix name ''^'' \<and> \<not> HasSuffix name ''$'' \<longrightarrow> regexify R name = re_Compile R (''(?i)^'' @ name @ ''$'')) \<and>
    (\<forall>c. cr_Client c \<notin> fst ` set perms \<longrightarrow> \<not> Check R names access (Some c) account operation)"
proof (intro conjI)
  from assms(1) have p: "parse_access R names perms (\<lambda>_. None) = Inr access" by (auto simp: checker_New_def split: sum.splits)
  show "\<forall>c. cr_Client c \<notin> fst ` set perms \<longrightarrow> \<not> Check R names access (Some c) account operation"
  proof (intro allI impI)
    fix c :: credentials assume "cr_Client c \<notin> fst ` set perms"
    with parse_access_dom [OF p] have "access (cr_Client c) = None" by (auto simp: domIff)
    then show "\<not> Check R names access (Some c) account operation" by (auto simp: Check_def split: sum.splits)
  qed
  show "\<forall>(client, ps) \<in> set perms. \<exists>paths. access client = Some paths \<and>
      list_all2 (\<lambda>pm path. p_operations path = pm_Operations pm \<and>
        (\<exists>w a. names (pm_Path pm) = Inr (w, a) \<and> w \<noteq> [] \<and> regexify R w = Inr (p_wallet path) \<and> regexify R a = Inr (p_account path))) ps paths"
    unfolding compiled_def [symmetric] using parse_access_client [OF p assms(2)] parse_paths_compiled by (fastforce simp: compiled_def)
qed (simp_all add: regexify_plain)

definition sample_permissions :: "(string \<times> permissions list) list" where
  "sample_permissions = [(''client1'', [\<lparr>pm_Path = ''Wallet/Account'', pm_Operations = [''All'']\<rparr>])]"

lemma sample_checker:
  "\<exists>access. checker_New sample_regexp (WalletAndAccountNames sample_wallets) sample_permissions = Inr access"
  by (simp add: checker_New_def sample_permissions_def parse_permission_def sample_wallets_def regexify_def sample_regexp_def)

theorem checker_applies_configuration_witness:
  "\<exists>access path. checker_New sample_regexp (WalletAndAccountNames sample_wallets) sample_permissions = Inr access \<and>
     access ''client1'' = Some [path] \<and> p_operations path = [''All''] \<and> regexify sample_regexp ''Account'' = Inr (p_account path)"
proof -
  obtain access where a: "checker_New sample_regexp (WalletAndAccountNames sample_wallets) sample_permissions = Inr access"
    using sample_checker by blast
  have n: "WalletAndAccountNames sample_wallets ''Wallet/Account'' = Inr (''Wallet'', ''Account'')" by code_simp
  have "distinct (map fst sample_permissions)" by (simp add: sample_permissions_def)
  from checker_applies_configuration [OF a this, THEN conjunct1] a n show ?thesis by (auto simp: sample_permissions_def list_all2_Cons1)
qed

section \<open>Fetching accounts\<close>

text \<open>
  C22. A fetcher that has started knows every account of every wallet of the stores by its path
  and by its key, whatever the order in which the wallets were read, and a look-up by key only ever
  gives an account with that key. Wallets have different names, as have the accounts of a wallet.
\<close>

theorem started_fetcher_complete:
  assumes "fetcher_New W L rt enc stores = Inr f" and "fair_runtime rt"
    and "list_all2 (\<lambda>bs w. walletFromBytes L (Some bs) (Some ()) enc = Inr w) (concat stores) ws"
    and "well_named W L ws"
  shows "(\<forall>w \<in> set ws. \<forall>a \<in> set (wal_Accounts L w).
      FetchAccount W f (account_path (wal_Name W w) (acc_Name W a)) = Inr (w, a) \<and>
      (\<exists>w' a'. FetchAccountByKey W f (acc_PublicKey W a) = Inr (w', a'))) \<and>
    (\<forall>k w a. FetchAccountByKey W f k = Inr (w, a) \<longrightarrow> ToBytes48 (acc_PublicKey W a) = ToBytes48 k)"
  using fetcher_New_ok [OF assms] FetchAccountByKey_key [OF fetcher_New_ok(1) [OF assms]] by blast

definition sample_store :: "(string, string \<times> bytes) store_lib" where
  "sample_store = \<lparr>json_type = (\<lambda>_. Inr ''nd''), nd_DeserializeWallet = (\<lambda>_. Inr ''Wallet''),
     hd_DeserializeWallet = (\<lambda>_. Inl ''hd''), distributed_DeserializeWallet = (\<lambda>_. Inl ''distributed''),
     keystore_DeserializeWallet = (\<lambda>_. Inl ''keystore''), wal_Accounts = (\<lambda>_. [sample_account])\<rparr>"

lemma sample_fetcher_starts: "\<exists>f. fetcher_New sample_wallets sample_store sample_runtime (Some ()) [[[1]]] = Inr f"
  by (simp add: fetcher_New_def populateCaches_def sample_runtime_def load_wallet_def walletFromBytes_def sample_store_def
      add_account_cache_def Let_def)

theorem started_fetcher_complete_witness:
  "\<exists>f. fetcher_New sample_wallets sample_store sample_runtime (Some ()) [[[1]]] = Inr f \<and>
     FetchAccount sample_wallets f ''Wallet/Account'' = Inr (''Wallet'', sample_account)"
proof -
  obtain f where f: "fetcher_New sample_wallets sample_store sample_runtime (Some ()) [[[1]]] = Inr f"
    using sample_fetcher_starts by blast
  from started_fetcher_complete [OF f sample_runtime_fair, of "[''Wallet'']"]
  have "FetchAccount sample_wallets f ''Wallet/Account'' = Inr (''Wallet'', sample_account)"
    by (simp add: walletFromBytes_def sample_store_def well_named_def splits_def account_path_def sample_wallets_def sample_account_def)
  with f show ?thesis by blast
qed

text \<open>
  C23. An account that is added while the daemon runs is found by its path at once, everything that
  was found before is found as before, and keys still lead to accounts with that key. The account
  is new: neither cache has one of that name in the wallet.
\<close>

theorem added_account_found:
  assumes "AddAccount W wallet account f = (Ret None, f')" and "keys_ok W f"
    and "splits W (wal_Name W wallet) (acc_Name W account)"
    and "cached_account (walletAccounts f) (wal_Name W wallet) (acc_Name W account) = None"
    and "cached_account (rwWalletAccounts f) (wal_Name W wallet) (acc_Name W account) = None"
  shows "FetchAccount W f' (account_path (wal_Name W wallet) (acc_Name W account)) = Inr (the (wallets f (wal_Name W wallet)), account) \<and>
    (\<forall>path x. FetchAccount W f path = Inr x \<longrightarrow> FetchAccount W f' path = Inr x) \<and> keys_ok W f'"
  using FetchAccount_AddAccount_same [OF assms(1,3,4)] FetchAccount_AddAccount_other [OF assms(1,4,5)]
    keys_ok_AddAccount [OF assms(2,1,3,4,5)] by auto

lemma sample_fetcher_keys: "keys_ok sample_wallets sample_fetcher"
  by (simp add: keys_ok_def sample_fetcher_def FetchAccount_def sample_wallets_def cached_account_def sample_account_def ToBytes48_def)

theorem added_account_found_witness:
  "\<exists>f'. AddAccount sample_wallets ''Wallet'' (''New'', replicate 48 2) sample_fetcher = (Ret None, f') \<and>
     FetchAccount sample_wallets f' ''Wallet/New'' = Inr (''Wallet'', (''New'', replicate 48 2)) \<and> keys_ok sample_wallets f'"
proof -
  obtain f' where f': "AddAccount sample_wallets ''Wallet'' (''New'', replicate 48 2) sample_fetcher = (Ret None, f')"
    by (simp add: AddAccount_def sample_fetcher_def sample_wallets_def Let_def)
  from added_account_found [OF this sample_fetcher_keys] f' show ?thesis
    by (simp add: splits_def account_path_def sample_wallets_def sample_fetcher_def cached_account_def)
qed

section \<open>Unlocking\<close>

text \<open>
  C24. Unlocking an account tries the configured passphrases in order: it reports success exactly
  when one of them is accepted, the account is then as the first such passphrase leaves it, and
  otherwise nothing has changed. A refused passphrase leaves the account as it is.
\<close>

theorem unlock_account_tries_all:
  assumes "acc_is_locker W a" and "\<And>p e t. acc_Unlock W a p s = (Ret (Some e), t) \<Longrightarrow> t = s"
    and "\<And>p. \<exists>e t. acc_Unlock W a p s = (Ret e, t)"
  shows "UnlockAccount W U (Some w) (Some a) s =
    (case List.find (\<lambda>p. fst (acc_Unlock W a (Some (string_bytes p)) s) = Ret None) (accountPassphrases U) of
       None \<Rightarrow> (Ret (Inr False), s)
     | Some p \<Rightarrow> (Ret (Inr True), snd (acc_Unlock W a (Some (string_bytes p)) s)))"
  using try_passphrases_result [of "acc_Unlock W a" s "accountPassphrases U"] assms
  by (auto simp: UnlockAccount_def go_bind_def go_simps split: option.splits)

theorem unlock_account_tries_all_witness:
  "UnlockAccount sample_wallets \<lparr>walletPassphrases = [], accountPassphrases = [''wrong'', ''secret'']\<rparr> (Some ''Wallet'') (Some sample_account) [] =
     (Ret (Inr True), [''Account''])"
proof -
  have s: "string_bytes ''wrong'' \<noteq> string_bytes ''secret''" by code_simp
  show ?thesis
    by (subst unlock_account_tries_all) (use s in \<open>auto simp: sample_wallets_def sample_account_def split: if_splits\<close>)
qed

section \<open>Scattered work\<close>

text \<open>
  C25. Whatever the number of processors, the extents into which work on \<open>n\<close> items is cut follow
  one another and cover every item exactly once, and there are fewer than twice as many goroutines
  as processors.
\<close>

theorem extents_cover_input:
  assumes "0 < GOMAXPROCS rt"
  shows "concat (map (extent rt n) [0..<workers rt n]) = [0..<n] \<and> (GOMAXPROCS rt \<le> n \<longrightarrow> workers rt n < 2 * GOMAXPROCS rt)"
  using extents_partition workers_bound [OF assms] by blast

theorem extents_cover_input_witness:
  "concat (map (extent sample_runtime 5) [0..<workers sample_runtime 5]) = [0..<5]"
  using extents_cover_input [of sample_runtime 5] by (simp add: sample_runtime_def)

section \<open>Locks\<close>

text \<open>
  A group of keys is locked as a whole: when the keys are distinct and free, the caller gets
  all of them without blocking; when a key is repeated or held by another, it blocks, so that no
  two callers ever hold the same key.
\<close>

lemma group_lock:
  assumes "\<not> newLockMutex s" and "\<not> mapLock s"
  shows "if distinct keys \<and> set keys \<inter> held_keys s = {}
    then \<exists>s'. lock_keys keys s = (Ret (), s') \<and> held_keys s' = held_keys s \<union> set keys \<and> \<not> newLockMutex s' \<and> \<not> mapLock s'
    else \<exists>s'. lock_keys keys s = (Block, s')"
proof (cases "distinct keys \<and> set keys \<inter> held_keys s = {}")
  case True
  with syncmap.lock_group [of s keys] assms show ?thesis by (auto simp: lock_keys_def)
next
  case False
  obtain s1 where s1: "PreLock s = (Ret (), s1)" "\<not> newLockMutex s1" "held_keys s1 = held_keys s"
    using syncmap.pre_free assms by blast
  with syncmap.lock_list_blocks [of s1 keys] False show ?thesis by (auto simp: lock_keys_def go_bind_def)
qed

section \<open>Listing and managing accounts\<close>

text \<open>
  C27. A listing for a named client always succeeds and gives exactly the accounts that the paths
  denote: those of the wallet of a path whose name matches the rest of it, that have a public key
  and that the client may access. Nothing that the client may not access is listed.
\<close>

theorem listing_exact:
  assumes "standard_rules (cf_rules C) contents" and "fair_runtime rt" and "cr_Client c \<noteq> []" and "quiet (w_ruler w)"
  shows "\<exists>as w'. ListAccounts (cf_regexp C) (dirk_manager C generate) rt (Some c) paths w = (Ret (ResultSucceeded, Some as), w') \<and>
    set as = {a. \<exists>path \<in> set paths. listable C (w_fetcher w) c path a}"
proof -
  have "dirk_client C contents rt c" using assms(1-3) by (simp add: dirk_client_def dirk_client_axioms_def dirk_def)
  from dirk_client.accounts_listed [OF this assms(4) refl, of generate paths]
  show ?thesis by (fastforce simp: path_accounts_listable)
qed

theorem listing_exact_witness:
  "\<exists>as w'. ListAccounts sample_regexp (dirk_manager sample_config (\<lambda>_ _ _ _ _. go_return (Inl ''no process'') :: (_, err + bytes \<times> unit list) op))
      sample_runtime (Some sample_creds) [''Wallet/Account''] sample_world = (Ret (ResultSucceeded, Some as), w') \<and>
    set as = {a. listable sample_config sample_fetcher sample_creds ''Wallet/Account'' a}"
  using listing_exact [OF sample_dirk.standard_rules_axioms sample_runtime_fair, of sample_creds sample_world
      "\<lambda>_ _ _ _ _. go_return (Inl ''no process'') :: (_, err + bytes \<times> unit list) op" "[''Wallet/Account'']"]
  by (simp add: sample_creds_def sample_world_def sample_state_quiet sample_config_def)

text \<open>
  C28. An account is unlocked on request only when it was found under the name of the request, the
  permissions let the client unlock it and the rules approved, and then with the passphrase of
  the request.
\<close>

theorem account_unlock_allowed:
  assumes "account_Unlock M rt creds name passphrase s = (Ret (ResultSucceeded, e), s')"
  shows "\<exists>a s2. account_allowed M rt creds ActionUnlockAccount AnyUnlockAccountData name s a s2 \<and>
    (if acc_is_locker (mg_lib M) a then acc_Unlock (mg_lib M) a passphrase s2 = (Ret None, s') else s' = s2)"
  by (rule account_Unlock_succeeds [OF assms])

definition sample_generate :: "credentials option \<Rightarrow> string \<Rightarrow> bytes option \<Rightarrow> u32 \<Rightarrow> u32 \<Rightarrow>
  ((mem_db, string list, string, string \<times> bytes) world, err + bytes \<times> unit list) op" where
  "sample_generate = (\<lambda>_ _ _ _ _. go_return (Inr (replicate 48 3, [])))"

lemma sample_unlock:
  "fst (account_Unlock (dirk_manager sample_config sample_generate) sample_runtime (Some sample_creds) ''Wallet/Account''
     (Some (string_bytes ''secret'')) sample_world) = Ret (ResultSucceeded, None)"
  by code_simp

theorem account_unlock_allowed_witness:
  "\<exists>a s2. account_allowed (dirk_manager sample_config sample_generate) sample_runtime (Some sample_creds) ActionUnlockAccount
     AnyUnlockAccountData ''Wallet/Account'' sample_world a s2"
  using account_unlock_allowed [of "dirk_manager sample_config sample_generate" sample_runtime "Some sample_creds" "''Wallet/Account''"
      "Some (string_bytes ''secret'')" sample_world None] sample_unlock
  by (metis prod.collapse)

text \<open>
  C29. A request to lock a wallet succeeds exactly when the wallet was found, the client may lock
  it, the rules approved or gave an unknown result, and the wallet, if it can be locked, was locked:
  the code goes on with an unknown result as it does with an approval.
\<close>

theorem wallet_lock_allowed:
  "wallet_Lock M rt creds name s = (Ret (ResultSucceeded, None), s') \<longleftrightarrow> (creds \<noteq> None \<and> name \<noteq> []) \<and>
    (\<exists>w s2 res. res \<in> {APPROVED, UNKNOWN} \<and> wallet_allowed M rt creds ActionLockWallet AnyLockWalletData name s res w s2 \<and>
      (if wal_is_locker (mg_lib M) w then wal_Lock (mg_lib M) w s2 = (Ret None, s') else s' = s2))"
proof
  assume run: "wallet_Lock M rt creds name s = (Ret (ResultSucceeded, None), s')"
  then have "creds \<noteq> None" "name \<noteq> []"
    by (auto simp: wallet_Lock_def wallet_preCheck_def fetchWallet_def go_bind_def go_simps split: if_splits)
  with wallet_Lock_succeeds [OF run] show "(creds \<noteq> None \<and> name \<noteq> []) \<and>
    (\<exists>w s2 res. res \<in> {APPROVED, UNKNOWN} \<and> wallet_allowed M rt creds ActionLockWallet AnyLockWalletData name s res w s2 \<and>
      (if wal_is_locker (mg_lib M) w then wal_Lock (mg_lib M) w s2 = (Ret None, s') else s' = s2))" by blast
next
  assume "(creds \<noteq> None \<and> name \<noteq> []) \<and>
    (\<exists>w s2 res. res \<in> {APPROVED, UNKNOWN} \<and> wallet_allowed M rt creds ActionLockWallet AnyLockWalletData name s res w s2 \<and>
      (if wal_is_locker (mg_lib M) w then wal_Lock (mg_lib M) w s2 = (Ret None, s') else s' = s2))"
  then obtain w s2 res where c: "creds \<noteq> None \<and> name \<noteq> []" "res \<in> {APPROVED, UNKNOWN}"
    "wallet_allowed M rt creds ActionLockWallet AnyLockWalletData name s res w s2"
    "if wal_is_locker (mg_lib M) w then wal_Lock (mg_lib M) w s2 = (Ret None, s') else s' = s2" by blast
  show "wallet_Lock M rt creds name s = (Ret (ResultSucceeded, None), s')" by (rule wallet_Lock_goes_on [OF c])
qed

definition sample_admin :: "(mem_db, string list, string, string \<times> bytes, string) config" where
  "sample_admin = sample_config\<lparr>cf_access := [''client1'' \<mapsto> [\<lparr>p_wallet = ''(?i)^Wallet$'', p_account = ''(?i)^$'', p_operations = [''All'']\<rparr>,
     \<lparr>p_wallet = ''(?i)^Wallet$'', p_account = ''(?i)^New$'', p_operations = [''All'']\<rparr>]]\<rparr>"

lemma sample_wallet_lock:
  "fst (wallet_Lock (dirk_manager sample_admin sample_generate) sample_runtime (Some sample_creds) ''Wallet'' sample_world) =
     Ret (ResultSucceeded, None)"
  by code_simp

text \<open>The same wallet when the rules give an unknown result.\<close>

theorem wallet_lock_allowed_witness:
  "\<exists>s'. wallet_Lock ((dirk_manager sample_admin sample_generate)\<lparr>mg_RunRules := \<lambda>_ _ _ _. go_return [UNKNOWN]\<rparr>) sample_runtime
     (Some sample_creds) ''Wallet'' sample_world = (Ret (ResultSucceeded, None), s')"
proof -
  let ?M = "dirk_manager sample_admin sample_generate"
  let ?U = "?M\<lparr>mg_RunRules := \<lambda>_ _ _ _. go_return [UNKNOWN]\<rparr>"
  from sample_wallet_lock obtain s' where "wallet_Lock ?M sample_runtime (Some sample_creds) ''Wallet'' sample_world = (Ret (ResultSucceeded, None), s')"
    by (metis prod.collapse)
  then obtain w s1 where w: "mg_FetchWallet ?M ''Wallet'' sample_world = (Ret (Inr w), s1)"
    "mg_Check ?M (Some sample_creds) (wal_Name (mg_lib ?M) w) ActionLockWallet"
    unfolding wallet_lock_allowed wallet_allowed_def by blast
  have "\<not> wal_is_locker (mg_lib ?U) w" by (simp add: dirk_manager_def world_lib_def lift_lib_def sample_admin_def sample_config_def sample_wallets_def)
  moreover have "wallet_allowed ?U sample_runtime (Some sample_creds) ActionLockWallet AnyLockWalletData ''Wallet'' sample_world UNKNOWN w s1"
    using w by (simp add: wallet_allowed_def go_simps)
  ultimately have "wallet_Lock ?U sample_runtime (Some sample_creds) ''Wallet'' sample_world = (Ret (ResultSucceeded, None), s1)"
    unfolding wallet_lock_allowed by auto
  then show ?thesis ..
qed

text \<open>
  An account is generated through the account manager only when the permissions let the
  client create it, there are participants and the threshold does not exceed their number; the
  answer is that of the key generation.
\<close>

lemma generate_allowed:
  assumes "Generate M rt creds account passphrase t n s = (Ret (ResultSucceeded, x, e), s')"
  shows "mg_Check M creds account ActionCreateAccount \<and> 0 < n \<and> t \<le> n \<and>
    (\<exists>s2 g. x = Some g \<and> mg_OnGenerate M creds account passphrase t n s2 = (Ret (Inr g), s'))"
  using Generate_succeeds [OF assms] by blast

section \<open>Stored state\<close>

text \<open>
  C31. The stored forms are read back as they were written: for every signed 64-bit value of the
  epochs and the slot, negative ones included, decoding an encoded state gives that state, whatever
  the state that is decoded into.
\<close>

theorem state_round_trip:
  "Decode_att L (Encode_att (Some st)) st0 = Inr st \<and> Decode_prop L (Encode_prop (Some ps)) ps0 = Inr ps"
  by simp

end
