(* ===== verification/Peers.thy ===== *)
theory Peers
  imports Go_Strings Scatter
begin

text \<open>
  The other instances of a cluster: an endpoint (\<open>core/endpoint.go\<close>) and the static list of peers
  (\<open>services/peers/static\<close>), together with the look-up that the receiver makes to find out who is
  calling (\<open>services/api/grpc/handlers/receiver/helpers.go\<close>).
\<close>

record endpoint =
  ep_ID :: u64
  ep_Name :: string
  ep_Port :: u32

text \<open>\<open>net.JoinHostPort\<close>: a host with a colon is put in brackets.\<close>

definition JoinHostPort :: "string \<Rightarrow> string \<Rightarrow> string" where
  "JoinHostPort host port =
     (if CHR '':'' \<in> set host then ''['' @ host @ '']:'' @ port else host @ '':'' @ port)"

definition ConnectAddress :: "endpoint \<Rightarrow> string" where
  "ConnectAddress e = JoinHostPort (ep_Name e) (sprint_nat (unat (ep_Port e)))"

definition endpoint_String :: "endpoint \<Rightarrow> string" where
  "endpoint_String e = ConnectAddress e"

type_synonym peers = "(u64 \<times> endpoint) list"

section \<open>The service\<close>

text \<open>One configured peer: \<open>name:port\<close> under its identifier.\<close>

definition parse_peer :: "string list \<Rightarrow> u64 \<Rightarrow> string \<Rightarrow> err + endpoint" where
  "parse_peer names pid v =
     (case Split v (CHR '':'') of
        [name, port] \<Rightarrow>
          if name \<in> set names then Inl (''duplicate peer name '' @ name)
          else (case ParseUint port 32 of
                  Inl e \<Rightarrow> Inl (''malformed peer port for '' @ v)
                | Inr p \<Rightarrow>
                    if p = 0 then Inl (''invalid peer port for '' @ v)
                    else Inr \<lparr>ep_ID = pid, ep_Name = name, ep_Port = of_nat p\<rparr>)
      | _ \<Rightarrow> Inl (''malformed peer '' @ v))"

fun parse_peers :: "(u64 \<times> string) list \<Rightarrow> string list \<Rightarrow> peers \<Rightarrow> err + peers" where
  "parse_peers [] names servicePeers = Inr servicePeers"
| "parse_peers ((pid, v) # rest) names servicePeers =
     (case parse_peer names pid v of
        Inl e \<Rightarrow> Inl e
      | Inr ep \<Rightarrow> parse_peers rest (ep_Name ep # names) (AList.update pid ep servicePeers))"

definition peers_New :: "go_runtime \<Rightarrow> (u64 \<times> string) list \<Rightarrow> err + peers" where
  "peers_New rt config =
     (if config = [] then Inl (wrap_err ''problem with parameters'' ''no peers specified'')
      else parse_peers (map_range rt config) [] [])"

definition Peer :: "peers \<Rightarrow> u64 \<Rightarrow> err + endpoint" where
  "Peer ps pid = (case map_of ps pid of None \<Rightarrow> Inl ''not found'' | Some p \<Rightarrow> Inr p)"

definition All_peers :: "peers \<Rightarrow> peers" where
  "All_peers ps = ps"

text \<open>
  \<open>Suitable\<close>: the result slice has \<open>threshold\<close> places; the loop fills the next one and stops when
  all are filled. With no place at all the first peer is written out of range.
\<close>

fun suitable_loop :: "nat \<Rightarrow> endpoint list \<Rightarrow> endpoint list \<Rightarrow> endpoint list go" where
  "suitable_loop threshold [] res = Ret res"
| "suitable_loop threshold (p # ps) res =
     (if threshold \<le> length res then Panic index_out_of_range
      else if Suc (length res) = threshold then Ret (res @ [p])
      else suitable_loop threshold ps (res @ [p]))"

definition Suitable :: "go_runtime \<Rightarrow> peers \<Rightarrow> u32 \<Rightarrow> (err + endpoint list) go" where
  "Suitable rt ps threshold =
     (case suitable_loop (unat threshold) (map snd (map_range rt ps)) [] of
        Ret res \<Rightarrow> if length res < unat threshold then Ret (Inl ''not enough suitable peers'') else Ret (Inr res)
      | Panic e \<Rightarrow> Panic e
      | Block \<Rightarrow> Block)"

text \<open>The identifier of the caller, found by the name in its certificate; zero when there is none.\<close>

definition senderID :: "go_runtime \<Rightarrow> peers \<Rightarrow> string option \<Rightarrow> u64" where
  "senderID rt ps client =
     (case client of
        None \<Rightarrow> 0
      | Some name \<Rightarrow>
          (case List.find (\<lambda>(pid, p). ep_Name p = name) (map_range rt (All_peers ps)) of
             None \<Rightarrow> 0
           | Some (pid, p) \<Rightarrow> pid))"

section \<open>What a list of peers promises\<close>

text \<open>Every peer stands under its own identifier, and no two share an identifier or a name.\<close>

definition peers_ok :: "peers \<Rightarrow> bool" where
  "peers_ok ps \<longleftrightarrow> distinct (map fst ps) \<and> distinct (map (ep_Name \<circ> snd) ps) \<and> (\<forall>(pid, p) \<in> set ps. ep_ID p = pid \<and> ep_Port p \<noteq> 0)"

lemma parse_peer_ok:
  assumes "parse_peer names pid v = Inr ep"
  shows "ep_ID ep = pid" and "ep_Name ep \<notin> set names" and "ep_Port ep \<noteq> 0"
    and "Split v (CHR '':'') = [ep_Name ep, port] \<Longrightarrow> ParseUint port 32 = Inr (unat (ep_Port ep))"
proof -
  from assms obtain name port p where s: "Split v (CHR '':'') = [name, port]" "name \<notin> set names" "ParseUint port 32 = Inr p" "p \<noteq> 0"
    and ep: "ep = \<lparr>ep_ID = pid, ep_Name = name, ep_Port = of_nat p\<rparr>"
    by (auto simp: parse_peer_def split: list.splits if_splits sum.splits)
  have "p < 2 ^ 32" using s(3) by (auto simp: ParseUint_def split: if_splits option.splits)
  then have u: "unat (of_nat p :: u32) = p" by (simp add: unat_of_nat take_bit_nat_eq_self)
  then show "ep_Port ep \<noteq> 0" using s(4) ep by (metis endpoint.select_convs(3) unat_0)
  show "ep_ID ep = pid" "ep_Name ep \<notin> set names" using ep s by simp_all
  show "Split v (CHR '':'') = [ep_Name ep, port] \<Longrightarrow> ParseUint port 32 = Inr (unat (ep_Port ep))" for port
    using ep s u by auto
qed

lemma parse_peers_ok:
  "parse_peers cfg names acc = Inr ps \<Longrightarrow> peers_ok acc \<Longrightarrow> distinct (map fst cfg) \<Longrightarrow> fst ` set cfg \<inter> fst ` set acc = {} \<Longrightarrow>
     set names = (ep_Name \<circ> snd) ` set acc \<Longrightarrow> peers_ok ps \<and> fst ` set ps = fst ` set cfg \<union> fst ` set acc"
proof (induction cfg arbitrary: names acc)
  case (Cons x cfg)
  obtain pid v where x: "x = (pid, v)" by force
  with Cons.prems obtain ep where ep: "parse_peer names pid v = Inr ep"
    and rest: "parse_peers cfg (ep_Name ep # names) (AList.update pid ep acc) = Inr ps" by (auto split: sum.splits)
  have new: "AList.update pid ep acc = acc @ [(pid, ep)]"
    using Cons.prems(4) x by (induction acc) auto
  have "peers_ok (acc @ [(pid, ep)])"
    using Cons.prems(2,4,5) x parse_peer_ok(1-3) [OF ep] by (auto simp: peers_ok_def)
  from Cons.IH [OF rest [unfolded new] this] Cons.prems x show ?case by auto
qed simp

lemma peers_New_ok:
  assumes "peers_New rt cfg = Inr ps" and "fair_runtime rt" and "distinct (map fst cfg)"
  shows "peers_ok ps" and "fst ` set ps = fst ` set cfg"
  using parse_peers_ok [of "map_range rt cfg" "[]" "[]" ps] assms distinct_map_range [OF assms(2,3)]
  by (auto simp: peers_New_def peers_ok_def set_map_range split: if_splits)

lemma suitable_loop_take:
  "length res < n \<Longrightarrow> suitable_loop n ps res = Ret (res @ take (n - length res) ps)"
proof (induction ps arbitrary: res)
  case (Cons p ps)
  show ?case
  proof (cases "Suc (length res) = n")
    case True
    then have "n - length res = Suc 0" by arith
    with True show ?thesis by simp
  next
    case False
    with Cons have "n - length res = Suc (n - length (res @ [p]))" by simp
    with Cons False show ?thesis by simp
  qed
qed simp

lemma Suitable_result:
  assumes "fair_runtime rt" and "peers_ok ps" and "0 < threshold"
  shows "if unat threshold \<le> length ps
    then \<exists>res. Suitable rt ps threshold = Ret (Inr res) \<and> length res = unat threshold \<and> distinct (map ep_ID res) \<and> set res \<subseteq> snd ` set ps
    else Suitable rt ps threshold = Ret (Inl ''not enough suitable peers'')"
proof -
  let ?n = "unat threshold" and ?qs = "map snd (map_range rt ps)"
  have n: "0 < ?n" using assms(3) by (simp add: unat_gt_0 word_neq_0_conv)
  have len: "length ?qs = length ps" using mset_map_range [OF assms(1), of ps] by (metis length_map mset_eq_length)
  have "map ep_ID ?qs = map fst (map_range rt ps)"
    using assms(2) set_map_range [OF assms(1), of ps] by (auto simp: peers_ok_def)
  moreover have "distinct (map fst (map_range rt ps))"
    using distinct_map_range [OF assms(1), of ps] assms(2) by (simp add: peers_ok_def)
  ultimately have "distinct (map ep_ID ?qs)" by (simp only:)
  then have d: "distinct (map ep_ID (take ?n ?qs))" by (metis distinct_take take_map)
  have s: "set (take ?n ?qs) \<subseteq> snd ` set ps"
    using set_take_subset [of ?n ?qs] set_map_range [OF assms(1), of ps] by auto
  show ?thesis using suitable_loop_take [of "[]" ?n ?qs] n len d s by (simp add: Suitable_def)
qed

lemma senderID_named:
  assumes "fair_runtime rt" and "peers_ok ps" and "(pid, p) \<in> set ps"
  shows "senderID rt ps (Some (ep_Name p)) = pid"
proof -
  have "(pid, p) \<in> set (map_range rt ps)" using assms by (simp add: set_map_range)
  then obtain y where y: "List.find (\<lambda>(i, q). ep_Name q = ep_Name p) (map_range rt ps) = Some y"
    by (metis (mono_tags, lifting) case_prodI find_None_iff not_None_eq)
  then have "y \<in> set ps" "ep_Name (snd y) = ep_Name p"
    using set_map_range [OF assms(1), of ps] by (auto simp: find_Some_iff case_prod_beta)
  with assms(2,3) have "y = (pid, p)" by (auto simp: peers_ok_def distinct_map inj_on_def)
  with y show ?thesis by (simp add: senderID_def All_peers_def)
qed

lemma senderID_known:
  assumes "fair_runtime rt" and "senderID rt ps client = pid" and "pid \<noteq> 0"
  shows "\<exists>p. (pid, p) \<in> set ps \<and> client = Some (ep_Name p)"
proof -
  from assms(2,3) obtain name y where y: "client = Some name" "List.find (\<lambda>(i, q). ep_Name q = name) (map_range rt ps) = Some y" "fst y = pid"
    by (auto simp: senderID_def All_peers_def split: option.splits)
  from y(2) have "y \<in> set ps" "ep_Name (snd y) = name"
    using set_map_range [OF assms(1), of ps] by (auto simp: find_Some_iff case_prod_beta)
  with y show ?thesis by (cases y) auto
qed

end
