(* ===== verification/Process.thy ===== *)
theory Process
  imports Peers Ruler Wallets
begin

text \<open>
  Key generation (\<open>services/process/standard\<close>): the handlers of one instance for the messages of a
  distributed key generation, and the coordinator that runs one. The signature library, the clock,
  the random numbers, the wallets, the other services and the sender are the fields of a record.
  Every handler holds \<open>generationsMu\<close> from its first access to the generations to its end, so it is
  one operation on the state of the instance.
\<close>

section \<open>The signature library\<close>

text \<open>
  What is used of \<open>bls-eth-go-binary\<close>. \<open>sk_Set\<close> and \<open>pk_Set\<close> evaluate a polynomial, given by its
  coefficients, at an identifier. \<open>sk_zero\<close> and \<open>pk_zero\<close> are the zero values of the Go types.
\<close>

record ('sk, 'pk, 'sig, 'i) bls_lib =
  sk_zero :: 'sk
  sk_Add :: "'sk \<Rightarrow> 'sk \<Rightarrow> 'sk"
  sk_Set :: "'sk list \<Rightarrow> 'i \<Rightarrow> err + 'sk"
  GetPublicKey :: "'sk \<Rightarrow> 'pk"
  pk_zero :: 'pk
  pk_Add :: "'pk \<Rightarrow> 'pk \<Rightarrow> 'pk"
  pk_Set :: "'pk list \<Rightarrow> 'i \<Rightarrow> err + 'pk"
  pk_IsEqual :: "'pk \<Rightarrow> 'pk \<Rightarrow> bool"
  SetLittleEndian :: "bytes \<Rightarrow> err + 'i"
  SignByte :: "'sk \<Rightarrow> bytes \<Rightarrow> 'sig"
  sig_Recover :: "'sig list \<Rightarrow> 'i list \<Rightarrow> err + 'sig"
  VerifyByte :: "'sig \<Rightarrow> 'pk \<Rightarrow> bytes \<Rightarrow> bool"
  sk_Serialize :: "'sk \<Rightarrow> bytes"
  sk_Deserialize :: "bytes \<Rightarrow> err + 'sk"
  pk_Serialize :: "'pk \<Rightarrow> bytes"
  pk_Deserialize :: "bytes \<Rightarrow> err + 'pk"
  sig_Serialize :: "'sig \<Rightarrow> bytes"
  sig_Deserialize :: "bytes \<Rightarrow> err + 'sig"

definition BLSID :: "('sk, 'pk, 'sig, 'i) bls_lib \<Rightarrow> u64 \<Rightarrow> 'i go" where
  "BLSID B n = (case SetLittleEndian B (PutUint64 n) of Inl e \<Rightarrow> Panic e | Inr i \<Rightarrow> Ret i)"

section \<open>State of an instance\<close>

definition ErrNotFound :: err where "ErrNotFound = ''not found''"
definition ErrInProgress :: err where "ErrInProgress = ''in progress''"
definition ErrNotInProgress :: err where "ErrNotInProgress = ''not in progress''"
definition ErrNotCreated :: err where "ErrNotCreated = ''not created''"

record ('sk, 'pk) generation =
  g_processStarted :: int
  g_id :: u64
  g_account :: string
  g_passphrase :: "bytes option"
  g_threshold :: u32
  g_participants :: "endpoint list"
  g_distributionSecrets :: "(u64 \<times> 'sk) list"
  g_sharedSecrets :: "(u64 \<times> 'sk) list"
  g_sharedVVecs :: "(u64 \<times> 'pk list) list"

record ('sk, 'pk, 'e) node =
  nd_generations :: "string \<Rightarrow> ('sk, 'pk) generation option"
  nd_env :: 'e

text \<open>What is used of the wallet packages, the unlocker and the fetcher.\<close>

record ('e, 'wal, 'acc) key_store =
  ks_Names :: "string \<Rightarrow> err + string \<times> string"
  ks_OpenWallet :: "string \<Rightarrow> ('e, err + 'wal) op"
  ks_OpenDistributed :: "string \<Rightarrow> ('e, err + 'wal) op"
  ks_wal_Type :: "'wal \<Rightarrow> string"
  ks_wal_is_locker :: "'wal \<Rightarrow> bool"
  ks_wal_Unlock :: "'wal \<Rightarrow> bytes option \<Rightarrow> ('e, err option) op"
  ks_wal_Lock :: "'wal \<Rightarrow> ('e, err option) op"
  ks_UnlockWallet :: "'wal \<Rightarrow> ('e, err + bool) op"
  ks_wal_is_by_name :: "'wal \<Rightarrow> bool"
  ks_AccountByName :: "'wal \<Rightarrow> string \<Rightarrow> ('e, err + 'acc) op"
  ks_wal_is_creator :: "'wal \<Rightarrow> bool"
  ks_CreateAccount :: "'wal \<Rightarrow> string \<Rightarrow> bytes option \<Rightarrow> ('e, err + 'acc) op"
  ks_wal_is_importer :: "'wal \<Rightarrow> bool"
  ks_ImportDistributedAccount ::
    "'wal \<Rightarrow> string \<Rightarrow> bytes \<Rightarrow> u32 \<Rightarrow> bytes list \<Rightarrow> (u64 \<times> string) list \<Rightarrow> bytes option \<Rightarrow> ('e, err + 'acc) op"
  ks_AddAccount :: "'wal \<Rightarrow> 'acc \<Rightarrow> ('e, err option) op"
  ks_acc_PublicKey :: "'acc \<Rightarrow> bytes"

record ('e, 'sk, 'pk, 'sig, 'i, 'wal, 'acc) process =
  ps_bls :: "('sk, 'pk, 'sig, 'i) bls_lib"
  ps_id :: u64
  ps_generationPassphrase :: bytes
  ps_generationTimeout :: int
  ps_Now :: "'e \<Rightarrow> int"
  ps_CSPRNG :: "('e, 'sk) op"
  ps_randRead :: "nat \<Rightarrow> ('e, err + bytes) op"
  ps_Check :: "credentials option \<Rightarrow> string \<Rightarrow> string \<Rightarrow> bool"
  ps_Peer :: "u64 \<Rightarrow> err + endpoint"
  ps_Suitable :: "u32 \<Rightarrow> (err + endpoint list) go"
  ps_Prepare :: "endpoint \<Rightarrow> string \<Rightarrow> bytes option \<Rightarrow> u32 \<Rightarrow> endpoint list \<Rightarrow> ('e, err option) op"
  ps_Execute :: "endpoint \<Rightarrow> string \<Rightarrow> ('e, err option) op"
  ps_Commit :: "endpoint \<Rightarrow> string \<Rightarrow> bytes \<Rightarrow> ('e, err + bytes \<times> bytes) op"
  ps_SendContribution :: "endpoint \<Rightarrow> string \<Rightarrow> 'sk \<Rightarrow> 'pk list \<Rightarrow> ('e, err + 'sk \<times> 'pk list) op"
  ps_store :: "('e, 'wal, 'acc) key_store"

definition on_env :: "('e, 'a) op \<Rightarrow> (('sk, 'pk, 'e) node, 'a) op" where
  "on_env = go_zoom nd_env (\<lambda>e s. s\<lparr>nd_env := e\<rparr>)"

definition put_generation :: "string \<Rightarrow> ('sk, 'pk) generation \<Rightarrow> (('sk, 'pk, 'e) node, unit) op" where
  "put_generation account g = go_update (\<lambda>s. s\<lparr>nd_generations := (nd_generations s)(account \<mapsto> g)\<rparr>)"

definition del_generation :: "string \<Rightarrow> (('sk, 'pk, 'e) node, unit) op" where
  "del_generation account = go_update (\<lambda>s. s\<lparr>nd_generations := (nd_generations s)(account := None)\<rparr>)"

text \<open>Reading a Go map at a missing key gives the zero value.\<close>

definition map_get :: "'v \<Rightarrow> ('k \<times> 'v) list \<Rightarrow> 'k \<Rightarrow> 'v" where
  "map_get zero m k = (case map_of m k of None \<Rightarrow> zero | Some v \<Rightarrow> v)"

definition getGeneration ::
  "('e, 'sk, 'pk, 'sig, 'i, 'wal, 'acc) process \<Rightarrow> string \<Rightarrow> (('sk, 'pk, 'e) node, err + ('sk, 'pk) generation) op" where
  "getGeneration P account =
     (\<lambda>s. case nd_generations s account of
            None \<Rightarrow> (Ret (Inl ErrNotFound), s)
          | Some g \<Rightarrow>
              if ps_generationTimeout P < ps_Now P (nd_env s) - g_processStarted g
              then (Ret (Inl ErrNotFound), s\<lparr>nd_generations := (nd_generations s)(account := None)\<rparr>)
              else (Ret (Inr g), s))"

section \<open>Contributions\<close>

text \<open>The secret coefficients of our polynomial.\<close>

fun random_keys :: "('e, 'sk, 'pk, 'sig, 'i, 'wal, 'acc) process \<Rightarrow> nat \<Rightarrow> ('e, 'sk list) op" where
  "random_keys P 0 = go_return []"
| "random_keys P (Suc n) =
     go_bind (ps_CSPRNG P) (\<lambda>k. go_bind (random_keys P n) (\<lambda>ks. go_return (k # ks)))"

text \<open>The value of the polynomial for every participant.\<close>

fun make_secrets ::
  "('sk, 'pk, 'sig, 'i) bls_lib \<Rightarrow> 'sk list \<Rightarrow> endpoint list \<Rightarrow> (u64 \<times> 'sk) list \<Rightarrow> (err + (u64 \<times> 'sk) list) go" where
  "make_secrets B sks [] secrets = Ret (Inr secrets)"
| "make_secrets B sks (p # ps) secrets =
     (case BLSID B (ep_ID p) of
        Ret i \<Rightarrow>
          (case sk_Set B sks i of
             Inl e \<Rightarrow> Ret (Inl (wrap_err ''failed to set contribution'' e))
           | Inr secret \<Rightarrow> make_secrets B sks ps (AList.update (ep_ID p) secret secrets))
      | Panic e \<Rightarrow> Panic e
      | Block \<Rightarrow> Block)"

fun confirm_secrets ::
  "('sk, 'pk, 'sig, 'i) bls_lib \<Rightarrow> 'pk list \<Rightarrow> (u64 \<times> 'sk) list \<Rightarrow> err option go" where
  "confirm_secrets B verificationKeys [] = Ret None"
| "confirm_secrets B verificationKeys ((k, v) # rest) =
     (case BLSID B k of
        Ret i \<Rightarrow>
          (case pk_Set B verificationKeys i of
             Inl e \<Rightarrow> Ret (Some (wrap_err ''failed to create contribution'' e))
           | Inr vVecKey \<Rightarrow>
               if \<not> pk_IsEqual B (GetPublicKey B v) vVecKey then Ret (Some ''failed to verify contribution'')
               else confirm_secrets B verificationKeys rest)
      | Panic e \<Rightarrow> Panic e
      | Block \<Rightarrow> Block)"

text \<open>The generation is updated in place when all went well.\<close>

definition contribution ::
  "('e, 'sk, 'pk, 'sig, 'i, 'wal, 'acc) process \<Rightarrow> go_runtime \<Rightarrow> ('sk, 'pk) generation \<Rightarrow>
     ('e, err + ('sk, 'pk) generation) op" where
  "contribution P rt g =
     go_bind (random_keys P (unat (g_threshold g))) (\<lambda>sks.
       let verificationKeys = map (GetPublicKey (ps_bls P)) sks in
       go_bind (go_lift (make_secrets (ps_bls P) sks (g_participants g) [])) (\<lambda>r.
         case r of
           Inl e \<Rightarrow> go_return (Inl e)
         | Inr secrets \<Rightarrow>
             go_bind (go_lift (confirm_secrets (ps_bls P) verificationKeys (map_range rt secrets))) (\<lambda>c.
               case c of
                 Some e \<Rightarrow> go_return (Inl e)
               | None \<Rightarrow> go_return (Inr (g\<lparr>
                   g_sharedSecrets := AList.update (g_id g) (map_get (sk_zero (ps_bls P)) secrets (g_id g)) (g_sharedSecrets g),
                   g_sharedVVecs := AList.update (g_id g) verificationKeys (g_sharedVVecs g),
                   g_distributionSecrets := secrets\<rparr>)))))"

definition verifyContribution :: "('sk, 'pk, 'sig, 'i) bls_lib \<Rightarrow> u64 \<Rightarrow> 'sk \<Rightarrow> 'pk list \<Rightarrow> bool go" where
  "verifyContribution B n secretShare vVec =
     (case BLSID B n of
        Ret i \<Rightarrow>
          (case pk_Set B vVec i of
             Inl e \<Rightarrow> Ret False
           | Inr vVecKey \<Rightarrow> Ret (pk_IsEqual B (GetPublicKey B secretShare) vVecKey))
      | Panic e \<Rightarrow> Panic e
      | Block \<Rightarrow> Block)"

section \<open>Handlers\<close>

definition OnPrepare ::
  "('e, 'sk, 'pk, 'sig, 'i, 'wal, 'acc) process \<Rightarrow> go_runtime \<Rightarrow> u64 \<Rightarrow> string \<Rightarrow> bytes option \<Rightarrow> u32 \<Rightarrow> endpoint list \<Rightarrow>
     (('sk, 'pk, 'e) node, err option) op" where
  "OnPrepare P rt sender account passphrase threshold participants =
     (if length (ps_generationPassphrase P) = 0 then go_return (Some ErrNotCreated)
      else
        go_bind (getGeneration P account) (\<lambda>r.
          case r of
            Inr _ \<Rightarrow> go_return (Some ErrInProgress)
          | Inl _ \<Rightarrow>
              (\<lambda>s. let g = \<lparr>g_processStarted = ps_Now P (nd_env s), g_id = ps_id P, g_account = account,
                           g_passphrase = passphrase, g_threshold = threshold, g_participants = participants,
                           g_distributionSecrets = [], g_sharedSecrets = [], g_sharedVVecs = []\<rparr> in
                   go_bind (put_generation account g) (\<lambda>_.
                     go_bind (on_env (contribution P rt g)) (\<lambda>c.
                       case c of
                         Inl e \<Rightarrow> go_return (Some (wrap_err ''failed to generate own contribution'' e))
                       | Inr g' \<Rightarrow> go_bind (put_generation account g') (\<lambda>_. go_return None))) s)))"

text \<open>The exchange with the participants of higher identifiers, in the order of the range.\<close>

fun swap_contributions ::
  "('e, 'sk, 'pk, 'sig, 'i, 'wal, 'acc) process \<Rightarrow> string \<Rightarrow> 'pk list \<Rightarrow> (u64 \<times> 'sk) list \<Rightarrow> ('sk, 'pk) generation \<Rightarrow>
     (('sk, 'pk, 'e) node, err option) op" where
  "swap_contributions P account verificationVector [] g = go_return None"
| "swap_contributions P account verificationVector ((n, distributionSecret) # rest) g =
     (if ps_id P < n then
        (case ps_Peer P n of
           Inl e \<Rightarrow> go_return (Some (wrap_err ''failed to obtain peer'' e))
         | Inr peer \<Rightarrow>
             go_bind (on_env (ps_SendContribution P peer account distributionSecret verificationVector)) (\<lambda>r.
               case r of
                 Inl e \<Rightarrow> go_return (Some (wrap_err ''failed to send contribution'' e))
               | Inr (recipientSecret, recipientVVec) \<Rightarrow>
                   go_bind (go_lift (verifyContribution (ps_bls P) (g_id g) recipientSecret recipientVVec)) (\<lambda>valid.
                     if \<not> valid then go_return (Some (''invalid contribution from '' @ sprint_nat (unat n)))
                     else if map_of (g_sharedSecrets g) n \<noteq> None
                     then go_return (Some (''duplicate contribution from '' @ sprint_nat (unat n)))
                     else
                       let g' = g\<lparr>g_sharedSecrets := AList.update n recipientSecret (g_sharedSecrets g),
                                  g_sharedVVecs := AList.update n recipientVVec (g_sharedVVecs g)\<rparr> in
                       go_bind (put_generation account g') (\<lambda>_.
                         swap_contributions P account verificationVector rest g'))))
      else swap_contributions P account verificationVector rest g)"

definition OnExecute ::
  "('e, 'sk, 'pk, 'sig, 'i, 'wal, 'acc) process \<Rightarrow> go_runtime \<Rightarrow> u64 \<Rightarrow> string \<Rightarrow> (('sk, 'pk, 'e) node, err option) op" where
  "OnExecute P rt sender account =
     go_bind (getGeneration P account) (\<lambda>r.
       case r of
         Inl e \<Rightarrow> go_return (Some (if e = ErrNotFound then ErrNotInProgress else e))
       | Inr g \<Rightarrow>
           swap_contributions P account (map_get [] (g_sharedVVecs g) (g_id g)) (map_range rt (g_distributionSecrets g)) g)"

definition OnContribute ::
  "('e, 'sk, 'pk, 'sig, 'i, 'wal, 'acc) process \<Rightarrow> u64 \<Rightarrow> string \<Rightarrow> 'sk \<Rightarrow> 'pk list \<Rightarrow>
     (('sk, 'pk, 'e) node, err + 'sk \<times> 'pk list) op" where
  "OnContribute P sender account secret vVec =
     go_bind (getGeneration P account) (\<lambda>r.
       case r of
         Inl e \<Rightarrow> go_return (Inl e)
       | Inr g \<Rightarrow>
           go_bind (go_lift (verifyContribution (ps_bls P) (g_id g) secret vVec)) (\<lambda>valid.
             if \<not> valid then go_return (Inl (''invalid contribution from '' @ sprint_nat (unat sender)))
             else
               let g' = g\<lparr>g_sharedSecrets := AList.update sender secret (g_sharedSecrets g),
                          g_sharedVVecs := AList.update sender vVec (g_sharedVVecs g)\<rparr> in
               go_bind (put_generation account g') (\<lambda>_.
                 go_return (Inr (map_get (sk_zero (ps_bls P)) (g_distributionSecrets g') sender,
                                 map_get [] (g_sharedVVecs g') (g_id g'))))))"

definition OnAbort ::
  "('e, 'sk, 'pk, 'sig, 'i, 'wal, 'acc) process \<Rightarrow> u64 \<Rightarrow> string \<Rightarrow> (('sk, 'pk, 'e) node, err option) op" where
  "OnAbort P sender account =
     go_bind (getGeneration P account) (\<lambda>r.
       case r of
         Inl e \<Rightarrow> go_return (Some ErrNotInProgress)
       | Inr g \<Rightarrow> go_bind (del_generation account) (\<lambda>_. go_return None))"

section \<open>Storing the key\<close>

definition walletParticipants :: "endpoint list \<Rightarrow> (u64 \<times> string) list" where
  "walletParticipants participants = foldl (\<lambda>m p. AList.update (ep_ID p) (ConnectAddress p) m) [] participants"

text \<open>A deferred \<open>Lock\<close>, whose error is only logged; it is run after a panic too.\<close>

definition deferred_lock ::
  "('e, 'sk, 'pk, 'sig, 'i, 'wal, 'acc) process \<Rightarrow> 'wal \<Rightarrow> ('e, 'a) op \<Rightarrow> ('e, 'a) op" where
  "deferred_lock P wallet m = (\<lambda>s.
     case m s of
       (Ret x, s') \<Rightarrow> go_bind (ks_wal_Lock (ps_store P) wallet) (\<lambda>_. go_return x) s'
     | (Panic e, s') \<Rightarrow> go_bind (ks_wal_Lock (ps_store P) wallet) (\<lambda>_. go_panic e) s'
     | (Block, s') \<Rightarrow> (Block, s'))"

definition import_account ::
  "('e, 'sk, 'pk, 'sig, 'i, 'wal, 'acc) process \<Rightarrow> 'wal \<Rightarrow> string \<Rightarrow> bytes option \<Rightarrow> 'sk \<Rightarrow> u32 \<Rightarrow> 'pk list \<Rightarrow> endpoint list \<Rightarrow>
     ('e, err option) op" where
  "import_account P wallet accountName passphrase privateKey threshold verificationVector participants =
     (if \<not> ks_wal_is_importer (ps_store P) wallet then go_panic ''interface conversion''
      else
        go_bind (ks_ImportDistributedAccount (ps_store P) wallet accountName (sk_Serialize (ps_bls P) privateKey) threshold
                   (map (pk_Serialize (ps_bls P)) verificationVector) (walletParticipants participants) passphrase) (\<lambda>r.
          case r of
            Inl e \<Rightarrow> go_return (Some (wrap_err ''failed to import account'' e))
          | Inr generatedAccount \<Rightarrow> go_bind (ks_AddAccount (ps_store P) wallet generatedAccount) (\<lambda>_. go_return None)))"

definition storeDistributedKey ::
  "('e, 'sk, 'pk, 'sig, 'i, 'wal, 'acc) process \<Rightarrow> string \<Rightarrow> bytes option \<Rightarrow> 'sk \<Rightarrow> u32 \<Rightarrow> 'pk list \<Rightarrow> endpoint list \<Rightarrow>
     ('e, err option) op" where
  "storeDistributedKey P account passphrase privateKey threshold verificationVector participants =
     (case ks_Names (ps_store P) account of
        Inl e \<Rightarrow> go_return (Some (wrap_err ''failed to parse account'' e))
      | Inr (walletName, accountName) \<Rightarrow>
          go_bind (ks_OpenDistributed (ps_store P) walletName) (\<lambda>w.
            case w of
              Inl e \<Rightarrow> go_return (Some (wrap_err ''failed to open wallet'' e))
            | Inr wallet \<Rightarrow>
                if ks_wal_is_locker (ps_store P) wallet then
                  go_bind (ks_wal_Unlock (ps_store P) wallet (Some [])) (\<lambda>u.
                    case u of
                      Some e \<Rightarrow> go_return (Some (wrap_err ''failed to unlock wallet'' e))
                    | None \<Rightarrow> deferred_lock P wallet
                        (import_account P wallet accountName passphrase privateKey threshold verificationVector participants))
                else import_account P wallet accountName passphrase privateKey threshold verificationVector participants))"

section \<open>Commit\<close>

text \<open>Adding a verification vector to the aggregate, which has \<open>threshold\<close> entries.\<close>

fun vv_add :: "('sk, 'pk, 'sig, 'i) bls_lib \<Rightarrow> 'pk list \<Rightarrow> 'pk list \<Rightarrow> 'pk list go" where
  "vv_add B agg [] = Ret agg"
| "vv_add B [] (v # vs) = Panic index_out_of_range"
| "vv_add B (a # agg) (v # vs) =
     (case vv_add B agg vs of Ret as \<Rightarrow> Ret (pk_Add B a v # as) | Panic e \<Rightarrow> Panic e | Block \<Rightarrow> Block)"

fun vv_aggregate :: "('sk, 'pk, 'sig, 'i) bls_lib \<Rightarrow> 'pk list \<Rightarrow> 'pk list list \<Rightarrow> 'pk list go" where
  "vv_aggregate B agg [] = Ret agg"
| "vv_aggregate B agg (vv # vvs) =
     (case vv_add B agg vv of Ret agg' \<Rightarrow> vv_aggregate B agg' vvs | Panic e \<Rightarrow> Panic e | Block \<Rightarrow> Block)"

text \<open>\<open>%v\<close> of a slice of integers.\<close>

fun join_spaces :: "string list \<Rightarrow> string" where
  "join_spaces [] = []"
| "join_spaces [x] = x"
| "join_spaces (x # y # xs) = x @ '' '' @ join_spaces (y # xs)"

definition sprint_ids :: "u64 list \<Rightarrow> string" where
  "sprint_ids ns = ''['' @ join_spaces (map (\<lambda>n. sprint_nat (unat n)) ns) @ '']''"

definition contributions_missing :: "go_runtime \<Rightarrow> ('sk, 'pk) generation \<Rightarrow> err option" where
  "contributions_missing rt g =
     (if length (g_sharedSecrets g) \<noteq> length (g_participants g)
      then Some (''have '' @ sprint_nat (length (g_sharedSecrets g)) @ '' contributions ('' @
                 sprint_ids (map fst (map_range rt (g_sharedSecrets g))) @ '') , need '' @
                 sprint_nat (length (g_participants g)) @ '' ('' @ sprint_ids (map ep_ID (g_participants g)) @ ''), aborting'')
      else if length (g_sharedVVecs g) \<noteq> length (g_participants g)
      then Some (''have '' @ sprint_nat (length (g_sharedVVecs g)) @ '' contributions, need '' @
                 sprint_nat (length (g_participants g)) @ '', aborting'')
      else None)"

text \<open>The check that the account is in the store, after it was imported.\<close>

definition retrieve_account ::
  "('e, 'sk, 'pk, 'sig, 'i, 'wal, 'acc) process \<Rightarrow> string \<Rightarrow> ('e, err option) op" where
  "retrieve_account P account =
     (case ks_Names (ps_store P) account of
        Inl e \<Rightarrow> go_return (Some ErrNotCreated)
      | Inr (walletName, accountName) \<Rightarrow>
          go_bind (ks_OpenDistributed (ps_store P) walletName) (\<lambda>w.
            case w of
              Inl e \<Rightarrow> go_return (Some ErrNotCreated)
            | Inr retrievedWallet \<Rightarrow>
                if \<not> ks_wal_is_by_name (ps_store P) retrievedWallet
                then go_return (Some ''wallet does not support fetching accounts by name'')
                else go_bind (ks_AccountByName (ps_store P) retrievedWallet accountName) (\<lambda>a.
                  case a of Inl e \<Rightarrow> go_return (Some ErrNotCreated) | Inr _ \<Rightarrow> go_return None)))"

definition OnCommit ::
  "('e, 'sk, 'pk, 'sig, 'i, 'wal, 'acc) process \<Rightarrow> go_runtime \<Rightarrow> u64 \<Rightarrow> string \<Rightarrow> bytes \<Rightarrow>
     (('sk, 'pk, 'e) node, err + bytes \<times> bytes) op" where
  "OnCommit P rt sender account confirmationData =
     go_bind (getGeneration P account) (\<lambda>r.
       case r of
         Inl e \<Rightarrow> go_return (Inl ErrNotInProgress)
       | Inr g \<Rightarrow>
           (case contributions_missing rt g of
              Some e \<Rightarrow> go_return (Inl e)
            | None \<Rightarrow>
                let B = ps_bls P;
                    privateKey = foldl (sk_Add B) (sk_zero B) (map snd (map_range rt (g_sharedSecrets g)));
                    passphrase = (case g_passphrase g of None \<Rightarrow> Some (ps_generationPassphrase P) | Some p \<Rightarrow> Some p) in
                go_bind (go_lift (vv_aggregate B (replicate (unat (g_threshold g)) (pk_zero B))
                                    (map snd (map_range rt (g_sharedVVecs g))))) (\<lambda>aggregateVVec.
                  go_bind (on_env (storeDistributedKey P (g_account g) passphrase privateKey (g_threshold g) aggregateVVec
                                     (g_participants g))) (\<lambda>st.
                    case st of
                      Some e \<Rightarrow> go_return (Inl (wrap_err ErrNotCreated e))
                    | None \<Rightarrow>
                        go_bind (on_env (retrieve_account P account)) (\<lambda>rv.
                          case rv of
                            Some e \<Rightarrow> go_return (Inl e)
                          | None \<Rightarrow>
                              go_bind (del_generation account) (\<lambda>_.
                                case aggregateVVec of
                                  [] \<Rightarrow> go_panic index_out_of_range
                                | v # _ \<Rightarrow> go_return (Inr (pk_Serialize B v,
                                             sig_Serialize B (SignByte B privateKey confirmationData)))))))))"

end
