(* ===== verification/Process_Safety.thy ===== *)
theory Process_Safety
  imports Process
begin

text \<open>
  The invariant of an instance that takes part in key generations: every contribution it holds was
  verified against its verification vector. With the laws of the signature library it follows that
  the share an instance stores fits the aggregated verification vector it stores with it.
\<close>

section \<open>The laws of the signature library\<close>

text \<open>The sum of two polynomials by their coefficients.\<close>

fun poly_add :: "('a \<Rightarrow> 'a \<Rightarrow> 'a) \<Rightarrow> 'a list \<Rightarrow> 'a list \<Rightarrow> 'a list" where
  "poly_add f [] ys = ys"
| "poly_add f xs [] = xs"
| "poly_add f (x # xs) (y # ys) = f x y # poly_add f xs ys"

text \<open>
  Public keys form a commutative monoid, taking the public key is a homomorphism, and evaluation of
  a polynomial over public keys agrees with that over secret keys and is additive.
\<close>

locale bls_laws =
  fixes B :: "('sk, 'pk, 'sig, 'i) bls_lib"
  assumes is_equal: "pk_IsEqual B a b \<longleftrightarrow> a = b"
    and add_commute: "pk_Add B a b = pk_Add B b a"
    and add_assoc: "pk_Add B (pk_Add B a b) c = pk_Add B a (pk_Add B b c)"
    and add_zero: "pk_Add B (pk_zero B) a = a"
    and public_zero: "GetPublicKey B (sk_zero B) = pk_zero B"
    and public_add: "GetPublicKey B (sk_Add B x y) = pk_Add B (GetPublicKey B x) (GetPublicKey B y)"
    and public_eval: "sk_Set B xs i = Inr x \<Longrightarrow> pk_Set B (map (GetPublicKey B) xs) i = Inr (GetPublicKey B x)"
    and eval_zero: "0 < n \<Longrightarrow> pk_Set B (replicate n (pk_zero B)) i = Inr (pk_zero B)"
    and eval_add: "pk_Set B as i = Inr a \<Longrightarrow> pk_Set B bs i = Inr b \<Longrightarrow> pk_Set B (poly_add (pk_Add B) as bs) i = Inr (pk_Add B a b)"

lemma poly_add_Nil2 [simp]: "poly_add f xs [] = xs"
  by (cases xs) simp_all

lemma length_poly_add [simp]: "length (poly_add f xs ys) = max (length xs) (length ys)"
  by (induction f xs ys rule: poly_add.induct) auto

text \<open>The loops of the code over the aggregate.\<close>

lemma vv_add_poly:
  "vv_add B agg vs = (if length vs \<le> length agg then Ret (poly_add (pk_Add B) agg vs) else Panic index_out_of_range)"
  by (induction B agg vs rule: vv_add.induct) auto

lemma vv_aggregate_poly:
  "vv_aggregate B agg vvs = (if \<forall>vv \<in> set vvs. length vv \<le> length agg then Ret (foldl (poly_add (pk_Add B)) agg vvs)
     else Panic index_out_of_range)"
proof (induction vvs arbitrary: agg)
  case (Cons vv vvs)
  show ?case
  proof (cases "length vv \<le> length agg")
    case True
    then have "length (poly_add (pk_Add B) agg vv) = length agg" by simp
    with True Cons show ?thesis by (simp add: vv_add_poly del: length_poly_add)
  qed (simp add: vv_add_poly)
qed simp

lemma foldl_permuted:
  assumes "mset xs = mset ys" and "\<And>a x y. f (f a x) y = f (f a y) x"
  shows "foldl f a xs = foldl f a ys"
proof -
  have "fold (\<lambda>x a. f a x) xs = fold (\<lambda>x a. f a x) ys"
    by (rule fold_multiset_equiv [OF _ assms(1)]) (use assms(2) in \<open>auto simp: fun_eq_iff\<close>)
  then show ?thesis by (simp add: foldl_conv_fold)
qed

definition verified :: "('sk, 'pk, 'sig, 'i) bls_lib \<Rightarrow> u64 \<Rightarrow> 'sk \<Rightarrow> 'pk list \<Rightarrow> bool" where
  "verified B n sk vv \<longleftrightarrow> (\<exists>i. BLSID B n = Ret i \<and> pk_Set B vv i = Inr (GetPublicKey B sk))"

context bls_laws
begin

lemma poly_commute: "poly_add (pk_Add B) xs ys = poly_add (pk_Add B) ys xs"
proof (induction xs arbitrary: ys)
  case (Cons x xs)
  show ?case by (cases ys) (simp_all add: Cons.IH add_commute)
qed simp

lemma poly_assoc: "poly_add (pk_Add B) (poly_add (pk_Add B) xs ys) zs = poly_add (pk_Add B) xs (poly_add (pk_Add B) ys zs)"
proof (induction xs arbitrary: ys zs)
  case (Cons x xs)
  show ?case by (cases ys; cases zs) (simp_all add: Cons.IH add_assoc)
qed simp

lemma poly_swap: "poly_add (pk_Add B) (poly_add (pk_Add B) a x) y = poly_add (pk_Add B) (poly_add (pk_Add B) a y) x"
  by (simp add: poly_assoc poly_commute [of x y])

lemma add_swap: "pk_Add B (pk_Add B a x) y = pk_Add B (pk_Add B a y) x"
  by (simp add: add_assoc add_commute [of x y])

lemma public_sum: "GetPublicKey B (foldl (sk_Add B) x xs) = foldl (pk_Add B) (GetPublicKey B x) (map (GetPublicKey B) xs)"
  by (induction xs arbitrary: x) (simp_all add: public_add)

lemma eval_sum:
  assumes "list_all2 (\<lambda>sk vv. pk_Set B vv i = Inr (GetPublicKey B sk)) sks vvs"
  shows "pk_Set B agg i = Inr a \<Longrightarrow>
    pk_Set B (foldl (poly_add (pk_Add B)) agg vvs) i = Inr (foldl (pk_Add B) a (map (GetPublicKey B) sks))"
  using assms by (induction arbitrary: agg a rule: list_all2_induct) (simp_all add: eval_add)

text \<open>Shares and vectors that were summed up in any order.\<close>

lemma aggregate_verified:
  assumes "list_all2 (\<lambda>sk vv. verified B n sk vv) sks vvs" and "mset sks' = mset sks" and "mset vvs' = mset vvs"
    and "0 < t" and "BLSID B n = Ret i"
  shows "pk_Set B (foldl (poly_add (pk_Add B)) (replicate t (pk_zero B)) vvs') i = Inr (GetPublicKey B (foldl (sk_Add B) (sk_zero B) sks'))"
proof -
  have "list_all2 (\<lambda>sk vv. pk_Set B vv i = Inr (GetPublicKey B sk)) sks vvs"
    using assms(1) by (rule list_all2_mono) (use assms(5) in \<open>auto simp: verified_def\<close>)
  from eval_sum [OF this eval_zero [OF assms(4)]]
  have "pk_Set B (foldl (poly_add (pk_Add B)) (replicate t (pk_zero B)) vvs) i = Inr (GetPublicKey B (foldl (sk_Add B) (sk_zero B) sks))"
    by (simp add: public_sum public_zero)
  moreover have "foldl (poly_add (pk_Add B)) (replicate t (pk_zero B)) vvs' = foldl (poly_add (pk_Add B)) (replicate t (pk_zero B)) vvs"
    by (rule foldl_permuted [OF assms(3)]) (rule poly_swap)
  moreover have "GetPublicKey B (foldl (sk_Add B) (sk_zero B) sks') = GetPublicKey B (foldl (sk_Add B) (sk_zero B) sks)"
    unfolding public_sum by (rule foldl_permuted) (simp add: assms(2), rule add_swap)
  ultimately show ?thesis by simp
qed

lemma verifyContribution_verified: "verifyContribution B n sk vv = Ret True \<longleftrightarrow> verified B n sk vv"
  by (auto simp: verifyContribution_def verified_def is_equal split: go.splits sum.splits)

end

section \<open>The invariant of an instance\<close>

text \<open>
  The shares and the vectors come in pairs, and each pair is verified; our own one when we are among
  the participants. A generation stands under the name of its account.
\<close>

definition pair_ok :: "('sk, 'pk, 'sig, 'i) bls_lib \<Rightarrow> u64 \<Rightarrow> bool \<Rightarrow> u64 \<times> 'sk \<Rightarrow> u64 \<times> 'pk list \<Rightarrow> bool" where
  "pair_ok B n own = (\<lambda>(k, sk) (k', vv). k = k' \<and> (k \<noteq> n \<or> own \<longrightarrow> verified B n sk vv))"

definition gen_ok :: "('e, 'sk, 'pk, 'sig, 'i, 'wal, 'acc) process \<Rightarrow> string \<Rightarrow> ('sk, 'pk) generation \<Rightarrow> bool" where
  "gen_ok P account g \<longleftrightarrow> g_id g = ps_id P \<and> g_account g = account \<and>
     list_all2 (pair_ok (ps_bls P) (g_id g) (g_id g \<in> ep_ID ` set (g_participants g))) (g_sharedSecrets g) (g_sharedVVecs g)"

definition node_ok :: "('e, 'sk, 'pk, 'sig, 'i, 'wal, 'acc) process \<Rightarrow> ('sk, 'pk, 'e) node \<Rightarrow> bool" where
  "node_ok P s \<longleftrightarrow> (\<forall>account g. nd_generations s account = Some g \<longrightarrow> gen_ok P account g)"

lemma pairs_update:
  assumes "list_all2 (pair_ok B n own) ss vs" and "k \<noteq> n \<or> own \<longrightarrow> verified B n sk vv"
  shows "list_all2 (pair_ok B n own) (AList.update k sk ss) (AList.update k vv vs)"
  using assms by (induction rule: list_all2_induct) (auto simp: pair_ok_def)

lemma node_ok_put: "node_ok P s \<Longrightarrow> gen_ok P account g \<Longrightarrow> node_ok P (s\<lparr>nd_generations := (nd_generations s)(account \<mapsto> g)\<rparr>)"
  by (simp add: node_ok_def)

lemma node_ok_del: "node_ok P s \<Longrightarrow> node_ok P (s\<lparr>nd_generations := (nd_generations s)(account := None)\<rparr>)"
  by (simp add: node_ok_def)

lemma node_ok_env: "node_ok P s \<Longrightarrow> node_ok P (s\<lparr>nd_env := e\<rparr>)"
  by (simp add: node_ok_def)

lemma triple_env: "go_triple (node_ok P) (on_env m) (\<lambda>_. node_ok P) (node_ok P)"
  by (auto simp: go_triple_def on_env_def go_zoom_def node_ok_env split: prod.splits go.splits)

lemma triple_env_value:
  assumes "\<And>e x e'. m e = (Ret x, e') \<Longrightarrow> R x"
  shows "go_triple (node_ok P) (on_env m) (\<lambda>x s. node_ok P s \<and> R x) (node_ok P)"
  using assms by (auto simp: go_triple_def on_env_def go_zoom_def node_ok_env split: prod.splits go.splits)

lemma triple_put: "gen_ok P account g \<Longrightarrow> go_triple (node_ok P) (put_generation account g) (\<lambda>_. node_ok P) (node_ok P)"
  by (simp add: put_generation_def go_triple_update node_ok_put)

lemma triple_del: "go_triple (node_ok P) (del_generation account) (\<lambda>_. node_ok P) (node_ok P)"
  by (simp add: del_generation_def go_triple_update node_ok_del)

lemma triple_get:
  "go_triple (node_ok P) (getGeneration P account) (\<lambda>r s. node_ok P s \<and> (\<forall>g. r = Inr g \<longrightarrow> gen_ok P account g)) (node_ok P)"
  by (auto simp: go_triple_def getGeneration_def node_ok_def split: option.splits if_splits)

lemma go_triple_pure: "(R \<Longrightarrow> go_triple P m Q E) \<Longrightarrow> go_triple (\<lambda>s. P s \<and> R) m Q E"
  by (auto simp: go_triple_def)

lemma triple_lift_check:
  "(\<And>x. r = Ret x \<Longrightarrow> R x) \<Longrightarrow> go_triple (node_ok P) (go_lift r) (\<lambda>x s. node_ok P s \<and> R x) (node_ok P)"
  by (rule go_triple_lift) auto

section \<open>Our own contribution\<close>

lemma make_secrets_keys:
  "make_secrets B sks ps acc = Ret (Inr secrets) \<Longrightarrow>
     (\<forall>n. map_of secrets n = (if n \<in> ep_ID ` set ps then Some (projr (sk_Set B sks (case BLSID B n of Ret i \<Rightarrow> i))) else map_of acc n)) \<and>
     (\<forall>p \<in> set ps. \<exists>i x. BLSID B (ep_ID p) = Ret i \<and> sk_Set B sks i = Inr x) \<and> (distinct (map fst acc) \<longrightarrow> distinct (map fst secrets))"
proof (induction ps arbitrary: acc)
  case (Cons p ps)
  then obtain i x where "BLSID B (ep_ID p) = Ret i" "sk_Set B sks i = Inr x"
    "make_secrets B sks ps (AList.update (ep_ID p) x acc) = Ret (Inr secrets)"
    by (auto split: go.splits sum.splits)
  with Cons.IH [OF this(3)] show ?case by (auto simp: update_conv' distinct_update)
qed simp

lemma confirm_secrets_ok:
  "confirm_secrets B vks ss = Ret None \<Longrightarrow> (n, sk) \<in> set ss \<Longrightarrow>
     \<exists>i k. BLSID B n = Ret i \<and> pk_Set B vks i = Inr k \<and> pk_IsEqual B (GetPublicKey B sk) k"
  by (induction B vks ss rule: confirm_secrets.induct) (auto split: go.splits sum.splits if_splits)

lemma random_keys_length: "random_keys P n e = (Ret ks, e') \<Longrightarrow> length ks = n"
proof (induction n arbitrary: e ks)
  case (Suc n)
  then show ?case by (auto simp: go_simps elim!: go_bind_RetE)
qed (simp add: go_simps)

text \<open>What a contribution is made of.\<close>

lemma contribution_made:
  assumes "contribution P rt g e = (Ret (Inr g'), e')"
  obtains sks secrets where "length sks = unat (g_threshold g)"
    "make_secrets (ps_bls P) sks (g_participants g) [] = Ret (Inr secrets)"
    "confirm_secrets (ps_bls P) (map (GetPublicKey (ps_bls P)) sks) (map_range rt secrets) = Ret None"
    "g' = g\<lparr>g_sharedSecrets := AList.update (g_id g) (map_get (sk_zero (ps_bls P)) secrets (g_id g)) (g_sharedSecrets g),
       g_sharedVVecs := AList.update (g_id g) (map (GetPublicKey (ps_bls P)) sks) (g_sharedVVecs g), g_distributionSecrets := secrets\<rparr>"
proof -
  from assms obtain sks e1 where sks: "random_keys P (unat (g_threshold g)) e = (Ret sks, e1)"
    by (auto simp: contribution_def elim: go_bind_RetE)
  from assms sks obtain secrets where "make_secrets (ps_bls P) sks (g_participants g) [] = Ret (Inr secrets)"
    "confirm_secrets (ps_bls P) (map (GetPublicKey (ps_bls P)) sks) (map_range rt secrets) = Ret None"
    "g' = g\<lparr>g_sharedSecrets := AList.update (g_id g) (map_get (sk_zero (ps_bls P)) secrets (g_id g)) (g_sharedSecrets g),
       g_sharedVVecs := AList.update (g_id g) (map (GetPublicKey (ps_bls P)) sks) (g_sharedVVecs g), g_distributionSecrets := secrets\<rparr>"
    by (auto simp: contribution_def Let_def go_simps go_bind_def go_lift_def split: go.splits sum.splits option.splits)
  with random_keys_length [OF sks] that show thesis by blast
qed

section \<open>The handlers keep the invariant\<close>

context bls_laws
begin

lemma contribution_ok:
  assumes B: "ps_bls P = B" and fair: "fair_runtime rt" and g: "gen_ok P account g"
    and run: "contribution P rt g e = (Ret (Inr g'), e')"
  shows "gen_ok P account g'"
proof -
  obtain sks secrets where ms: "make_secrets B sks (g_participants g) [] = Ret (Inr secrets)"
    and cf: "confirm_secrets B (map (GetPublicKey B) sks) (map_range rt secrets) = Ret None"
    and g': "g' = g\<lparr>g_sharedSecrets := AList.update (g_id g) (map_get (sk_zero B) secrets (g_id g)) (g_sharedSecrets g),
       g_sharedVVecs := AList.update (g_id g) (map (GetPublicKey B) sks) (g_sharedVVecs g), g_distributionSecrets := secrets\<rparr>"
    using contribution_made [OF run] B by metis
  have "verified B (g_id g) (map_get (sk_zero B) secrets (g_id g)) (map (GetPublicKey B) sks)" if "g_id g \<in> ep_ID ` set (g_participants g)"
  proof -
    from make_secrets_keys [OF ms] that obtain x where x: "map_of secrets (g_id g) = Some x" by simp
    then have "(g_id g, x) \<in> set (map_range rt secrets)" using set_map_range [OF fair, of secrets] by (auto dest: map_of_SomeD)
    from confirm_secrets_ok [OF cf this] x show ?thesis by (auto simp: verified_def is_equal map_get_def)
  qed
  with g B show ?thesis by (auto simp: gen_ok_def g' intro!: pairs_update)
qed

lemma OnPrepare_ok:
  assumes B: "ps_bls P = B" and fair: "fair_runtime rt"
  shows "go_triple (node_ok P) (OnPrepare P rt sender account passphrase threshold participants) (\<lambda>_. node_ok P) (node_ok P)"
proof -
  let ?g = "\<lambda>t. \<lparr>g_processStarted = t, g_id = ps_id P, g_account = account, g_passphrase = passphrase, g_threshold = threshold,
      g_participants = participants, g_distributionSecrets = [], g_sharedSecrets = [], g_sharedVVecs = []\<rparr>"
  have new: "gen_ok P account (?g t)" for t by (simp add: gen_ok_def)
  have body: "go_triple (node_ok P) (go_bind (put_generation account (?g t)) (\<lambda>_. go_bind (on_env (contribution P rt (?g t))) (\<lambda>c.
         case c of Inl e \<Rightarrow> go_return (Some (wrap_err ''failed to generate own contribution'' e))
           | Inr g' \<Rightarrow> go_bind (put_generation account g') (\<lambda>_. go_return None)))) (\<lambda>_. node_ok P) (node_ok P)" for t
  proof (rule go_triple_bind [OF triple_put [OF new]])
    show "go_triple (node_ok P) (go_bind (on_env (contribution P rt (?g t))) (\<lambda>c.
         case c of Inl e \<Rightarrow> go_return (Some (wrap_err ''failed to generate own contribution'' e))
           | Inr g' \<Rightarrow> go_bind (put_generation account g') (\<lambda>_. go_return None))) (\<lambda>_. node_ok P) (node_ok P)"
    proof (rule go_triple_bind [OF triple_env_value [where R = "\<lambda>c. \<forall>g'. c = Inr g' \<longrightarrow> gen_ok P account g'"]])
      show "\<forall>g'. c = Inr g' \<longrightarrow> gen_ok P account g'" if "contribution P rt (?g t) e = (Ret c, e')" for e c e'
        using contribution_ok [OF B fair new] that by blast
      show "go_triple (\<lambda>s. node_ok P s \<and> (\<forall>g'. c = Inr g' \<longrightarrow> gen_ok P account g'))
          (case c of Inl e \<Rightarrow> go_return (Some (wrap_err ''failed to generate own contribution'' e))
           | Inr g' \<Rightarrow> go_bind (put_generation account g') (\<lambda>_. go_return None)) (\<lambda>_. node_ok P) (node_ok P)" for c
        by (auto simp: go_triple_def go_bind_def put_generation_def go_simps node_ok_put split: sum.splits)
    qed
  qed
  have "go_triple (\<lambda>s. node_ok P s \<and> (\<forall>g. r = Inr g \<longrightarrow> gen_ok P account g))
     (case r of Inr _ \<Rightarrow> go_return (Some ErrInProgress) | Inl _ \<Rightarrow>
        (\<lambda>s. let g = ?g (ps_Now P (nd_env s)) in go_bind (put_generation account g) (\<lambda>_. go_bind (on_env (contribution P rt g)) (\<lambda>c.
         case c of Inl e \<Rightarrow> go_return (Some (wrap_err ''failed to generate own contribution'' e))
           | Inr g' \<Rightarrow> go_bind (put_generation account g') (\<lambda>_. go_return None))) s)) (\<lambda>_. node_ok P) (node_ok P)" for r
    using body by (cases r) (simp_all add: go_triple_def go_simps Let_def)
  then show ?thesis
    unfolding OnPrepare_def by (auto intro!: go_triple_return go_triple_bind [OF triple_get])
qed

lemma swap_ok:
  assumes B: "ps_bls P = B"
  shows "gen_ok P account g \<Longrightarrow> go_triple (node_ok P) (swap_contributions P account vv rest g) (\<lambda>_. node_ok P) (node_ok P)"
proof (induction rest arbitrary: g)
  case Nil
  then show ?case by (simp add: go_triple_return)
next
  case (Cons x rest)
  obtain n d where x: "x = (n, d)" by force
  show ?case
  proof (cases "ps_id P < n")
    case True
    then have ne: "n \<noteq> g_id g" using Cons.prems by (auto simp: gen_ok_def)
    have upd: "gen_ok P account (g\<lparr>g_sharedSecrets := AList.update n sk (g_sharedSecrets g), g_sharedVVecs := AList.update n rv (g_sharedVVecs g)\<rparr>)"
      if "verifyContribution B (g_id g) sk rv = Ret True" for sk rv
      using that Cons.prems B by (auto simp: gen_ok_def verifyContribution_verified intro!: pairs_update)
    have check: "go_triple (node_ok P) (go_lift (verifyContribution B (g_id g) sk rv))
        (\<lambda>v s. node_ok P s \<and> (v \<longrightarrow> verifyContribution B (g_id g) sk rv = Ret True)) (node_ok P)" for sk rv
      by (rule triple_lift_check) simp
    show ?thesis unfolding x swap_contributions.simps if_P [OF True] B Let_def
      by (auto intro!: go_triple_return go_triple_bind [OF triple_env] go_triple_bind [OF check]
          go_triple_pure go_triple_bind [OF triple_put] Cons.IH upd split: sum.split prod.split)
  qed (use Cons in \<open>simp add: x\<close>)
qed

lemma OnExecute_ok:
  assumes B: "ps_bls P = B"
  shows "go_triple (node_ok P) (OnExecute P rt sender account) (\<lambda>_. node_ok P) (node_ok P)"
  unfolding OnExecute_def
  by (auto intro!: go_triple_bind [OF triple_get] go_triple_pure go_triple_return swap_ok [OF B] split: sum.split)

lemma OnContribute_ok:
  assumes B: "ps_bls P = B"
  shows "go_triple (node_ok P) (OnContribute P sender account secret vVec) (\<lambda>_. node_ok P) (node_ok P)"
proof -
  have "go_triple (node_ok P) (go_bind (go_lift (verifyContribution B (g_id g) secret vVec)) (\<lambda>valid.
             if \<not> valid then go_return (Inl (''invalid contribution from '' @ sprint_nat (unat sender)))
             else
               let g' = g\<lparr>g_sharedSecrets := AList.update sender secret (g_sharedSecrets g),
                          g_sharedVVecs := AList.update sender vVec (g_sharedVVecs g)\<rparr> in
               go_bind (put_generation account g') (\<lambda>_.
                 go_return (Inr (map_get (sk_zero B) (g_distributionSecrets g') sender,
                                 map_get [] (g_sharedVVecs g') (g_id g')))))) (\<lambda>_. node_ok P) (node_ok P)" if g: "gen_ok P account g" for g
  proof (rule go_triple_bind [OF triple_lift_check [where R = "\<lambda>v. v \<longrightarrow> verified B (g_id g) secret vVec"]], goal_cases)
    case 1
    then show ?case by (simp add: verifyContribution_verified [symmetric])
  next
    case (2 valid)
    have "gen_ok P account (g\<lparr>g_sharedSecrets := AList.update sender secret (g_sharedSecrets g),
          g_sharedVVecs := AList.update sender vVec (g_sharedVVecs g)\<rparr>)" if "verified B (g_id g) secret vVec"
      using g that B by (auto simp: gen_ok_def intro!: pairs_update)
    then show ?case
      unfolding Let_def by (auto intro!: go_triple_pure go_triple_return go_triple_bind [OF triple_put])
  qed
  then show ?thesis unfolding OnContribute_def B
    by (auto intro!: go_triple_bind [OF triple_get] go_triple_pure go_triple_return split: sum.split)
qed

end

lemma OnAbort_ok: "go_triple (node_ok P) (OnAbort P sender account) (\<lambda>_. node_ok P) (node_ok P)"
  unfolding OnAbort_def
  by (auto intro!: go_triple_bind [OF triple_get] go_triple_pure go_triple_return go_triple_bind [OF triple_del] split: sum.split)

lemma OnCommit_ok: "go_triple (node_ok P) (OnCommit P rt sender account data) (\<lambda>_. node_ok P) (node_ok P)"
proof -
  have lift: "go_triple (node_ok P) (go_lift r) (\<lambda>_. node_ok P) (node_ok P)" for r :: "'x go"
    by (rule go_triple_lift) auto
  show ?thesis unfolding OnCommit_def Let_def
    by (auto intro!: go_triple_bind [OF triple_get] go_triple_pure go_triple_return go_triple_panic go_triple_bind [OF lift]
        go_triple_bind [OF triple_env] go_triple_bind [OF triple_del] split: sum.split option.split list.split)
qed

section \<open>What a commit stores\<close>

lemma deferred_lock_Ret:
  assumes "deferred_lock P wallet m s = (Ret x, t)"
  shows "\<exists>s'. m s = (Ret x, s')"
  using assms by (auto simp: deferred_lock_def go_simps split: prod.splits go.splits elim!: go_bind_RetE)

lemma storeDistributedKey_imports:
  assumes "storeDistributedKey P account passphrase sk t vv participants e = (Ret None, e')"
  shows "\<exists>w n e1 acc e2. ks_ImportDistributedAccount (ps_store P) w n (sk_Serialize (ps_bls P) sk) t (map (pk_Serialize (ps_bls P)) vv)
    (walletParticipants participants) passphrase e1 = (Ret (Inr acc), e2)"
proof -
  have "\<exists>e1 acc e2. ks_ImportDistributedAccount (ps_store P) w n (sk_Serialize (ps_bls P) sk) t (map (pk_Serialize (ps_bls P)) vv)
      (walletParticipants participants) passphrase e1 = (Ret (Inr acc), e2)"
    if "import_account P w n passphrase sk t vv participants e1 = (Ret None, e2)" for w n e1 e2
    using that by (auto simp: import_account_def go_simps split: if_splits sum.splits elim!: go_bind_RetE) blast
  with assms show ?thesis
    unfolding storeDistributedKey_def
    by (auto simp: go_simps split: sum.splits prod.splits if_splits option.splits elim!: go_bind_RetE dest!: deferred_lock_Ret) blast+
qed

context bls_laws
begin

lemma OnCommit_share:
  assumes B: "ps_bls P = B" and fair: "fair_runtime rt" and ok: "node_ok P s"
    and g: "nd_generations s account = Some g" and own: "ps_id P \<in> ep_ID ` set (g_participants g)"
    and run: "OnCommit P rt sender account data s = (Ret (Inr (pk, sg)), s')"
  shows "\<exists>sk agg i. BLSID B (ps_id P) = Ret i \<and> length agg = unat (g_threshold g) \<and> pk_Set B agg i = Inr (GetPublicKey B sk) \<and>
    pk = pk_Serialize B (hd agg) \<and> sg = sig_Serialize B (SignByte B sk data) \<and> nd_generations s' account = None \<and>
    (\<exists>w n passphrase e1 acc e2. ks_ImportDistributedAccount (ps_store P) w n (sk_Serialize B sk) (g_threshold g)
       (map (pk_Serialize B) agg) (walletParticipants (g_participants g)) passphrase e1 = (Ret (Inr acc), e2))"
proof -
  have gok: "gen_ok P account g" using ok g by (simp add: node_ok_def)
  then have gid: "g_id g = ps_id P" by (simp add: gen_ok_def)
  from run g have get: "getGeneration P account s = (Ret (Inr g), s)"
    by (auto simp: OnCommit_def getGeneration_def go_simps go_bind_def split: if_splits)
  let ?sk = "foldl (sk_Add B) (sk_zero B) (map snd (map_range rt (g_sharedSecrets g)))"
  let ?vvs = "map snd (map_range rt (g_sharedVVecs g))"
  let ?pass = "case g_passphrase g of None \<Rightarrow> Some (ps_generationPassphrase P) | Some p \<Rightarrow> Some p"
  from run [unfolded OnCommit_def go_bind_def [of "getGeneration P account"] get prod.case go.case sum.case]
  have mis: "contributions_missing rt g = None" by (auto simp: go_simps split: option.splits)
  from run [unfolded OnCommit_def go_bind_def [of "getGeneration P account"] get prod.case go.case sum.case mis option.case Let_def B]
  obtain agg e1 s1 s2 where agg: "vv_aggregate B (replicate (unat (g_threshold g)) (pk_zero B)) ?vvs = Ret agg"
    and st: "storeDistributedKey P (g_account g) ?pass ?sk (g_threshold g) agg (g_participants g) (nd_env s) = (Ret None, e1)"
    and out: "agg \<noteq> []" "pk = pk_Serialize B (hd agg)" "sg = sig_Serialize B (SignByte B ?sk data)" "nd_generations s' account = None"
    by (auto simp: go_simps go_lift_def on_env_def go_zoom_def del_generation_def split: option.splits prod.splits list.splits elim!: go_bind_RetE)
  have agg': "agg = foldl (poly_add (pk_Add B)) (replicate (unat (g_threshold g)) (pk_zero B)) ?vvs"
    and len: "\<forall>vv \<in> set ?vvs. length vv \<le> unat (g_threshold g)"
    using agg by (auto simp: vv_aggregate_poly split: if_splits)
  have "length (foldl (poly_add (pk_Add B)) a vvs) = length a" if "\<forall>vv \<in> set vvs. length vv \<le> length a" for a vvs
    using that by (induction vvs arbitrary: a) simp_all
  from this [of ?vvs "replicate (unat (g_threshold g)) (pk_zero B)"] len have la: "length agg = unat (g_threshold g)" by (simp add: agg')
  then have t: "0 < unat (g_threshold g)" using out(1) by (metis length_greater_0_conv)
  have pairs: "list_all2 (\<lambda>sk vv. verified B (ps_id P) sk vv) (map snd (g_sharedSecrets g)) (map snd (g_sharedVVecs g))"
    using gok own B by (auto simp: gen_ok_def gid list_all2_map1 list_all2_map2 pair_ok_def elim!: list_all2_mono)
  have "g_sharedSecrets g \<noteq> []" using mis own by (auto simp: contributions_missing_def split: if_splits)
  with pairs obtain i where i: "BLSID B (ps_id P) = Ret i"
    by (cases "g_sharedSecrets g"; cases "g_sharedVVecs g") (auto simp: verified_def)
  have "mset (map snd (map_range rt (g_sharedSecrets g))) = mset (map snd (g_sharedSecrets g))"
    "mset ?vvs = mset (map snd (g_sharedVVecs g))" by (simp_all add: mset_map_range [OF fair])
  from aggregate_verified [OF pairs this t i] have "pk_Set B agg i = Inr (GetPublicKey B ?sk)" by (simp add: agg')
  with i la out storeDistributedKey_imports [OF st] B show ?thesis by blast
qed

end

section \<open>Reachable states\<close>

text \<open>An instance serves requests in any order, while the world around it changes in any way.\<close>

inductive serves ::
  "('e, 'sk, 'pk, 'sig, 'i, 'wal, 'acc) process \<Rightarrow> go_runtime \<Rightarrow> ('sk, 'pk, 'e) node \<Rightarrow> ('sk, 'pk, 'e) node \<Rightarrow> bool" for P rt where
  prepare: "OnPrepare P rt sender account passphrase t qs s = (r, s') \<Longrightarrow> serves P rt s s'"
| execute: "OnExecute P rt sender account s = (r, s') \<Longrightarrow> serves P rt s s'"
| contribute: "OnContribute P sender account secret vVec s = (rc, s') \<Longrightarrow> serves P rt s s'"
| commit: "OnCommit P rt sender account data s = (rd, s') \<Longrightarrow> serves P rt s s'"
| abort: "OnAbort P sender account s = (r, s') \<Longrightarrow> serves P rt s s'"
| world: "serves P rt s (s\<lparr>nd_env := e\<rparr>)"

lemma triple_state: "go_triple I m (\<lambda>_. I) I \<Longrightarrow> m s = (r, s') \<Longrightarrow> I s \<Longrightarrow> I s'"
  by (cases r) (auto simp: go_triple_def split: go.splits)

context bls_laws
begin

lemma serves_ok:
  assumes B: "ps_bls P = B" and fair: "fair_runtime rt" and "serves P rt s s'" and "node_ok P s"
  shows "node_ok P s'"
  using assms(3,4)
proof (induction rule: serves.induct)
  case (prepare sender account passphrase t qs s r s')
  from triple_state [OF OnPrepare_ok [OF B fair] this] show ?case .
next
  case (execute sender account s r s')
  from triple_state [OF OnExecute_ok [OF B] this] show ?case .
next
  case (contribute sender account secret vVec s rc s')
  from triple_state [OF OnContribute_ok [OF B] this] show ?case .
next
  case (commit sender account data s rd s')
  from triple_state [OF OnCommit_ok this] show ?case .
next
  case (abort sender account s r s')
  from triple_state [OF OnAbort_ok this] show ?case .
qed (rule node_ok_env)

lemma reachable_ok:
  assumes B: "ps_bls P = B" and fair: "fair_runtime rt" and run: "(serves P rt)\<^sup>*\<^sup>* s0 s" and start: "nd_generations s0 = Map.empty"
  shows "node_ok P s"
  using run
proof (induction rule: rtranclp_induct)
  case base
  then show ?case using start by (simp add: node_ok_def)
next
  case (step y z)
  with serves_ok [OF B fair] show ?case by blast
qed

end

text \<open>
  A vector that is longer than the threshold passes the verification of a contribution, and makes
  the commit that follows panic.
\<close>

lemma OnCommit_long_vector:
  assumes "nd_generations s account = Some g" and "ps_Now P (nd_env s) - g_processStarted g \<le> ps_generationTimeout P"
    and "contributions_missing rt g = None" and "fair_runtime rt" and "(n, vv) \<in> set (g_sharedVVecs g)" and "unat (g_threshold g) < length vv"
  shows "OnCommit P rt sender account data s = (Panic index_out_of_range, s)"
proof -
  have "vv \<in> set (map snd (map_range rt (g_sharedVVecs g)))" using assms(5) set_map_range [OF assms(4), of "g_sharedVVecs g"] by force
  with assms(6) have "vv_aggregate (ps_bls P) (replicate (unat (g_threshold g)) (pk_zero (ps_bls P))) (map snd (map_range rt (g_sharedVVecs g))) =
      Panic index_out_of_range"
    unfolding vv_aggregate_poly length_replicate by (metis linorder_not_less)
  with assms(1-3) show ?thesis by (simp add: OnCommit_def getGeneration_def go_bind_def go_simps Let_def)
qed

end
