(* ===== verification/Generator.thy ===== *)
theory Generator
  imports Process
begin

text \<open>
  The coordinator of a key generation (\<open>services/process/standard/generate.go\<close>): it checks the
  request, creates a plain account or runs the distributed generation over the participants, and
  confirms the result with signatures of the new shares.
\<close>

definition process_checkAccess ::
  "('e, 'sk, 'pk, 'sig, 'i, 'wal, 'acc) process \<Rightarrow> credentials option \<Rightarrow> string \<Rightarrow> string \<Rightarrow> core_result" where
  "process_checkAccess P creds accountName action =
     (if ps_Check P creds accountName action then ResultSucceeded else ResultDenied)"

section \<open>A plain account\<close>

definition create_account ::
  "('e, 'sk, 'pk, 'sig, 'i, 'wal, 'acc) process \<Rightarrow> 'wal \<Rightarrow> string \<Rightarrow> bytes option \<Rightarrow> ('e, err + bytes) op" where
  "create_account P wallet accountName passphrase =
     (if \<not> ks_wal_is_creator (ps_store P) wallet then go_panic ''interface conversion''
      else
        go_bind (ks_CreateAccount (ps_store P) wallet accountName passphrase) (\<lambda>r.
          case r of
            Inl e \<Rightarrow> go_return (Inl (wrap_err ''failed to create account'' e))
          | Inr createdAccount \<Rightarrow>
              go_bind (ks_AddAccount (ps_store P) wallet createdAccount) (\<lambda>_.
                go_return (Inr (ks_acc_PublicKey (ps_store P) createdAccount)))))"

definition generate ::
  "('e, 'sk, 'pk, 'sig, 'i, 'wal, 'acc) process \<Rightarrow> 'wal \<Rightarrow> string \<Rightarrow> bytes option \<Rightarrow> ('e, err + bytes) op" where
  "generate P wallet accountName passphrase =
     (if ks_wal_Type (ps_store P) wallet = ''distributed'' then go_return (Inl ''wallet does not support account creation'')
      else if ks_wal_is_locker (ps_store P) wallet then
        go_bind (ks_UnlockWallet (ps_store P) wallet) (\<lambda>u.
          case u of
            Inl e \<Rightarrow> go_return (Inl (wrap_err ''failed to unlock wallet'' e))
          | Inr unlocked \<Rightarrow>
              if \<not> unlocked then go_return (Inl ''failed to unlock wallet with known passphrases'')
              else deferred_lock P wallet (create_account P wallet accountName passphrase))
      else create_account P wallet accountName passphrase)"

section \<open>A distributed account\<close>

text \<open>A request to each participant in turn, until one fails.\<close>

fun for_each :: "(endpoint \<Rightarrow> ('e, err option) op) \<Rightarrow> string \<Rightarrow> endpoint list \<Rightarrow> ('e, err option) op" where
  "for_each request msg [] = go_return None"
| "for_each request msg (p # ps) =
     go_bind (request p) (\<lambda>e.
       case e of Some err \<Rightarrow> go_return (Some (wrap_err msg err)) | None \<Rightarrow> for_each request msg ps)"

text \<open>The results of the commit requests, as they come out of the channel.\<close>

fun check_commits :: "(nat \<times> (err + bytes \<times> bytes)) list \<Rightarrow> err option" where
  "check_commits [] = None"
| "check_commits ((i, r) # rest) =
     (case r of
        Inl e \<Rightarrow> Some (wrap_err ''failed to complete generation'' e)
      | Inr (pubKey, confirmationSig) \<Rightarrow>
          if length pubKey = 0 then Some ''failed to complete generation''
          else if length confirmationSig = 0 then Some ''failed to complete generation''
          else check_commits rest)"

definition commit_at :: "(nat \<times> (err + bytes \<times> bytes)) list \<Rightarrow> nat \<Rightarrow> bytes \<times> bytes" where
  "commit_at results i = (case map_of results i of Some (Inr x) \<Rightarrow> x | _ \<Rightarrow> ([], []))"

text \<open>One window of \<open>signingThreshold\<close> consecutive participants: its composite signature verifies.\<close>

fun window_parts ::
  "('sk, 'pk, 'sig, 'i) bls_lib \<Rightarrow> (endpoint \<times> bytes) list \<Rightarrow> (err + ('i \<times> 'sig) list) go" where
  "window_parts B [] = Ret (Inr [])"
| "window_parts B ((p, sig) # rest) =
     (case BLSID B (ep_ID p) of
        Ret i \<Rightarrow>
          (case sig_Deserialize B sig of
             Inl e \<Rightarrow> Ret (Inl ''invalid generation'')
           | Inr sg \<Rightarrow>
               (case window_parts B rest of
                  Ret (Inr xs) \<Rightarrow> Ret (Inr ((i, sg) # xs)) | Ret (Inl e) \<Rightarrow> Ret (Inl e) | Panic e \<Rightarrow> Panic e | Block \<Rightarrow> Block))
      | Panic e \<Rightarrow> Panic e
      | Block \<Rightarrow> Block)"

definition check_window ::
  "('sk, 'pk, 'sig, 'i) bls_lib \<Rightarrow> 'pk \<Rightarrow> bytes \<Rightarrow> (endpoint \<times> bytes) list \<Rightarrow> err option go" where
  "check_window B pubKey confirmationData window =
     (case window_parts B window of
        Ret (Inr xs) \<Rightarrow>
          (case sig_Recover B (map snd xs) (map fst xs) of
             Inl e \<Rightarrow> Ret (Some ''invalid generation'')
           | Inr compositeSig \<Rightarrow>
               if VerifyByte B compositeSig pubKey confirmationData then Ret None else Ret (Some ''invalid generation''))
      | Ret (Inl e) \<Rightarrow> Ret (Some e)
      | Panic e \<Rightarrow> Panic e
      | Block \<Rightarrow> Block)"

fun check_windows ::
  "('sk, 'pk, 'sig, 'i) bls_lib \<Rightarrow> 'pk \<Rightarrow> bytes \<Rightarrow> (endpoint \<times> bytes) list \<Rightarrow> nat \<Rightarrow> nat list \<Rightarrow> err option go" where
  "check_windows B pubKey confirmationData parts signingThreshold [] = Ret None"
| "check_windows B pubKey confirmationData parts signingThreshold (i # is) =
     (case check_window B pubKey confirmationData (take signingThreshold (drop i parts)) of
        Ret None \<Rightarrow> check_windows B pubKey confirmationData parts signingThreshold is
      | Ret (Some e) \<Rightarrow> Ret (Some e)
      | Panic e \<Rightarrow> Panic e
      | Block \<Rightarrow> Block)"

definition confirm_generation ::
  "('sk, 'pk, 'sig, 'i) bls_lib \<Rightarrow> endpoint list \<Rightarrow> bytes list \<Rightarrow> bytes list \<Rightarrow> nat \<Rightarrow> bytes \<Rightarrow> err option go" where
  "confirm_generation B participants pubKeys confirmationSigs signingThreshold confirmationData =
     (if \<not> list_all (\<lambda>i. pubKeys ! i = pubKeys ! (Suc i mod length pubKeys)) [0..<length pubKeys]
      then Ret (Some ''invalid generation'')
      else case pubKeys of
             [] \<Rightarrow> Panic index_out_of_range
           | k # _ \<Rightarrow>
               (case pk_Deserialize B k of
                  Inl e \<Rightarrow> Ret (Some ''invalid generation'')
                | Inr pubKey \<Rightarrow>
                    check_windows B pubKey confirmationData (zip participants confirmationSigs) signingThreshold
                      [0..<length participants + 1 - signingThreshold]))"

definition generateDistributed ::
  "('e, 'sk, 'pk, 'sig, 'i, 'wal, 'acc) process \<Rightarrow> go_runtime \<Rightarrow> 'wal \<Rightarrow> string \<Rightarrow> bytes option \<Rightarrow> u32 \<Rightarrow> u32 \<Rightarrow>
     ('e, err + bytes \<times> endpoint list) op" where
  "generateDistributed P rt wallet account passphrase signingThreshold numParticipants =
     (if ks_wal_Type (ps_store P) wallet \<noteq> ''distributed''
      then go_return (Inl ''wallet does not support distributed generation'')
      else
        go_bind (go_lift (ps_Suitable P numParticipants)) (\<lambda>s.
          case s of
            Inl e \<Rightarrow> go_return (Inl ''no suitable participants'')
          | Inr participants \<Rightarrow>
              go_bind (for_each (\<lambda>p. ps_Prepare P p account passphrase signingThreshold participants)
                         ''failed to prepare endpoints'' participants) (\<lambda>e1.
                case e1 of
                  Some e \<Rightarrow> go_return (Inl e)
                | None \<Rightarrow>
                    go_bind (for_each (\<lambda>p. ps_Execute P p account) ''failed to execute generation'' participants) (\<lambda>e2.
                      case e2 of
                        Some e \<Rightarrow> go_return (Inl e)
                      | None \<Rightarrow>
                          go_bind (ps_randRead P 32) (\<lambda>rd.
                            case rd of
                              Inl e \<Rightarrow> go_return (Inl (wrap_err ''failed to generate commit data'' e))
                            | Inr confirmationData \<Rightarrow>
                                if length confirmationData \<noteq> 32 then go_return (Inl ''failed to generate enough commit data'')
                                else
                                  go_bind (run_workers (schedule rt (length participants)) (\<lambda>i.
                                      go_bind (ps_Commit P (participants ! i) account confirmationData) (\<lambda>r. go_return (i, r)))) (\<lambda>results.
                                    case check_commits results of
                                      Some e \<Rightarrow> go_return (Inl e)
                                    | None \<Rightarrow>
                                        let commits = map (commit_at results) [0..<length participants] in
                                        go_bind (go_lift (confirm_generation (ps_bls P) participants (map fst commits) (map snd commits)
                                                   (unat signingThreshold) confirmationData)) (\<lambda>c.
                                          case c of
                                            Some e \<Rightarrow> go_return (Inl e)
                                          | None \<Rightarrow> go_return (Inr (fst (commits ! 0), participants)))))))))"

definition OnGenerate ::
  "('e, 'sk, 'pk, 'sig, 'i, 'wal, 'acc) process \<Rightarrow> go_runtime \<Rightarrow> credentials option \<Rightarrow> string \<Rightarrow> bytes option \<Rightarrow> u32 \<Rightarrow> u32 \<Rightarrow>
     ('e, err + bytes \<times> endpoint list) op" where
  "OnGenerate P rt creds account passphrase signingThreshold numParticipants =
     (if numParticipants = 0 then go_return (Inl ''zero participants'')
      else if numParticipants < signingThreshold then go_return (Inl ''signing threshold too high'')
      else if signingThreshold \<le> numParticipants div 2 then go_return (Inl ''signing threshold too low'')
      else case ks_Names (ps_store P) account of
             Inl e \<Rightarrow> go_return (Inl (wrap_err ''invalid account'' e))
           | Inr (walletName, accountName) \<Rightarrow>
               go_bind (ks_OpenWallet (ps_store P) walletName) (\<lambda>w.
                 case w of
                   Inl e \<Rightarrow> go_return (Inl (wrap_err ''unknown wallet'' e))
                 | Inr wallet \<Rightarrow>
                     if \<not> ks_wal_is_by_name (ps_store P) wallet
                     then go_return (Inl ''wallet does not support fetching accounts by name'')
                     else go_bind (ks_AccountByName (ps_store P) wallet accountName) (\<lambda>a.
                       case a of
                         Inr _ \<Rightarrow> go_return (Inl ''account already exists'')
                       | Inl _ \<Rightarrow>
                           if process_checkAccess P creds account ActionCreateAccount \<noteq> ResultSucceeded
                           then go_return (Inl ''failed rules check'')
                           else if numParticipants = 1 then
                             go_bind (generate P wallet accountName passphrase) (\<lambda>k.
                               case k of
                                 Inl e \<Rightarrow> go_return (Inl ''failed account generation'')
                               | Inr pubKey \<Rightarrow> go_return (Inr (pubKey, [])))
                           else generateDistributed P rt wallet account passphrase signingThreshold numParticipants)))"

section \<open>What a generated account guarantees\<close>

text \<open>The request was within bounds and permitted, and the account is new.\<close>

lemma OnGenerate_allowed:
  assumes "OnGenerate P rt creds account passphrase t n e = (Ret (Inr x), e')"
  shows "0 < n" and "t \<le> n" and "n div 2 < t" and "ps_Check P creds account ActionCreateAccount"
    and "n \<noteq> 1 \<Longrightarrow> \<exists>wallet e1. generateDistributed P rt wallet account passphrase t n e1 = (Ret (Inr x), e')"
proof -
  have c: "\<not> (n = 0)" "\<not> (n < t)" "\<not> (t \<le> n div 2)"
    using assms by (auto simp: OnGenerate_def go_simps split: if_splits)
  then show "0 < n" "t \<le> n" "n div 2 < t" by (auto simp: word_neq_0_conv)
  note run = assms [unfolded OnGenerate_def if_not_P [OF c(1)] if_not_P [OF c(2)] if_not_P [OF c(3)]]
  have "ps_Check P creds account ActionCreateAccount \<and>
     (n \<noteq> 1 \<longrightarrow> (\<exists>wallet e1. generateDistributed P rt wallet account passphrase t n e1 = (Ret (Inr x), e')))"
    using run
    by (auto simp: go_simps process_checkAccess_def split: sum.splits prod.splits if_splits elim!: go_bind_RetE) blast+
  then show "ps_Check P creds account ActionCreateAccount"
    and "n \<noteq> 1 \<Longrightarrow> \<exists>wallet e1. generateDistributed P rt wallet account passphrase t n e1 = (Ret (Inr x), e')" by auto
qed

lemma quorum:
  assumes "(n :: u32) div 2 < t"
  shows "unat n < 2 * unat t"
proof -
  have "unat (n div 2) < unat t" using assms by (simp add: word_less_nat_alt)
  then have "unat n div 2 < unat t" by (simp add: unat_div)
  then show ?thesis by linarith
qed

text \<open>Two groups that can sign have a member in common.\<close>

lemma quorums_meet:
  assumes "finite U" "card U \<le> n" "A \<subseteq> U" "B \<subseteq> U" "n < card A + card B"
  shows "A \<inter> B \<noteq> {}"
proof
  assume "A \<inter> B = {}"
  then have "card (A \<union> B) = card A + card B" using assms finite_subset by (metis card_Un_disjoint)
  moreover have "card (A \<union> B) \<le> card U" using assms by (simp add: card_mono)
  ultimately show False using assms by linarith
qed

lemma windows_ok:
  "check_windows B pk data parts t is = Ret None \<Longrightarrow> i \<in> set is \<Longrightarrow> check_window B pk data (take t (drop i parts)) = Ret None"
  by (induction "is") (auto split: go.splits option.splits)

lemma window_verifies:
  assumes "check_window B pk data window = Ret None"
  shows "\<exists>xs sg. window_parts B window = Ret (Inr xs) \<and> sig_Recover B (map snd xs) (map fst xs) = Inr sg \<and> VerifyByte B sg pk data"
  using assms by (auto simp: check_window_def split: go.splits sum.splits if_splits)

lemma cyclic_equal:
  assumes "list_all (\<lambda>i. xs ! i = xs ! (Suc i mod length xs)) [0..<length xs]" and "i < length xs"
  shows "xs ! i = xs ! 0"
  using assms(2)
proof (induction i)
  case (Suc i)
  with assms(1) have "xs ! i = xs ! (Suc i mod length xs)" by (simp add: list_all_iff)
  with Suc show ?case by simp
qed simp

lemma run_workers_results:
  "run_workers is work e = (Ret rs, e') \<Longrightarrow> list_all2 (\<lambda>i r. \<exists>e1 e2. work i e1 = (Ret r, e2)) is rs"
proof (induction "is" arbitrary: e rs)
  case (Cons i "is")
  then obtain r e1 rs' where "work i e = (Ret r, e1)" "run_workers is work e1 = (Ret rs', e')" "rs = r # rs'"
    by (auto simp: go_simps elim!: go_bind_RetE)
  with Cons.IH show ?case by auto
qed (simp add: go_simps)

lemma run_workers_indexed:
  assumes "run_workers is (\<lambda>i. go_bind (m i) (\<lambda>r. go_return (i, r))) e = (Ret rs, e')"
  shows "map fst rs = is" and "(i, r) \<in> set rs \<Longrightarrow> \<exists>e1 e2. m i e1 = (Ret r, e2)"
proof -
  have all: "list_all2 (\<lambda>i x. fst x = i \<and> (\<exists>e1 e2. m i e1 = (Ret (snd x), e2))) is rs"
    using run_workers_results [OF assms] by (rule list_all2_mono) (fastforce simp: go_simps elim!: go_bind_RetE)
  then show "map fst rs = is" by (induction rule: list_all2_induct) auto
  show "(i, r) \<in> set rs \<Longrightarrow> \<exists>e1 e2. m i e1 = (Ret r, e2)"
    using all by (induction rule: list_all2_induct) (auto, blast)
qed

lemma check_commits_ok:
  "check_commits rs = None \<Longrightarrow> (i, r) \<in> set rs \<Longrightarrow> \<exists>k g. r = Inr (k, g) \<and> k \<noteq> [] \<and> g \<noteq> []"
  by (induction rs) (auto split: sum.splits if_splits)

text \<open>
  Every participant has committed to the key, and the signatures of any \<open>t\<close> participants in a row
  give one that verifies with it.
\<close>

definition confirmed ::
  "('e, 'sk, 'pk, 'sig, 'i, 'wal, 'acc) process \<Rightarrow> string \<Rightarrow> u32 \<Rightarrow> bytes \<Rightarrow> endpoint list \<Rightarrow> bool" where
  "confirmed P account t pubKey participants \<longleftrightarrow>
     (\<exists>data sigs pk. length data = 32 \<and> length sigs = length participants \<and> pk_Deserialize (ps_bls P) pubKey = Inr pk \<and>
      (\<forall>i. i < length participants \<longrightarrow> (\<exists>e1 e2. ps_Commit P (participants ! i) account data e1 = (Ret (Inr (pubKey, sigs ! i)), e2))) \<and>
      (\<forall>i. i < length participants + 1 - unat t \<longrightarrow> (\<exists>xs sg. window_parts (ps_bls P) (take (unat t) (drop i (zip participants sigs))) = Ret (Inr xs) \<and>
         sig_Recover (ps_bls P) (map snd xs) (map fst xs) = Inr sg \<and> VerifyByte (ps_bls P) sg pk data)))"

text \<open>
  A distributed generation that succeeds: every participant has committed to the key that is
  returned, and the signatures of any \<open>t\<close> participants in a row give one that verifies with it.
\<close>

lemma generateDistributed_confirmed:
  assumes fair: "fair_runtime rt"
    and run: "generateDistributed P rt wallet account passphrase t n e = (Ret (Inr (pubKey, participants)), e')"
  shows "ps_Suitable P n = Ret (Inr participants)"
    and "confirmed P account t pubKey participants"
proof -
  have ty: "\<not> ks_wal_Type (ps_store P) wallet \<noteq> ''distributed''" using run by (auto simp: generateDistributed_def go_simps split: if_splits)
  from run [unfolded generateDistributed_def if_not_P [OF ty]]
  obtain data results commits e1 e2 where su: "ps_Suitable P n = Ret (Inr participants)" and d: "length data = 32"
    and rs: "run_workers (schedule rt (length participants)) (\<lambda>i. go_bind (ps_Commit P (participants ! i) account data) (\<lambda>r. go_return (i, r))) e1 =
      (Ret results, e2)" and chk: "check_commits results = None"
    and cm: "commits = map (commit_at results) [0..<length participants]"
    and c: "confirm_generation (ps_bls P) participants (map fst commits) (map snd commits) (unat t) data = Ret None"
    and k: "pubKey = fst (commits ! 0)"
    by (auto simp: go_simps Let_def go_lift_def split: sum.splits option.splits if_splits elim!: go_bind_RetE)
  from su show "ps_Suitable P n = Ret (Inr participants)" .
  from c have "commits \<noteq> []" by (auto simp: confirm_generation_def)
  then obtain x xs where cc: "commits = x # xs" by (cases commits) auto
  from c [unfolded confirm_generation_def] obtain pk where pk: "pk_Deserialize (ps_bls P) (fst x) = Inr pk"
    and eq: "list_all (\<lambda>i. map fst commits ! i = map fst commits ! (Suc i mod length (map fst commits))) [0..<length (map fst commits)]"
    and w: "check_windows (ps_bls P) pk data (zip participants (map snd commits)) (unat t) [0..<length participants + 1 - unat t] = Ret None"
    by (auto simp: cc split: if_splits sum.splits)
  have "mset (map fst results) = mset [0..<length participants]"
    using run_workers_indexed(1) [OF rs] fair unfolding fair_runtime_def by simp
  then have dist: "distinct (map fst results)" and idx: "set (map fst results) = {..<length participants}"
    by (metis distinct_upt mset_eq_imp_distinct_iff, metis atLeast0LessThan mset_eq_setD set_upt)
  have cmt: "\<exists>e1 e2. ps_Commit P (participants ! i) account data e1 = (Ret (Inr (pubKey, map snd commits ! i)), e2)" if i: "i < length participants" for i
  proof -
    have "i \<in> fst ` set results" using i idx by simp
    then obtain r where r: "(i, r) \<in> set results" by force
    with check_commits_ok [OF chk r] obtain kk gg where rr: "r = Inr (kk, gg)" by blast
    have "commits ! i = (kk, gg)" using i rr map_of_is_SomeI [OF dist r] by (simp add: cm commit_at_def)
    moreover have "fst (commits ! i) = pubKey" using cyclic_equal [OF eq, of i] i k by (cases "length participants") (simp_all add: cm nth_map del: upt_Suc)
    moreover obtain ea eb where "ps_Commit P (participants ! i) account data ea = (Ret r, eb)" using run_workers_indexed(2) [OF rs r] by blast
    ultimately show ?thesis using i rr by (auto simp: cm)
  qed
  have win: "\<exists>xs sg. window_parts (ps_bls P) (take (unat t) (drop i (zip participants (map snd commits)))) = Ret (Inr xs) \<and>
         sig_Recover (ps_bls P) (map snd xs) (map fst xs) = Inr sg \<and> VerifyByte (ps_bls P) sg pk data"
    if "i < length participants + 1 - unat t" for i
    by (rule window_verifies [OF windows_ok [OF w]]) (use that in simp)
  have "length (map snd commits) = length participants" by (simp add: cm)
  moreover have "pk_Deserialize (ps_bls P) pubKey = Inr pk" using pk k cc by simp
  ultimately show "confirmed P account t pubKey participants" unfolding confirmed_def using d cmt win
    by (intro exI [of _ data] exI [of _ "map snd commits"] exI [of _ pk] conjI allI impI)
qed

end
