(* ===== verification/Messages.thy ===== *)
theory Messages
  imports Process
begin

text \<open>
  The messages between the instances of a cluster: the sender (\<open>services/sender/grpc\<close>) turns the
  calls of the process into requests on a connection, and the receiver
  (\<open>services/api/grpc/handlers/receiver\<close>) turns requests into calls of the process of its instance,
  for callers whose certificate names a peer. Connections, their pools and the remote calls
  themselves are the fields of a record.
\<close>

section \<open>Requests\<close>

record prepare_request =
  pr_Account :: string
  pr_Passphrase :: "bytes option"
  pr_Threshold :: u32
  pr_Participants :: "endpoint list"

record contribute_request =
  cq_Account :: string
  cq_Secret :: bytes
  cq_VerificationVector :: "bytes list"

record contribute_response =
  ca_Secret :: bytes
  ca_VerificationVector :: "bytes list"

section \<open>The receiver\<close>

definition rc_Prepare ::
  "('e, 'sk, 'pk, 'sig, 'i, 'wal, 'acc) process \<Rightarrow> peers \<Rightarrow> go_runtime \<Rightarrow> string option \<Rightarrow> prepare_request \<Rightarrow>
     (('sk, 'pk, 'e) node, err option) op" where
  "rc_Prepare P ps rt client req =
     (let sid = senderID rt ps client in
      if sid = 0 then go_return (Some ''unknown sender'')
      else
        go_bind (OnPrepare P rt sid (pr_Account req) (pr_Passphrase req) (pr_Threshold req) (pr_Participants req)) (\<lambda>e.
          case e of Some _ \<Rightarrow> go_return (Some ''failed to prepare'') | None \<Rightarrow> go_return None))"

definition rc_Execute ::
  "('e, 'sk, 'pk, 'sig, 'i, 'wal, 'acc) process \<Rightarrow> peers \<Rightarrow> go_runtime \<Rightarrow> string option \<Rightarrow> string \<Rightarrow>
     (('sk, 'pk, 'e) node, err option) op" where
  "rc_Execute P ps rt client account =
     (let sid = senderID rt ps client in
      if sid = 0 then go_return (Some ''unknown sender'') else OnExecute P rt sid account)"

definition rc_Commit ::
  "('e, 'sk, 'pk, 'sig, 'i, 'wal, 'acc) process \<Rightarrow> peers \<Rightarrow> go_runtime \<Rightarrow> string option \<Rightarrow> string \<Rightarrow> bytes \<Rightarrow>
     (('sk, 'pk, 'e) node, err + bytes \<times> bytes) op" where
  "rc_Commit P ps rt client account confirmationData =
     (let sid = senderID rt ps client in
      if sid = 0 then go_return (Inl ''unknown sender'')
      else
        go_bind (OnCommit P rt sid account confirmationData) (\<lambda>r.
          case r of Inl e \<Rightarrow> go_return (Inl (wrap_err ''failed to commit created key'' e)) | Inr x \<Rightarrow> go_return (Inr x)))"

definition rc_Abort ::
  "('e, 'sk, 'pk, 'sig, 'i, 'wal, 'acc) process \<Rightarrow> peers \<Rightarrow> go_runtime \<Rightarrow> string option \<Rightarrow> string \<Rightarrow>
     (('sk, 'pk, 'e) node, err option) op" where
  "rc_Abort P ps rt client account =
     (let sid = senderID rt ps client in
      if sid = 0 then go_return (Some ''unknown sender'')
      else
        go_bind (OnAbort P sid account) (\<lambda>e.
          case e of Some _ \<Rightarrow> go_return (Some ''failed'') | None \<Rightarrow> go_return None))"

text \<open>The loop that reads a verification vector.\<close>

fun read_vector :: "('sk, 'pk, 'sig, 'i) bls_lib \<Rightarrow> string \<Rightarrow> bytes list \<Rightarrow> err + 'pk list" where
  "read_vector B msg [] = Inr []"
| "read_vector B msg (k # ks) =
     (case pk_Deserialize B k of
        Inl e \<Rightarrow> Inl (wrap_err msg e)
      | Inr v \<Rightarrow> (case read_vector B msg ks of Inl e \<Rightarrow> Inl e | Inr vs \<Rightarrow> Inr (v # vs)))"

definition rc_Contribute ::
  "('e, 'sk, 'pk, 'sig, 'i, 'wal, 'acc) process \<Rightarrow> peers \<Rightarrow> go_runtime \<Rightarrow> string option \<Rightarrow> contribute_request \<Rightarrow>
     (('sk, 'pk, 'e) node, err + contribute_response) op" where
  "rc_Contribute P ps rt client req =
     (let sid = senderID rt ps client in
      if sid = 0 then go_return (Inl ''unknown sender'')
      else case sk_Deserialize (ps_bls P) (cq_Secret req) of
             Inl e \<Rightarrow> go_return (Inl ''invalid secret key'')
           | Inr secret \<Rightarrow>
               (case read_vector (ps_bls P) ''invalid verification vector'' (cq_VerificationVector req) of
                  Inl e \<Rightarrow> go_return (Inl e)
                | Inr vVec \<Rightarrow>
                    go_bind (OnContribute P sid (cq_Account req) secret vVec) (\<lambda>r.
                      case r of
                        Inl e \<Rightarrow> go_return (Inl (wrap_err ''failed to handle contribution'' e))
                      | Inr (retSecret, retVVec) \<Rightarrow>
                          go_return (Inr \<lparr>ca_Secret = sk_Serialize (ps_bls P) retSecret,
                                          ca_VerificationVector = map (pk_Serialize (ps_bls P)) retVVec\<rparr>))))"

section \<open>The sender\<close>

text \<open>
  \<open>tr_NewPool\<close> makes the pool of connections to an address, \<open>tr_Acquire\<close> takes a connection out of
  it and \<open>tr_Release\<close> gives it back. The pools of the sender are part of its state.
\<close>

record ('e, 'pool, 'conn) transport =
  tr_NewPool :: "string \<Rightarrow> 'pool"
  tr_Acquire :: "'pool \<Rightarrow> ('e, err + 'conn) op"
  tr_Release :: "'conn \<Rightarrow> ('e, unit) op"
  tr_Prepare :: "'conn \<Rightarrow> prepare_request \<Rightarrow> ('e, err option) op"
  tr_Execute :: "'conn \<Rightarrow> string \<Rightarrow> ('e, err option) op"
  tr_Commit :: "'conn \<Rightarrow> string \<Rightarrow> bytes \<Rightarrow> ('e, err + bytes \<times> bytes) op"
  tr_Abort :: "'conn \<Rightarrow> string \<Rightarrow> ('e, err option) op"
  tr_Contribute :: "'conn \<Rightarrow> contribute_request \<Rightarrow> ('e, err + contribute_response) op"

type_synonym ('e, 'pool) sender_state = "(string \<Rightarrow> 'pool option) \<times> 'e"

definition on_transport :: "('e, 'a) op \<Rightarrow> (('e, 'pool) sender_state, 'a) op" where
  "on_transport = go_zoom snd (\<lambda>e (pools, _). (pools, e))"

definition obtainConnection ::
  "('e, 'pool, 'conn) transport \<Rightarrow> string \<Rightarrow> (('e, 'pool) sender_state, err + 'conn) op" where
  "obtainConnection T address =
     go_bind (\<lambda>(pools, e). case pools address of
                 Some pool \<Rightarrow> (Ret pool, (pools, e))
               | None \<Rightarrow> (Ret (tr_NewPool T address), (pools(address \<mapsto> tr_NewPool T address), e)))
       (\<lambda>pool. on_transport (tr_Acquire T pool))"

text \<open>A call on a connection to a peer, which is released when the call is over.\<close>

definition with_connection ::
  "('e, 'pool, 'conn) transport \<Rightarrow> string \<Rightarrow> endpoint \<Rightarrow> (err \<Rightarrow> 'a) \<Rightarrow> ('conn \<Rightarrow> ('e, 'a) op) \<Rightarrow>
     (('e, 'pool) sender_state, 'a) op" where
  "with_connection T name peer fail call =
     go_bind (obtainConnection T (ConnectAddress peer)) (\<lambda>c.
       case c of
         Inl e \<Rightarrow> go_return (fail (wrap_err (''failed to obtain connection for '' @ name @ ''()'') e))
       | Inr conn \<Rightarrow> on_transport (go_bind (call conn) (\<lambda>x. go_bind (tr_Release T conn) (\<lambda>_. go_return x))))"

definition snd_Prepare ::
  "('e, 'pool, 'conn) transport \<Rightarrow> endpoint \<Rightarrow> string \<Rightarrow> bytes option \<Rightarrow> u32 \<Rightarrow> endpoint list \<Rightarrow>
     (('e, 'pool) sender_state, err option) op" where
  "snd_Prepare T peer account passphrase threshold participants =
     with_connection T ''Prepare'' peer Some (\<lambda>conn.
       go_bind (tr_Prepare T conn \<lparr>pr_Account = account, pr_Passphrase = passphrase, pr_Threshold = threshold,
                                  pr_Participants = participants\<rparr>) (\<lambda>e.
         go_return (map_option (wrap_err ''failed to call Prepare()'') e)))"

definition snd_Execute ::
  "('e, 'pool, 'conn) transport \<Rightarrow> endpoint \<Rightarrow> string \<Rightarrow> (('e, 'pool) sender_state, err option) op" where
  "snd_Execute T peer account =
     with_connection T ''Execute'' peer Some (\<lambda>conn.
       go_bind (tr_Execute T conn account) (\<lambda>e. go_return (map_option (wrap_err ''failed to call Execute()'') e)))"

definition snd_Commit ::
  "('e, 'pool, 'conn) transport \<Rightarrow> endpoint \<Rightarrow> string \<Rightarrow> bytes \<Rightarrow> (('e, 'pool) sender_state, err + bytes \<times> bytes) op" where
  "snd_Commit T peer account confirmationData =
     with_connection T ''Commit'' peer Inl (\<lambda>conn.
       go_bind (tr_Commit T conn account confirmationData) (\<lambda>r.
         case r of Inl e \<Rightarrow> go_return (Inl (wrap_err ''failed to call Commit()'' e)) | Inr x \<Rightarrow> go_return (Inr x)))"

text \<open>\<open>Abort\<close> reports a failed connection under the name of \<open>Execute\<close>.\<close>

definition snd_Abort ::
  "('e, 'pool, 'conn) transport \<Rightarrow> endpoint \<Rightarrow> string \<Rightarrow> (('e, 'pool) sender_state, err option) op" where
  "snd_Abort T peer account =
     with_connection T ''Execute'' peer Some (\<lambda>conn.
       go_bind (tr_Abort T conn account) (\<lambda>e. go_return (map_option (wrap_err ''failed to call Abort()'') e)))"

definition snd_SendContribution ::
  "('sk, 'pk, 'sig, 'i) bls_lib \<Rightarrow> ('e, 'pool, 'conn) transport \<Rightarrow> endpoint \<Rightarrow> string \<Rightarrow> 'sk \<Rightarrow> 'pk list \<Rightarrow>
     (('e, 'pool) sender_state, err + 'sk \<times> 'pk list) op" where
  "snd_SendContribution B T peer account distributionSecret verificationVector =
     with_connection T ''SendContribution'' peer Inl (\<lambda>conn.
       go_bind (tr_Contribute T conn \<lparr>cq_Account = account, cq_Secret = sk_Serialize B distributionSecret,
                                     cq_VerificationVector = map (pk_Serialize B) verificationVector\<rparr>) (\<lambda>r.
         case r of
           Inl e \<Rightarrow> go_return (Inl (wrap_err ''failed to call Contribute()'' e))
         | Inr res \<Rightarrow>
             (case sk_Deserialize B (ca_Secret res) of
                Inl e \<Rightarrow> go_return (Inl (wrap_err ''returned invalid secret key'' e))
              | Inr resSecret \<Rightarrow>
                  (case read_vector B ''returned invalid verification vector'' (ca_VerificationVector res) of
                     Inl e \<Rightarrow> go_return (Inl e)
                   | Inr resVVec \<Rightarrow> go_return (Inr (resSecret, resVVec))))))"

section \<open>Only peers are served\<close>

text \<open>A caller whose certificate does not name a peer changes nothing and gets nothing.\<close>

lemma unknown_sender_refused:
  assumes "senderID rt ps client = 0"
  shows "rc_Prepare P ps rt client req = go_return (Some ''unknown sender'')"
    and "rc_Execute P ps rt client account = go_return (Some ''unknown sender'')"
    and "rc_Commit P ps rt client account data = go_return (Inl ''unknown sender'')"
    and "rc_Abort P ps rt client account = go_return (Some ''unknown sender'')"
    and "rc_Contribute P ps rt client creq = go_return (Inl ''unknown sender'')"
  using assms by (simp_all add: rc_Prepare_def rc_Execute_def rc_Commit_def rc_Abort_def rc_Contribute_def)

lemma read_vector_written:
  assumes "\<And>k. pk_Deserialize B (pk_Serialize B k) = Inr k"
  shows "read_vector B msg (map (pk_Serialize B) vs) = Inr vs"
  using assms by (induction vs) simp_all

end
