(* ===== verification/Cluster.thy ===== *)
theory Cluster
  imports Process_Safety Generator Messages
begin

text \<open>
  A cluster of instances that talk to each other through the sender and the receiver. The state is
  the generations of every instance and the rest of the world (wallets, random numbers, clocks).
  When all instances run the program, a distributed generation reaches the same key everywhere.
\<close>

section \<open>Composition\<close>

type_synonym ('sk, 'pk, 'w) cluster = "(u64 \<Rightarrow> string \<Rightarrow> ('sk, 'pk) generation option) \<times> 'w"

text \<open>A handler of instance \<open>n\<close>; what it does to other instances on the way is kept.\<close>

definition at_node ::
  "u64 \<Rightarrow> (('sk, 'pk, ('sk, 'pk, 'w) cluster) node, 'a) op \<Rightarrow> (('sk, 'pk, 'w) cluster, 'a) op" where
  "at_node n m = (\<lambda>(G, w). case m \<lparr>nd_generations = G n, nd_env = (G, w)\<rparr> of
     (r, s) \<Rightarrow> (r, ((fst (nd_env s))(n := nd_generations s), snd (nd_env s))))"

text \<open>The instance at an address.\<close>

definition node_at :: "peers \<Rightarrow> string \<Rightarrow> u64" where
  "node_at ps address = (case List.find (\<lambda>(n, p). ConnectAddress p = address) ps of None \<Rightarrow> 0 | Some (n, p) \<Rightarrow> n)"

definition peer_name :: "peers \<Rightarrow> u64 \<Rightarrow> string option" where
  "peer_name ps n = map_option ep_Name (map_of ps n)"

text \<open>The network between the instances: a call on a connection runs the receiver at its other end.\<close>

definition network ::
  "(u64 \<Rightarrow> (('sk, 'pk, 'w) cluster, 'sk, 'pk, 'sig, 'i, 'wal, 'acc) process) \<Rightarrow> peers \<Rightarrow> go_runtime \<Rightarrow> u64 \<Rightarrow>
     (('sk, 'pk, 'w) cluster, u64, u64) transport" where
  "network N ps rt n = \<lparr>
     tr_NewPool = node_at ps, tr_Acquire = (\<lambda>m. go_return (Inr m)), tr_Release = (\<lambda>_. go_return ()),
     tr_Prepare = (\<lambda>m req. at_node m (rc_Prepare (N m) ps rt (peer_name ps n) req)),
     tr_Execute = (\<lambda>m account. at_node m (rc_Execute (N m) ps rt (peer_name ps n) account)),
     tr_Commit = (\<lambda>m account data. at_node m (rc_Commit (N m) ps rt (peer_name ps n) account data)),
     tr_Abort = (\<lambda>m account. at_node m (rc_Abort (N m) ps rt (peer_name ps n) account)),
     tr_Contribute = (\<lambda>m req. at_node m (rc_Contribute (N m) ps rt (peer_name ps n) req))\<rparr>"

definition run_sender :: "(('e, 'pool) sender_state, 'a) op \<Rightarrow> ('e, 'a) op" where
  "run_sender m = (\<lambda>e. case m (\<lambda>_. None, e) of (r, (_, e')) \<Rightarrow> (r, e'))"

text \<open>The identifier and the share of participant \<open>n\<close> in the polynomial of participant \<open>i\<close>.\<close>

definition ident :: "('sk, 'pk, 'sig, 'i) bls_lib \<Rightarrow> u64 \<Rightarrow> 'i" where
  "ident B n = (case BLSID B n of Ret i \<Rightarrow> i)"

definition share :: "('sk, 'pk, 'sig, 'i) bls_lib \<Rightarrow> (u64 \<Rightarrow> 'sk list) \<Rightarrow> u64 \<Rightarrow> u64 \<Rightarrow> 'sk" where
  "share B p i n = projr (sk_Set B (p i) (ident B n))"

section \<open>Honest clusters\<close>

text \<open>
  All instances run the program with the same peers, talk to each other over the network, and have
  clocks that do not pass the timeout of a generation. \<open>stored\<close> tells which of them have an account
  in their wallet; drawing random numbers has no effect on wallets and generations.
\<close>

locale honest_cluster = bls_laws B
  for B :: "('sk, 'pk, 'sig, 'i) bls_lib" +
  fixes N :: "u64 \<Rightarrow> (('sk, 'pk, 'w) cluster, 'sk, 'pk, 'sig, 'i, 'wal, 'acc) process" and ps :: peers and rt :: go_runtime
    and stored :: "string \<Rightarrow> 'w \<Rightarrow> u64 set"
  assumes parts: "ps_bls (N i) = B" "ps_id (N i) = i" "ps_generationPassphrase (N i) \<noteq> []" "ps_Peer (N i) = Peer ps"
    and fair: "fair_runtime rt" and peers: "peers_ok ps" "0 \<notin> fst ` set ps" "distinct (map (ConnectAddress \<circ> snd) ps)"
    and identifiers: "n \<in> fst ` set ps \<Longrightarrow> \<exists>x. BLSID B n = Ret x"
    and eval_total: "xs \<noteq> [] \<Longrightarrow> \<exists>x. sk_Set B xs j = Inr x"
    and serial: "sk_Deserialize B (sk_Serialize B x) = Inr x" "pk_Deserialize B (pk_Serialize B k) = Inr k"
    and random: "\<exists>k w'. ps_CSPRNG (N i) (G, w) = (Ret k, (G, w')) \<and> (\<forall>account. stored account w' = stored account w)"
    and clock: "ps_Now (N i) e - ps_Now (N i) e' \<le> ps_generationTimeout (N i)"
    and send: "ps_SendContribution (N i) peer account sk vv =
      run_sender (snd_SendContribution B (network N ps rt i) peer account sk vv)"
    and prepare: "ps_Prepare (N i) peer account passphrase t qs =
      run_sender (snd_Prepare (network N ps rt i) peer account passphrase t qs)"
    and execute: "ps_Execute (N i) peer account = run_sender (snd_Execute (network N ps rt i) peer account)"
begin

lemma node_at_peer:
  assumes "(n, p) \<in> set ps"
  shows "node_at ps (ConnectAddress p) = n"
proof -
  obtain y where y: "List.find (\<lambda>(m, q). ConnectAddress q = ConnectAddress p) ps = Some y"
    using assms by (metis (mono_tags, lifting) case_prodI find_None_iff not_None_eq)
  then have "y \<in> set ps" "ConnectAddress (snd y) = ConnectAddress p" by (auto simp: find_Some_iff case_prod_beta)
  with peers(3) assms have "y = (n, p)" by (auto simp: distinct_map inj_on_def)
  with y show ?thesis by (simp add: node_at_def)
qed

lemma sender_known:
  assumes "(n, p) \<in> set ps"
  shows "senderID rt ps (peer_name ps n) = n" and "n \<noteq> 0"
proof -
  have "map_of ps n = Some p" using assms peers(1) by (simp add: peers_ok_def)
  with senderID_named [OF fair peers(1) assms] show "senderID rt ps (peer_name ps n) = n" by (simp add: peer_name_def)
  show "n \<noteq> 0" using assms peers(2) by force
qed

text \<open>Calls over the network end up at the instance that is called.\<close>

lemma connected:
  assumes "(m, p) \<in> set ps"
  shows "run_sender (with_connection (network N ps rt n) name p fail call) = call m"
proof
  fix e
  have "tr_Acquire (network N ps rt n) (node_at ps (ConnectAddress p)) = go_return (Inr m)"
    using node_at_peer [OF assms] by (simp add: network_def)
  moreover have "tr_Release (network N ps rt n) m = go_return ()" by (simp add: network_def)
  moreover have "tr_NewPool (network N ps rt n) = node_at ps" by (simp add: network_def)
  ultimately show "run_sender (with_connection (network N ps rt n) name p fail call) e = call m e"
    by (auto simp: run_sender_def with_connection_def obtainConnection_def on_transport_def go_zoom_def go_bind_def go_simps
        split: prod.splits go.splits)
qed

lemma identified: "n \<in> fst ` set ps \<Longrightarrow> BLSID B n = Ret (ident B n)"
  using identifiers [of n] by (auto simp: ident_def)

lemma share_set: "p i \<noteq> [] \<Longrightarrow> sk_Set B (p i) (ident B n) = Inr (share B p i n)"
  using eval_total [of "p i" "ident B n"] by (auto simp: share_def)

lemma share_verified:
  assumes "p i \<noteq> []" and "n \<in> fst ` set ps"
  shows "verified B n (share B p i n) (map (GetPublicKey B) (p i))"
  using public_eval [OF share_set [of p i n, OF assms(1)]] identified [OF assms(2)] by (auto simp: verified_def)

section \<open>The state during a generation\<close>

text \<open>
  \<open>E\<close> holds the pairs of participants that have exchanged their contributions. No participant has
  the account in its wallet yet.
\<close>

definition holding ::
  "endpoint list \<Rightarrow> u32 \<Rightarrow> string \<Rightarrow> (u64 \<Rightarrow> 'sk list) \<Rightarrow> (u64 \<times> u64) set \<Rightarrow> u64 \<Rightarrow> ('sk, 'pk) generation \<Rightarrow> bool" where
  "holding qs t account p E i g \<longleftrightarrow> (let I = ep_ID ` set qs; known = (\<lambda>n. n = i \<or> n \<in> I \<and> (i, n) \<in> E) in
     g_id g = i \<and> g_account g = account \<and> g_threshold g = t \<and> g_participants g = qs \<and> (\<exists>e. g_processStarted g = ps_Now (N i) e) \<and>
     distinct (map fst (g_distributionSecrets g)) \<and> distinct (map fst (g_sharedSecrets g)) \<and> distinct (map fst (g_sharedVVecs g)) \<and>
     map_of (g_distributionSecrets g) = (\<lambda>n. if n \<in> I then Some (share B p i n) else None) \<and>
     map_of (g_sharedSecrets g) = (\<lambda>n. if known n then Some (share B p n i) else None) \<and>
     map_of (g_sharedVVecs g) = (\<lambda>n. if known n then Some (map (GetPublicKey B) (p n)) else None))"

definition generating ::
  "endpoint list \<Rightarrow> u32 \<Rightarrow> string \<Rightarrow> (u64 \<Rightarrow> 'sk list) \<Rightarrow> (u64 \<times> u64) set \<Rightarrow> u64 set \<Rightarrow> ('sk, 'pk, 'w) cluster \<Rightarrow> bool" where
  "generating qs t account p E J c \<longleftrightarrow> stored account (snd c) \<inter> ep_ID ` set qs = {} \<and> (\<forall>i \<in> J. \<exists>g. fst c i account = Some g \<and> holding qs t account p E i g)"

lemma holding_get:
  assumes "nd_generations s account = Some g" and "holding qs t account p E i g"
  shows "getGeneration (N i) account s = (Ret (Inr g), s)"
proof -
  obtain e where "g_processStarted g = ps_Now (N i) e" using assms(2) by (auto simp: holding_def Let_def)
  then have "\<not> ps_generationTimeout (N i) < ps_Now (N i) (nd_env s) - g_processStarted g"
    using clock [of i "nd_env s" e] by simp
  with assms(1) show ?thesis by (simp add: getGeneration_def)
qed

lemma holding_put:
  assumes "holding qs t account p E i g" and "n \<in> ep_ID ` set qs" and "n \<noteq> i"
  shows "holding qs t account p (insert (i, n) (insert (n, i) E)) i
    (g\<lparr>g_sharedSecrets := AList.update n (share B p n i) (g_sharedSecrets g),
       g_sharedVVecs := AList.update n (map (GetPublicKey B) (p n)) (g_sharedVVecs g)\<rparr>)"
  using assms by (auto simp: holding_def Let_def update_conv' distinct_update fun_eq_iff)

lemma holding_frame: "holding qs t account p E i g \<Longrightarrow> i \<noteq> a \<Longrightarrow> i \<noteq> b \<Longrightarrow> holding qs t account p (insert (a, b) (insert (b, a) E)) i g"
  by (simp add: holding_def Let_def)

abbreviation vector :: "(u64 \<Rightarrow> 'sk list) \<Rightarrow> u64 \<Rightarrow> 'pk list" where
  "vector p n \<equiv> map (GetPublicKey B) (p n)"

lemma contribute_at:
  assumes g: "nd_generations s account = Some g" "holding qs t account p E n g" and i: "i \<in> ep_ID ` set qs" "i \<noteq> n"
    and ne: "p i \<noteq> []" and n: "n \<in> fst ` set ps"
  shows "OnContribute (N n) i account (share B p i n) (vector p i) s =
    (Ret (Inr (share B p n i, vector p n)), s\<lparr>nd_generations := (nd_generations s)(account \<mapsto>
       g\<lparr>g_sharedSecrets := AList.update i (share B p i n) (g_sharedSecrets g), g_sharedVVecs := AList.update i (vector p i) (g_sharedVVecs g)\<rparr>)\<rparr>)"
proof -
  have h: "g_id g = n" "map_of (g_distributionSecrets g) i = Some (share B p n i)" "map_of (g_sharedVVecs g) n = Some (vector p n)"
    using g(2) i by (auto simp: holding_def Let_def)
  have v: "verifyContribution B n (share B p i n) (vector p i) = Ret True"
    using share_verified [of p i n, OF ne n] by (simp add: verifyContribution_verified)
  show ?thesis
    using h v i(2) by (simp add: OnContribute_def go_bind_def go_simps holding_get [OF g] parts put_generation_def Let_def map_get_def update_conv')
qed

lemma exchange:
  assumes g: "fst c n account = Some g" "holding qs t account p E n g" and i: "i \<in> ep_ID ` set qs" "i \<noteq> n"
    and ne: "p i \<noteq> []" and peer: "(n, pn) \<in> set ps" "(i, pi) \<in> set ps"
  shows "ps_SendContribution (N i) pn account (share B p i n) (vector p i) c =
    (Ret (Inr (share B p n i, vector p n)), ((fst c)(n := (fst c n)(account \<mapsto>
       g\<lparr>g_sharedSecrets := AList.update i (share B p i n) (g_sharedSecrets g), g_sharedVVecs := AList.update i (vector p i) (g_sharedVVecs g)\<rparr>)), snd c))"
proof -
  obtain G w where c: "c = (G, w)" by force
  have n: "n \<in> fst ` set ps" using peer(1) by force
  let ?s = "\<lparr>nd_generations = G n, nd_env = (G, w)\<rparr>"
  let ?req = "\<lparr>cq_Account = account, cq_Secret = sk_Serialize B (share B p i n), cq_VerificationVector = map (pk_Serialize B) (vector p i)\<rparr>"
  have rc: "rc_Contribute (N n) ps rt (peer_name ps i) ?req ?s =
      (Ret (Inr \<lparr>ca_Secret = sk_Serialize B (share B p n i), ca_VerificationVector = map (pk_Serialize B) (vector p n)\<rparr>),
       ?s\<lparr>nd_generations := (G n)(account \<mapsto> g\<lparr>g_sharedSecrets := AList.update i (share B p i n) (g_sharedSecrets g),
          g_sharedVVecs := AList.update i (vector p i) (g_sharedVVecs g)\<rparr>)\<rparr>)"
    using contribute_at [of ?s account g qs t p E n i, OF _ g(2) i ne n] g(1) sender_known [OF peer(2)]
    by (simp add: rc_Contribute_def Let_def parts serial read_vector_written go_bind_def go_simps c del: map_map)
  have "tr_Contribute (network N ps rt i) n ?req = at_node n (rc_Contribute (N n) ps rt (peer_name ps i) ?req)"
    by (simp add: network_def)
  then show ?thesis
    unfolding send snd_SendContribution_def connected [OF peer(1)]
    by (simp add: go_bind_def at_node_def c rc serial read_vector_written go_simps del: map_map)
qed

end

end
