(* ===== verification/Cluster_Run.thy ===== *)
theory Cluster_Run
  imports Cluster
begin

text \<open>
  A distributed generation in a cluster whose instances all run the program, from the first request
  of the coordinator to the last commit.
\<close>

definition link :: "u64 \<Rightarrow> u64 set \<Rightarrow> (u64 \<times> u64) set \<Rightarrow> (u64 \<times> u64) set" where
  "link i ns E = E \<union> {(a, b). a = i \<and> b \<in> ns \<and> i < b \<or> b = i \<and> a \<in> ns \<and> i < a}"

lemma link_insert: "i < n \<Longrightarrow> link i ns (insert (i, n) (insert (n, i) E)) = link i (insert n ns) E"
  by (auto simp: link_def)

lemma link_skip: "\<not> i < n \<Longrightarrow> link i (insert n ns) E = link i ns E"
  by (auto simp: link_def)

lemma link_empty [simp]: "link i {} E = E"
  by (simp add: link_def)

text \<open>The exchanges that have taken place once the members of \<open>X\<close> have executed.\<close>

definition linked :: "u64 set \<Rightarrow> u64 set \<Rightarrow> (u64 \<times> u64) set" where
  "linked I X = {(a, b). a \<in> I \<and> b \<in> I \<and> (a \<in> X \<and> a < b \<or> b \<in> X \<and> b < a)}"

lemma linked_empty [simp]: "linked I {} = {}"
  by (simp add: linked_def)

lemma link_linked: "i \<in> I \<Longrightarrow> link i I (linked I X) = linked I (insert i X)"
  by (auto simp: linked_def link_def)

lemma linked_later: "i \<notin> X \<Longrightarrow> i < n \<Longrightarrow> (i, n) \<notin> linked I X"
  by (auto simp: linked_def)

lemma linked_all: "i \<in> I \<Longrightarrow> n = i \<or> n \<in> I \<and> (i, n) \<in> linked I I \<longleftrightarrow> n \<in> I"
  by (auto simp: linked_def)

context honest_cluster
begin

section \<open>Execute\<close>

definition executing ::
  "endpoint list \<Rightarrow> u32 \<Rightarrow> string \<Rightarrow> (u64 \<Rightarrow> 'sk list) \<Rightarrow> u64 \<Rightarrow> (u64 \<times> u64) set \<Rightarrow> ('sk, 'pk) generation \<Rightarrow>
     ('sk, 'pk, ('sk, 'pk, 'w) cluster) node \<Rightarrow> bool" where
  "executing qs t account p i E g s \<longleftrightarrow> nd_generations s account = Some g \<and> holding qs t account p E i g \<and>
     generating qs t account p E (ep_ID ` set qs - {i}) (nd_env s)"

lemma peer_of:
  assumes "set qs \<subseteq> snd ` set ps" and "n \<in> ep_ID ` set qs"
  shows "\<exists>pn. (n, pn) \<in> set ps \<and> Peer ps n = Inr pn"
proof -
  from assms obtain q m where "(m, q) \<in> set ps" "n = ep_ID q" by force
  moreover from this have "m = n" using peers(1) by (auto simp: peers_ok_def)
  ultimately show ?thesis using peers(1) by (auto simp: Peer_def peers_ok_def)
qed

lemma generating_put:
  assumes gen: "generating qs t account p E (ep_ID ` set qs - {i}) c" and gn: "fst c n account = Some gn" "holding qs t account p E n gn"
    and i: "i \<in> ep_ID ` set qs" "i \<noteq> n"
  shows "generating qs t account p (insert (i, n) (insert (n, i) E)) (ep_ID ` set qs - {i})
    ((fst c)(n := (fst c n)(account \<mapsto> gn\<lparr>g_sharedSecrets := AList.update i (share B p i n) (g_sharedSecrets gn),
       g_sharedVVecs := AList.update i (vector p i) (g_sharedVVecs gn)\<rparr>)), snd c)" (is "generating _ _ _ _ _ _ ?c")
  unfolding generating_def
proof (intro conjI ballI)
  show "stored account (snd ?c) \<inter> ep_ID ` set qs = {}" using gen by (simp add: generating_def)
next
  fix m assume m: "m \<in> ep_ID ` set qs - {i}"
  show "\<exists>g. fst ?c m account = Some g \<and> holding qs t account p (insert (i, n) (insert (n, i) E)) m g"
  proof (cases "m = n")
    case True
    with holding_put [OF gn(2) i] show ?thesis by (simp add: insert_commute)
  next
    case False
    from gen m obtain g where "fst c m account = Some g" "holding qs t account p E m g" by (auto simp: generating_def)
    with False m holding_frame [of qs t account p E m g i n] show ?thesis by simp
  qed
qed

lemma swap_step:
  assumes inv: "executing qs t account p i E g s" and qs: "set qs \<subseteq> snd ` set ps" and p: "\<forall>n \<in> ep_ID ` set qs. p n \<noteq> []"
    and i: "i \<in> ep_ID ` set qs" and n: "n \<in> ep_ID ` set qs" "i < n" "(i, n) \<notin> E"
  shows "\<exists>g' s'. swap_contributions (N i) account (vector p i) ((n, share B p i n) # rest) g s =
      swap_contributions (N i) account (vector p i) rest g' s' \<and> executing qs t account p i (insert (i, n) (insert (n, i) E)) g' s'"
proof -
  have ne: "i \<noteq> n" using n(2) by auto
  obtain pn where pn: "(n, pn) \<in> set ps" "Peer ps n = Inr pn" using peer_of [OF qs n(1)] by blast
  obtain pi where pi: "(i, pi) \<in> set ps" using peer_of [OF qs i] by blast
  from inv have g: "nd_generations s account = Some g" "holding qs t account p E i g"
    and gen: "generating qs t account p E (ep_ID ` set qs - {i}) (nd_env s)" by (simp_all add: executing_def)
  from gen n ne obtain gn where gn: "fst (nd_env s) n account = Some gn" "holding qs t account p E n gn" by (auto simp: generating_def)
  let ?c = "((fst (nd_env s))(n := (fst (nd_env s) n)(account \<mapsto> gn\<lparr>g_sharedSecrets := AList.update i (share B p i n) (g_sharedSecrets gn),
       g_sharedVVecs := AList.update i (vector p i) (g_sharedVVecs gn)\<rparr>)), snd (nd_env s))"
  let ?g = "g\<lparr>g_sharedSecrets := AList.update n (share B p n i) (g_sharedSecrets g), g_sharedVVecs := AList.update n (vector p n) (g_sharedVVecs g)\<rparr>"
  let ?s = "s\<lparr>nd_env := ?c, nd_generations := (nd_generations s)(account \<mapsto> ?g)\<rparr>"
  have ex: "ps_SendContribution (N i) pn account (share B p i n) (vector p i) (nd_env s) = (Ret (Inr (share B p n i, vector p n)), ?c)"
    by (rule exchange [OF gn i ne _ pn(1) pi]) (use p i in blast)
  have new: "map_of (g_sharedSecrets g) n = None" "g_id g = i" using g(2) ne n(3) by (auto simp: holding_def Let_def)
  have "i \<in> fst ` set ps" using pi by force
  then have v: "verifyContribution B i (share B p n i) (vector p n) = Ret True"
    using share_verified [of p n i] p n(1) by (simp add: verifyContribution_verified)
  have "swap_contributions (N i) account (vector p i) ((n, share B p i n) # rest) g s = swap_contributions (N i) account (vector p i) rest ?g ?s"
    using n(2) pn(2) ex new v
    by (simp add: parts go_bind_def on_env_def go_zoom_def go_simps put_generation_def Let_def)
  moreover have "holding qs t account p (insert (i, n) (insert (n, i) E)) i ?g" using holding_put [OF g(2) n(1)] ne by simp
  moreover note generating_put [OF gen gn i ne]
  ultimately show ?thesis by (intro exI [of _ ?g] exI [of _ ?s]) (simp add: executing_def)
qed

lemma swap_run:
  assumes qs: "set qs \<subseteq> snd ` set ps" and p: "\<forall>n \<in> ep_ID ` set qs. p n \<noteq> []" and i: "i \<in> ep_ID ` set qs"
  shows "executing qs t account p i E g s \<Longrightarrow> \<forall>(n, d) \<in> set rest. n \<in> ep_ID ` set qs \<and> d = share B p i n \<Longrightarrow> distinct (map fst rest) \<Longrightarrow>
    \<forall>n \<in> fst ` set rest. i < n \<longrightarrow> (i, n) \<notin> E \<Longrightarrow>
    \<exists>g' s'. swap_contributions (N i) account (vector p i) rest g s = (Ret None, s') \<and> executing qs t account p i (link i (fst ` set rest) E) g' s'"
proof (induction rest arbitrary: E g s)
  case Nil
  then show ?case by (auto simp: go_simps)
next
  case (Cons x rest)
  obtain n where x: "x = (n, share B p i n)" and n: "n \<in> ep_ID ` set qs" using Cons.prems(2) by (cases x) auto
  show ?case
  proof (cases "i < n")
    case True
    then have "(i, n) \<notin> E" using Cons.prems(4) x by simp
    from swap_step [OF Cons.prems(1) qs p i n True this] obtain g1 s1
      where one: "swap_contributions (N i) account (vector p i) (x # rest) g s = swap_contributions (N i) account (vector p i) rest g1 s1"
        and inv: "executing qs t account p i (insert (i, n) (insert (n, i) E)) g1 s1" unfolding x by blast
    have "\<forall>m \<in> fst ` set rest. i < m \<longrightarrow> (i, m) \<notin> insert (i, n) (insert (n, i) E)"
      using Cons.prems(3,4) x True by auto
    from Cons.IH [OF inv _ _ this] Cons.prems(2,3) show ?thesis unfolding one by (simp add: link_insert [OF True] x)
  next
    case False
    then have "swap_contributions (N i) account (vector p i) (x # rest) g s = swap_contributions (N i) account (vector p i) rest g s"
      by (simp add: x parts)
    with Cons.IH [OF Cons.prems(1)] Cons.prems(2-4) False show ?thesis by (simp add: x link_skip del: swap_contributions.simps)
  qed
qed

lemma execute_at:
  assumes qs: "set qs \<subseteq> snd ` set ps" and p: "\<forall>n \<in> ep_ID ` set qs. p n \<noteq> []" and i: "i \<in> ep_ID ` set qs"
    and gen: "generating qs t account p E (ep_ID ` set qs) c" and E: "\<forall>n \<in> ep_ID ` set qs. i < n \<longrightarrow> (i, n) \<notin> E"
  shows "\<exists>c'. at_node i (OnExecute (N i) rt sender account) c = (Ret None, c') \<and>
    generating qs t account p (link i (ep_ID ` set qs) E) (ep_ID ` set qs) c'"
proof -
  let ?s = "\<lparr>nd_generations = fst c i, nd_env = c\<rparr>"
  from gen i obtain g where g: "fst c i account = Some g" "holding qs t account p E i g" by (auto simp: generating_def)
  have d: "map_of (g_distributionSecrets g) = (\<lambda>n. if n \<in> ep_ID ` set qs then Some (share B p i n) else None)"
    and dd: "distinct (map fst (g_distributionSecrets g))" and vv: "map_get [] (g_sharedVVecs g) i = vector p i" and gi: "g_id g = i"
    using g(2) by (auto simp: holding_def Let_def map_get_def)
  let ?r = "map_range rt (g_distributionSecrets g)"
  have sr: "set ?r = {(n, share B p i n) |n. n \<in> ep_ID ` set qs}"
    using d by (auto simp: set_map_range [OF fair] map_of_eq_Some_iff [OF dd, symmetric] split: if_splits)
  then have fr: "fst ` set ?r = ep_ID ` set qs" by force
  have "executing qs t account p i E g ?s" using g gen by (auto simp: executing_def generating_def)
  from swap_run [OF qs p i this, of ?r] obtain g' s'
    where sw: "swap_contributions (N i) account (vector p i) ?r g ?s = (Ret None, s')" and inv: "executing qs t account p i (link i (ep_ID ` set qs) E) g' s'"
    unfolding fr using distinct_map_range [OF fair dd] E sr by auto
  have "getGeneration (N i) account ?s = (Ret (Inr g), ?s)" using holding_get [of ?s account g qs t p E i] g by simp
  then have run: "OnExecute (N i) rt sender account ?s = (Ret None, s')"
    using sw vv gi by (simp add: OnExecute_def go_bind_def)
  have "generating qs t account p (link i (ep_ID ` set qs) E) (ep_ID ` set qs) ((fst (nd_env s'))(i := nd_generations s'), snd (nd_env s'))"
    using inv by (auto simp: executing_def generating_def)
  with run show ?thesis by (cases c) (simp add: at_node_def)
qed

lemma execute_call:
  assumes qs: "set qs \<subseteq> snd ` set ps" and q: "q \<in> set qs" and c0: "c0 \<in> fst ` set ps"
    and run: "at_node (ep_ID q) (OnExecute (N (ep_ID q)) rt c0 account) c = (Ret None, c')"
  shows "ps_Execute (N c0) q account c = (Ret None, c')"
proof -
  obtain pc where pc: "(c0, pc) \<in> set ps" using c0 by force
  have pm: "(ep_ID q, q) \<in> set ps" using qs q peers(1) by (force simp: peers_ok_def)
  have "rc_Execute (N (ep_ID q)) ps rt (peer_name ps c0) account = OnExecute (N (ep_ID q)) rt c0 account"
    using sender_known [OF pc] by (simp add: rc_Execute_def)
  then have "tr_Execute (network N ps rt c0) (ep_ID q) account c = (Ret None, c')" using run by (simp add: network_def)
  then show ?thesis unfolding execute snd_Execute_def connected [OF pm] by (simp add: go_bind_def go_simps)
qed

lemma execute_all:
  assumes qs: "set qs \<subseteq> snd ` set ps" and p: "\<forall>n \<in> ep_ID ` set qs. p n \<noteq> []" and c0: "c0 \<in> fst ` set ps"
  shows "set xs \<subseteq> set qs \<Longrightarrow> distinct (map ep_ID xs) \<Longrightarrow> ep_ID ` set xs \<inter> X = {} \<Longrightarrow>
    generating qs t account p (linked (ep_ID ` set qs) X) (ep_ID ` set qs) c \<Longrightarrow>
    \<exists>c'. for_each (\<lambda>q. ps_Execute (N c0) q account) msg xs c = (Ret None, c') \<and>
      generating qs t account p (linked (ep_ID ` set qs) (ep_ID ` set xs \<union> X)) (ep_ID ` set qs) c'"
proof (induction xs arbitrary: X c)
  case Nil
  then show ?case by (simp add: go_simps)
next
  case (Cons q xs)
  let ?i = "ep_ID q" and ?I = "ep_ID ` set qs"
  have i: "?i \<in> ?I" and q: "q \<in> set qs" and x: "?i \<notin> X" using Cons.prems by auto
  have "\<forall>n \<in> ?I. ?i < n \<longrightarrow> (?i, n) \<notin> linked ?I X" using linked_later [OF x] by blast
  from execute_at [OF qs p i Cons.prems(4) this, of c0] obtain c1
    where run: "at_node ?i (OnExecute (N ?i) rt c0 account) c = (Ret None, c1)"
      and gen: "generating qs t account p (linked ?I (insert ?i X)) ?I c1" unfolding link_linked [OF i] by blast
  have "ep_ID ` set xs \<inter> insert ?i X = {}" using Cons.prems(2,3) by auto
  from Cons.IH [OF _ _ this gen] Cons.prems(1,2) execute_call [OF qs q c0 run] show ?case by (simp add: go_bind_def)
qed

section \<open>Prepare\<close>

lemma random_keys_total:
  "\<exists>sks w'. random_keys (N i) k (G, w) = (Ret sks, (G, w')) \<and> length sks = k \<and> stored account w' = stored account w"
proof (induction k arbitrary: w)
  case (Suc k)
  obtain x w1 where x: "ps_CSPRNG (N i) (G, w) = (Ret x, (G, w1))" "stored account w1 = stored account w" using random [of i G w] by blast
  from Suc.IH [of w1] obtain sks w2 where "random_keys (N i) k (G, w1) = (Ret sks, (G, w2))" "length sks = k" "stored account w2 = stored account w1" by blast
  with x show ?case by (simp add: go_bind_def go_simps)
qed (simp add: go_simps)

lemma make_secrets_total:
  assumes "p i \<noteq> []"
  shows "ep_ID ` set qs \<subseteq> fst ` set ps \<Longrightarrow> distinct (map fst acc) \<Longrightarrow> \<exists>secrets. make_secrets B (p i) qs acc = Ret (Inr secrets) \<and>
    distinct (map fst secrets) \<and> map_of secrets = (\<lambda>n. if n \<in> ep_ID ` set qs then Some (share B p i n) else map_of acc n)"
proof (induction qs arbitrary: acc)
  case (Cons q qs)
  have one: "BLSID B (ep_ID q) = Ret (ident B (ep_ID q))" "sk_Set B (p i) (ident B (ep_ID q)) = Inr (share B p i (ep_ID q))"
    using Cons.prems identified share_set [of p i, OF assms] by simp_all
  from Cons.IH [of "AList.update (ep_ID q) (share B p i (ep_ID q)) acc"] Cons.prems obtain secrets
    where "make_secrets B (p i) qs (AList.update (ep_ID q) (share B p i (ep_ID q)) acc) = Ret (Inr secrets)" "distinct (map fst secrets)"
      "map_of secrets = (\<lambda>n. if n \<in> ep_ID ` set qs then Some (share B p i n) else map_of (AList.update (ep_ID q) (share B p i (ep_ID q)) acc) n)"
    by (auto simp: distinct_update)
  with one show ?case by (auto simp: update_conv' fun_eq_iff)
qed simp

lemma confirm_secrets_total:
  assumes "p i \<noteq> []"
  shows "\<forall>(n, d) \<in> set xs. n \<in> fst ` set ps \<and> d = share B p i n \<Longrightarrow> confirm_secrets B (vector p i) xs = Ret None"
proof (induction xs)
  case (Cons x xs)
  obtain n where x: "x = (n, share B p i n)" and n: "n \<in> fst ` set ps" using Cons.prems by (cases x) auto
  have "pk_Set B (vector p i) (ident B n) = Inr (GetPublicKey B (share B p i n))"
    using public_eval [OF share_set [of p i n, OF assms]] by simp
  with Cons identified [OF n] show ?case by (simp add: x is_equal)
qed simp

lemma prepare_at:
  assumes ids: "ep_ID ` set qs \<subseteq> fst ` set ps" and i: "i \<in> ep_ID ` set qs" and t: "t \<noteq> 0" and none: "G i account = None"
  shows "\<exists>sks g w'. at_node i (OnPrepare (N i) rt sender account passphrase t qs) (G, w) = (Ret None, (G(i := (G i)(account \<mapsto> g)), w')) \<and>
    stored account w' = stored account w \<and> length sks = unat t \<and> (\<forall>p. p i = sks \<longrightarrow> holding qs t account p {} i g)"
proof -
  let ?s = "\<lparr>nd_generations = G i, nd_env = (G, w)\<rparr>"
  obtain sks w' where sks: "random_keys (N i) (unat t) (G, w) = (Ret sks, (G, w'))" "length sks = unat t" and st: "stored account w' = stored account w"
    using random_keys_total by blast
  then have ne: "sks \<noteq> []" using t by (metis length_0_conv unat_eq_zero)
  define p where "p = (\<lambda>_ :: u64. sks)"
  have pi: "p i \<noteq> []" "p i = sks" using ne by (simp_all add: p_def)
  obtain secrets where ms: "make_secrets B sks qs [] = Ret (Inr secrets)" and ds: "distinct (map fst secrets)"
    and mo: "map_of secrets = (\<lambda>n. if n \<in> ep_ID ` set qs then Some (share B p i n) else None)"
    using make_secrets_total [of p i, OF pi(1) ids, of "[]"] pi(2) by (auto cong: if_cong)
  have "\<forall>(n, d) \<in> set (map_range rt secrets). n \<in> fst ` set ps \<and> d = share B p i n"
    using mo ids by (auto simp: set_map_range [OF fair] map_of_eq_Some_iff [OF ds, symmetric] split: if_splits)
  from confirm_secrets_total [of p i, OF pi(1) this] have cs: "confirm_secrets B (map (GetPublicKey B) sks) (map_range rt secrets) = Ret None"
    by (simp add: pi(2))
  define g0 :: "('sk, 'pk) generation" where "g0 = \<lparr>g_processStarted = ps_Now (N i) (G, w), g_id = i, g_account = account,
     g_passphrase = passphrase, g_threshold = t, g_participants = qs, g_distributionSecrets = [], g_sharedSecrets = [], g_sharedVVecs = []\<rparr>"
  define g where "g = g0\<lparr>g_sharedSecrets := [(i, share B p i i)], g_sharedVVecs := [(i, map (GetPublicKey B) sks)], g_distributionSecrets := secrets\<rparr>"
  have "contribution (N i) rt g0 (G, w) = (Ret (Inr g), (G, w'))"
    using sks ms cs mo i by (simp add: contribution_def g0_def g_def go_bind_def go_simps parts map_get_def)
  moreover have "getGeneration (N i) account ?s = (Ret (Inl ErrNotFound), ?s)" using none by (simp add: getGeneration_def)
  ultimately have run: "OnPrepare (N i) rt sender account passphrase t qs ?s =
      (Ret None, \<lparr>nd_generations = (G i)(account \<mapsto> g), nd_env = (G, w')\<rparr>)"
    using parts(3) [of i]
    by (simp add: OnPrepare_def go_bind_def go_simps parts(2) put_generation_def on_env_def go_zoom_def g0_def [symmetric] Let_def)
  have "holding qs t account p' {} i g" if "p' i = sks" for p'
    using that mo ds by (auto simp: holding_def Let_def g_def g0_def share_def pi(2) fun_eq_iff)
  with run sks(2) st show ?thesis by (auto simp: at_node_def)
qed

lemma holding_other: "holding qs t account p {} i g \<Longrightarrow> p' i = p i \<Longrightarrow> holding qs t account p' {} i g"
  by (simp add: holding_def Let_def share_def cong: if_cong)

lemma prepare_call:
  assumes qs: "set qs \<subseteq> snd ` set ps" and q: "q \<in> set qs" and c0: "c0 \<in> fst ` set ps"
    and run: "at_node (ep_ID q) (OnPrepare (N (ep_ID q)) rt c0 account passphrase t qs) c = (Ret None, c')"
  shows "ps_Prepare (N c0) q account passphrase t qs c = (Ret None, c')"
proof -
  obtain pc where pc: "(c0, pc) \<in> set ps" using c0 by force
  have pm: "(ep_ID q, q) \<in> set ps" using qs q peers(1) by (force simp: peers_ok_def)
  have "at_node (ep_ID q) (rc_Prepare (N (ep_ID q)) ps rt (peer_name ps c0)
      \<lparr>pr_Account = account, pr_Passphrase = passphrase, pr_Threshold = t, pr_Participants = qs\<rparr>) c = (Ret None, c')"
    using sender_known [OF pc] run
    by (cases c) (auto simp: rc_Prepare_def at_node_def go_bind_def go_simps split: prod.splits go.splits)
  then show ?thesis unfolding prepare snd_Prepare_def connected [OF pm] by (simp add: network_def go_bind_def go_simps)
qed

lemma prepare_all:
  assumes qs: "set qs \<subseteq> snd ` set ps" and t: "t \<noteq> 0" and c0: "c0 \<in> fst ` set ps"
  shows "set xs \<subseteq> set qs \<Longrightarrow> distinct (map ep_ID xs) \<Longrightarrow> \<forall>q \<in> set xs. fst c (ep_ID q) account = None \<Longrightarrow>
    \<forall>i \<in> X. length (p i) = unat t \<Longrightarrow> generating qs t account p {} X c \<Longrightarrow> X \<inter> ep_ID ` set xs = {} \<Longrightarrow>
    \<exists>p' c'. for_each (\<lambda>q. ps_Prepare (N c0) q account passphrase t qs) msg xs c = (Ret None, c') \<and>
      (\<forall>i \<in> X \<union> ep_ID ` set xs. length (p' i) = unat t) \<and> generating qs t account p' {} (X \<union> ep_ID ` set xs) c'"
proof (induction xs arbitrary: X p c)
  case Nil
  then show ?case by (auto simp: go_simps)
next
  case (Cons q xs)
  obtain G w where c: "c = (G, w)" by force
  let ?i = "ep_ID q"
  have q: "q \<in> set qs" and i: "?i \<in> ep_ID ` set qs" "?i \<notin> X" and none: "G ?i account = None" using Cons.prems c by auto
  have ids: "ep_ID ` set qs \<subseteq> fst ` set ps" using qs peers(1) by (force simp: peers_ok_def)
  from prepare_at [of qs ?i t G account, OF ids i(1) t none] obtain sks g w'
    where run: "at_node ?i (OnPrepare (N ?i) rt c0 account passphrase t qs) c = (Ret None, (G(?i := (G ?i)(account \<mapsto> g)), w'))"
      and st: "stored account w' = stored account w" and len: "length sks = unat t" and h: "\<And>p. p ?i = sks \<Longrightarrow> holding qs t account p {} ?i g" unfolding c by blast
  let ?c = "(G(?i := (G ?i)(account \<mapsto> g)), w')" and ?p = "p(?i := sks)"
  have gen: "generating qs t account ?p {} (insert ?i X) ?c"
    unfolding generating_def
  proof (intro conjI ballI)
    show "stored account (snd ?c) \<inter> ep_ID ` set qs = {}" using Cons.prems(5) st by (simp add: generating_def c)
  next
    fix m assume m: "m \<in> insert ?i X"
    show "\<exists>g. fst ?c m account = Some g \<and> holding qs t account ?p {} m g"
    proof (cases "m = ?i")
      case True
      with h [of ?p] show ?thesis by simp
    next
      case False
      with m Cons.prems(5) c obtain g' where "G m account = Some g'" "holding qs t account p {} m g'" by (auto simp: generating_def)
      with False holding_other [of qs t account p m g' ?p] show ?thesis by simp
    qed
  qed
  have none': "\<forall>r \<in> set xs. fst ?c (ep_ID r) account = None" using Cons.prems(2,3) c by (force simp: image_iff)
  have len': "\<forall>m \<in> insert ?i X. length (?p m) = unat t" using Cons.prems(4) len by simp
  have "set xs \<subseteq> set qs" "distinct (map ep_ID xs)" "insert ?i X \<inter> ep_ID ` set xs = {}" using Cons.prems(1,2,6) by auto
  from Cons.IH [OF this(1,2) none' len' gen this(3)] obtain p' c'
    where "for_each (\<lambda>q. ps_Prepare (N c0) q account passphrase t qs) msg xs ?c = (Ret None, c')"
      "\<forall>i \<in> insert ?i X \<union> ep_ID ` set xs. length (p' i) = unat t" "generating qs t account p' {} (insert ?i X \<union> ep_ID ` set xs) c'"
    by blast
  with prepare_call [OF qs q c0 run] show ?case by (auto simp: go_bind_def)
qed

end

end
