(* ===== verification/Cluster_Commit.thy ===== *)
theory Cluster_Commit
  imports Cluster_Run
begin

text \<open>
  The end of a distributed generation: every participant that commits obtains the same public key,
  the one of the sum of the constant terms of all polynomials.
\<close>

definition group_key :: "('sk, 'pk, 'sig, 'i) bls_lib \<Rightarrow> (u64 \<Rightarrow> 'sk list) \<Rightarrow> endpoint list \<Rightarrow> 'sk" where
  "group_key B p qs = foldl (sk_Add B) (sk_zero B) (map (hd \<circ> p \<circ> ep_ID) qs)"

definition group_vector :: "('sk, 'pk, 'sig, 'i) bls_lib \<Rightarrow> u32 \<Rightarrow> (u64 \<Rightarrow> 'sk list) \<Rightarrow> endpoint list \<Rightarrow> 'pk list" where
  "group_vector B t p qs =
     foldl (poly_add (pk_Add B)) (replicate (unat t) (pk_zero B)) (map (map (GetPublicKey B) \<circ> p \<circ> ep_ID) qs)"

text \<open>The part of a commit that stores the key.\<close>

definition finish_commit ::
  "('e, 'sk, 'pk, 'sig, 'i, 'wal, 'acc) process \<Rightarrow> string \<Rightarrow> bytes option \<Rightarrow> 'sk \<Rightarrow> u32 \<Rightarrow> 'pk list \<Rightarrow> endpoint list \<Rightarrow> bytes \<Rightarrow>
     (('sk, 'pk, 'e) node, err + bytes \<times> bytes) op" where
  "finish_commit P account pass sk t agg qs data =
     go_bind (on_env (storeDistributedKey P account pass sk t agg qs)) (\<lambda>st. case st of
         Some e \<Rightarrow> go_return (Inl (wrap_err ErrNotCreated e))
       | None \<Rightarrow> go_bind (on_env (retrieve_account P account)) (\<lambda>rv. case rv of
           Some e \<Rightarrow> go_return (Inl e)
         | None \<Rightarrow> go_bind (del_generation account) (\<lambda>_. case agg of
             [] \<Rightarrow> go_panic index_out_of_range
           | v # _ \<Rightarrow> go_return (Inr (pk_Serialize (ps_bls P) v, sig_Serialize (ps_bls P) (SignByte (ps_bls P) sk data))))))"

lemma hd_foldl_poly:
  "a \<noteq> [] \<Longrightarrow> \<forall>v \<in> set vs. v \<noteq> [] \<Longrightarrow> foldl (poly_add f) a vs \<noteq> [] \<and> hd (foldl (poly_add f) a vs) = foldl f (hd a) (map hd vs)"
proof (induction vs arbitrary: a)
  case (Cons v vs)
  then obtain x xs y ys where "a = x # xs" "v = y # ys" by (auto simp: neq_Nil_conv)
  with Cons show ?case by simp
qed simp

lemma map_of_mset:
  assumes m: "map_of xs = (\<lambda>n. if n \<in> f ` set qs then Some (h n) else None)" and d: "distinct (map fst xs)" "distinct (map f qs)"
  shows "mset xs = mset (map (\<lambda>q. (f q, h (f q))) qs)"
proof -
  have "set xs = set (map (\<lambda>q. (f q, h (f q))) qs)"
    using m by (auto simp: map_of_eq_Some_iff [OF d(1), symmetric] split: if_splits)
  moreover have "distinct (map (\<lambda>q. (f q, h (f q))) qs)" using d(2) by (auto simp: distinct_map inj_on_def)
  ultimately show ?thesis using d(1) by (metis distinct_map set_eq_iff_mset_eq_distinct)
qed

context honest_cluster
begin

lemma group_vector_hd:
  assumes t: "t \<noteq> 0" and p: "\<forall>n \<in> ep_ID ` set qs. length (p n) = unat t"
  shows "group_vector B t p qs \<noteq> []" and "hd (group_vector B t p qs) = GetPublicKey B (group_key B p qs)"
proof -
  have t': "unat t \<noteq> 0" using t by (simp add: unat_eq_zero)
  have ne: "\<forall>q \<in> set qs. p (ep_ID q) \<noteq> []" using p t' by auto
  note h = hd_foldl_poly [of "replicate (unat t) (pk_zero B)" "map (map (GetPublicKey B) \<circ> p \<circ> ep_ID) qs" "pk_Add B"]
  from h t' ne show "group_vector B t p qs \<noteq> []" by (simp add: group_vector_def)
  have mm: "map (GetPublicKey B \<circ> (hd \<circ> p \<circ> ep_ID)) qs = map (hd \<circ> (map (GetPublicKey B) \<circ> p \<circ> ep_ID)) qs" using ne by (simp add: hd_map)
  show "hd (group_vector B t p qs) = GetPublicKey B (group_key B p qs)"
    unfolding group_vector_def group_key_def public_sum public_zero map_map mm using h t' ne by simp
qed

text \<open>What an instance holds after all participants have executed.\<close>

lemma holding_all:
  assumes h: "holding qs t account p (linked (ep_ID ` set qs) (ep_ID ` set qs)) i g" and i: "i \<in> ep_ID ` set qs" and d: "distinct (map ep_ID qs)"
  shows "contributions_missing rt g = None"
    and "mset (map snd (map_range rt (g_sharedSecrets g))) = mset (map (\<lambda>q. share B p (ep_ID q) i) qs)"
    and "mset (map snd (map_range rt (g_sharedVVecs g))) = mset (map (map (GetPublicKey B) \<circ> p \<circ> ep_ID) qs)"
proof -
  have "map_of (g_sharedSecrets g) = (\<lambda>n. if n \<in> ep_ID ` set qs then Some (share B p n i) else None)"
    "map_of (g_sharedVVecs g) = (\<lambda>n. if n \<in> ep_ID ` set qs then Some (map (GetPublicKey B) (p n)) else None)"
    "distinct (map fst (g_sharedSecrets g))" "distinct (map fst (g_sharedVVecs g))" and q: "g_participants g = qs"
    using h by (simp_all only: holding_def Let_def linked_all [OF i])
  from map_of_mset [OF this(1,3) d] map_of_mset [OF this(2,4) d]
  have s: "mset (g_sharedSecrets g) = mset (map (\<lambda>q. (ep_ID q, share B p (ep_ID q) i)) qs)"
    and v: "mset (g_sharedVVecs g) = mset (map (\<lambda>q. (ep_ID q, map (GetPublicKey B) (p (ep_ID q)))) qs)" by simp_all
  from mset_eq_length [OF s] mset_eq_length [OF v] show "contributions_missing rt g = None" by (simp add: q contributions_missing_def)
  have "image_mset snd (mset (g_sharedSecrets g)) = mset (map (\<lambda>q. share B p (ep_ID q) i) qs)" unfolding s by (simp add: comp_def flip: mset_map)
  then show "mset (map snd (map_range rt (g_sharedSecrets g))) = mset (map (\<lambda>q. share B p (ep_ID q) i) qs)" by (simp add: mset_map_range [OF fair])
  have "image_mset snd (mset (g_sharedVVecs g)) = mset (map (map (GetPublicKey B) \<circ> p \<circ> ep_ID) qs)" unfolding v by (simp add: comp_def flip: mset_map)
  then show "mset (map snd (map_range rt (g_sharedVVecs g))) = mset (map (map (GetPublicKey B) \<circ> p \<circ> ep_ID) qs)" by (simp add: mset_map_range [OF fair])
qed

lemma aggregated:
  assumes p: "\<forall>n \<in> ep_ID ` set qs. length (p n) = unat t"
    and vvs: "mset vvs = mset (map (map (GetPublicKey B) \<circ> p \<circ> ep_ID) qs)"
  shows "vv_aggregate B (replicate (unat t) (pk_zero B)) vvs = Ret (group_vector B t p qs)"
proof -
  have "set vvs = (map (GetPublicKey B) \<circ> p \<circ> ep_ID) ` set qs" using mset_eq_setD [OF vvs] by simp
  with p have "\<forall>vv \<in> set vvs. length vv \<le> unat t" by simp
  moreover have "foldl (poly_add (pk_Add B)) a vvs = foldl (poly_add (pk_Add B)) a (map (map (GetPublicKey B) \<circ> p \<circ> ep_ID) qs)" for a
    by (rule foldl_permuted [OF vvs]) (rule poly_swap)
  ultimately show ?thesis by (simp add: vv_aggregate_poly group_vector_def)
qed

text \<open>The commit of an instance, up to the storage of the key.\<close>

lemma commit_at:
  assumes h: "holding qs t account p (linked (ep_ID ` set qs) (ep_ID ` set qs)) i g" and i: "i \<in> ep_ID ` set qs" and d: "distinct (map ep_ID qs)"
    and p: "\<forall>n \<in> ep_ID ` set qs. length (p n) = unat t" and g: "nd_generations s account = Some g"
  shows "\<exists>pass. OnCommit (N i) rt sender account data s =
    finish_commit (N i) account pass (foldl (sk_Add B) (sk_zero B) (map snd (map_range rt (g_sharedSecrets g)))) t (group_vector B t p qs) qs data s"
proof -
  have ga: "g_account g = account" "g_threshold g = t" "g_participants g = qs" using h by (simp_all add: holding_def Let_def)
  from holding_all [OF h i d] aggregated [OF p] have "contributions_missing rt g = None"
    "vv_aggregate B (replicate (unat t) (pk_zero B)) (map snd (map_range rt (g_sharedVVecs g))) = Ret (group_vector B t p qs)" by simp_all
  with holding_get [OF g h] ga show ?thesis
    by (intro exI [of _ "case g_passphrase g of None \<Rightarrow> Some (ps_generationPassphrase (N i)) | Some p \<Rightarrow> Some p"])
      (simp add: OnCommit_def finish_commit_def go_bind_def [of "getGeneration (N i) account"] go_bind_def [of "go_lift x" for x] go_simps parts Let_def cong: option.case_cong list.case_cong)
qed

end

end
