(* ===== verification/Cluster_Generation.thy ===== *)
theory Cluster_Generation
  imports Cluster_Commit
begin

text \<open>
  Completeness of the distributed generation: in a cluster of honest instances with working wallets
  the coordinator obtains a key, which all participants have stored.
\<close>

definition group_poly :: "('sk, 'pk, 'sig, 'i) bls_lib \<Rightarrow> u32 \<Rightarrow> (u64 \<Rightarrow> 'sk list) \<Rightarrow> endpoint list \<Rightarrow> 'sk list" where
  "group_poly B t p qs = foldl (poly_add (sk_Add B)) (replicate (unat t) (sk_zero B)) (map (p \<circ> ep_ID) qs)"

text \<open>
  Secret keys are added like public keys; the signatures with the values of a polynomial at as many
  identifiers as it has coefficients give the signature with its constant term. What is asked of the
  wallets is about one account only, the account \<open>an\<close> of the wallet \<open>wn\<close>, and about the instances of the cluster: its name can be
  parsed, its wallet can be opened, locked and unlocked, and an unlocked wallet imports the account, if it
  does not have it yet, from the serialization of a secret key that fits the verification vector that is given with it.
\<close>

locale storing_cluster = honest_cluster B N ps rt stored
  for B :: "('sk, 'pk, 'sig, 'i) bls_lib" and N :: "u64 \<Rightarrow> (('sk, 'pk, 'w) cluster, 'sk, 'pk, 'sig, 'i, 'wal, 'acc) process"
    and ps rt and stored :: "string \<Rightarrow> 'w \<Rightarrow> u64 set" +
  fixes account wn an :: string and opened :: "u64 \<Rightarrow> 'wal \<Rightarrow> bool" and unlocked :: "u64 \<Rightarrow> 'wal \<Rightarrow> 'w \<Rightarrow> bool"
  assumes sk_add_commute: "sk_Add B x y = sk_Add B y x"
    and sk_add_assoc: "sk_Add B (sk_Add B x y) z = sk_Add B x (sk_Add B y z)"
    and sk_eval_zero: "0 < n \<Longrightarrow> sk_Set B (replicate n (sk_zero B)) j = Inr (sk_zero B)"
    and sk_eval_add: "sk_Set B xs j = Inr x \<Longrightarrow> sk_Set B ys j = Inr y \<Longrightarrow> sk_Set B (poly_add (sk_Add B) xs ys) j = Inr (sk_Add B x y)"
    and ident_inj: "inj_on (ident B) (fst ` set ps)"
    and recover: "xs \<noteq> [] \<Longrightarrow> length js = length xs \<Longrightarrow> distinct js \<Longrightarrow> set js \<subseteq> ident B ` fst ` set ps \<Longrightarrow>
      sig_Recover B (map (\<lambda>j. SignByte B (projr (sk_Set B xs j)) data) js) js = Inr (SignByte B (hd xs) data)"
    and verifies: "VerifyByte B (SignByte B x data) (GetPublicKey B x) data"
    and sig_serial: "sig_Deserialize B (sig_Serialize B sg) = Inr sg" "sig_Serialize B sg \<noteq> []" "pk_Serialize B k \<noteq> []"
    and commit: "ps_Commit (N i) peer account data = run_sender (snd_Commit (network N ps rt i) peer account data)"
    and suitable: "ps_Suitable (N i) = Suitable rt ps"
    and random_bytes: "\<exists>bs w'. ps_randRead (N i) 32 (G, w) = (Ret (Inr bs), (G, w')) \<and> length bs = 32 \<and> (\<forall>a. stored a w' = stored a w)"
    and names: "i \<in> fst ` set ps \<Longrightarrow> ks_Names (ps_store (N i)) account = Inr (wn, an)"
    and open_wallet: "i \<in> fst ` set ps \<Longrightarrow>
      \<exists>wal w'. ks_OpenDistributed (ps_store (N i)) wn (G, w) = (Ret (Inr wal), (G, w')) \<and> opened i wal \<and> (\<forall>a. stored a w' = stored a w)"
    and unlock: "opened i wal \<Longrightarrow>
      \<exists>w'. ks_wal_Unlock (ps_store (N i)) wal (Some []) (G, w) = (Ret None, (G, w')) \<and> unlocked i wal w' \<and> (\<forall>a. stored a w' = stored a w)"
    and lock: "opened i wal \<Longrightarrow> \<exists>r w'. ks_wal_Lock (ps_store (N i)) wal (G, w) = (Ret r, (G, w')) \<and> (\<forall>a. stored a w' = stored a w)"
    and kinds: "opened i wal \<Longrightarrow> ks_wal_is_importer (ps_store (N i)) wal" "opened i wal \<Longrightarrow> ks_wal_is_by_name (ps_store (N i)) wal"
    and import: "opened i wal \<Longrightarrow> ks_wal_is_locker (ps_store (N i)) wal \<longrightarrow> unlocked i wal w \<Longrightarrow> i \<notin> stored account w \<Longrightarrow>
      vs \<noteq> [] \<Longrightarrow> length vs = unat t \<Longrightarrow> pk_Set B vs (ident B i) = Inr (GetPublicKey B sk) \<Longrightarrow>
      \<exists>acc w'. ks_ImportDistributedAccount (ps_store (N i)) wal an (sk_Serialize B sk) t (map (pk_Serialize B) vs) members pass (G, w) =
          (Ret (Inr acc), (G, w')) \<and> stored account w' = insert i (stored account w)"
    and add_account: "opened i wal \<Longrightarrow>
      \<exists>r w'. ks_AddAccount (ps_store (N i)) wal acc (G, w) = (Ret r, (G, w')) \<and> (\<forall>a. stored a w' = stored a w)"
    and by_name: "opened i wal \<Longrightarrow> i \<in> stored account w \<Longrightarrow>
      \<exists>acc w'. ks_AccountByName (ps_store (N i)) wal an (G, w) = (Ret (Inr acc), (G, w')) \<and> (\<forall>a. stored a w' = stored a w)"
begin

section \<open>Storing\<close>

text \<open>A share with its vector, as it is to be stored.\<close>

definition fitting :: "u64 \<Rightarrow> 'sk \<Rightarrow> u32 \<Rightarrow> 'pk list \<Rightarrow> bool" where
  "fitting i sk t vs \<longleftrightarrow> vs \<noteq> [] \<and> length vs = unat t \<and> pk_Set B vs (ident B i) = Inr (GetPublicKey B sk)"

lemma import_done:
  assumes o: "opened i wal" "ks_wal_is_locker (ps_store (N i)) wal \<longrightarrow> unlocked i wal w" and i: "i \<notin> stored account w" and f: "fitting i sk t vs"
  shows "\<exists>w'. import_account (N i) wal an pass sk t vs qs (G, w) = (Ret None, (G, w')) \<and> stored account w' = insert i (stored account w)"
proof -
  from f have "vs \<noteq> []" "length vs = unat t" "pk_Set B vs (ident B i) = Inr (GetPublicKey B sk)" by (simp_all add: fitting_def)
  from import [OF o i this] obtain acc w1 where
    "ks_ImportDistributedAccount (ps_store (N i)) wal an (sk_Serialize B sk) t (map (pk_Serialize B) vs) (walletParticipants qs) pass (G, w) =
      (Ret (Inr acc), (G, w1))" "stored account w1 = insert i (stored account w)" by blast
  moreover obtain r w2 where "ks_AddAccount (ps_store (N i)) wal acc (G, w1) = (Ret r, (G, w2))" "\<forall>a. stored a w2 = stored a w1"
    using add_account [OF o(1)] by blast
  ultimately show ?thesis by (simp add: import_account_def kinds [OF o(1)] parts go_bind_def go_simps)
qed

lemma store_done:
  assumes p: "i \<in> fst ` set ps" and i: "i \<notin> stored account w" and f: "fitting i sk t vs"
  shows "\<exists>w'. storeDistributedKey (N i) account pass sk t vs qs (G, w) = (Ret None, (G, w')) \<and> stored account w' = insert i (stored account w)"
proof -
  note n = names [OF p]
  obtain wal w1 where o: "ks_OpenDistributed (ps_store (N i)) wn (G, w) = (Ret (Inr wal), (G, w1))" "opened i wal" and s1: "\<forall>a. stored a w1 = stored a w"
    using open_wallet [OF p] by blast
  show ?thesis
  proof (cases "ks_wal_is_locker (ps_store (N i)) wal")
    case True
    obtain w2 where u: "ks_wal_Unlock (ps_store (N i)) wal (Some []) (G, w1) = (Ret None, (G, w2))" "unlocked i wal w2" and s2: "\<forall>a. stored a w2 = stored a w1"
      using unlock [OF o(2)] by blast
    have "i \<notin> stored account w2" using i s1 s2 by simp
    from import_done [OF o(2) impI [OF u(2)] this f] obtain w3 where im: "import_account (N i) wal an pass sk t vs qs (G, w2) = (Ret None, (G, w3))"
      and s3: "stored account w3 = insert i (stored account w2)" by blast
    obtain r w4 where l: "ks_wal_Lock (ps_store (N i)) wal (G, w3) = (Ret r, (G, w4))" and s4: "\<forall>a. stored a w4 = stored a w3" using lock [OF o(2)] by blast
    from n o u im l True s1 s2 s3 s4 show ?thesis by (simp add: storeDistributedKey_def deferred_lock_def go_bind_def go_simps)
  next
    case False
    have "i \<notin> stored account w1" using i s1 by simp
    from import_done [OF o(2) _ this f] n o False s1 show ?thesis by (simp add: storeDistributedKey_def go_bind_def)
  qed
qed

lemma retrieve_done:
  assumes p: "i \<in> fst ` set ps" and i: "i \<in> stored account w"
  shows "\<exists>w'. retrieve_account (N i) account (G, w) = (Ret None, (G, w')) \<and> stored account w' = stored account w"
proof -
  note n = names [OF p]
  obtain wal w1 where o: "ks_OpenDistributed (ps_store (N i)) wn (G, w) = (Ret (Inr wal), (G, w1))" "opened i wal" and s1: "\<forall>a. stored a w1 = stored a w"
    using open_wallet [OF p] by blast
  have "i \<in> stored account w1" using i s1 by simp
  with by_name [OF o(2)] obtain acc w2 where "ks_AccountByName (ps_store (N i)) wal an (G, w1) = (Ret (Inr acc), (G, w2))"
    "\<forall>a. stored a w2 = stored a w1" by blast
  with n o s1 show ?thesis by (simp add: retrieve_account_def go_bind_def go_simps kinds [OF o(2)])
qed

section \<open>Commit\<close>

lemma sk_swap: "sk_Add B (sk_Add B a x) y = sk_Add B (sk_Add B a y) x"
  by (metis sk_add_assoc sk_add_commute)

text \<open>The sum of the shares that an instance received is the value of the sum of the polynomials.\<close>

lemma eval_foldl:
  "sk_Set B a j = Inr x \<Longrightarrow> \<forall>q \<in> set qs. p (ep_ID q) \<noteq> [] \<Longrightarrow>
     sk_Set B (foldl (poly_add (sk_Add B)) a (map (p \<circ> ep_ID) qs)) j = Inr (foldl (sk_Add B) x (map (\<lambda>q. projr (sk_Set B (p (ep_ID q)) j)) qs))"
proof (induction qs arbitrary: a x)
  case (Cons q qs)
  obtain y where "sk_Set B (p (ep_ID q)) j = Inr y" using Cons.prems(2) eval_total [of "p (ep_ID q)" j] by auto
  with Cons sk_eval_add [OF Cons.prems(1) this] show ?case by simp
qed simp

lemma share_value:
  assumes t: "t \<noteq> 0" and p: "\<forall>n \<in> ep_ID ` set qs. length (p n) = unat t"
    and h: "mset xs = mset (map (\<lambda>q. share B p (ep_ID q) i) qs)"
  shows "foldl (sk_Add B) (sk_zero B) xs = projr (sk_Set B (group_poly B t p qs) (ident B i))"
proof -
  have t': "0 < unat t" using t by (simp add: unat_gt_0)
  have "\<forall>q \<in> set qs. p (ep_ID q) \<noteq> []" using p t' by auto
  from eval_foldl [where j = "ident B i", OF sk_eval_zero [OF t'] this]
  have "sk_Set B (group_poly B t p qs) (ident B i) = Inr (foldl (sk_Add B) (sk_zero B) (map (\<lambda>q. share B p (ep_ID q) i) qs))"
    by (simp add: group_poly_def share_def)
  moreover have "foldl (sk_Add B) (sk_zero B) xs = foldl (sk_Add B) (sk_zero B) (map (\<lambda>q. share B p (ep_ID q) i) qs)"
    by (rule foldl_permuted [OF h]) (rule sk_swap)
  ultimately show ?thesis by simp
qed

lemma group_poly_hd:
  assumes t: "t \<noteq> 0" and p: "\<forall>n \<in> ep_ID ` set qs. length (p n) = unat t"
  shows "length (group_poly B t p qs) = unat t" and "hd (group_poly B t p qs) = group_key B p qs"
proof -
  have t': "unat t \<noteq> 0" using t by (simp add: unat_eq_zero)
  have "length (foldl (poly_add (sk_Add B)) a vs) = length a" if "\<forall>v \<in> set vs. length v = length a" for a vs
    using that by (induction vs arbitrary: a) simp_all
  from this [of "map (p \<circ> ep_ID) qs" "replicate (unat t) (sk_zero B)"] p show "length (group_poly B t p qs) = unat t" by (simp add: group_poly_def)
  have "\<forall>q \<in> set qs. p (ep_ID q) \<noteq> []" using p t' by auto
  with hd_foldl_poly [of "replicate (unat t) (sk_zero B)" "map (p \<circ> ep_ID) qs" "sk_Add B"] t'
  show "hd (group_poly B t p qs) = group_key B p qs" by (simp add: group_poly_def group_key_def comp_assoc)
qed

text \<open>The share fits the sum of the verification vectors.\<close>

lemma public_poly_add: "map (GetPublicKey B) (poly_add (sk_Add B) xs ys) = poly_add (pk_Add B) (map (GetPublicKey B) xs) (map (GetPublicKey B) ys)"
  by (induction "sk_Add B" xs ys rule: poly_add.induct) (simp_all add: public_add)

lemma public_group_poly: "map (GetPublicKey B) (group_poly B t p qs) = group_vector B t p qs"
proof -
  have "map (GetPublicKey B) (foldl (poly_add (sk_Add B)) a vs) = foldl (poly_add (pk_Add B)) (map (GetPublicKey B) a) (map (map (GetPublicKey B)) vs)" for a vs
    by (induction vs arbitrary: a) (simp_all add: public_poly_add)
  then show ?thesis by (simp add: group_poly_def group_vector_def public_zero comp_assoc)
qed

lemma group_fitting:
  assumes t: "t \<noteq> 0" and p: "\<forall>n \<in> ep_ID ` set qs. length (p n) = unat t"
  shows "fitting i (projr (sk_Set B (group_poly B t p qs) (ident B i))) t (group_vector B t p qs)"
proof -
  note len = group_poly_hd(1) [OF t p]
  then have ne: "group_poly B t p qs \<noteq> []" using t by (metis length_0_conv unat_eq_zero)
  then obtain x where x: "sk_Set B (group_poly B t p qs) (ident B i) = Inr x" using eval_total by blast
  from public_eval [OF x] x ne len show ?thesis unfolding public_group_poly [symmetric] fitting_def by simp
qed

definition commitment :: "u32 \<Rightarrow> (u64 \<Rightarrow> 'sk list) \<Rightarrow> endpoint list \<Rightarrow> bytes \<Rightarrow> u64 \<Rightarrow> bytes \<times> bytes" where
  "commitment t p qs data i = (pk_Serialize B (GetPublicKey B (group_key B p qs)),
     sig_Serialize B (SignByte B (projr (sk_Set B (group_poly B t p qs) (ident B i))) data))"

abbreviation held :: "endpoint list \<Rightarrow> u32 \<Rightarrow> string \<Rightarrow> (u64 \<Rightarrow> 'sk list) \<Rightarrow> u64 \<Rightarrow> ('sk, 'pk) generation \<Rightarrow> bool" where
  "held qs t a p i g \<equiv> holding qs t a p (linked (ep_ID ` set qs) (ep_ID ` set qs)) i g"

lemma commit_done:
  assumes i: "i \<in> ep_ID ` set qs" "i \<in> fst ` set ps" and d: "distinct (map ep_ID qs)" and t: "t \<noteq> 0"
    and p: "\<forall>n \<in> ep_ID ` set qs. length (p n) = unat t" and g: "G i account = Some g" "held qs t account p i g" and new: "i \<notin> stored account w"
  shows "\<exists>w'. at_node i (OnCommit (N i) rt sender account data) (G, w) =
      (Ret (Inr (commitment t p qs data i)), (G(i := (G i)(account := None)), w')) \<and> stored account w' = insert i (stored account w)"
proof -
  let ?s = "\<lparr>nd_generations = G i, nd_env = (G, w)\<rparr>" and ?sk = "foldl (sk_Add B) (sk_zero B) (map snd (map_range rt (g_sharedSecrets g)))"
  have sk: "?sk = projr (sk_Set B (group_poly B t p qs) (ident B i))" by (rule share_value [OF t p holding_all(2) [OF g(2) i(1) d]])
  obtain v vs where gv: "group_vector B t p qs = v # vs" "v = GetPublicKey B (group_key B p qs)"
    using group_vector_hd [OF t p] by (cases "group_vector B t p qs") auto
  obtain pass where c: "OnCommit (N i) rt sender account data ?s = finish_commit (N i) account pass ?sk t (group_vector B t p qs) qs data ?s"
    using commit_at [OF g(2) i(1) d p, of ?s] g(1) by auto
  have fit: "fitting i ?sk t (group_vector B t p qs)" unfolding sk by (rule group_fitting [OF t p])
  obtain w1 where st: "storeDistributedKey (N i) account pass ?sk t (group_vector B t p qs) qs (G, w) = (Ret None, (G, w1))"
    and s1: "stored account w1 = insert i (stored account w)" using store_done [OF i(2) new fit] by blast
  then have "i \<in> stored account w1" by simp
  from retrieve_done [OF i(2) this] obtain w2 where rt: "retrieve_account (N i) account (G, w1) = (Ret None, (G, w2))" and s2: "stored account w2 = stored account w1" by blast
  have "OnCommit (N i) rt sender account data ?s = (Ret (Inr (commitment t p qs data i)), \<lparr>nd_generations = (G i)(account := None), nd_env = (G, w2)\<rparr>)"
    unfolding c finish_commit_def gv commitment_def sk [symmetric] using st rt
    by (simp add: gv go_bind_def on_env_def go_zoom_def go_simps del_generation_def parts)
  with s1 s2 show ?thesis by (simp add: at_node_def)
qed

lemma commit_call:
  assumes qs: "set qs \<subseteq> snd ` set ps" and q: "q \<in> set qs" and c0: "c0 \<in> fst ` set ps"
    and run: "at_node (ep_ID q) (OnCommit (N (ep_ID q)) rt c0 account data) c = (Ret (Inr x), c')"
  shows "ps_Commit (N c0) q account data c = (Ret (Inr x), c')"
proof -
  obtain pc where pc: "(c0, pc) \<in> set ps" using c0 by force
  have pm: "(ep_ID q, q) \<in> set ps" using qs q peers(1) by (force simp: peers_ok_def)
  have "at_node (ep_ID q) (rc_Commit (N (ep_ID q)) ps rt (peer_name ps c0) account data) c = (Ret (Inr x), c')"
    using sender_known [OF pc] run
    by (cases c) (auto simp: rc_Commit_def at_node_def go_bind_def go_simps split: prod.splits go.splits)
  then show ?thesis unfolding commit snd_Commit_def connected [OF pm] by (simp add: network_def go_bind_def go_simps)
qed

lemma commit_all:
  assumes qs: "set qs \<subseteq> snd ` set ps" and d: "distinct (map ep_ID qs)" and t: "t \<noteq> 0" and p: "\<forall>n \<in> ep_ID ` set qs. length (p n) = unat t"
    and c0: "c0 \<in> fst ` set ps"
  shows "distinct is \<Longrightarrow> \<forall>k \<in> set is. k < length qs \<and> ep_ID (qs ! k) \<notin> stored account (snd c) \<and>
      (\<exists>g. fst c (ep_ID (qs ! k)) account = Some g \<and> held qs t account p (ep_ID (qs ! k)) g) \<Longrightarrow>
    \<exists>c'. run_workers is (\<lambda>k. go_bind (ps_Commit (N c0) (qs ! k) account data) (\<lambda>r. go_return (k, r))) c =
        (Ret (map (\<lambda>k. (k, Inr (commitment t p qs data (ep_ID (qs ! k))))) is), c') \<and>
      stored account (snd c') = (\<lambda>k. ep_ID (qs ! k)) ` set is \<union> stored account (snd c)"
proof (induction "is" arbitrary: c)
  case Nil
  then show ?case by (simp add: go_simps)
next
  case (Cons k "is")
  obtain G w where c: "c = (G, w)" by force
  let ?i = "ep_ID (qs ! k)"
  from Cons.prems(2) obtain g where k: "k < length qs" and new: "?i \<notin> stored account w" and g: "G ?i account = Some g" "held qs t account p ?i g"
    by (auto simp: c)
  have q: "qs ! k \<in> set qs" and i: "?i \<in> ep_ID ` set qs" using k by simp_all
  have ip: "?i \<in> fst ` set ps" using qs q peers(1) by (force simp: peers_ok_def)
  from commit_done [of ?i qs t p G g w c0 data, OF i ip d t p g new] obtain w'
    where run: "at_node ?i (OnCommit (N ?i) rt c0 account data) (G, w) = (Ret (Inr (commitment t p qs data ?i)), (G(?i := (G ?i)(account := None)), w'))"
      and st: "stored account w' = insert ?i (stored account w)" by blast
  have other: "ep_ID (qs ! m) \<noteq> ?i" if "m \<in> set is" for m
    using d k that Cons.prems by (metis distinct.simps(2) length_map list.set_intros(2) nth_eq_iff_index_eq nth_map)
  let ?c = "(G(?i := (G ?i)(account := None)), w')"
  have "\<forall>m \<in> set is. m < length qs \<and> ep_ID (qs ! m) \<notin> stored account (snd ?c) \<and>
      (\<exists>g. fst ?c (ep_ID (qs ! m)) account = Some g \<and> held qs t account p (ep_ID (qs ! m)) g)"
    using Cons.prems(2) other by (simp add: c st)
  from Cons.IH [OF _ this] Cons.prems(1) commit_call [OF qs q c0 run] st show ?case by (auto simp: c go_bind_def go_simps)
qed

section \<open>Confirmation\<close>

lemma window_parts_done:
  "\<forall>(q, b) \<in> set ws. ep_ID q \<in> fst ` set ps \<and> b = sig_Serialize B (f (ep_ID q)) \<Longrightarrow>
     window_parts B ws = Ret (Inr (map (\<lambda>(q, b). (ident B (ep_ID q), f (ep_ID q))) ws))"
proof (induction ws)
  case (Cons x ws)
  obtain q where x: "x = (q, sig_Serialize B (f (ep_ID q)))" and q: "ep_ID q \<in> fst ` set ps" using Cons.prems by (cases x) auto
  with Cons show ?case by (simp add: identified [OF q] sig_serial)
qed simp

lemma window_done:
  assumes qs: "ep_ID ` set qs \<subseteq> fst ` set ps" and d: "distinct (map ep_ID qs)" and t: "t \<noteq> 0" and p: "\<forall>n \<in> ep_ID ` set qs. length (p n) = unat t"
    and i: "i + unat t \<le> length qs"
  shows "check_window B (GetPublicKey B (group_key B p qs)) data
    (take (unat t) (drop i (zip qs (map (\<lambda>q. snd (commitment t p qs data (ep_ID q))) qs)))) = Ret None" (is "check_window B _ _ ?ws = _")
proof -
  let ?ys = "take (unat t) (drop i qs)" and ?poly = "group_poly B t p qs"
  let ?f = "\<lambda>n. SignByte B (projr (sk_Set B ?poly (ident B n))) data"
  have ws: "?ws = map (\<lambda>q. (q, sig_Serialize B (?f (ep_ID q)))) ?ys"
    by (simp add: take_map drop_map zip_map2 zip_same_conv_map commitment_def)
  have sub: "set ?ys \<subseteq> set qs" by (meson set_drop_subset set_take_subset subset_trans)
  then have ids: "ep_ID ` set ?ys \<subseteq> fst ` set ps" using qs by blast
  have wp: "window_parts B ?ws = Ret (Inr (map (\<lambda>q. (ident B (ep_ID q), ?f (ep_ID q))) ?ys))"
    using window_parts_done [of ?ws ?f] ids unfolding ws by (auto simp: comp_def)
  let ?js = "map (ident B \<circ> ep_ID) ?ys"
  have "distinct (map ep_ID ?ys)" using d by (metis distinct_drop distinct_take drop_map take_map)
  then have "distinct ?js" using inj_on_subset [OF ident_inj ids] by (simp add: distinct_map comp_inj_on)
  moreover have "length ?js = length ?poly" using i group_poly_hd(1) [OF t p] by simp
  moreover have "?poly \<noteq> []" using t group_poly_hd(1) [OF t p] by (metis length_0_conv unat_eq_zero)
  moreover have "set ?js \<subseteq> ident B ` fst ` set ps" using image_mono [OF ids, of "ident B"] by (simp add: image_comp)
  ultimately have "sig_Recover B (map (\<lambda>j. SignByte B (projr (sk_Set B ?poly j)) data) ?js) ?js = Inr (SignByte B (group_key B p qs) data)"
    using recover [of ?poly ?js data] group_poly_hd(2) [OF t p] by simp
  then show ?thesis unfolding check_window_def wp by (simp add: comp_def verifies)
qed

lemma windows_all: "\<forall>i \<in> set is. check_window B k data (take n (drop i ws)) = Ret None \<Longrightarrow> check_windows B k data ws n is = Ret None"
  by (induction "is") simp_all

lemma confirm_done:
  assumes qs: "ep_ID ` set qs \<subseteq> fst ` set ps" and d: "distinct (map ep_ID qs)" and t: "t \<noteq> 0" "unat t \<le> length qs"
    and p: "\<forall>n \<in> ep_ID ` set qs. length (p n) = unat t" and cs: "cs = map (\<lambda>q. commitment t p qs data (ep_ID q)) qs"
  shows "confirm_generation B qs (map fst cs) (map snd cs) (unat t) data = Ret None"
proof -
  let ?k = "pk_Serialize B (GetPublicKey B (group_key B p qs))"
  have ne: "qs \<noteq> []" using t by (auto simp: unat_eq_zero)
  have keys: "map fst cs = replicate (length qs) ?k" by (simp add: cs commitment_def comp_def map_replicate_const)
  obtain n where n: "length qs = Suc n" using ne by (cases qs) auto
  have "check_windows B (GetPublicKey B (group_key B p qs)) data (zip qs (map snd cs)) (unat t) [0..<length qs + 1 - unat t] = Ret None"
    using window_done [OF qs d t(1) p] by (intro windows_all) (auto simp: cs comp_def)
  moreover have "list_all (\<lambda>i. map fst cs ! i = map fst cs ! (Suc i mod length (map fst cs))) [0..<length (map fst cs)]"
    using ne by (auto simp: keys list_all_iff)
  moreover have "map fst cs = ?k # replicate n ?k" by (simp add: keys n)
  ultimately show ?thesis unfolding confirm_generation_def using serial(2) by simp
qed

lemma commits_read:
  assumes "set is = {0..<length qs}" and rs_def: "rs = map (\<lambda>k. (k, Inr (commitment t p qs data (ep_ID (qs ! k))))) is"
  shows "check_commits rs = None" and "map (commit_at rs) [0..<length qs] = map (\<lambda>q. commitment t p qs data (ep_ID q)) qs"
proof -
  show "check_commits rs = None" unfolding rs_def by (induction "is") (simp_all add: commitment_def sig_serial)
  have "commit_at rs k = commitment t p qs data (ep_ID (qs ! k))" if "k < length qs" for k
    using that assms(1) by (simp add: rs_def commit_at_def map_of_map_restrict restrict_map_def comp_def)
  then show "map (commit_at rs) [0..<length qs] = map (\<lambda>q. commitment t p qs data (ep_ID q)) qs"
    by (intro nth_equalityI) simp_all
qed

section \<open>The whole generation\<close>

lemma generation_completes:
  assumes c0: "c0 \<in> fst ` set ps" and wal: "ks_wal_Type (ps_store (N c0)) wallet = ''distributed''"
    and t: "0 < t" "t \<le> n" "unat n \<le> length ps"
    and idle: "\<forall>i \<in> fst ` set ps. fst c i account = None" and new: "stored account (snd c) \<inter> fst ` set ps = {}"
  shows "\<exists>pubKey qs c'. generateDistributed (N c0) rt wallet account passphrase t n c = (Ret (Inr (pubKey, qs)), c') \<and>
    length qs = unat n \<and> distinct (map ep_ID qs) \<and> set qs \<subseteq> snd ` set ps \<and> ep_ID ` set qs \<subseteq> stored account (snd c')"
proof -
  have n0: "0 < n" and t0: "t \<noteq> 0" using t by auto
  from Suitable_result [OF fair peers(1) n0] t(3) obtain qs where su: "Suitable rt ps n = Ret (Inr qs)" and len: "length qs = unat n"
    and d: "distinct (map ep_ID qs)" and qs: "set qs \<subseteq> snd ` set ps" by auto
  have ids: "ep_ID ` set qs \<subseteq> fst ` set ps" using qs peers(1) by (force simp: peers_ok_def)
  have new': "stored account (snd c) \<inter> ep_ID ` set qs = {}" using new ids by blast
  have "\<forall>q \<in> set qs. fst c (ep_ID q) account = None" using idle ids by blast
  from prepare_all [where X = "{}" and p = "\<lambda>_. []" and passphrase = passphrase and msg = "''failed to prepare endpoints''",
      OF qs t0 c0 subset_refl d this] new'
  obtain p c1 where pre: "for_each (\<lambda>q. ps_Prepare (N c0) q account passphrase t qs) ''failed to prepare endpoints'' qs c = (Ret None, c1)"
      and p: "\<forall>i \<in> ep_ID ` set qs. length (p i) = unat t" and g1: "generating qs t account p {} (ep_ID ` set qs) c1"
    unfolding generating_def by (metis Int_empty_left Un_empty_left empty_iff)
  have ne: "\<forall>i \<in> ep_ID ` set qs. p i \<noteq> []" using p t0 by (metis length_0_conv unat_eq_zero)
  from execute_all [where X = "{}" and t = t and account = account and c = c1 and msg = "''failed to execute generation''", OF qs ne c0 subset_refl d] g1
  obtain c2
    where ex: "for_each (\<lambda>q. ps_Execute (N c0) q account) ''failed to execute generation'' qs c1 = (Ret None, c2)"
      and g2: "generating qs t account p (linked (ep_ID ` set qs) (ep_ID ` set qs)) (ep_ID ` set qs) c2" by auto
  obtain G2 w2 where c2: "c2 = (G2, w2)" by force
  obtain data w3 where rd: "ps_randRead (N c0) 32 c2 = (Ret (Inr data), (G2, w3))" and dl: "length data = 32" and s3: "\<forall>a. stored a w3 = stored a w2"
    using random_bytes c2 by blast
  let ?is = "schedule rt (length qs)"
  have "mset ?is = mset [0..<length qs]" using fair by (simp add: fair_runtime_def)
  then have di: "distinct ?is" and si: "set ?is = {0..<length qs}" by (metis distinct_upt mset_eq_imp_distinct_iff, metis mset_eq_setD set_upt)
  have "\<forall>k \<in> set ?is. k < length qs \<and> ep_ID (qs ! k) \<notin> stored account (snd (G2, w3)) \<and>
      (\<exists>g. fst (G2, w3) (ep_ID (qs ! k)) account = Some g \<and> held qs t account p (ep_ID (qs ! k)) g)"
    using g2 s3 unfolding generating_def si c2 by fastforce
  from commit_all [OF qs d t0 p c0 di this, of data] obtain c4
    where cm: "run_workers ?is (\<lambda>k. go_bind (ps_Commit (N c0) (qs ! k) account data) (\<lambda>r. go_return (k, r))) (G2, w3) =
        (Ret (map (\<lambda>k. (k, Inr (commitment t p qs data (ep_ID (qs ! k))))) ?is), c4)" (is "_ = (Ret ?rs, _)")
      and s4: "stored account (snd c4) = (\<lambda>k. ep_ID (qs ! k)) ` set ?is \<union> stored account w3" by auto
  note rs = commits_read [OF si refl, of t p data]
  obtain q qs' where q: "qs = q # qs'" using len n0 by (cases qs) (auto simp: unat_eq_zero)
  have "unat t \<le> length qs" using t(2) len by (simp add: word_le_nat_alt)
  from confirm_done [OF ids d t0 this p refl, of data]
  have "generateDistributed (N c0) rt wallet account passphrase t n c = (Ret (Inr (fst (commitment t p qs data (ep_ID q)), qs)), c4)"
    using wal su pre ex rd dl cm rs
    by (simp add: generateDistributed_def go_bind_def [of "go_lift x" for x] go_bind_Ret suitable parts Let_def go_simps) (simp add: q)
  moreover have "ep_ID ` set qs \<subseteq> stored account (snd c4)" using s4 si by (force simp: in_set_conv_nth)
  ultimately show ?thesis using len d qs by blast
qed

end

end
