(* ===== verification/Cluster_Wiring.thy ===== *)
theory Cluster_Wiring
  imports Cluster
begin

text \<open>
  Instances are wired to each other by giving each of them a sender over the network of all. The
  handlers for contributions send nothing, those for the execution of a generation only send
  contributions, and the coordinator sends the rest, so the wiring is done in two layers.
\<close>

definition wire_contributions ::
  "(u64 \<Rightarrow> (('sk, 'pk, 'w) cluster, 'sk, 'pk, 'sig, 'i, 'wal, 'acc) process) \<Rightarrow> peers \<Rightarrow> go_runtime \<Rightarrow>
     u64 \<Rightarrow> (('sk, 'pk, 'w) cluster, 'sk, 'pk, 'sig, 'i, 'wal, 'acc) process" where
  "wire_contributions N ps rt i = (N i)\<lparr>ps_SendContribution := (\<lambda>peer account sk vv.
     run_sender (snd_SendContribution (ps_bls (N i)) (network N ps rt i) peer account sk vv))\<rparr>"

definition wire_requests ::
  "(u64 \<Rightarrow> (('sk, 'pk, 'w) cluster, 'sk, 'pk, 'sig, 'i, 'wal, 'acc) process) \<Rightarrow> peers \<Rightarrow> go_runtime \<Rightarrow>
     u64 \<Rightarrow> (('sk, 'pk, 'w) cluster, 'sk, 'pk, 'sig, 'i, 'wal, 'acc) process" where
  "wire_requests N ps rt i = (N i)\<lparr>
     ps_Prepare := (\<lambda>peer account passphrase t qs. run_sender (snd_Prepare (network N ps rt i) peer account passphrase t qs)),
     ps_Execute := (\<lambda>peer account. run_sender (snd_Execute (network N ps rt i) peer account)),
     ps_Commit := (\<lambda>peer account data. run_sender (snd_Commit (network N ps rt i) peer account data))\<rparr>"

definition wire ::
  "(u64 \<Rightarrow> (('sk, 'pk, 'w) cluster, 'sk, 'pk, 'sig, 'i, 'wal, 'acc) process) \<Rightarrow> peers \<Rightarrow> go_runtime \<Rightarrow>
     u64 \<Rightarrow> (('sk, 'pk, 'w) cluster, 'sk, 'pk, 'sig, 'i, 'wal, 'acc) process" where
  "wire N ps rt = wire_requests (wire_contributions N ps rt) ps rt"

text \<open>What the handlers do not depend on.\<close>

lemma wired_fields:
  "ps_bls (P\<lparr>ps_SendContribution := a\<rparr>) = ps_bls P"
  "ps_generationTimeout (P\<lparr>ps_SendContribution := a\<rparr>) = ps_generationTimeout P"
  "ps_Now (P\<lparr>ps_SendContribution := a\<rparr>) = ps_Now P"
  "ps_bls (P\<lparr>ps_Prepare := x, ps_Execute := y, ps_Commit := z\<rparr>) = ps_bls P"
  "ps_id (P\<lparr>ps_Prepare := x, ps_Execute := y, ps_Commit := z\<rparr>) = ps_id P"
  "ps_generationPassphrase (P\<lparr>ps_Prepare := x, ps_Execute := y, ps_Commit := z\<rparr>) = ps_generationPassphrase P"
  "ps_generationTimeout (P\<lparr>ps_Prepare := x, ps_Execute := y, ps_Commit := z\<rparr>) = ps_generationTimeout P"
  "ps_Now (P\<lparr>ps_Prepare := x, ps_Execute := y, ps_Commit := z\<rparr>) = ps_Now P"
  "ps_CSPRNG (P\<lparr>ps_Prepare := x, ps_Execute := y, ps_Commit := z\<rparr>) = ps_CSPRNG P"
  "ps_Peer (P\<lparr>ps_Prepare := x, ps_Execute := y, ps_Commit := z\<rparr>) = ps_Peer P"
  "ps_store (P\<lparr>ps_Prepare := x, ps_Execute := y, ps_Commit := z\<rparr>) = ps_store P"
  "ps_SendContribution (P\<lparr>ps_Prepare := x, ps_Execute := y, ps_Commit := z\<rparr>) = ps_SendContribution P"
  by simp_all

lemma getGeneration_wired:
  "getGeneration (P\<lparr>ps_SendContribution := a\<rparr>) = getGeneration P"
  "getGeneration (P\<lparr>ps_Prepare := x, ps_Execute := y, ps_Commit := z\<rparr>) = getGeneration P"
  by (simp_all only: getGeneration_def wired_fields fun_eq_iff simp_thms)

lemma OnContribute_wired:
  "OnContribute (P\<lparr>ps_SendContribution := a\<rparr>) = OnContribute P"
  "OnContribute (P\<lparr>ps_Prepare := x, ps_Execute := y, ps_Commit := z\<rparr>) = OnContribute P"
  by (simp_all only: OnContribute_def wired_fields getGeneration_wired fun_eq_iff simp_thms)

lemma swap_contributions_wired:
  "swap_contributions (P\<lparr>ps_Prepare := x, ps_Execute := y, ps_Commit := z\<rparr>) account vv rest g = swap_contributions P account vv rest g"
proof (induction rest arbitrary: g)
  case (Cons r rest)
  obtain n d where r: "r = (n, d)" by force
  show ?case unfolding r swap_contributions.simps wired_fields Cons.IH by (rule refl)
qed simp

lemma random_keys_wired: "random_keys (P\<lparr>ps_Prepare := x, ps_Execute := y, ps_Commit := z\<rparr>) n = random_keys P n"
  by (induction n) simp_all

lemma OnPrepare_wired: "OnPrepare (P\<lparr>ps_Prepare := x, ps_Execute := y, ps_Commit := z\<rparr>) = OnPrepare P"
  unfolding OnPrepare_def contribution_def wired_fields getGeneration_wired random_keys_wired fun_eq_iff by blast

lemma OnExecute_wired: "OnExecute (P\<lparr>ps_Prepare := x, ps_Execute := y, ps_Commit := z\<rparr>) = OnExecute P"
  unfolding OnExecute_def getGeneration_wired swap_contributions_wired fun_eq_iff by blast

lemma OnCommit_wired: "OnCommit (P\<lparr>ps_Prepare := x, ps_Execute := y, ps_Commit := z\<rparr>) = OnCommit P"
  unfolding OnCommit_def storeDistributedKey_def retrieve_account_def import_account_def deferred_lock_def wired_fields
    getGeneration_wired fun_eq_iff by blast

lemmas handlers_wired = OnContribute_wired OnPrepare_wired OnExecute_wired OnCommit_wired wired_fields

lemma network_wired:
  "tr_Contribute (network (wire_contributions N ps rt) ps rt i) = tr_Contribute (network N ps rt i)"
  "tr_Contribute (network (wire_requests N ps rt) ps rt i) = tr_Contribute (network N ps rt i)"
  "tr_Prepare (network (wire_requests N ps rt) ps rt i) = tr_Prepare (network N ps rt i)"
  "tr_Execute (network (wire_requests N ps rt) ps rt i) = tr_Execute (network N ps rt i)"
  "tr_Commit (network (wire_requests N ps rt) ps rt i) = tr_Commit (network N ps rt i)"
  unfolding network_def transport.simps wire_contributions_def wire_requests_def rc_Contribute_def rc_Prepare_def rc_Execute_def rc_Commit_def
    handlers_wired by (rule refl)+

lemma with_connection_wired:
  "with_connection (network N ps rt i) = with_connection (network N' ps rt i)"
  unfolding with_connection_def obtainConnection_def network_def transport.simps fun_eq_iff by blast

lemma wired:
  "ps_SendContribution (wire N ps rt i) peer account sk vv =
     run_sender (snd_SendContribution (ps_bls (N i)) (network (wire N ps rt) ps rt i) peer account sk vv)"
  "ps_Prepare (wire N ps rt i) peer account passphrase t qs = run_sender (snd_Prepare (network (wire N ps rt) ps rt i) peer account passphrase t qs)"
  "ps_Execute (wire N ps rt i) peer account = run_sender (snd_Execute (network (wire N ps rt) ps rt i) peer account)"
  "ps_Commit (wire N ps rt i) peer account data = run_sender (snd_Commit (network (wire N ps rt) ps rt i) peer account data)"
  unfolding wire_def snd_SendContribution_def snd_Prepare_def snd_Execute_def snd_Commit_def network_wired
    with_connection_wired [of "wire_requests (wire_contributions N ps rt) ps rt" ps rt i "wire_contributions N ps rt"]
    with_connection_wired [of "wire_contributions N ps rt" ps rt i N]
  by (simp_all add: wire_requests_def wire_contributions_def snd_SendContribution_def snd_Prepare_def snd_Execute_def snd_Commit_def
      with_connection_wired [of "wire_contributions N ps rt" ps rt i N])

end
