(* ===== verification/Samples_Cluster.thy ===== *)
theory Samples_Cluster
  imports Complex_Main Samples Cluster_Generation Cluster_Wiring
begin

text \<open>
  A cluster of three instances for evaluation. Its signature library works with rational numbers: a
  public key is five times the secret key, a signature the product with a number made from the
  data, and shares are combined by Lagrange interpolation at zero. Wallets are a list of the
  accounts and the instances that have them, random numbers a counter.
\<close>

section \<open>The signature library\<close>

definition horner :: "rat list \<Rightarrow> rat \<Rightarrow> rat" where
  "horner xs i = foldr (\<lambda>c acc. c + i * acc) xs 0"

lemma horner_simps [simp]: "horner [] i = 0" "horner (x # xs) i = x + i * horner xs i"
  by (simp_all add: horner_def)

definition digest :: "bytes \<Rightarrow> rat" where
  "digest data = 1 + of_nat (sum_list (map unat data))"

definition lagrange :: "rat list \<Rightarrow> rat \<Rightarrow> rat" where
  "lagrange js j = prod_list (map (\<lambda>m. m / (m - j)) (remove1 j js))"

text \<open>A rational as its sign, the numerator and the denominator in unary.\<close>

definition rat_bytes :: "rat \<Rightarrow> bytes" where
  "rat_bytes q = (case quotient_of q of (a, b) \<Rightarrow> (if a < 0 then 1 else 0) # replicate (nat \<bar>a\<bar>) 1 @ 0 # replicate (nat b) 1)"

definition bytes_rat :: "bytes \<Rightarrow> err + rat" where
  "bytes_rat bs = (case bs of [] \<Rightarrow> Inl ''no data'' | s # r \<Rightarrow>
     let a = int (length (takeWhile ((=) 1) r)); b = int (length (tl (dropWhile ((=) 1) r))) in
     Inr (Fract (if s = 1 then - a else a) b))"

definition sample_bls :: "(rat, rat, rat, rat) bls_lib" where
  "sample_bls = \<lparr>sk_zero = 0, sk_Add = (+), sk_Set = (\<lambda>xs i. if xs = [] then Inl ''no coefficients'' else Inr (horner xs i)),
     GetPublicKey = (\<lambda>x. 5 * x), pk_zero = 0, pk_Add = (+),
     pk_Set = (\<lambda>xs i. if xs = [] then Inl ''no coefficients'' else Inr (horner xs i)), pk_IsEqual = (=),
     SetLittleEndian = (\<lambda>bs. Inr (of_nat (unat (Uint64 bs)))), SignByte = (\<lambda>x data. x * digest data),
     sig_Recover = (\<lambda>sgs js. if distinct js \<and> length sgs = length js then Inr (sum_list (map2 (\<lambda>s j. s * lagrange js j) sgs js)) else Inl ''invalid''),
     VerifyByte = (\<lambda>s k data. 5 * s = k * digest data),
     sk_Serialize = rat_bytes, sk_Deserialize = bytes_rat, pk_Serialize = rat_bytes, pk_Deserialize = bytes_rat,
     sig_Serialize = rat_bytes, sig_Deserialize = bytes_rat\<rparr>"

lemma bytes_rat_bytes: "bytes_rat (rat_bytes q) = Inr q"
proof -
  obtain a b where q: "quotient_of q = (a, b)" by force
  then have b: "0 < b" "q = Fract a b" using quotient_of_denom_pos quotient_of_div [OF q] by (auto simp: Fract_of_int_quotient)
  have t: "takeWhile ((=) 1) (replicate n (1 :: byte) @ 0 # r) = replicate n 1" "dropWhile ((=) 1) (replicate n (1 :: byte) @ 0 # r) = 0 # r" for n r
    by (induction n) simp_all
  have "rat_bytes q = (if a < 0 then 1 else 0) # replicate (nat \<bar>a\<bar>) 1 @ 0 # replicate (nat b) 1" by (simp add: rat_bytes_def q)
  then have "bytes_rat (rat_bytes q) = Inr (Fract a b)" using b(1) by (simp add: bytes_rat_def t Let_def)
  with b(2) show ?thesis by simp
qed

lemma horner_scale: "horner (map (\<lambda>x. c * x) xs) i = c * horner xs i"
  by (induction xs) (simp_all add: algebra_simps)

lemma horner_zero: "horner (replicate n 0) i = 0"
  by (induction n) simp_all

lemma horner_add: "horner (poly_add (+) xs ys) i = horner xs i + horner ys i"
  by (induction "(+) :: rat \<Rightarrow> _" xs ys rule: poly_add.induct) (simp_all add: algebra_simps)

lemma poly_add_Nil_iff: "poly_add f xs ys = [] \<longleftrightarrow> xs = [] \<and> ys = []"
  by (induction f xs ys rule: poly_add.induct) auto

interpretation sample_bls: bls_laws sample_bls
  by unfold_locales
    (auto simp: sample_bls_def horner_scale horner_zero horner_add poly_add_Nil_iff distrib_left add.assoc intro: add.commute split: if_splits)

lemma sample_bls_parts:
  "sk_Set sample_bls xs i = (if xs = [] then Inl ''no coefficients'' else Inr (horner xs i))" "sk_Add sample_bls = (+)" "sk_zero sample_bls = 0"
  "sk_Deserialize sample_bls = bytes_rat" "pk_Deserialize sample_bls = bytes_rat" "sig_Deserialize sample_bls = bytes_rat"
  "sk_Serialize sample_bls = rat_bytes" "pk_Serialize sample_bls = rat_bytes" "sig_Serialize sample_bls = rat_bytes"
  "VerifyByte sample_bls (SignByte sample_bls x data) (GetPublicKey sample_bls x) data"
  by (simp_all add: sample_bls_def)

lemma rat_bytes_ne: "rat_bytes q \<noteq> []"
  by (simp add: rat_bytes_def split: prod.split)

lemma sample_BLSID: "BLSID sample_bls n = Ret (of_nat (unat n))"
  by (simp add: BLSID_def sample_bls_def)

lemma sample_ident: "ident sample_bls n = of_nat (unat n)"
  by (simp add: ident_def sample_BLSID)

text \<open>Interpolation through up to three of the points 1, 2 and 3.\<close>

lemma few_points:
  assumes "js \<noteq> []" and "distinct js" and "set js \<subseteq> {1, 2, 3 :: rat}"
  shows "js \<in> {[1], [2], [3], [1, 2], [2, 1], [1, 3], [3, 1], [2, 3], [3, 2], [1, 2, 3], [1, 3, 2], [2, 1, 3], [2, 3, 1], [3, 1, 2], [3, 2, 1]}"
proof -
  have "length js \<le> 3" using assms(2,3) card_mono [of "{1, 2, 3 :: rat}" "set js"] distinct_card [OF assms(2)] by simp
  then consider a where "js = [a]" | a b where "js = [a, b]" | a b c where "js = [a, b, c]"
    using assms(1) by (cases js; cases "tl js"; cases "tl (tl js)"; cases "tl (tl (tl js))") auto
  then show ?thesis using assms(2,3) by cases auto
qed

lemma sample_recover:
  assumes "xs \<noteq> []" and "length js = length xs" and "distinct js" and "set js \<subseteq> {1, 2, 3 :: rat}"
  shows "sig_Recover sample_bls (map (\<lambda>j. SignByte sample_bls (horner xs j) data) js) js = Inr (SignByte sample_bls (hd xs) data)"
proof -
  have sum: "sum_list (map2 (\<lambda>s j. s * lagrange js j) (map (\<lambda>j. horner xs j * digest data) js) js) =
      (\<Sum>j \<leftarrow> js. horner xs j * lagrange js j) * digest data"
    by (simp add: zip_map1 zip_same_conv_map comp_def mult.assoc mult.commute [of _ "digest data"] mult.left_commute [of _ "digest data"] sum_list_const_mult)
  have "js \<noteq> []" using assms(1,2) by auto
  have "(\<Sum>j \<leftarrow> js. horner xs j * lagrange js j) = hd xs"
    using few_points [OF \<open>js \<noteq> []\<close> assms(3,4)] assms(2)
    by (cases xs; cases "tl xs"; cases "tl (tl xs)") (auto simp: lagrange_def field_simps)
  with sum assms show ?thesis by (simp add: sample_bls_def)
qed

section \<open>The instances\<close>

definition sample_peers :: peers where
  "sample_peers = [(1, \<lparr>ep_ID = 1, ep_Name = ''server1'', ep_Port = 8881\<rparr>), (2, \<lparr>ep_ID = 2, ep_Name = ''server2'', ep_Port = 8882\<rparr>),
     (3, \<lparr>ep_ID = 3, ep_Name = ''server3'', ep_Port = 8883\<rparr>)]"

type_synonym sample_env = "(rat, rat, nat \<times> ((string \<times> string) \<times> u64) list) cluster"

definition sample_names :: "string \<Rightarrow> string \<times> string" where
  "sample_names account = (takeWhile (\<lambda>c. c \<noteq> CHR ''/'') account, drop 1 (dropWhile (\<lambda>c. c \<noteq> CHR ''/'') account))"

definition sample_stored :: "string \<Rightarrow> nat \<times> ((string \<times> string) \<times> u64) list \<Rightarrow> u64 set" where
  "sample_stored account w = {i. (sample_names account, i) \<in> set (snd w)}"

definition sample_key_store :: "u64 \<Rightarrow> (sample_env, string, string) key_store" where
  "sample_key_store i = \<lparr>ks_Names = (\<lambda>account. if account = [] then Inl ''invalid account format'' else Inr (sample_names account)),
     ks_OpenWallet = (\<lambda>wn. go_return (if wn = ''Wallet'' then Inr wn else Inl ''wallet not found'')),
     ks_OpenDistributed = (\<lambda>wn. go_return (if wn = ''Wallet'' then Inr wn else Inl ''wallet not found'')), ks_wal_Type = (\<lambda>_. ''distributed''), ks_wal_is_locker = (\<lambda>_. True),
     ks_wal_Unlock = (\<lambda>_ _. go_return None), ks_wal_Lock = (\<lambda>_. go_return None), ks_UnlockWallet = (\<lambda>_. go_return (Inr True)),
     ks_wal_is_by_name = (\<lambda>_. True),
     ks_AccountByName = (\<lambda>wn an (G, n, l). (Ret (if ((wn, an), i) \<in> set l then Inr an else Inl ''no account''), (G, n, l))),
     ks_wal_is_creator = (\<lambda>_. False), ks_CreateAccount = (\<lambda>_ _ _. go_return (Inl ''not supported'')), ks_wal_is_importer = (\<lambda>_. True),
     ks_ImportDistributedAccount = (\<lambda>wn an key _ _ _ _ (G, n, l). if ((wn, an), i) \<in> set l then (Ret (Inl ''account exists''), (G, n, l))
        else if isl (bytes_rat key) then (Ret (Inl ''invalid key''), (G, n, l))
        else (Ret (Inr an), (G, n, ((wn, an), i) # l))),
     ks_AddAccount = (\<lambda>_ _. go_return None), ks_acc_PublicKey = (\<lambda>_. [])\<rparr>"

definition sample_process :: "u64 \<Rightarrow> (sample_env, rat, rat, rat, rat, string, string) process" where
  "sample_process i = \<lparr>ps_bls = sample_bls, ps_id = i, ps_generationPassphrase = [1], ps_generationTimeout = 60, ps_Now = (\<lambda>_. 0),
     ps_CSPRNG = (\<lambda>(G, n, l). (Ret (of_nat (Suc n)), (G, Suc n, l))), ps_randRead = (\<lambda>n. go_return (Inr (replicate n 7))),
     ps_Check = (\<lambda>_ _ _. True), ps_Peer = Peer sample_peers, ps_Suitable = Suitable sample_runtime sample_peers,
     ps_Prepare = (\<lambda>_ _ _ _ _. go_return (Some ''not connected'')), ps_Execute = (\<lambda>_ _. go_return (Some ''not connected'')),
     ps_Commit = (\<lambda>_ _ _. go_return (Inl ''not connected'')), ps_SendContribution = (\<lambda>_ _ _ _. go_return (Inl ''not connected'')),
     ps_store = sample_key_store i\<rparr>"

definition sample_cluster :: "u64 \<Rightarrow> (sample_env, rat, rat, rat, rat, string, string) process" where
  "sample_cluster = wire sample_process sample_peers sample_runtime"

lemma sample_cluster_parts [simp]:
  "ps_bls (sample_cluster i) = sample_bls" "ps_id (sample_cluster i) = i" "ps_generationPassphrase (sample_cluster i) = [1]"
  "ps_generationTimeout (sample_cluster i) = 60" "ps_Now (sample_cluster i) e = 0" "ps_Peer (sample_cluster i) = Peer sample_peers"
  "ps_CSPRNG (sample_cluster i) = (\<lambda>(G, n, l). (Ret (of_nat (Suc n)), (G, Suc n, l)))"
  "ps_randRead (sample_cluster i) k = go_return (Inr (replicate k 7))" "ps_store (sample_cluster i) = sample_key_store i"
  "ps_Suitable (sample_cluster i) = Suitable sample_runtime sample_peers" "ps_Check (sample_cluster i) = (\<lambda>_ _ _. True)"
  by (simp_all add: sample_cluster_def wire_def wire_requests_def wire_contributions_def sample_process_def)

lemma sample_peers_facts:
  "peers_ok sample_peers" "0 \<notin> fst ` set sample_peers" "distinct (map (ConnectAddress \<circ> snd) sample_peers)" "fst ` set sample_peers = {1, 2, 3}"
  by (simp_all add: sample_peers_def peers_ok_def ConnectAddress_def JoinHostPort_def)

lemma sample_points: "ident sample_bls ` fst ` set sample_peers = {1, 2, 3}" "inj_on (ident sample_bls) (fst ` set sample_peers)"
  by (simp_all add: sample_peers_facts(4) sample_ident inj_on_def)

lemmas sample_wired = wired [of sample_process sample_peers sample_runtime, folded sample_cluster_def]

lemma sample_store_laws:
  "ks_Names (sample_key_store i) ''Wallet/New'' = Inr (''Wallet'', ''New'')"
  "ks_OpenDistributed (sample_key_store i) ''Wallet'' (G, w) = (Ret (Inr ''Wallet''), (G, w))"
  "ks_wal_Unlock (sample_key_store i) wal pass (G, w) = (Ret None, (G, w))" "ks_wal_Lock (sample_key_store i) wal (G, w) = (Ret None, (G, w))"
  "ks_wal_is_importer (sample_key_store i) wal" "ks_wal_is_by_name (sample_key_store i) wal"
  "ks_AddAccount (sample_key_store i) wal acc (G, w) = (Ret None, (G, w))"
  "i \<notin> sample_stored ''Wallet/New'' w \<Longrightarrow>
     ks_ImportDistributedAccount (sample_key_store i) ''Wallet'' ''New'' (rat_bytes sk) t vv members pass (G, w) =
       (Ret (Inr ''New''), (G, fst w, ((''Wallet'', ''New''), i) # snd w))"
  "i \<in> sample_stored ''Wallet/New'' w \<Longrightarrow> ks_AccountByName (sample_key_store i) ''Wallet'' ''New'' (G, w) = (Ret (Inr ''New''), (G, w))"
  "sample_stored account (n', snd w) = sample_stored account w" "sample_stored account (Suc n, l) = sample_stored account (n, l)"
  "sample_stored ''Wallet/New'' (n', ((''Wallet'', ''New''), i) # l) = insert i (sample_stored ''Wallet/New'' (n', l))"
  by (cases w; auto simp: sample_key_store_def go_simps sample_stored_def sample_names_def bytes_rat_bytes)+

interpretation sample_cluster: storing_cluster sample_bls sample_cluster sample_peers sample_runtime sample_stored
    "''Wallet/New''" "''Wallet''" "''New''" "\<lambda>_ wn. wn = ''Wallet''" "\<lambda>_ _ _. True"
  by unfold_locales
    (auto simp: sample_peers_facts(1-3) sample_points sample_runtime_fair sample_BLSID sample_recover sample_bls_parts bytes_rat_bytes rat_bytes_ne
      sample_wired sample_store_laws horner_zero horner_add poly_add_Nil_iff add.commute add.left_commute sample_process_def go_simps
      split: if_splits prod.splits)

end
