(* ===== verification/Spec_Generation.thy ===== *)
theory Spec_Generation
  imports Samples_Cluster Locker_Threads
begin

text \<open>
  The properties of key generation, of the messages between instances and of goroutines that take
  locks at the same time, each with a concrete instance.
\<close>

section \<open>Generation in a cluster\<close>

definition sample_start :: sample_env where
  "sample_start = (\<lambda>_ _. None, 0, [])"

text \<open>
  C32. In a cluster whose instances run the program, with clocks that stay within the timeout and a
  wallet at every instance that can be opened and takes the account that is asked for, a distributed
  generation of this account succeeds: prepare, execute and commit go through at every
  participant, the confirming signatures of every window verify, and afterwards every participant
  has the account in its wallet. The participants are as many different peers as were asked for.
\<close>

theorem cluster_generation_completes:
  assumes "storing_cluster B N ps rt stored account wn an opened unlocked" and "c0 \<in> fst ` set ps"
    and "ks_wal_Type (ps_store (N c0)) wallet = ''distributed''" and "0 < t" and "t \<le> n" and "unat n \<le> length ps"
    and "\<forall>i \<in> fst ` set ps. fst c i account = None" and "stored account (snd c) \<inter> fst ` set ps = {}"
  shows "\<exists>pubKey qs c'. generateDistributed (N c0) rt wallet account passphrase t n c = (Ret (Inr (pubKey, qs)), c') \<and>
    length qs = unat n \<and> distinct (map ep_ID qs) \<and> set qs \<subseteq> snd ` set ps \<and> ep_ID ` set qs \<subseteq> stored account (snd c')"
  by (rule storing_cluster.generation_completes [OF assms])

lemma sample_start_facts:
  "(1 :: u64) \<in> fst ` set sample_peers" "ks_wal_Type (ps_store (sample_cluster 1)) ''Wallet'' = ''distributed''" "unat (3 :: u32) \<le> length sample_peers"
  "\<forall>i \<in> fst ` set sample_peers. fst sample_start i ''Wallet/New'' = None" "sample_stored ''Wallet/New'' (snd sample_start) \<inter> fst ` set sample_peers = {}"
  by (simp_all add: sample_peers_def sample_key_store_def sample_start_def sample_stored_def)

theorem cluster_generation_completes_witness:
  "\<exists>pubKey qs c'. generateDistributed (sample_cluster 1) sample_runtime ''Wallet'' ''Wallet/New'' None 2 3 sample_start = (Ret (Inr (pubKey, qs)), c') \<and>
     length qs = 3 \<and> ep_ID ` set qs \<subseteq> sample_stored ''Wallet/New'' (snd c')"
proof -
  have b: "(0 :: u32) < 2" "(2 :: u32) \<le> 3" "unat (3 :: u32) = 3" by simp_all
  from cluster_generation_completes [OF sample_cluster.storing_cluster_axioms sample_start_facts(1,2) b(1,2) sample_start_facts(3-5), of None] b(3)
  show ?thesis by metis
qed

text \<open>
  C33. A generation that succeeds was within bounds and permitted: there are participants, the
  threshold does not exceed their number and is more than half of it, so that two groups that can
  sign have a member in common, and the client may create the account. Every participant of a
  distributed generation has committed to the key that is returned, and the signatures of any
  threshold of participants in a row give a signature that verifies with it.
\<close>

theorem generation_confirmed:
  assumes "fair_runtime rt" and "OnGenerate P rt creds account passphrase t n e = (Ret (Inr (pubKey, participants)), e')"
  shows "0 < n \<and> t \<le> n \<and> unat n < 2 * unat t \<and> ps_Check P creds account ActionCreateAccount \<and>
    (n \<noteq> 1 \<longrightarrow> ps_Suitable P n = Ret (Inr participants) \<and> confirmed P account t pubKey participants)"
  using OnGenerate_allowed [OF assms(2)] quorum generateDistributed_confirmed [OF assms(1)] by metis

lemma sample_generation:
  "\<exists>x c'. OnGenerate (sample_cluster 1) sample_runtime (Some sample_creds) ''Wallet/New'' None 2 3 sample_start = (Ret (Inr x), c')"
proof -
  have b: "(0 :: u32) < 2" "(2 :: u32) \<le> 3" by simp_all
  from sample_cluster.generation_completes [OF sample_start_facts(1,2) b sample_start_facts(3-5), of None]
  obtain k qs c' where "generateDistributed (sample_cluster 1) sample_runtime ''Wallet'' ''Wallet/New'' None 2 3 sample_start = (Ret (Inr (k, qs)), c')" by blast
  moreover have "sample_names ''Wallet/New'' = (''Wallet'', ''New'')" by code_simp
  moreover have "\<not> (2 :: u32) \<le> 3 div 2" by code_simp
  ultimately show ?thesis
    by (simp add: OnGenerate_def process_checkAccess_def sample_key_store_def go_bind_def go_simps del: split_paired_Ex) (simp add: sample_start_def del: split_paired_Ex)
qed

theorem generation_confirmed_witness:
  "\<exists>pubKey qs c' pk. OnGenerate (sample_cluster 1) sample_runtime (Some sample_creds) ''Wallet/New'' None 2 3 sample_start = (Ret (Inr (pubKey, qs)), c') \<and>
     pk_Deserialize sample_bls pubKey = Inr pk"
proof -
  obtain k qs c' where g: "OnGenerate (sample_cluster 1) sample_runtime (Some sample_creds) ''Wallet/New'' None 2 3 sample_start = (Ret (Inr (k, qs)), c')"
    using sample_generation by auto
  from generation_confirmed [OF sample_runtime_fair g] have "\<exists>pk. pk_Deserialize sample_bls k = Inr pk" by (auto simp: confirmed_def)
  with g show ?thesis by blast
qed

section \<open>One instance\<close>

text \<open>
  C34. Whatever requests an instance has served before, from honest or dishonest peers, when it
  commits a generation in which it takes part, the share it imports into its wallet fits the
  verification vector it imports with it: evaluating the vector at its own identifier gives the
  public key of the share. The key it reports is the first entry of that vector, and the
  confirmation is signed with the share. The generation is then gone.
\<close>

theorem committed_share_fits:
  assumes "bls_laws B" and "ps_bls P = B" and "fair_runtime rt" and "nd_generations s0 = Map.empty" and "(serves P rt)\<^sup>*\<^sup>* s0 s"
    and "nd_generations s account = Some g" and "ps_id P \<in> ep_ID ` set (g_participants g)"
    and "OnCommit P rt sender account data s = (Ret (Inr (pk, sg)), s')"
  shows "\<exists>sk agg i. BLSID B (ps_id P) = Ret i \<and> length agg = unat (g_threshold g) \<and> pk_Set B agg i = Inr (GetPublicKey B sk) \<and>
    pk = pk_Serialize B (hd agg) \<and> sg = sig_Serialize B (SignByte B sk data) \<and> nd_generations s' account = None \<and>
    (\<exists>w n passphrase e1 acc e2. ks_ImportDistributedAccount (ps_store P) w n (sk_Serialize B sk) (g_threshold g)
       (map (pk_Serialize B) agg) (walletParticipants (g_participants g)) passphrase e1 = (Ret (Inr acc), e2))"
  by (rule bls_laws.OnCommit_share [OF assms(1-3) bls_laws.reachable_ok [OF assms(1-3,5,4)] assms(6-8)])

text \<open>The instance 1 prepares a generation in which it is the only participant, with threshold 1.\<close>

definition sample_node :: "(rat, rat, sample_env) node" where
  "sample_node = \<lparr>nd_generations = (\<lambda>_. None), nd_env = sample_start\<rparr>"

definition sample_prepared :: "u32 \<Rightarrow> endpoint list \<Rightarrow> (rat, rat, sample_env) node" where
  "sample_prepared t qs = snd (OnPrepare (sample_process 1) sample_runtime 1 ''Wallet/New'' None t qs sample_node)"

lemma sample_prepared_alone:
  "sample_prepared 1 [snd (sample_peers ! 0)] = \<lparr>nd_generations = [''Wallet/New'' \<mapsto>
     \<lparr>g_processStarted = 0, g_id = 1, g_account = ''Wallet/New'', g_passphrase = None, g_threshold = 1, g_participants = [snd (sample_peers ! 0)],
      g_distributionSecrets = [(1, 1)], g_sharedSecrets = [(1, 1)], g_sharedVVecs = [(1, [5])]\<rparr>], nd_env = (\<lambda>_ _. None, 1, [])\<rparr>"
  by (simp add: sample_prepared_def OnPrepare_def sample_node_def sample_start_def sample_process_def getGeneration_def contribution_def
      put_generation_def on_env_def go_zoom_def go_bind_def go_simps Let_def sample_peers_def BLSID_def sample_bls_def map_range_def map_get_def sample_runtime_def)

lemma sample_commit:
  "\<exists>s'. OnCommit (sample_process 1) sample_runtime 1 ''Wallet/New'' [7] (sample_prepared 1 [snd (sample_peers ! 0)]) =
     (Ret (Inr (rat_bytes 5, rat_bytes 8)), s')"
  by (simp add: sample_prepared_alone OnCommit_def sample_process_def getGeneration_def contributions_missing_def storeDistributedKey_def
      retrieve_account_def deferred_lock_def import_account_def sample_key_store_def sample_names_def put_generation_def del_generation_def
      on_env_def go_zoom_def go_bind_def go_simps Let_def sample_bls_def bytes_rat_bytes digest_def map_range_def map_get_def sample_runtime_def)

theorem committed_share_fits_witness:
  "\<exists>sk agg i. BLSID sample_bls 1 = Ret i \<and> length agg = 1 \<and> pk_Set sample_bls agg i = Inr (GetPublicKey sample_bls sk) \<and>
     rat_bytes 5 = pk_Serialize sample_bls (hd agg)"
proof -
  obtain s' where c: "OnCommit (sample_process 1) sample_runtime 1 ''Wallet/New'' [7] (sample_prepared 1 [snd (sample_peers ! 0)]) =
      (Ret (Inr (rat_bytes 5, rat_bytes 8)), s')" using sample_commit by blast
  have p: "ps_bls (sample_process 1) = sample_bls" "ps_id (sample_process 1) = 1" by (simp_all add: sample_process_def)
  have r: "(serves (sample_process 1) sample_runtime)\<^sup>*\<^sup>* sample_node (sample_prepared 1 [snd (sample_peers ! 0)])"
    unfolding sample_prepared_def by (rule r_into_rtranclp) (rule serves.prepare [OF prod.collapse [symmetric]])
  obtain g where g: "nd_generations (sample_prepared 1 [snd (sample_peers ! 0)]) ''Wallet/New'' = Some g" "g_threshold g = 1"
      "g_participants g = [snd (sample_peers ! 0)]" by (simp add: sample_prepared_alone)
  have e: "nd_generations sample_node = Map.empty" and own: "ps_id (sample_process 1) \<in> ep_ID ` set (g_participants g)"
    by (simp_all add: sample_node_def p(2) g(3) sample_peers_def)
  from committed_share_fits [OF sample_bls.bls_laws_axioms p(1) sample_runtime_fair e r g(1) own c] show ?thesis
    unfolding p(2) g(2) by (metis unat_1)
qed

section \<open>Messages\<close>

text \<open>
  C35. The receiver serves the configured peers and nobody else: a caller is taken for the peer of
  identifier \<open>n\<close> exactly when its certificate carries the name that is configured for \<open>n\<close>, and a
  caller whose certificate carries no such name is refused by every handler, with no effect.
\<close>

theorem receiver_serves_peers:
  assumes "peers_New rt config = Inr ps" and "fair_runtime rt" and "distinct (map fst config)" and "0 \<notin> fst ` set config"
  shows "(\<forall>n. n \<noteq> 0 \<longrightarrow> (senderID rt ps client = n \<longleftrightarrow> (\<exists>p. (n, p) \<in> set ps \<and> client = Some (ep_Name p)))) \<and>
    fst ` set ps = fst ` set config \<and>
    (senderID rt ps client = 0 \<longrightarrow> rc_Prepare P ps rt client req s = (Ret (Some ''unknown sender''), s) \<and>
       rc_Execute P ps rt client account s = (Ret (Some ''unknown sender''), s) \<and>
       rc_Commit P ps rt client account data s = (Ret (Inl ''unknown sender''), s) \<and>
       rc_Abort P ps rt client account s = (Ret (Some ''unknown sender''), s) \<and>
       rc_Contribute P ps rt client creq s = (Ret (Inl ''unknown sender''), s))"
proof (intro conjI allI impI)
  note ok = peers_New_ok [OF assms(1-3)]
  from ok(2) show "fst ` set ps = fst ` set config" .
  show "senderID rt ps client = n \<longleftrightarrow> (\<exists>p. (n, p) \<in> set ps \<and> client = Some (ep_Name p))" if "n \<noteq> 0" for n
    using senderID_known [OF assms(2) _ that] senderID_named [OF assms(2) ok(1)] by blast
qed (simp_all add: unknown_sender_refused go_simps)

theorem receiver_serves_peers_witness:
  "\<exists>ps. peers_New sample_runtime [(1, ''server1:8881''), (2, ''server2:8882'')] = Inr ps \<and> senderID sample_runtime ps (Some ''server2'') = 2 \<and>
     rc_Execute (sample_process 1) ps sample_runtime (Some ''intruder'') ''Wallet/New'' sample_node = (Ret (Some ''unknown sender''), sample_node)"
proof -
  let ?ps = "[(2, \<lparr>ep_ID = 2, ep_Name = ''server2'', ep_Port = 8882\<rparr>), (1, \<lparr>ep_ID = 1, ep_Name = ''server1'', ep_Port = 8881\<rparr>)]"
  have n: "peers_New sample_runtime [(1, ''server1:8881''), (2, ''server2:8882'')] = Inr ?ps" by code_simp
  have "distinct (map fst [(1 :: u64, ''server1:8881''), (2, ''server2:8882'')])" "0 \<notin> fst ` set [(1 :: u64, ''server1:8881''), (2, ''server2:8882'')]"
    by simp_all
  note rs = receiver_serves_peers [OF n sample_runtime_fair this]
  have "senderID sample_runtime ?ps (Some ''server2'') = 2"
    using rs [of "Some ''server2''", THEN conjunct1, THEN spec, of 2] by simp
  moreover have "senderID sample_runtime ?ps (Some ''intruder'') = 0" by code_simp
  with rs [of "Some ''intruder''" "sample_process 1" _ sample_node, THEN conjunct2, THEN conjunct2] have
    "rc_Execute (sample_process 1) ?ps sample_runtime (Some ''intruder'') ''Wallet/New'' sample_node = (Ret (Some ''unknown sender''), sample_node)" by blast
  ultimately show ?thesis using n by blast
qed




section \<open>Locks\<close>

text \<open>
  C37. Goroutines that lock their keys, run their rules and free the keys, all at the same time and
  interleaved in any way: no two of them ever hold the same key, each takes a bounded number of
  steps, and as long as one has not ended, some goroutine can go on, so that there is no deadlock.
  When all have ended, no key is held.
\<close>

theorem concurrent_callers_end:
  assumes "\<forall>ks \<in> set kss. distinct ks" and "(system_step ^^ n) (starting kss) (l, ts)"
  shows "(\<forall>i < length ts. \<forall>j < length ts. i \<noteq> j \<longrightarrow> holds (ts ! i) \<inter> holds (ts ! j) = {}) \<and>
    n \<le> (\<Sum>ks \<leftarrow> kss. 2 * length ks + 3) \<and>
    (if \<forall>t \<in> set ts. finished t then held_keys l = {} \<and> \<not> mapLock l else \<exists>s'. system_step (l, ts) s')"
proof -
  have st: "system_ok (starting kss)" by (rule starting_ok [OF assms(1)])
  have ok: "system_ok (l, ts)" using run_ok [OF relpowp_imp_rtranclp [OF assms(2)] st] by blast
  have "n + sum_list (map steps_left ts) = (\<Sum>ks \<leftarrow> kss. 2 * length ks + 3)"
    using run_length [OF assms(2) st] by (simp add: starting_def comp_def)
  then have n: "n \<le> (\<Sum>ks \<leftarrow> kss. 2 * length ks + 3)" by linarith
  have "held_keys l = {} \<and> \<not> mapLock l" if "\<forall>t \<in> set ts. finished t"
  proof -
    from that have f: "holds (ts ! i) = {} \<and> \<not> in_locking (ts ! i)" if "i < length ts" for i
      using that by (cases "ts ! i") (auto simp: finished_def dest!: nth_mem)
    with ok show ?thesis by (auto simp: system_ok_def)
  qed
  moreover have "\<exists>s'. system_step (l, ts) s'" if "\<not> (\<forall>t \<in> set ts. finished t)"
    using that system_progress [OF ok] by (auto simp: in_set_conv_nth)
  ultimately show ?thesis using n ok by (simp add: system_ok_def)
qed

theorem concurrent_callers_end_witness:
  "\<exists>s'. system_step (starting [[[1], [2]], [[2], [1]]]) s'"
proof -
  have "(system_step ^^ 0) (starting [[[1], [2]], [[2], [1]]]) (new_locker, [([[1], [2]], Start), ([[2], [1]], Start)])" by (simp add: starting_def)
  from concurrent_callers_end [OF _ this] show ?thesis by (simp add: starting_def finished_def)
qed

text \<open>
  The participants of a generation are different peers, as many as are asked for, when there
  are that many; otherwise the request is refused.
\<close>

lemma participants_chosen:
  assumes "peers_New rt config = Inr ps" and "fair_runtime rt" and "distinct (map fst config)" and "0 < threshold"
  shows "if unat threshold \<le> length ps
    then \<exists>res. Suitable rt ps threshold = Ret (Inr res) \<and> length res = unat threshold \<and> distinct (map ep_ID res) \<and> set res \<subseteq> snd ` set ps
    else Suitable rt ps threshold = Ret (Inl ''not enough suitable peers'')"
  by (rule Suitable_result [OF assms(2) peers_New_ok(1) [OF assms(1-3)] assms(4)])

end
