(* ===== verification/API.thy ===== *)
theory API
  imports Signer Managers Lister Generator
begin

text \<open>
  The gRPC interface (\<open>services/api/grpc/handlers\<close> and \<open>services/api/grpc/interceptors\<close>): the
  interceptors that put the caller into the context, and the handlers that check a message, call a
  service and put its result into an answer. A message is a record of what its generated getters
  return; a nil message is \<open>None\<close>. The receiver of the messages between instances is in
  \<open>Messages\<close>.
\<close>

section \<open>The context of a call\<close>

text \<open>
  What the gRPC library knows of the connection: the address, when it is that of a TCP connection,
  and the TLS state, with the common names of the certificates of the client.
\<close>

record grpc_peer =
  gp_TCPAddr :: "string option"
  gp_TLSInfo :: "(bool \<times> string list) option"

record grpc_context =
  cx_Peer :: "grpc_peer option"
  cx_RequestID :: "string option"
  cx_ClientName :: "string option"
  cx_ExternalIP :: "string option"

definition GenerateCredentials :: "grpc_context \<Rightarrow> credentials" where
  "GenerateCredentials ctx = \<lparr>
     cr_RequestID = (case cx_RequestID ctx of Some requestID \<Rightarrow> requestID | None \<Rightarrow> []),
     cr_Client = (case cx_ClientName ctx of Some client \<Rightarrow> client | None \<Rightarrow> []),
     cr_IP = (case cx_ExternalIP ctx of Some ip \<Rightarrow> ip | None \<Rightarrow> [])\<rparr>"

text \<open>\<open>fmt.Sprintf("%02x", n)\<close>.\<close>

fun hex_nat :: "nat \<Rightarrow> string" where
  "hex_nat n = (if n < 16 then [hex_digit n] else hex_nat (n div 16) @ [hex_digit (n mod 16)])"

declare hex_nat.simps [simp del]

definition sprint_02x :: "nat \<Rightarrow> string" where
  "sprint_02x n = (if n < 16 then CHR ''0'' # hex_nat n else hex_nat n)"

definition status_failure :: err where
  "status_failure = ''rpc error: code = Internal desc = Failure''"

definition bad_assertion :: string where
  "bad_assertion = ''interface conversion''"

text \<open>\<open>n\<close> is the value of \<open>rand.Int31()\<close>.\<close>

definition RequestIDInterceptor :: "nat \<Rightarrow> (grpc_context \<Rightarrow> ('s, err + 'r) op) \<Rightarrow> grpc_context \<Rightarrow> ('s, err + 'r) op" where
  "RequestIDInterceptor n handler ctx = handler (ctx\<lparr>cx_RequestID := Some (sprint_02x n)\<rparr>)"

definition SourceIPInterceptor :: "(grpc_context \<Rightarrow> ('s, err + 'r) op) \<Rightarrow> grpc_context \<Rightarrow> ('s, err + 'r) op" where
  "SourceIPInterceptor handler ctx =
     (case cx_Peer ctx of
        None \<Rightarrow> go_return (Inl status_failure)
      | Some peer \<Rightarrow>
          (case gp_TCPAddr peer of
             None \<Rightarrow> go_return (Inl status_failure)
           | Some ip \<Rightarrow> handler (ctx\<lparr>cx_ExternalIP := Some ip\<rparr>)))"

definition ClientInfoInterceptor :: "(grpc_context \<Rightarrow> ('s, err + 'r) op) \<Rightarrow> grpc_context \<Rightarrow> ('s, err + 'r) op" where
  "ClientInfoInterceptor handler ctx =
     (case cx_Peer ctx of
        None \<Rightarrow> go_return (Inl status_failure)
      | Some peer \<Rightarrow>
          (case gp_TLSInfo peer of
             None \<Rightarrow> go_panic bad_assertion
           | Some (handshakeComplete, peerCerts) \<Rightarrow>
               handler (if handshakeComplete \<and> 0 < length peerCerts
                        then ctx\<lparr>cx_ClientName := Some (hd peerCerts)\<rparr> else ctx)))"

text \<open>The chain of interceptors of the server, around a handler.\<close>

definition intercepted :: "nat \<Rightarrow> (grpc_context \<Rightarrow> ('s, err + 'r) op) \<Rightarrow> grpc_context \<Rightarrow> ('s, err + 'r) op" where
  "intercepted n handler = RequestIDInterceptor n (SourceIPInterceptor (ClientInfoInterceptor handler))"

section \<open>Answers\<close>

datatype response_state = STATE_UNKNOWN | STATE_SUCCEEDED | STATE_DENIED | STATE_FAILED

record sign_response =
  rs_State :: response_state
  rs_Signature :: "bytes option"

fun result_state :: "core_result \<Rightarrow> response_state" where
  "result_state ResultSucceeded = STATE_SUCCEEDED"
| "result_state ResultDenied = STATE_DENIED"
| "result_state ResultFailed = STATE_FAILED"
| "result_state ResultUnknown = STATE_UNKNOWN"

definition answer :: "response_state \<Rightarrow> sign_response" where
  "answer st = \<lparr>rs_State = st, rs_Signature = None\<rparr>"

definition sign_answer :: "core_result \<times> bytes option \<Rightarrow> sign_response" where
  "sign_answer r = \<lparr>rs_State = result_state (fst r), rs_Signature = (if fst r = ResultSucceeded then snd r else None)\<rparr>"

text \<open>An account is named by a path or a public key.\<close>

definition id_refused :: "string \<Rightarrow> bytes option \<Rightarrow> bool" where
  "id_refused account pubKey \<longleftrightarrow>
     account = [] \<and> pubKey = None \<or> account \<noteq> [] \<and> CHR ''/'' \<notin> set account"

section \<open>Generic signing\<close>

record sign_request =
  sq_Account :: string
  sq_PublicKey :: "bytes option"
  sq_Domain :: "slice option"
  sq_Data :: "bytes option"

definition sign_data_of :: "sign_request \<Rightarrow> sign_data" where
  "sign_data_of req = \<lparr>sd_Domain = sq_Domain req, sd_Data = sq_Data req\<rparr>"

definition api_Sign ::
  "('s, 'wal, 'acc) signer \<Rightarrow> go_runtime \<Rightarrow> sign_request option \<Rightarrow> grpc_context \<Rightarrow> ('s, err + sign_response) op" where
  "api_Sign V rt req ctx =
     (case req of
        None \<Rightarrow> go_return (Inr (answer STATE_DENIED))
      | Some r \<Rightarrow>
          if id_refused (sq_Account r) (sq_PublicKey r) then go_return (Inr (answer STATE_DENIED))
          else go_bind (SignGeneric V rt (Some (GenerateCredentials ctx)) (sq_Account r) (sq_PublicKey r) (Some (sign_data_of r)))
                 (\<lambda>res. go_return (Inr (sign_answer res))))"

section \<open>Attestations\<close>

record pb_checkpoint =
  pc_Epoch :: u64
  pc_Root :: "bytes option"

record pb_attestation =
  pa_Slot :: u64
  pa_CommitteeIndex :: u64
  pa_BeaconBlockRoot :: "bytes option"
  pa_Source :: "pb_checkpoint option"
  pa_Target :: "pb_checkpoint option"

record att_request =
  aq_Account :: string
  aq_PublicKey :: "bytes option"
  aq_Domain :: "slice option"
  aq_Data :: "pb_attestation option"

text \<open>The getters of generated code read a nil message as one whose fields are not set.\<close>

definition checkpoint_of :: "pb_checkpoint option \<Rightarrow> checkpoint" where
  "checkpoint_of c = (case c of
     None \<Rightarrow> \<lparr>cp_Epoch = 0, cp_Root = None\<rparr> | Some p \<Rightarrow> \<lparr>cp_Epoch = pc_Epoch p, cp_Root = pc_Root p\<rparr>)"

definition pb_attestation_nil :: pb_attestation where
  "pb_attestation_nil = \<lparr>pa_Slot = 0, pa_CommitteeIndex = 0, pa_BeaconBlockRoot = None, pa_Source = None, pa_Target = None\<rparr>"

definition att_data_of :: "att_request \<Rightarrow> att_data" where
  "att_data_of req = (let data = (case aq_Data req of None \<Rightarrow> pb_attestation_nil | Some d \<Rightarrow> d) in \<lparr>
     ad_Domain = aq_Domain req,
     ad_Slot = pa_Slot data,
     ad_CommitteeIndex = pa_CommitteeIndex data,
     ad_BeaconBlockRoot = pa_BeaconBlockRoot data,
     ad_Source = Some (checkpoint_of (pa_Source data)),
     ad_Target = Some (checkpoint_of (pa_Target data))\<rparr>)"

definition att_data_refused :: "att_request \<Rightarrow> bool" where
  "att_data_refused req =
     (case aq_Data req of None \<Rightarrow> True | Some data \<Rightarrow> pa_Source data = None \<or> pa_Target data = None)"

definition api_SignBeaconAttestation ::
  "('s, 'wal, 'acc) signer \<Rightarrow> go_runtime \<Rightarrow> att_request option \<Rightarrow> grpc_context \<Rightarrow> ('s, err + sign_response) op" where
  "api_SignBeaconAttestation V rt req ctx =
     (case req of
        None \<Rightarrow> go_return (Inr (answer STATE_DENIED))
      | Some r \<Rightarrow>
          if id_refused (aq_Account r) (aq_PublicKey r) then go_return (Inr (answer STATE_DENIED))
          else if att_data_refused r then go_return (Inr (answer STATE_DENIED))
          else go_bind (SignBeaconAttestation V rt (Some (GenerateCredentials ctx)) (aq_Account r) (aq_PublicKey r) (Some (att_data_of r)))
                 (\<lambda>res. go_return (Inr (sign_answer res))))"

section \<open>Proposals\<close>

record pb_header =
  ph_Slot :: u64
  ph_ProposerIndex :: u64
  ph_ParentRoot :: "bytes option"
  ph_StateRoot :: "bytes option"
  ph_BodyRoot :: "bytes option"

record prop_request =
  pq_Account :: string
  pq_PublicKey :: "bytes option"
  pq_Domain :: "slice option"
  pq_Data :: "pb_header option"

definition prop_data_of :: "slice option \<Rightarrow> pb_header \<Rightarrow> prop_data" where
  "prop_data_of domain data = \<lparr>
     pd_Domain = domain,
     pd_Slot = ph_Slot data,
     pd_ProposerIndex = ph_ProposerIndex data,
     pd_ParentRoot = ph_ParentRoot data,
     pd_StateRoot = ph_StateRoot data,
     pd_BodyRoot = ph_BodyRoot data\<rparr>"

text \<open>Here the data is checked before the account.\<close>

definition api_SignBeaconProposal ::
  "('s, 'wal, 'acc) signer \<Rightarrow> go_runtime \<Rightarrow> prop_request option \<Rightarrow> grpc_context \<Rightarrow> ('s, err + sign_response) op" where
  "api_SignBeaconProposal V rt req ctx =
     (case req of
        None \<Rightarrow> go_return (Inr (answer STATE_DENIED))
      | Some r \<Rightarrow>
          (case pq_Data r of
             None \<Rightarrow> go_return (Inr (answer STATE_DENIED))
           | Some data \<Rightarrow>
               if id_refused (pq_Account r) (pq_PublicKey r) then go_return (Inr (answer STATE_DENIED))
               else go_bind (SignBeaconProposal V rt (Some (GenerateCredentials ctx)) (pq_Account r) (pq_PublicKey r)
                               (Some (prop_data_of (pq_Domain r) data)))
                      (\<lambda>res. go_return (Inr (sign_answer res)))))"

section \<open>Batches\<close>

text \<open>What is wrong with an entry of a batch; \<open>STATE_UNKNOWN\<close> when nothing is.\<close>

definition multisign_entry_state :: "sign_request option \<Rightarrow> response_state" where
  "multisign_entry_state request =
     (case request of
        None \<Rightarrow> STATE_FAILED
      | Some r \<Rightarrow>
          if id_refused (sq_Account r) (sq_PublicKey r) then STATE_DENIED
          else if sq_Data r = None then STATE_DENIED
          else if sq_Domain r = None then STATE_DENIED
          else STATE_UNKNOWN)"

definition attestations_entry_state :: "att_request option \<Rightarrow> response_state" where
  "attestations_entry_state request =
     (case request of
        None \<Rightarrow> STATE_FAILED
      | Some r \<Rightarrow>
          if id_refused (aq_Account r) (aq_PublicKey r) then STATE_DENIED
          else if att_data_refused r then STATE_DENIED
          else STATE_UNKNOWN)"

text \<open>The validation stops at the first bad entry, whose answer it sets.\<close>

definition mark_first_bad :: "('r \<Rightarrow> response_state) \<Rightarrow> 'r list \<Rightarrow> sign_response list \<Rightarrow> sign_response list" where
  "mark_first_bad entry_state requests responses =
     (case first_index (\<lambda>r. entry_state r \<noteq> STATE_UNKNOWN) requests of
        None \<Rightarrow> responses
      | Some i \<Rightarrow> responses[i := (responses ! i)\<lparr>rs_State := entry_state (requests ! i)\<rparr>])"

definition validateMultisignRequests :: "sign_request option list \<Rightarrow> sign_response list \<Rightarrow> sign_response list" where
  "validateMultisignRequests = mark_first_bad multisign_entry_state"

definition validateSignBeaconAttestationsRequests :: "att_request option list \<Rightarrow> sign_response list \<Rightarrow> sign_response list" where
  "validateSignBeaconAttestationsRequests = mark_first_bad attestations_entry_state"

text \<open>The results and signatures of the signer are written into the answers by index.\<close>

fun fill_responses ::
  "nat \<Rightarrow> core_result list \<Rightarrow> bytes option list option \<Rightarrow> sign_response list \<Rightarrow> sign_response list go" where
  "fill_responses i [] signatures responses = Ret responses"
| "fill_responses i (r # results) signatures responses =
     (if length responses \<le> i then Panic index_out_of_range
      else if r = ResultSucceeded then
        (case signatures of
           None \<Rightarrow> Panic index_out_of_range
         | Some sigs \<Rightarrow>
             if length sigs \<le> i then Panic index_out_of_range
             else fill_responses (Suc i) results signatures
                    (responses[i := (responses ! i)\<lparr>rs_State := STATE_SUCCEEDED, rs_Signature := sigs ! i\<rparr>]))
      else fill_responses (Suc i) results signatures (responses[i := (responses ! i)\<lparr>rs_State := result_state r\<rparr>]))"

definition batch_stopped :: "sign_response list \<Rightarrow> bool" where
  "batch_stopped responses \<longleftrightarrow> list_ex (\<lambda>r. rs_State r = STATE_DENIED \<or> rs_State r = STATE_FAILED) responses"

text \<open>\<open>sign\<close> is the call of the signer with the names, the keys and the data of the entries.\<close>

definition api_batch ::
  "('r option list \<Rightarrow> sign_response list \<Rightarrow> sign_response list) \<Rightarrow>
   ('r list \<Rightarrow> ('s, core_result list \<times> bytes option list option) op) \<Rightarrow> 'r option list option \<Rightarrow>
     ('s, err + sign_response list) op" where
  "api_batch validate sign req =
     (case req of
        None \<Rightarrow> go_return (Inr [answer STATE_DENIED])
      | Some requests \<Rightarrow>
          if length requests = 0 then go_return (Inr [answer STATE_DENIED])
          else
            let responses = validate requests (replicate (length requests) (answer STATE_UNKNOWN)) in
            if batch_stopped responses then go_return (Inr responses)
            else go_bind (sign (map the requests)) (\<lambda>(results, signatures).
                   go_bind (go_lift (fill_responses 0 results signatures responses)) (\<lambda>rs. go_return (Inr rs))))"

definition api_Multisign ::
  "('s, 'wal, 'acc) signer \<Rightarrow> go_runtime \<Rightarrow> sign_request option list option \<Rightarrow> grpc_context \<Rightarrow>
     ('s, err + sign_response list) op" where
  "api_Multisign V rt req ctx =
     api_batch validateMultisignRequests (\<lambda>requests.
       Multisign V rt (Some (GenerateCredentials ctx)) (map sq_Account requests) (map sq_PublicKey requests)
         (map (\<lambda>r. Some (sign_data_of r)) requests)) req"

definition api_SignBeaconAttestations ::
  "('s, 'wal, 'acc) signer \<Rightarrow> go_runtime \<Rightarrow> att_request option list option \<Rightarrow> grpc_context \<Rightarrow>
     ('s, err + sign_response list) op" where
  "api_SignBeaconAttestations V rt req ctx =
     api_batch validateSignBeaconAttestationsRequests (\<lambda>requests.
       SignBeaconAttestations V rt (Some (GenerateCredentials ctx)) (map aq_Account requests) (map aq_PublicKey requests)
         (map (\<lambda>r. Some (att_data_of r)) requests)) req"

section \<open>Accounts and wallets\<close>

definition no_request :: err where
  "no_request = ''no request specified''"

definition manager_state :: "core_result \<times> err option \<Rightarrow> response_state" where
  "manager_state r = (case snd r of Some e \<Rightarrow> STATE_FAILED | None \<Rightarrow> result_state (fst r))"

definition api_LockAccount ::
  "('s, 'wal, 'acc, 'ep) manager \<Rightarrow> go_runtime \<Rightarrow> string option \<Rightarrow> grpc_context \<Rightarrow> ('s, err + response_state) op" where
  "api_LockAccount M rt req ctx =
     (case req of
        None \<Rightarrow> go_return (Inl no_request)
      | Some account \<Rightarrow>
          go_bind (account_Lock M rt (Some (GenerateCredentials ctx)) account) (\<lambda>r. go_return (Inr (manager_state r))))"

definition api_UnlockAccount ::
  "('s, 'wal, 'acc, 'ep) manager \<Rightarrow> go_runtime \<Rightarrow> (string \<times> bytes option) option \<Rightarrow> grpc_context \<Rightarrow> ('s, err + response_state) op" where
  "api_UnlockAccount M rt req ctx =
     (case req of
        None \<Rightarrow> go_return (Inl no_request)
      | Some (account, passphrase) \<Rightarrow>
          go_bind (account_Unlock M rt (Some (GenerateCredentials ctx)) account passphrase) (\<lambda>r. go_return (Inr (manager_state r))))"

definition api_LockWallet ::
  "('s, 'wal, 'acc, 'ep) manager \<Rightarrow> go_runtime \<Rightarrow> string option \<Rightarrow> grpc_context \<Rightarrow> ('s, err + response_state) op" where
  "api_LockWallet M rt req ctx =
     (case req of
        None \<Rightarrow> go_return (Inl no_request)
      | Some wallet \<Rightarrow>
          go_bind (wallet_Lock M rt (Some (GenerateCredentials ctx)) wallet) (\<lambda>r. go_return (Inr (manager_state r))))"

definition api_UnlockWallet ::
  "('s, 'wal, 'acc, 'ep) manager \<Rightarrow> go_runtime \<Rightarrow> (string \<times> bytes option) option \<Rightarrow> grpc_context \<Rightarrow> ('s, err + response_state) op" where
  "api_UnlockWallet M rt req ctx =
     (case req of
        None \<Rightarrow> go_return (Inl no_request)
      | Some (wallet, passphrase) \<Rightarrow>
          go_bind (wallet_Unlock M rt (Some (GenerateCredentials ctx)) wallet passphrase) (\<lambda>r. go_return (Inr (manager_state r))))"

record generate_request =
  gq_Account :: string
  gq_Passphrase :: "bytes option"
  gq_SigningThreshold :: u32
  gq_Participants :: u32

record generate_response =
  gr_State :: response_state
  gr_Message :: string
  gr_PublicKey :: "bytes option"
  gr_Participants :: "endpoint list"

text \<open>The generation goes to the process, not through the account manager.\<close>

definition api_Generate ::
  "('e, 'sk, 'pk, 'sig, 'i, 'wal, 'acc) process \<Rightarrow> go_runtime \<Rightarrow> generate_request option \<Rightarrow> grpc_context \<Rightarrow>
     ('e, err + generate_response) op" where
  "api_Generate P rt req ctx =
     (case req of
        None \<Rightarrow> go_return (Inl no_request)
      | Some r \<Rightarrow>
          go_bind (OnGenerate P rt (Some (GenerateCredentials ctx)) (gq_Account r) (gq_Passphrase r)
                     (gq_SigningThreshold r) (gq_Participants r)) (\<lambda>res.
            case res of
              Inl e \<Rightarrow> go_return (Inr \<lparr>gr_State = STATE_FAILED, gr_Message = e, gr_PublicKey = None, gr_Participants = []\<rparr>)
            | Inr (pubKey, participants) \<Rightarrow>
                go_return (Inr \<lparr>gr_State = STATE_SUCCEEDED, gr_Message = [], gr_PublicKey = Some pubKey,
                  gr_Participants = map (\<lambda>p. \<lparr>ep_ID = ep_ID p, ep_Name = ep_Name p, ep_Port = ep_Port p\<rparr>) participants\<rparr>)))"

section \<open>Listing\<close>

text \<open>What the handler reads of an account besides what the services do.\<close>

record distributed_account =
  da_CompositePublicKey :: bytes
  da_SigningThreshold :: u32
  da_Participants :: "(u64 \<times> string) list"

record 'acc account_lib =
  al_ID :: "'acc \<Rightarrow> err + bytes"
  al_WalletName :: "'acc \<Rightarrow> string option"
  al_Distributed :: "'acc \<Rightarrow> distributed_account option"

record pb_account =
  pb_Uuid :: bytes
  pb_Name :: string
  pb_PublicKey :: bytes

record pb_distributed = pb_account +
  pb_CompositePublicKey :: bytes
  pb_SigningThreshold :: u32
  pb_Participants :: "endpoint list"

record list_response =
  lr_State :: response_state
  lr_Accounts :: "pb_account list"
  lr_DistributedAccounts :: "pb_distributed list"

definition participant_endpoint :: "u64 \<Rightarrow> string \<Rightarrow> endpoint option" where
  "participant_endpoint k v =
     (case Split v (CHR '':'') of
        [name, port] \<Rightarrow>
          (case ParseUint port 32 of
             Inl e \<Rightarrow> None
           | Inr p \<Rightarrow> Some \<lparr>ep_ID = k, ep_Name = name, ep_Port = of_nat p\<rparr>)
      | _ \<Rightarrow> None)"

definition list_entry ::
  "'acc account_lib \<Rightarrow> ('s, 'wal, 'acc) wallet_lib \<Rightarrow> go_runtime \<Rightarrow> 'acc \<Rightarrow> list_response \<Rightarrow> list_response" where
  "list_entry A W rt account res =
     (case al_ID A account of
        Inl e \<Rightarrow> res
      | Inr uuid \<Rightarrow>
          let name = (case al_WalletName A account of
                        Some w \<Rightarrow> account_path w (acc_Name W account) | None \<Rightarrow> acc_Name W account) in
          if \<not> acc_is_pubkey_provider W account then res
          else case al_Distributed A account of
                 Some d \<Rightarrow> res\<lparr>lr_DistributedAccounts := lr_DistributedAccounts res @
                   [\<lparr>pb_Uuid = uuid, pb_Name = name, pb_PublicKey = acc_PublicKey W account,
                     pb_CompositePublicKey = da_CompositePublicKey d, pb_SigningThreshold = da_SigningThreshold d,
                     pb_Participants = List.map_filter (\<lambda>(k, v). participant_endpoint k v) (map_range rt (da_Participants d))\<rparr>]\<rparr>
               | None \<Rightarrow> res\<lparr>lr_Accounts := lr_Accounts res @
                   [\<lparr>pb_Uuid = uuid, pb_Name = name, pb_PublicKey = acc_PublicKey W account\<rparr>]\<rparr>)"

definition list_state :: "response_state \<Rightarrow> list_response" where
  "list_state st = \<lparr>lr_State = st, lr_Accounts = [], lr_DistributedAccounts = []\<rparr>"

definition api_ListAccounts ::
  "'acc account_lib \<Rightarrow> 're regexp_lib \<Rightarrow> ('s, 'wal, 'acc, 'ep) manager \<Rightarrow> go_runtime \<Rightarrow> string list option \<Rightarrow> grpc_context \<Rightarrow>
     ('s, err + list_response) op" where
  "api_ListAccounts A X M rt req ctx =
     (case req of
        None \<Rightarrow> go_return (Inl no_request)
      | Some paths \<Rightarrow>
          go_bind (ListAccounts X M rt (Some (GenerateCredentials ctx)) paths) (\<lambda>(result, accounts).
            go_return (Inr (case result of
                ResultDenied \<Rightarrow> list_state STATE_DENIED
              | ResultUnknown \<Rightarrow> list_state STATE_FAILED
              | ResultFailed \<Rightarrow> list_state STATE_FAILED
              | ResultSucceeded \<Rightarrow>
                  (fold (list_entry A (mg_lib M) rt) (case accounts of None \<Rightarrow> [] | Some as \<Rightarrow> as) (list_state STATE_UNKNOWN))
                    \<lparr>lr_State := STATE_SUCCEEDED\<rparr>))))"

end
