(* ===== verification/API_Safety.thy ===== *)
theory API_Safety
  imports API Dirk_Signing
begin

text \<open>
  What the answers of the gRPC interface say. An answer carries a signature exactly when its state
  is a success; the batches of the interface always give the signer names, keys and data of one
  length, so that writing its results into the answers stays within bounds; and the client whose
  permissions are checked is the one named by the certificate of the connection.
\<close>

section \<open>Answers\<close>

lemma result_state_succeeded [simp]: "result_state r = STATE_SUCCEEDED \<longleftrightarrow> r = ResultSucceeded"
  by (cases r) simp_all

lemma sign_answer_state [simp]: "rs_State (sign_answer (r, g)) = STATE_SUCCEEDED \<longleftrightarrow> r = ResultSucceeded"
  by (simp add: sign_answer_def)

lemma sign_answer_signature [simp]: "rs_Signature (sign_answer (r, g)) = (if r = ResultSucceeded then g else None)"
  by (simp add: sign_answer_def)

lemma answer_parts [simp]: "rs_State (answer st) = st" "rs_Signature (answer st) = None"
  by (simp_all add: answer_def)

definition sig_at :: "bytes option list option \<Rightarrow> nat \<Rightarrow> bytes option" where
  "sig_at sigs j = (case sigs of None \<Rightarrow> None | Some gs \<Rightarrow> gs ! j)"

lemma fill_responses_from:
  assumes "length responses = i + length results" and "\<forall>gs. sigs = Some gs \<longrightarrow> length gs = length responses"
    and "ResultSucceeded \<in> set results \<longrightarrow> sigs \<noteq> None" and "\<forall>j. i \<le> j \<and> j < length responses \<longrightarrow> responses ! j = answer st"
  shows "fill_responses i results sigs responses =
    Ret (take i responses @ map (\<lambda>k. sign_answer (results ! k, sig_at sigs (i + k))) [0..<length results])"
  using assms
proof (induction results arbitrary: i responses)
  case (Cons r results)
  let ?a = "sign_answer (r, sig_at sigs i)"
  have i: "i < length responses" using Cons.prems(1) by simp
  with Cons.prems(4) have here: "responses ! i = answer st" by simp
  have step: "fill_responses i (r # results) sigs responses = fill_responses (Suc i) results sigs (responses[i := ?a])"
    using Cons.prems(2,3) i here by (cases sigs) (auto simp: sign_answer_def answer_def sig_at_def)
  have "fill_responses (Suc i) results sigs (responses[i := ?a]) =
      Ret (take (Suc i) (responses[i := ?a]) @ map (\<lambda>k. sign_answer (results ! k, sig_at sigs (Suc i + k))) [0..<length results])"
    by (rule Cons.IH) (use Cons.prems in auto)
  moreover have "take (Suc i) (responses[i := ?a]) = take i responses @ [?a]"
    using i by (simp add: take_Suc_conv_app_nth)
  moreover have "map (\<lambda>k. sign_answer ((r # results) ! k, sig_at sigs (i + k))) [0..<Suc (length results)] =
      ?a # map (\<lambda>k. sign_answer (results ! k, sig_at sigs (Suc i + k))) [0..<length results]"
    by (subst upt_conv_Cons) (simp_all add: map_Suc_upt [symmetric] o_def del: upt_Suc map_Suc_upt)
  ultimately show ?case using step by (simp del: upt_Suc)
qed simp

lemma fill_responses_shape:
  assumes "batch_shape n results sigs"
  shows "fill_responses 0 results sigs (replicate n (answer st)) =
    Ret (map (\<lambda>j. sign_answer (results ! j, sig_at sigs j)) [0..<n])"
  using fill_responses_from [of "replicate n (answer st)" 0 results sigs st] assms by (simp add: batch_shape_def)

section \<open>Validation of a batch\<close>

lemma entry_states:
  "multisign_entry_state r \<in> {STATE_UNKNOWN, STATE_DENIED, STATE_FAILED}"
  "attestations_entry_state q \<in> {STATE_UNKNOWN, STATE_DENIED, STATE_FAILED}"
  by (auto simp: multisign_entry_state_def attestations_entry_state_def split: option.split)

lemma first_index_hit: "first_index P xs = Some i \<Longrightarrow> i < length xs \<and> P (xs ! i)"
  by (induction xs arbitrary: i) (auto split: if_splits option.splits)

text \<open>What a refused batch is answered with: the first bad entry is marked, the others are not.\<close>

definition refused_batch :: "('r \<Rightarrow> response_state) \<Rightarrow> 'r list \<Rightarrow> nat \<Rightarrow> sign_response list" where
  "refused_batch entry_state requests i =
     (replicate (length requests) (answer STATE_UNKNOWN))[i := answer (entry_state (requests ! i))]"

lemma mark_first_bad_cases:
  assumes "\<And>r. entry_state r \<in> {STATE_UNKNOWN, STATE_DENIED, STATE_FAILED}"
  shows "first_index (\<lambda>r. entry_state r \<noteq> STATE_UNKNOWN) requests = None \<Longrightarrow>
      mark_first_bad entry_state requests (replicate (length requests) (answer STATE_UNKNOWN)) =
        replicate (length requests) (answer STATE_UNKNOWN) \<and>
      \<not> batch_stopped (replicate (length requests) (answer STATE_UNKNOWN))"
    and "first_index (\<lambda>r. entry_state r \<noteq> STATE_UNKNOWN) requests = Some i \<Longrightarrow>
      mark_first_bad entry_state requests (replicate (length requests) (answer STATE_UNKNOWN)) = refused_batch entry_state requests i \<and>
      batch_stopped (refused_batch entry_state requests i)"
proof -
  show "mark_first_bad entry_state requests (replicate (length requests) (answer STATE_UNKNOWN)) =
        replicate (length requests) (answer STATE_UNKNOWN) \<and>
      \<not> batch_stopped (replicate (length requests) (answer STATE_UNKNOWN))"
    if "first_index (\<lambda>r. entry_state r \<noteq> STATE_UNKNOWN) requests = None"
    using that by (simp add: mark_first_bad_def batch_stopped_def list_ex_iff)
  assume hit: "first_index (\<lambda>r. entry_state r \<noteq> STATE_UNKNOWN) requests = Some i"
  from first_index_hit [OF hit] have i: "i < length requests" "entry_state (requests ! i) \<noteq> STATE_UNKNOWN" by simp_all
  with assms [of "requests ! i"] have "rs_State (refused_batch entry_state requests i ! i) \<in> {STATE_DENIED, STATE_FAILED}"
    "i < length (refused_batch entry_state requests i)"
    by (auto simp: refused_batch_def)
  then have "batch_stopped (refused_batch entry_state requests i)"
    unfolding batch_stopped_def list_ex_length by blast
  with hit i show "mark_first_bad entry_state requests (replicate (length requests) (answer STATE_UNKNOWN)) =
      refused_batch entry_state requests i \<and> batch_stopped (refused_batch entry_state requests i)"
    by (simp add: mark_first_bad_def refused_batch_def answer_def)
qed

text \<open>A batch that passes: the call of the signer decides, and its results become the answers.\<close>

definition served_batch ::
  "(core_result list \<times> bytes option list option) go \<times> 's \<Rightarrow> nat \<Rightarrow> (err + sign_response list) go \<times> 's \<Rightarrow> bool" where
  "served_batch call n out \<longleftrightarrow>
     (case call of
        (Ret (results, sigs), s) \<Rightarrow> out = (Ret (Inr (map (\<lambda>j. sign_answer (results ! j, sig_at sigs j)) [0..<n])), s)
      | (Panic e, s) \<Rightarrow> out = (Panic e, s)
      | (Block, s) \<Rightarrow> out = (Block, s))"

lemma api_batch_cases:
  assumes states: "\<And>r. entry_state r \<in> {STATE_UNKNOWN, STATE_DENIED, STATE_FAILED}" and "requests \<noteq> []"
  shows "first_index (\<lambda>r. entry_state r \<noteq> STATE_UNKNOWN) requests = Some i \<Longrightarrow>
      api_batch (mark_first_bad entry_state) sign (Some requests) s = (Ret (Inr (refused_batch entry_state requests i)), s)"
    and "first_index (\<lambda>r. entry_state r \<noteq> STATE_UNKNOWN) requests = None \<Longrightarrow>
      (\<And>results sigs s'. sign (map the requests) s = (Ret (results, sigs), s') \<Longrightarrow> batch_shape (length requests) results sigs) \<Longrightarrow>
      served_batch (sign (map the requests) s) (length requests) (api_batch (mark_first_bad entry_state) sign (Some requests) s)"
proof -
  note marks = mark_first_bad_cases [of entry_state requests, OF states]
  show "api_batch (mark_first_bad entry_state) sign (Some requests) s = (Ret (Inr (refused_batch entry_state requests i)), s)"
    if "first_index (\<lambda>r. entry_state r \<noteq> STATE_UNKNOWN) requests = Some i"
    using marks(2) [OF that] assms(2) by (simp add: api_batch_def Let_def go_simps)
  assume none: "first_index (\<lambda>r. entry_state r \<noteq> STATE_UNKNOWN) requests = None"
    and shape: "\<And>results sigs s'. sign (map the requests) s = (Ret (results, sigs), s') \<Longrightarrow> batch_shape (length requests) results sigs"
  have run: "api_batch (mark_first_bad entry_state) sign (Some requests) s =
      go_bind (sign (map the requests)) (\<lambda>(results, signatures).
        go_bind (go_lift (fill_responses 0 results signatures (replicate (length requests) (answer STATE_UNKNOWN))))
          (\<lambda>rs. go_return (Inr rs))) s"
    using marks(1) [OF none] assms(2) by (simp add: api_batch_def Let_def)
  obtain r s' where call: "sign (map the requests) s = (r, s')" by force
  show "served_batch (sign (map the requests) s) (length requests) (api_batch (mark_first_bad entry_state) sign (Some requests) s)"
  proof (cases r)
    case (Ret x)
    obtain results sigs where x: "x = (results, sigs)" by force
    with shape call Ret have "batch_shape (length requests) results sigs" by simp
    from fill_responses_shape [OF this] show ?thesis
      unfolding run by (simp add: served_batch_def go_bind_def go_lift_def go_simps call Ret x)
  qed (simp_all add: run served_batch_def go_bind_def call)
qed

section \<open>What a success says\<close>

text \<open>An answer to one attestation request: granted on a success, without a signature otherwise.\<close>

definition attestation_answer_ok ::
  "('db, 'v, 'wal, 'acc, 're) config \<Rightarrow> ('wal, 'acc) fetcher \<Rightarrow> credentials \<Rightarrow> att_request option \<Rightarrow> sign_response \<Rightarrow> bool" where
  "attestation_answer_ok C f c req res \<longleftrightarrow>
     (if rs_State res = STATE_SUCCEEDED
      then \<exists>r g. req = Some r \<and> rs_Signature res = Some g \<and>
        granted C f (Some c) ActionSignBeaconAttestation (aq_Account r) (aq_PublicKey r) (attestation_root (cf_ssz C) (att_data_of r)) g
      else rs_Signature res = None)"

lemma refused_answer:
  assumes "j < length requests" and "entry_state (requests ! i) \<noteq> STATE_SUCCEEDED"
  shows "rs_State (refused_batch entry_state requests i ! j) \<noteq> STATE_SUCCEEDED \<and>
    rs_Signature (refused_batch entry_state requests i ! j) = None"
  using assms by (cases "i = j") (simp_all add: refused_batch_def)

text \<open>The call of the signer that a batch of attestations makes.\<close>

definition attestations_call ::
  "('db, 'v, 'wal, 'acc, 're) config \<Rightarrow> go_runtime \<Rightarrow> att_request option list \<Rightarrow> grpc_context \<Rightarrow>
     (('db, 'v, 'wal, 'acc) world, core_result list \<times> bytes option list option) op" where
  "attestations_call C rt requests ctx =
     SignBeaconAttestations (dirk_signer C) rt (Some (GenerateCredentials ctx)) (map (aq_Account \<circ> the) requests)
      (map (aq_PublicKey \<circ> the) requests) (map (\<lambda>r. Some (att_data_of (the r))) requests)"

context dirk
begin

lemma attestations_shape:
  assumes "fair_runtime rt" "\<forall>d \<in> set data. att_in_range d" "quiet (w_ruler w)" "w_fetcher w = f" "data \<noteq> []"
    and "SignBeaconAttestations (dirk_signer C) rt creds names keys data w = (Ret (results, sigs), w')"
  shows "batch_shape (length data) results sigs"
  using go_tripleD_Ret [OF sg.SignBeaconAttestations_shape [OF assms(1,5,2)] start [OF assms(3,4)] assms(6)] by simp

lemma api_attestations_refused:
  assumes "requests \<noteq> []" and bad: "r \<in> set requests" "attestations_entry_state r \<noteq> STATE_UNKNOWN"
  shows "\<exists>rs. api_SignBeaconAttestations V rt (Some requests) ctx w = (Ret (Inr rs), w) \<and> length rs = length requests \<and>
    (\<forall>j < length requests. rs_State (rs ! j) \<noteq> STATE_SUCCEEDED \<and> attestation_answer_ok C f' c (requests ! j) (rs ! j))"
proof -
  let ?bad = "\<lambda>r. attestations_entry_state r \<noteq> STATE_UNKNOWN"
  obtain i where hit: "first_index ?bad requests = Some i"
    using bad first_index_None [of ?bad requests] by (cases "first_index ?bad requests") auto
  have "attestations_entry_state (requests ! i) \<noteq> STATE_SUCCEEDED" using entry_states(2) [of "requests ! i"] by auto
  then have no: "rs_State (refused_batch attestations_entry_state requests i ! j) \<noteq> STATE_SUCCEEDED \<and>
      rs_Signature (refused_batch attestations_entry_state requests i ! j) = None" if "j < length requests" for j
    using that by (intro refused_answer)
  have "api_SignBeaconAttestations V rt (Some requests) ctx w = (Ret (Inr (refused_batch attestations_entry_state requests i)), w)"
    unfolding api_SignBeaconAttestations_def validateSignBeaconAttestationsRequests_def
    by (rule api_batch_cases(1) [OF entry_states(2) assms(1) hit])
  with no show ?thesis by (auto simp: attestation_answer_ok_def refused_batch_def)
qed

lemma api_attestations_served:
  assumes "fair_runtime rt" and "requests \<noteq> []" and good: "\<forall>r \<in> set requests. attestations_entry_state r = STATE_UNKNOWN"
    and rng: "\<forall>r. Some r \<in> set requests \<longrightarrow> att_in_range (Some (att_data_of r))"
    and w: "quiet (w_ruler w)" "w_fetcher w = f"
  shows "served_batch (attestations_call C rt requests ctx w) (length requests) (api_SignBeaconAttestations (dirk_signer C) rt (Some requests) ctx w)"
    and "attestations_call C rt requests ctx w = (Ret (results, sigs), w') \<Longrightarrow> j < length requests \<Longrightarrow>
      attestation_answer_ok C f (GenerateCredentials ctx) (requests ! j) (sign_answer (results ! j, sig_at sigs j))"
proof -
  have some: "requests ! j = Some (the (requests ! j))" if "j < length requests" for j
    using good that by (auto simp: attestations_entry_state_def split: option.splits dest!: bspec [OF _ nth_mem [OF that]])
  have rng': "\<forall>d \<in> set (map (\<lambda>r. Some (att_data_of (the r))) requests). att_in_range d"
    using rng some by (metis (no_types, lifting) in_set_conv_nth length_map nth_map)
  have none: "first_index (\<lambda>r. attestations_entry_state r \<noteq> STATE_UNKNOWN) requests = None"
    using good by (simp add: first_index_None)
  let ?sign = "\<lambda>rs. SignBeaconAttestations (dirk_signer C) rt (Some (GenerateCredentials ctx)) (map aq_Account rs)
      (map aq_PublicKey rs) (map (\<lambda>r. Some (att_data_of r)) rs)"
  have call: "attestations_call C rt requests ctx w = ?sign (map the requests) w" by (simp add: attestations_call_def o_def)
  have shape: "batch_shape (length requests) results sigs" if "?sign (map the requests) w = (Ret (results, sigs), w')" for results sigs w'
    using attestations_shape [OF assms(1) rng' w, of "Some (GenerateCredentials ctx)"] that assms(2) by (simp add: o_def)
  show "served_batch (attestations_call C rt requests ctx w) (length requests) (api_SignBeaconAttestations (dirk_signer C) rt (Some requests) ctx w)"
    unfolding api_SignBeaconAttestations_def validateSignBeaconAttestationsRequests_def call
    by (rule api_batch_cases(2) [OF entry_states(2) assms(2) none]) (rule shape)
  assume ret: "attestations_call C rt requests ctx w = (Ret (results, sigs), w')" and j: "j < length requests"
  show "attestation_answer_ok C f (GenerateCredentials ctx) (requests ! j) (sign_answer (results ! j, sig_at sigs j))"
  proof (cases "results ! j = ResultSucceeded")
    case True
    with attestations_granted [OF assms(1) rng' w ret [unfolded attestations_call_def], of j] j obtain gs g where
      "sigs = Some gs" "gs ! j = Some g"
      "granted C f (Some (GenerateCredentials ctx)) ActionSignBeaconAttestation (aq_Account (the (requests ! j)))
         (aq_PublicKey (the (requests ! j))) (attestation_root (cf_ssz C) (att_data_of (the (requests ! j)))) g"
      by auto
    with True some [OF j] show ?thesis by (auto simp: attestation_answer_ok_def sig_at_def)
  qed (simp add: attestation_answer_ok_def)
qed

text \<open>A client without a name is never permitted.\<close>

lemma granted_named: "granted C f (Some c) action name key root g \<Longrightarrow> cr_Client c \<noteq> []"
  by (auto simp: granted_def permitted_def Check_def split: if_splits)

lemma api_attestation_answered:
  assumes "fair_runtime rt" and "quiet (w_ruler w)" "w_fetcher w = f"
    and "\<forall>r. req = Some r \<longrightarrow> att_in_range (Some (att_data_of r))"
    and "api_SignBeaconAttestation (dirk_signer C) rt req ctx w = (Ret out, w')"
  shows "\<exists>res. out = Inr res \<and> attestation_answer_ok C f (GenerateCredentials ctx) req res"
proof (cases req)
  case None
  with assms(5) have "out = Inr (answer STATE_DENIED)" by (simp add: api_SignBeaconAttestation_def go_simps)
  then show ?thesis by (simp add: attestation_answer_ok_def)
next
  case (Some r)
  show ?thesis
  proof (cases "id_refused (aq_Account r) (aq_PublicKey r) \<or> att_data_refused r")
    case True
    with assms(5) Some have "out = Inr (answer STATE_DENIED)"
      by (auto simp: api_SignBeaconAttestation_def go_simps split: if_splits)
    then show ?thesis by (simp add: attestation_answer_ok_def)
  next
    case False
    let ?call = "SignBeaconAttestation (dirk_signer C) rt (Some (GenerateCredentials ctx)) (aq_Account r) (aq_PublicKey r)
        (Some (att_data_of r))"
    from assms(5) Some False obtain res sig where call: "?call w = (Ret (res, sig), w')" and out: "out = Inr (sign_answer (res, sig))"
      by (auto simp: api_SignBeaconAttestation_def go_bind_def go_simps split: prod.splits go.splits)
    have rng: "att_in_range (Some (att_data_of r))" using assms(4) Some by simp
    from attestation_granted [OF assms(1) rng assms(2,3) call] Some out show ?thesis
      by (cases "res = ResultSucceeded") (auto simp: attestation_answer_ok_def)
  qed
qed

end

section \<open>Answers with a signature\<close>

text \<open>An answer with a signature that satisfies a condition on a success, and with none otherwise.\<close>

definition signed_answer :: "(bytes \<Rightarrow> bool) \<Rightarrow> sign_response \<Rightarrow> bool" where
  "signed_answer P res \<longleftrightarrow>
     (if rs_State res = STATE_SUCCEEDED then \<exists>g. rs_Signature res = Some g \<and> P g else rs_Signature res = None)"

lemma signed_answer_refused [simp]: "st \<noteq> STATE_SUCCEEDED \<Longrightarrow> signed_answer P (answer st)"
  by (simp add: signed_answer_def)

lemma signed_answer_sign: "signed_answer P (sign_answer (r, g)) \<longleftrightarrow> (r = ResultSucceeded \<longrightarrow> (\<exists>x. g = Some x \<and> P x))"
  by (simp add: signed_answer_def)

lemma signed_answer_mono: "signed_answer P res \<Longrightarrow> (\<And>g. P g \<Longrightarrow> Q g) \<Longrightarrow> signed_answer Q res"
  by (auto simp: signed_answer_def split: if_splits)

text \<open>The answers to a batch, from what the signer does with one that passes the validation.\<close>

lemma api_batch_answered:
  assumes states: "\<And>r. entry_state r \<in> {STATE_UNKNOWN, STATE_DENIED, STATE_FAILED}"
    and run: "api_batch (mark_first_bad entry_state) sign req s = (Ret out, s')"
    and shape: "\<And>requests results sigs s'. req = Some requests \<Longrightarrow> requests \<noteq> [] \<Longrightarrow> \<forall>r \<in> set requests. entry_state r = STATE_UNKNOWN \<Longrightarrow>
      sign (map the requests) s = (Ret (results, sigs), s') \<Longrightarrow> batch_shape (length requests) results sigs"
    and good: "\<And>requests results sigs s' j. req = Some requests \<Longrightarrow> requests \<noteq> [] \<Longrightarrow> \<forall>r \<in> set requests. entry_state r = STATE_UNKNOWN \<Longrightarrow>
      sign (map the requests) s = (Ret (results, sigs), s') \<Longrightarrow> j < length requests \<Longrightarrow> results ! j = ResultSucceeded \<Longrightarrow>
      \<exists>g. sig_at sigs j = Some g \<and> P requests j g"
  shows "\<exists>rs. out = Inr rs \<and> (\<forall>j < length rs. signed_answer (\<lambda>g. \<exists>requests. req = Some requests \<and> j < length requests \<and> P requests j g) (rs ! j))"
proof (cases "\<exists>requests. req = Some requests \<and> requests \<noteq> []")
  case False
  with run have "out = Inr [answer STATE_DENIED]" by (auto simp: api_batch_def go_simps split: option.splits if_splits)
  then show ?thesis by (intro exI [of _ "[answer STATE_DENIED]"]) simp
next
  case True
  then obtain requests where req: "req = Some requests" "requests \<noteq> []" by blast
  let ?bad = "\<lambda>r. entry_state r \<noteq> STATE_UNKNOWN"
  show ?thesis
  proof (cases "first_index ?bad requests")
    case (Some i)
    from api_batch_cases(1) [OF states req(2) Some, where sign = sign and s = s] run req(1) have "out = Inr (refused_batch entry_state requests i)" by simp
    moreover have st: "entry_state (requests ! i) \<noteq> STATE_SUCCEEDED" using states [of "requests ! i"] by auto
    have "signed_answer Q (refused_batch entry_state requests i ! j)" if "j < length requests" for Q j
      using refused_answer [where entry_state = entry_state and i = i, OF that st] by (simp add: signed_answer_def)
    ultimately show ?thesis by (simp add: refused_batch_def)
  next
    case None
    then have ok: "\<forall>r \<in> set requests. entry_state r = STATE_UNKNOWN" by (simp add: first_index_None)
    have served: "served_batch (sign (map the requests) s) (length requests) (api_batch (mark_first_bad entry_state) sign (Some requests) s)"
      by (rule api_batch_cases(2) [OF states req(2) None]) (rule shape [OF req ok])
    then obtain results sigs where call: "sign (map the requests) s = (Ret (results, sigs), s')"
      and out: "out = Inr (map (\<lambda>j. sign_answer (results ! j, sig_at sigs j)) [0..<length requests])"
      using run req(1) by (auto simp: served_batch_def split: prod.splits go.splits)
    from good [OF req ok call] req(1) show ?thesis by (simp add: out signed_answer_sign)
  qed
qed

context dirk
begin

lemma api_Sign_answered:
  assumes "fair_runtime rt" and "quiet (w_ruler w)" "w_fetcher w = f"
    and "api_Sign (dirk_signer C) rt req ctx w = (Ret (Inr res), w')"
  shows "signed_answer (\<lambda>g. \<exists>r. req = Some r \<and> generic_domain_ok C (Some (GenerateCredentials ctx)) (sign_data_of r) \<and>
    granted C f (Some (GenerateCredentials ctx)) ActionSign (sq_Account r) (sq_PublicKey r) (generic_root (cf_ssz C) (sign_data_of r)) g) res"
proof (cases "\<exists>r. req = Some r \<and> \<not> id_refused (sq_Account r) (sq_PublicKey r)")
  case True
  then obtain r where r: "req = Some r" "\<not> id_refused (sq_Account r) (sq_PublicKey r)" by blast
  with assms(4) obtain x sig where call: "SignGeneric (dirk_signer C) rt (Some (GenerateCredentials ctx)) (sq_Account r) (sq_PublicKey r)
      (Some (sign_data_of r)) w = (Ret (x, sig), w')" and res: "res = sign_answer (x, sig)"
    by (auto simp: api_Sign_def go_bind_def go_simps split: prod.splits go.splits)
  from generic_granted(2) [OF assms(1-3) call] r(1) show ?thesis by (auto simp: res signed_answer_sign)
next
  case False
  with assms(4) have "res = answer STATE_DENIED" by (auto simp: api_Sign_def go_simps split: option.splits if_splits)
  then show ?thesis by simp
qed

lemma api_proposal_answered:
  assumes "fair_runtime rt" and "quiet (w_ruler w)" "w_fetcher w = f"
    and rng: "\<forall>r d. req = Some r \<and> pq_Data r = Some d \<longrightarrow> prop_in_range (Some (prop_data_of (pq_Domain r) d))"
    and "api_SignBeaconProposal (dirk_signer C) rt req ctx w = (Ret (Inr res), w')"
  shows "signed_answer (\<lambda>g. \<exists>r d. req = Some r \<and> pq_Data r = Some d \<and>
    granted C f (Some (GenerateCredentials ctx)) ActionSignBeaconProposal (pq_Account r) (pq_PublicKey r)
      (proposal_root (cf_ssz C) (prop_data_of (pq_Domain r) d)) g) res"
proof (cases "\<exists>r d. req = Some r \<and> pq_Data r = Some d \<and> \<not> id_refused (pq_Account r) (pq_PublicKey r)")
  case True
  then obtain r d where r: "req = Some r" "pq_Data r = Some d" "\<not> id_refused (pq_Account r) (pq_PublicKey r)" by blast
  with assms(5) obtain x sig where call: "SignBeaconProposal (dirk_signer C) rt (Some (GenerateCredentials ctx)) (pq_Account r) (pq_PublicKey r)
      (Some (prop_data_of (pq_Domain r) d)) w = (Ret (x, sig), w')" and res: "res = sign_answer (x, sig)"
    by (auto simp: api_SignBeaconProposal_def go_bind_def go_simps split: prod.splits go.splits)
  have "prop_in_range (Some (prop_data_of (pq_Domain r) d))" using rng r by blast
  from proposal_granted(2) [OF assms(1) this assms(2,3) call] r(1,2) show ?thesis by (auto simp: res signed_answer_sign)
next
  case False
  with assms(5) have "res = answer STATE_DENIED" by (auto simp: api_SignBeaconProposal_def go_simps split: option.splits if_splits)
  then show ?thesis by simp
qed

lemma api_Multisign_answered:
  assumes fair: "fair_runtime rt" and w: "quiet (w_ruler w)" "w_fetcher w = f"
    and run: "api_Multisign (dirk_signer C) rt req ctx w = (Ret (Inr rs), w')" and j: "j < length rs"
  shows "signed_answer (\<lambda>g. \<exists>requests r. req = Some requests \<and> j < length requests \<and> requests ! j = Some r \<and>
    generic_domain_ok C (Some (GenerateCredentials ctx)) (sign_data_of r) \<and>
    granted C f (Some (GenerateCredentials ctx)) ActionSign (sq_Account r) (sq_PublicKey r) (generic_root (cf_ssz C) (sign_data_of r)) g) (rs ! j)"
proof -
  let ?creds = "Some (GenerateCredentials ctx)"
  let ?P = "\<lambda>requests j g. \<exists>r. requests ! j = Some r \<and> generic_domain_ok C ?creds (sign_data_of r) \<and>
    granted C f ?creds ActionSign (sq_Account r) (sq_PublicKey r) (generic_root (cf_ssz C) (sign_data_of r)) g"
  let ?call = "\<lambda>rs. Multisign (dirk_signer C) rt ?creds (map sq_Account rs) (map sq_PublicKey rs) (map (\<lambda>r. Some (sign_data_of r)) rs)"
  have "\<exists>rs'. (Inr rs :: err + sign_response list) = Inr rs' \<and> (\<forall>j < length rs'. signed_answer (\<lambda>g. \<exists>requests. req = Some requests \<and> j < length requests \<and> ?P requests j g) (rs' ! j))"
  proof (rule api_batch_answered [OF entry_states(1) run [unfolded api_Multisign_def validateMultisignRequests_def]], goal_cases)
    case (1 requests results sigs s')
    from go_tripleD_Ret [OF sg.Multisign_shape [OF fair, of "map (\<lambda>r. Some (sign_data_of r)) (map the requests)"] start [OF w] 1(4)] 1(2)
    show ?case by simp
  next
    case (2 requests results sigs s' j)
    have "requests ! j = Some (the (requests ! j))"
      using 2(3,5) by (auto simp: multisign_entry_state_def split: option.splits dest!: bspec [OF _ nth_mem [OF 2(5)]])
    with multisign_granted [OF fair w 2(4), of j] 2(5,6) show ?case by (auto simp: sig_at_def)
  qed
  then have "signed_answer (\<lambda>g. \<exists>requests. req = Some requests \<and> j < length requests \<and> ?P requests j g) (rs ! j)" using j by simp
  then show ?thesis by (rule signed_answer_mono) blast
qed

lemma api_attestations_answered:
  assumes fair: "fair_runtime rt" and w: "quiet (w_ruler w)" "w_fetcher w = f"
    and rng: "\<forall>requests r. req = Some requests \<and> Some r \<in> set requests \<longrightarrow> att_in_range (Some (att_data_of r))"
    and run: "api_SignBeaconAttestations (dirk_signer C) rt req ctx w = (Ret (Inr rs), w')" and j: "j < length rs"
  shows "signed_answer (\<lambda>g. \<exists>requests r. req = Some requests \<and> j < length requests \<and> requests ! j = Some r \<and>
    granted C f (Some (GenerateCredentials ctx)) ActionSignBeaconAttestation (aq_Account r) (aq_PublicKey r)
      (attestation_root (cf_ssz C) (att_data_of r)) g) (rs ! j)"
proof -
  let ?creds = "Some (GenerateCredentials ctx)"
  let ?P = "\<lambda>requests j g. \<exists>r. requests ! j = Some r \<and>
    granted C f ?creds ActionSignBeaconAttestation (aq_Account r) (aq_PublicKey r) (attestation_root (cf_ssz C) (att_data_of r)) g"
  have "\<exists>rs'. (Inr rs :: err + sign_response list) = Inr rs' \<and> (\<forall>j < length rs'. signed_answer (\<lambda>g. \<exists>requests. req = Some requests \<and> j < length requests \<and> ?P requests j g) (rs' ! j))"
  proof (rule api_batch_answered [OF entry_states(2) run [unfolded api_SignBeaconAttestations_def validateSignBeaconAttestationsRequests_def]], goal_cases)
    case (1 requests results sigs s')
    have "\<forall>d \<in> set (map (\<lambda>r. Some (att_data_of r)) (map the requests)). att_in_range d"
      using 1(1,3) rng by (fastforce simp: attestations_entry_state_def split: option.splits)
    from attestations_shape [OF fair this w _ 1(4)] 1(2) show ?case by simp
  next
    case (2 requests results sigs s' j)
    have "\<forall>d \<in> set (map (\<lambda>r. Some (att_data_of r)) (map the requests)). att_in_range d"
      using 2(1,3) rng by (fastforce simp: attestations_entry_state_def split: option.splits)
    moreover have "requests ! j = Some (the (requests ! j))"
      using 2(3,5) by (auto simp: attestations_entry_state_def split: option.splits dest!: bspec [OF _ nth_mem [OF 2(5)]])
    ultimately show ?case using attestations_granted [OF fair _ w 2(4), of j] 2(5,6) by (auto simp: sig_at_def)
  qed
  then have "signed_answer (\<lambda>g. \<exists>requests. req = Some requests \<and> j < length requests \<and> ?P requests j g) (rs ! j)" using j by simp
  then show ?thesis by (rule signed_answer_mono) blast
qed

end

section \<open>The caller\<close>

text \<open>
  The interceptors: what a handler gets of a call that reaches it. The context of a new call has no
  values of its own.
\<close>

definition fresh_context :: "grpc_peer option \<Rightarrow> grpc_context" where
  "fresh_context peer = \<lparr>cx_Peer = peer, cx_RequestID = None, cx_ClientName = None, cx_ExternalIP = None\<rparr>"

definition caller_credentials :: "nat \<Rightarrow> string \<Rightarrow> bool \<Rightarrow> string list \<Rightarrow> credentials" where
  "caller_credentials n ip complete certs =
     \<lparr>cr_RequestID = sprint_02x n, cr_Client = (if complete \<and> certs \<noteq> [] then hd certs else []), cr_IP = ip\<rparr>"

lemma intercepted_call:
  assumes "intercepted n handler (fresh_context peer) s = (Ret out, s')"
  shows "out = Inl status_failure \<and> s' = s \<or>
    (\<exists>p ip complete certs ctx. peer = Some p \<and> gp_TCPAddr p = Some ip \<and> gp_TLSInfo p = Some (complete, certs) \<and>
       GenerateCredentials ctx = caller_credentials n ip complete certs \<and> handler ctx s = (Ret out, s'))"
proof (cases "\<exists>p ip complete certs. peer = Some p \<and> gp_TCPAddr p = Some ip \<and> gp_TLSInfo p = Some (complete, certs)")
  case True
  then obtain p ip complete certs where p: "peer = Some p" "gp_TCPAddr p = Some ip" "gp_TLSInfo p = Some (complete, certs)" by blast
  let ?ctx = "\<lparr>cx_Peer = peer, cx_RequestID = Some (sprint_02x n),
     cx_ClientName = (if complete \<and> certs \<noteq> [] then Some (hd certs) else None), cx_ExternalIP = Some ip\<rparr>"
  have "handler ?ctx s = (Ret out, s')"
    using assms p by (auto simp: intercepted_def RequestIDInterceptor_def SourceIPInterceptor_def ClientInfoInterceptor_def
        fresh_context_def split: if_splits)
  moreover have "GenerateCredentials ?ctx = caller_credentials n ip complete certs"
    by (simp add: GenerateCredentials_def caller_credentials_def)
  ultimately show ?thesis using p by blast
next
  case False
  with assms show ?thesis
    by (auto simp: intercepted_def RequestIDInterceptor_def SourceIPInterceptor_def ClientInfoInterceptor_def
        fresh_context_def go_simps split: option.splits)
qed

text \<open>The credentials of a caller that is named by the first certificate of a completed handshake on a TCP connection.\<close>

definition named_caller :: "nat \<Rightarrow> grpc_peer option \<Rightarrow> credentials \<Rightarrow> bool" where
  "named_caller n peer c \<longleftrightarrow> (\<exists>p ip name certs. peer = Some p \<and> gp_TCPAddr p = Some ip \<and> gp_TLSInfo p = Some (True, name # certs) \<and>
     c = \<lparr>cr_RequestID = sprint_02x n, cr_Client = name, cr_IP = ip\<rparr>)"

lemma intercepted_caller:
  assumes "intercepted n handler (fresh_context peer) s = (Ret (Inr res), s')"
  obtains ctx where "handler ctx s = (Ret (Inr res), s')" and "cr_Client (GenerateCredentials ctx) \<noteq> [] \<longrightarrow> named_caller n peer (GenerateCredentials ctx)"
proof -
  from intercepted_call [OF assms] obtain p ip complete certs ctx where p: "peer = Some p" "gp_TCPAddr p = Some ip"
    "gp_TLSInfo p = Some (complete, certs)" "GenerateCredentials ctx = caller_credentials n ip complete certs" "handler ctx s = (Ret (Inr res), s')"
    by auto
  have "named_caller n peer (GenerateCredentials ctx)" if "cr_Client (GenerateCredentials ctx) \<noteq> []"
    using that p by (cases certs) (auto simp: caller_credentials_def named_caller_def split: if_splits)
  then show thesis by (intro that [OF p(5)] impI)
qed

end
