(* ===== verification/Startup.thy ===== *)
theory Startup
  imports Dirk Peers
begin

text \<open>
  How the daemon starts (\<open>main.go\<close>, \<open>core/stores.go\<close>, \<open>util/path.go\<close>, \<open>util/logging.go\<close>): the
  settings are read and every service is made from them, in the order of the code and with its
  errors. The settings are those that \<open>viper\<close> returns; secrets, the file system, the database, the
  wallet stores and TLS are operations of a platform.
\<close>

section \<open>Settings and platform\<close>

text \<open>The S3 part of a store definition, and one store definition.\<close>

record s3_store =
  s3_Region :: string
  s3_ID :: string
  s3_Bucket :: string
  s3_Path :: string
  s3_Endpoint :: string
  s3_ForcePathStyle :: bool
  s3_Credentials :: "(string \<times> string) option"

record store_definition =
  st_Name :: string
  st_Type :: string
  st_Location :: string
  st_Passphrase :: string
  st_S3 :: "s3_store option"

record settings =
  vp_GetString :: "string \<Rightarrow> string"
  vp_GetStringSlice :: "string \<Rightarrow> string list"
  vp_GetBool :: "string \<Rightarrow> bool"
  vp_GetDuration :: "string \<Rightarrow> int"
  vp_GetStringMap :: "string \<Rightarrow> string list"
  vp_GetStringMapString :: "string \<Rightarrow> (string \<times> string) list"
  vp_GetStringMapStringSlice :: "string \<Rightarrow> (string \<times> string list) list"
  vp_Stores :: "err + store_definition list"

text \<open>
  The options that a store is made with. \<open>pf_Open\<close> opens the database of a directory, with its
  value log mapped into memory or not; \<open>pf_Retrieve\<close> gives the encoded wallets of a store.
\<close>

datatype s3_option =
    S3_Passphrase bytes | S3_Region string | S3_ID bytes | S3_Bucket string | S3_Path string | S3_Endpoint string
  | S3_ForcePathStyle bool | S3_CredentialsID string | S3_CredentialsSecret string

datatype fs_option = FS_Passphrase bytes | FS_Location string

record ('db, 'st) platform =
  pf_Home :: "err + string"
  pf_Fetch :: "string \<Rightarrow> err + bytes"
  pf_Open :: "string \<Rightarrow> bool \<Rightarrow> err + 'db badger"
  pf_RandInt :: "nat \<Rightarrow> err + nat"
  pf_filesystem :: "fs_option list \<Rightarrow> 'st"
  pf_s3 :: "s3_option list \<Rightarrow> err + 'st"
  pf_scratch :: 'st
  pf_Retrieve :: "'st \<Rightarrow> bytes list"
  pf_X509KeyPair :: "bytes \<Rightarrow> bytes \<Rightarrow> err option"
  pf_AppendCerts :: "bytes \<Rightarrow> bool"
  pf_Listen :: "string \<Rightarrow> err option"

section \<open>Log levels\<close>

datatype log_level = Level_Disabled | Level_Trace | Level_Debug | Level_Warn | Level_Info | Level_Error | Level_Fatal | Level_Default

definition stringToLevel :: "string \<Rightarrow> log_level" where
  "stringToLevel input =
     (let s = map to_lower input in
      if s = ''none'' then Level_Disabled
      else if s = ''trace'' then Level_Trace
      else if s = ''debug'' then Level_Debug
      else if s = ''warn'' \<or> s = ''warning'' then Level_Warn
      else if s = ''info'' \<or> s = ''information'' then Level_Info
      else if s = ''err'' \<or> s = ''error'' then Level_Error
      else if s = ''fatal'' then Level_Fatal
      else Level_Default)"

text \<open>\<open>strings.LastIndex\<close> of one character.\<close>

fun LastIndex :: "string \<Rightarrow> char \<Rightarrow> nat option" where
  "LastIndex [] c = None"
| "LastIndex (x # xs) c =
     (case LastIndex xs c of Some i \<Rightarrow> Some (Suc i) | None \<Rightarrow> if x = c then Some 0 else None)"

lemma LastIndex_less: "LastIndex s c = Some i \<Longrightarrow> i < length s"
  by (induction s arbitrary: i) (auto split: option.splits if_splits)

function LogLevel :: "(string \<Rightarrow> string) \<Rightarrow> string \<Rightarrow> log_level" where
  "LogLevel get path =
     (if path = [] then stringToLevel (get ''log-level'')
      else if get (path @ ''.log-level'') \<noteq> [] then stringToLevel (get (path @ ''.log-level''))
      else case LastIndex path (CHR ''.'') of
             None \<Rightarrow> LogLevel get []
           | Some i \<Rightarrow> LogLevel get (take i path))"
  by auto
termination
  by (relation "measure (\<lambda>(get, path). length path)") (auto dest: LastIndex_less)

declare LogLevel.simps [simp del]

section \<open>Paths\<close>

text \<open>\<open>filepath.Clean\<close> on slash-separated paths: the elements that are left, the last one first.\<close>

fun clean_elements :: "bool \<Rightarrow> string list \<Rightarrow> string list \<Rightarrow> string list" where
  "clean_elements rooted [] done = done"
| "clean_elements rooted (e # es) done =
     (if e = [] \<or> e = ''.'' then clean_elements rooted es done
      else if e = ''..'' then
        (case done of
           [] \<Rightarrow> if rooted then clean_elements rooted es [] else clean_elements rooted es [''..'']
         | d # ds \<Rightarrow> if d = ''..'' then clean_elements rooted es (''..'' # done) else clean_elements rooted es ds)
      else clean_elements rooted es (e # done))"

fun join_slash :: "string list \<Rightarrow> string" where
  "join_slash [] = []"
| "join_slash [e] = e"
| "join_slash (e # es) = e @ ''/'' @ join_slash es"

definition filepath_Clean :: "string \<Rightarrow> string" where
  "filepath_Clean path =
     (let rooted = HasPrefix path ''/'';
          es = rev (clean_elements rooted (Split path (CHR ''/'')) [])
      in if rooted then ''/'' @ join_slash es else if es = [] then ''.'' else join_slash es)"

definition filepath_Join :: "string \<Rightarrow> string \<Rightarrow> string" where
  "filepath_Join a b =
     (case filter (\<lambda>e. e \<noteq> []) [a, b] of [] \<Rightarrow> [] | es \<Rightarrow> filepath_Clean (join_slash es))"

definition ResolvePath :: "('db, 'st) platform \<Rightarrow> settings \<Rightarrow> string \<Rightarrow> string go" where
  "ResolvePath P S path =
     (if HasPrefix path ''/'' then Ret path
      else
        let baseDir = vp_GetString S ''base-dir'' in
        if baseDir = [] then
          (case pf_Home P of
             Inl e \<Rightarrow> Panic ''could not determine a home directory''
           | Inr homeDir \<Rightarrow> Ret (filepath_Join homeDir path))
        else Ret (filepath_Join baseDir path))"

section \<open>Stores\<close>

text \<open>A passphrase is fetched when one is named.\<close>

definition store_passphrase :: "('db, 'st) platform \<Rightarrow> store_definition \<Rightarrow> err + bytes option" where
  "store_passphrase P d =
     (if st_Passphrase d = [] then Inr None
      else case pf_Fetch P (st_Passphrase d) of
             Inl e \<Rightarrow> Inl (wrap_err ''failed to obtain passphrase'' e)
           | Inr passphrase \<Rightarrow> Inr (Some passphrase))"

definition initFilesystemStore :: "('db, 'st) platform \<Rightarrow> store_definition \<Rightarrow> err + 'st" where
  "initFilesystemStore P d =
     (case store_passphrase P d of
        Inl e \<Rightarrow> Inl e
      | Inr passphrase \<Rightarrow>
          Inr (pf_filesystem P ((case passphrase of None \<Rightarrow> [] | Some p \<Rightarrow> [FS_Passphrase p]) @
                (if st_Location d \<noteq> [] then [FS_Location (st_Location d)] else []))))"

text \<open>\<open>string(b)\<close>.\<close>

definition bytes_string :: "bytes \<Rightarrow> string" where
  "bytes_string b = map (\<lambda>x. char_of (unat x)) b"

definition s3_credentials :: "('db, 'st) platform \<Rightarrow> store_definition \<Rightarrow> err + s3_option list" where
  "s3_credentials P d =
     (case st_S3 d of
        None \<Rightarrow> Inr []
      | Some s3 \<Rightarrow>
          (case s3_Credentials s3 of
             None \<Rightarrow> Inr []
           | Some (cid, csecret) \<Rightarrow>
               (case pf_Fetch P cid of
                  Inl e \<Rightarrow> Inl (wrap_err ''failed to obtain credentials ID'' e)
                | Inr i \<Rightarrow>
                    (case pf_Fetch P csecret of
                       Inl e \<Rightarrow> Inl (wrap_err ''failed to obtain credentials secret'' e)
                     | Inr s \<Rightarrow> Inr [S3_CredentialsID (bytes_string i), S3_CredentialsSecret (bytes_string s)]))))"

definition initS3Store :: "('db, 'st) platform \<Rightarrow> store_definition \<Rightarrow> err + 'st" where
  "initS3Store P d =
     (case store_passphrase P d of
        Inl e \<Rightarrow> Inl e
      | Inr passphrase \<Rightarrow>
          (case s3_credentials P d of
             Inl e \<Rightarrow> Inl e
           | Inr creds \<Rightarrow>
               pf_s3 P ((case passphrase of None \<Rightarrow> [] | Some p \<Rightarrow> [S3_Passphrase p]) @
                 (case st_S3 d of
                    None \<Rightarrow> []
                  | Some s3 \<Rightarrow> [S3_Region (s3_Region s3), S3_ID (string_bytes (s3_ID s3)), S3_Bucket (s3_Bucket s3),
                                S3_Path (s3_Path s3), S3_Endpoint (s3_Endpoint s3), S3_ForcePathStyle (s3_ForcePathStyle s3)]) @
                 creds)))"

definition initStore :: "('db, 'st) platform \<Rightarrow> nat \<Rightarrow> store_definition \<Rightarrow> err + 'st" where
  "initStore P i d =
     (if st_Name d = [] then Inl (''store '' @ sprint_nat i @ '' has no name'')
      else if st_Type d = [] then Inl (''store '' @ sprint_nat i @ '' has no type'')
      else
        (let opened = (\<lambda>r. case r of Inl e \<Rightarrow> Inl (wrap_err (''failed to access store '' @ st_Name d) e) | Inr st \<Rightarrow> Inr st) in
         if st_Type d = ''filesystem'' then opened (initFilesystemStore P d)
         else if st_Type d = ''s3'' then opened (initS3Store P d)
         else if st_Type d = ''scratch'' then Inr (pf_scratch P)
         else Inl (''store '' @ sprint_nat i @ '' has unhandled type '' @ [CHR 0x22] @ st_Type d @ [CHR 0x22])))"

fun init_all_stores :: "('db, 'st) platform \<Rightarrow> nat \<Rightarrow> store_definition list \<Rightarrow> err + 'st list" where
  "init_all_stores P i [] = Inr []"
| "init_all_stores P i (d # ds) =
     (case initStore P i d of
        Inl e \<Rightarrow> Inl e
      | Inr st \<Rightarrow> (case init_all_stores P (Suc i) ds of Inl e \<Rightarrow> Inl e | Inr sts \<Rightarrow> Inr (st # sts)))"

definition InitStores :: "('db, 'st) platform \<Rightarrow> store_definition list \<Rightarrow> err + 'st list" where
  "InitStores P defs = (if length defs = 0 then Inr [pf_filesystem P []] else init_all_stores P 0 defs)"

definition initStores :: "('db, 'st) platform \<Rightarrow> settings \<Rightarrow> err + 'st list" where
  "initStores P S =
     (case vp_Stores S of
        Inl e \<Rightarrow> Inl (wrap_err ''failed to obtain stores configuration'' e)
      | Inr defs \<Rightarrow>
          (case InitStores P defs of
             Inl e \<Rightarrow> Inl (wrap_err ''failed to initialise stores'' e)
           | Inr stores \<Rightarrow> if length stores = 0 then Inl ''no stores'' else Inr stores))"

section \<open>Services\<close>

fun fetch_passphrases :: "('db, 'st) platform \<Rightarrow> string \<Rightarrow> string list \<Rightarrow> err + string list" where
  "fetch_passphrases P msg [] = Inr []"
| "fetch_passphrases P msg (key # keys) =
     (case pf_Fetch P key of
        Inl e \<Rightarrow> Inl (wrap_err msg e)
      | Inr value \<Rightarrow> (case fetch_passphrases P msg keys of Inl e \<Rightarrow> Inl e | Inr vs \<Rightarrow> Inr (bytes_string value # vs)))"

definition startUnlocker :: "('db, 'st) platform \<Rightarrow> settings \<Rightarrow> err + unlocker" where
  "startUnlocker P S =
     (case fetch_passphrases P ''failed to obtain wallet passphrase for unlocker'' (vp_GetStringSlice S ''unlocker.wallet-passphrases'') of
        Inl e \<Rightarrow> Inl e
      | Inr ws \<Rightarrow>
          (case fetch_passphrases P ''failed to obtain account passphrase for unlocker''
                  (vp_GetStringSlice S ''unlocker.account-passphrases'') of
             Inl e \<Rightarrow> Inl e
           | Inr as \<Rightarrow> unlocker_New (Some ws) (Some as)))"

text \<open>
  The permissions of a client are a Go map from paths to operations: they are put into a list in the
  order in which the map happens to be ranged over.
\<close>

definition client_permissions :: "go_runtime \<Rightarrow> settings \<Rightarrow> string \<Rightarrow> permissions list" where
  "client_permissions rt S client =
     map (\<lambda>(path, operations). \<lparr>pm_Path = path, pm_Operations = operations\<rparr>)
       (map_range rt (vp_GetStringMapStringSlice S (''permissions.'' @ client)))"

definition startChecker ::
  "'re regexp_lib \<Rightarrow> (string \<Rightarrow> err + string \<times> string) \<Rightarrow> go_runtime \<Rightarrow> settings \<Rightarrow> err + 're access" where
  "startChecker R names rt S =
     checker_New R names (map_range rt
       (map (\<lambda>client. (client, client_permissions rt S client)) (vp_GetStringMap S ''permissions'')))"

fun read_peers :: "(string \<times> string) list \<Rightarrow> (u64 \<times> string) list \<Rightarrow> err + (u64 \<times> string) list" where
  "read_peers [] peersMap = Inr peersMap"
| "read_peers ((k, v) # rest) peersMap =
     (case ParseUint k 64 of
        Inl e \<Rightarrow> Inl (wrap_err ''failed to parse peers info'' e)
      | Inr n \<Rightarrow> read_peers rest (AList.update (of_nat n) v peersMap))"

definition startPeers :: "go_runtime \<Rightarrow> settings \<Rightarrow> err + peers" where
  "startPeers rt S =
     (case read_peers (map_range rt (vp_GetStringMapString S ''peers'')) [] of
        Inl e \<Rightarrow> Inl e
      | Inr peersMap \<Rightarrow> peers_New rt peersMap)"

text \<open>
  The database is opened with its value log mapped into memory and, when that fails, without. The
  period of the garbage collection is a day and a random number of seconds; what is read from the
  database does not depend on the collection, which is left out.
\<close>

definition NewStore :: "('db, 'st) platform \<Rightarrow> string \<Rightarrow> bool \<Rightarrow> err + 'db badger \<times> nat option" where
  "NewStore P base periodicPruning =
     (case (case pf_Open P base True of Inl e \<Rightarrow> pf_Open P base False | Inr db \<Rightarrow> Inr db) of
        Inl e \<Rightarrow> Inl e
      | Inr db \<Rightarrow>
          if periodicPruning then
            (case pf_RandInt P 86400 of
               Inl e \<Rightarrow> Inl (wrap_err ''random number generator failure'' e)
             | Inr offset \<Rightarrow> Inr (db, Some (24 * 3600 + offset)))
          else Inr (db, None))"

definition rules_New ::
  "('db, 'st) platform \<Rightarrow> rules_lib \<Rightarrow> string \<Rightarrow> string list \<Rightarrow> bool \<Rightarrow> err + 'db rules_service" where
  "rules_New P L storagePath admins periodicPruning =
     (if storagePath = [] then Inl (wrap_err ''problem with parameters'' ''no storage path specified'')
      else case NewStore P storagePath periodicPruning of
             Inl e \<Rightarrow> Inl e
           | Inr (db, _) \<Rightarrow> Inr \<lparr>rules_store = db, adminIPs = admins, rules_lib = L\<rparr>)"

definition initRules :: "('db, 'st) platform \<Rightarrow> rules_lib \<Rightarrow> settings \<Rightarrow> (err + 'db rules_service) go" where
  "initRules P L S =
     (case ResolvePath P S (vp_GetString S ''storage-path'') of
        Ret path \<Rightarrow> Ret (rules_New P L path (vp_GetStringSlice S ''server.rules.admin-ips'')
                          (vp_GetBool S ''server.rules.periodic-pruning''))
      | Panic e \<Rightarrow> Panic e
      | Block \<Rightarrow> Block)"

definition obtainCerts :: "('db, 'st) platform \<Rightarrow> settings \<Rightarrow> err + bytes \<times> bytes \<times> bytes" where
  "obtainCerts P S =
     (let cert = vp_GetString S ''certificates.server-cert''; key = vp_GetString S ''certificates.server-key'';
          ca = vp_GetString S ''certificates.ca-cert'' in
      case pf_Fetch P cert of
        Inl e \<Rightarrow> Inl (wrap_err (''failed to obtain server certificate from '' @ cert) e)
      | Inr certPEMBlock \<Rightarrow>
          (case pf_Fetch P key of
             Inl e \<Rightarrow> Inl (wrap_err (''failed to obtain server key from '' @ key) e)
           | Inr keyPEMBlock \<Rightarrow>
               if ca = [] then Inr (certPEMBlock, keyPEMBlock, [])
               else case pf_Fetch P ca of
                      Inl e \<Rightarrow> Inl (wrap_err (''failed to obtain CA certificate from '' @ ca) e)
                    | Inr caPEMBlock \<Rightarrow> Inr (certPEMBlock, keyPEMBlock, caPEMBlock)))"

definition composeCredentials :: "('db, 'st) platform \<Rightarrow> bytes \<Rightarrow> bytes \<Rightarrow> bytes \<Rightarrow> err option" where
  "composeCredentials P cert key ca =
     (case pf_X509KeyPair P cert key of
        Some e \<Rightarrow> Some (wrap_err ''failed to access client certificate/key'' e)
      | None \<Rightarrow> if 0 < length ca \<and> \<not> pf_AppendCerts P ca then Some ''failed to add CA certificate'' else None)"

definition sender_New :: "('db, 'st) platform \<Rightarrow> string \<Rightarrow> bytes \<Rightarrow> bytes \<Rightarrow> bytes \<Rightarrow> err option" where
  "sender_New P name cert key ca =
     (if name = [] then Some (wrap_err ''problem with parameters'' ''no name specified'')
      else if length cert = 0 then Some (wrap_err ''problem with parameters'' ''no server certificate specified'')
      else if length key = 0 then Some (wrap_err ''problem with parameters'' ''no server key specified'')
      else map_option (wrap_err ''failed to compose client credentials'') (composeCredentials P cert key ca))"

text \<open>The identifier, the passphrase of new keys and the timeout of a generation.\<close>

record process_settings =
  pst_id :: u64
  pst_generationPassphrase :: bytes
  pst_generationTimeout :: int

definition startProcess ::
  "('db, 'st) platform \<Rightarrow> settings \<Rightarrow> u64 \<Rightarrow> bytes \<times> bytes \<times> bytes \<Rightarrow> err + process_settings" where
  "startProcess P S serverID certs =
     (case certs of (cert, key, ca) \<Rightarrow>
       (case sender_New P (vp_GetString S ''server.name'') cert key ca of
          Some e \<Rightarrow> Inl (wrap_err ''failed to create sender service'' e)
        | None \<Rightarrow>
            (case (if vp_GetString S ''process.generation-passphrase'' \<noteq> []
                   then pf_Fetch P (vp_GetString S ''process.generation-passphrase'') else Inr []) of
               Inl e \<Rightarrow> Inl (wrap_err ''failed to obtain account generation passphrase for process'' e)
             | Inr passphrase \<Rightarrow>
                 if serverID = 0
                 then Inl (wrap_err ''failed to create process service'' (wrap_err ''problem with parameters'' ''no ID specified''))
                 else Inr \<lparr>pst_id = serverID, pst_generationPassphrase = passphrase,
                           pst_generationTimeout = vp_GetDuration S ''process.generation-timeout''\<rparr>)))"

definition createServer :: "('db, 'st) platform \<Rightarrow> string \<Rightarrow> bytes \<Rightarrow> bytes \<Rightarrow> bytes \<Rightarrow> err option" where
  "createServer P name cert key ca =
     (if name = [] then Some ''no server name provided; cannot proceed''
      else case pf_X509KeyPair P cert key of
             Some e \<Rightarrow> Some (wrap_err ''failed to load server keypair'' e)
           | None \<Rightarrow> if 0 < length ca \<and> \<not> pf_AppendCerts P ca then Some ''could not add CA certificate to pool'' else None)"

definition api_New :: "('db, 'st) platform \<Rightarrow> string \<Rightarrow> u64 \<Rightarrow> string \<Rightarrow> bytes \<times> bytes \<times> bytes \<Rightarrow> err option" where
  "api_New P name serverID listenAddress certs =
     (case certs of (cert, key, ca) \<Rightarrow>
       let bad = (\<lambda>m. Some (wrap_err ''problem with parameters'' m)) in
       if name = [] then bad ''no name specified''
       else if serverID = 0 then bad ''no ID specified''
       else if listenAddress = [] then bad ''no listen address specified''
       else if length cert = 0 then bad ''no server certificate specified''
       else if length key = 0 then bad ''no server key specified''
       else case createServer P name cert key ca of
              Some e \<Rightarrow> Some (wrap_err ''failed to create API server'' e)
            | None \<Rightarrow> map_option (wrap_err ''failed to start API server'') (pf_Listen P listenAddress))"

section \<open>The daemon\<close>

record ('db, 'v, 'wal, 'acc, 're) daemon =
  dm_config :: "('db, 'v, 'wal, 'acc, 're) config"
  dm_fetcher :: "('wal, 'acc) fetcher"
  dm_peers :: peers
  dm_process :: process_settings

text \<open>
  What \<open>startGrpcServer\<close> makes after the services that are given to it. The lister, the signer and
  the two managers only refuse services that are nil.
\<close>

definition startGrpcServer ::
  "('db, 'st) platform \<Rightarrow> go_runtime \<Rightarrow> settings \<Rightarrow> err + peers \<times> process_settings" where
  "startGrpcServer P rt S =
     (case startPeers rt S of
        Inl e \<Rightarrow> Inl e
      | Inr ps \<Rightarrow>
          (case ParseUint (vp_GetString S ''server.id'') 64 of
             Inl e \<Rightarrow> Inl (wrap_err ''failed to obtain server ID'' e)
           | Inr sid \<Rightarrow>
               (case obtainCerts P S of
                  Inl e \<Rightarrow> Inl e
                | Inr certs \<Rightarrow>
                    (case startProcess P S (of_nat sid) certs of
                       Inl e \<Rightarrow> Inl e
                     | Inr pst \<Rightarrow>
                         (case api_New P (vp_GetString S ''server.name'') (of_nat sid) (vp_GetString S ''server.listen-address'') certs of
                            Some e \<Rightarrow> Inl (wrap_err ''failed to create API service'' e)
                          | None \<Rightarrow> Inr (ps, pst))))))"

text \<open>The libraries that the services are written against.\<close>

record ('v, 'wal, 'acc, 're) libraries =
  lb_wallets :: "('v, 'wal, 'acc) wallet_lib"
  lb_stores :: "('wal, 'acc) store_lib"
  lb_regexp :: "'re regexp_lib"
  lb_rules :: rules_lib
  lb_ssz :: ssz_lib

definition startServices ::
  "('db, 'st) platform \<Rightarrow> ('v, 'wal, 'acc, 're) libraries \<Rightarrow> go_runtime \<Rightarrow> settings \<Rightarrow>
     (err + ('db, 'v, 'wal, 'acc, 're) daemon) go" where
  "startServices P L rt S =
     (case initStores P S of
        Inl e \<Rightarrow> Ret (Inl e)
      | Inr stores \<Rightarrow>
          (case startUnlocker P S of
             Inl e \<Rightarrow> Ret (Inl (wrap_err ''failed to initialise local unlocker'' e))
           | Inr unlocker \<Rightarrow>
               (case startChecker (lb_regexp L) (WalletAndAccountNames (lb_wallets L)) rt S of
                  Inl e \<Rightarrow> Ret (Inl (wrap_err ''failed to start permissions checker'' e))
                | Inr access \<Rightarrow>
                    (case fetcher_New (lb_wallets L) (lb_stores L) rt (Some ()) (map (pf_Retrieve P) stores) of
                       Inl e \<Rightarrow> Ret (Inl (wrap_err ''failed to initialise account fetcher'' e))
                     | Inr fetcher \<Rightarrow>
                         (case initRules P (lb_rules L) S of
                            Ret (Inl e) \<Rightarrow> Ret (Inl (wrap_err ''failed to set up ruler service'' (wrap_err ''failed to set up rules'' e)))
                          | Ret (Inr rules) \<Rightarrow>
                              (case startGrpcServer P rt S of
                                 Inl e \<Rightarrow> Ret (Inl e)
                               | Inr (ps, pst) \<Rightarrow>
                                   Ret (Inr \<lparr>dm_config = \<lparr>cf_rules = rules, cf_wallets = lb_wallets L, cf_regexp = lb_regexp L,
                                                          cf_access = access, cf_unlocker = unlocker, cf_ssz = lb_ssz L\<rparr>,
                                              dm_fetcher = fetcher, dm_peers = ps, dm_process = pst\<rparr>))
                          | Panic e \<Rightarrow> Panic e
                          | Block \<Rightarrow> Block)))))"

text \<open>
  The commands of the program, in the order in which their flags are looked at; the result says
  whether the program ends and with which code.
\<close>

definition runCommands ::
  "settings \<Rightarrow> ('s, err option) op \<Rightarrow> ('s, int) op \<Rightarrow> ('s, int) op \<Rightarrow> ('s, bool \<times> int) op" where
  "runCommands S show_certificates export_protection import_protection =
     (if vp_GetBool S ''show-certificates'' then
        go_bind show_certificates (\<lambda>e. go_return (True, case e of Some _ \<Rightarrow> 1 | None \<Rightarrow> 0))
      else if vp_GetBool S ''show-permissions'' then go_return (True, 0)
      else if vp_GetBool S ''export-slashing-protection'' then
        go_bind export_protection (\<lambda>code. go_return (True, code))
      else if vp_GetBool S ''import-slashing-protection'' then
        go_bind import_protection (\<lambda>code. go_return (True, code))
      else go_return (False, 0))"

section \<open>Log levels and paths\<close>

text \<open>The level of a module is its own or, failing that, that of the module above it.\<close>

lemma LogLevel_inherited:
  assumes "\<And>p. p \<noteq> [] \<Longrightarrow> get (p @ ''.log-level'') = []"
  shows "LogLevel get path = stringToLevel (get ''log-level'')"
proof (induction path rule: measure_induct_rule [of length])
  case (less path)
  have "LogLevel get [] = stringToLevel (get ''log-level'')" by (subst LogLevel.simps) simp
  moreover have "LogLevel get (take i path) = stringToLevel (get ''log-level'')" if "LastIndex path (CHR ''.'') = Some i" for i
    using less [of "take i path"] LastIndex_less [OF that] by simp
  ultimately show ?case using assms by (subst LogLevel.simps) (simp split: option.split)
qed

section \<open>The order of permissions\<close>

lemma map_range_set: "fair_runtime rt \<Longrightarrow> set (map_range rt m) = set m"
  by (metis mset_map_range set_mset_mset)

lemma parse_paths_ok:
  "(\<exists>paths. parse_paths R names ps = Inr paths) \<longleftrightarrow> (\<forall>p \<in> set ps. \<exists>path. parse_permission R names p = Inr path)"
  by (induction ps) (auto split: sum.splits)

lemma parse_paths_map: "parse_paths R names ps = Inr paths \<Longrightarrow> list_all2 (\<lambda>p path. parse_permission R names p = Inr path) ps paths"
  by (induction ps arbitrary: paths) (auto split: sum.splits)

lemma parse_access_ok:
  "(\<exists>access'. parse_access R names perms access = Inr access') \<longleftrightarrow>
     (\<forall>(client, ps) \<in> set perms. client \<noteq> [] \<and> ps \<noteq> [] \<and> (\<forall>p \<in> set ps. \<exists>path. parse_permission R names p = Inr path))"
proof (induction perms arbitrary: access)
  case (Cons x perms)
  obtain client ps where x: "x = (client, ps)" by force
  show ?case using Cons.IH parse_paths_ok [of R names ps] by (auto simp: x split: sum.splits)
qed simp

text \<open>
  The paths of a client as they are configured, and two of them that both speak about a request and
  contradict each other.
\<close>

definition configured :: "settings \<Rightarrow> string \<Rightarrow> permissions set" where
  "configured S client = (\<lambda>(p, ops). \<lparr>pm_Path = p, pm_Operations = ops\<rparr>) ` set (vp_GetStringMapStringSlice S (''permissions.'' @ client))"

definition path_says ::
  "'re regexp_lib \<Rightarrow> (string \<Rightarrow> err + string \<times> string) \<Rightarrow> string \<Rightarrow> string \<Rightarrow> string \<Rightarrow> permissions \<Rightarrow> bool option" where
  "path_says R names w a operation p =
     (case parse_permission R names p of
        Inl e \<Rightarrow> None
      | Inr path \<Rightarrow> if path_matches R w a path then check_operations operation (p_operations path) else None)"

definition conflicting ::
  "'re regexp_lib \<Rightarrow> (string \<Rightarrow> err + string \<times> string) \<Rightarrow> settings \<Rightarrow> string \<Rightarrow> string \<Rightarrow> string \<Rightarrow> string \<Rightarrow> bool" where
  "conflicting R names S client w a operation \<longleftrightarrow>
     (\<exists>p \<in> configured S client. \<exists>q \<in> configured S client.
        path_says R names w a operation p = Some True \<and> path_says R names w a operation q = Some False)"

text \<open>The decision of a list of permissions: that of the first one that says something.\<close>

fun first_said :: "'b option list \<Rightarrow> 'b option" where
  "first_said [] = None"
| "first_said (x # xs) = (case x of Some b \<Rightarrow> Some b | None \<Rightarrow> first_said xs)"

lemma check_paths_first_said:
  "list_all2 (\<lambda>p path. parse_permission R names p = Inr path) ps paths \<Longrightarrow>
     check_paths R w a operation paths = (first_said (map (path_says R names w a operation) ps) = Some True)"
  by (induction rule: list_all2_induct) (auto simp: path_says_def path_matches_def split: option.splits)

lemma first_said_in: "first_said xs = Some b \<Longrightarrow> Some b \<in> set xs"
  by (induction xs) (auto split: option.splits)

lemma first_said_None: "first_said xs = None \<longleftrightarrow> set xs \<subseteq> {None}"
  by (induction xs) (auto split: option.splits)

lemma client_permissions_set: "fair_runtime rt \<Longrightarrow> set (client_permissions rt S client) = configured S client"
  by (simp add: client_permissions_def configured_def map_range_set)

text \<open>Whether the checker starts does not depend on the order.\<close>

lemma startChecker_ok:
  assumes "fair_runtime rt"
  shows "(\<exists>access. startChecker R names rt S = Inr access) \<longleftrightarrow>
    (\<forall>client \<in> set (vp_GetStringMap S ''permissions''). client \<noteq> [] \<and> configured S client \<noteq> {} \<and>
       (\<forall>p \<in> configured S client. \<exists>path. parse_permission R names p = Inr path))"
proof -
  have "(\<exists>access. startChecker R names rt S = Inr access) \<longleftrightarrow>
      (\<exists>access. parse_access R names (map_range rt (map (\<lambda>client. (client, client_permissions rt S client))
         (vp_GetStringMap S ''permissions''))) (\<lambda>_. None) = Inr access)"
    by (auto simp: startChecker_def checker_New_def split: sum.splits)
  moreover have "client_permissions rt S client \<noteq> [] \<longleftrightarrow> configured S client \<noteq> {}" for client
    using client_permissions_set [OF assms, of S client] by (metis set_empty)
  ultimately show ?thesis
    unfolding parse_access_ok by (simp add: map_range_set [OF assms] client_permissions_set [OF assms])
qed

lemma startChecker_decides:
  assumes fair: "fair_runtime rt" and start: "startChecker R names rt S = Inr access"
    and clients: "distinct (vp_GetStringMap S ''permissions'')" "cr_Client c \<in> set (vp_GetStringMap S ''permissions'')"
    and account: "names account = Inr (w, a)" "w \<noteq> []"
  shows "Check R names access (Some c) account operation \<longleftrightarrow>
    first_said (map (path_says R names w a operation) (client_permissions rt S (cr_Client c))) = Some True"
proof -
  let ?perms = "map (\<lambda>client. (client, client_permissions rt S client)) (vp_GetStringMap S ''permissions'')"
  have p: "parse_access R names (map_range rt ?perms) (\<lambda>_. None) = Inr access"
    using start by (auto simp: startChecker_def checker_New_def split: sum.splits)
  have "mset (map fst (map_range rt ?perms)) = mset (vp_GetStringMap S ''permissions'')"
    unfolding mset_map mset_map_range [OF fair] multiset.map_comp o_def fst_conv by simp
  from mset_eq_imp_distinct_iff [OF this] clients(1) have d: "distinct (map fst (map_range rt ?perms))" by blast
  have "(cr_Client c, client_permissions rt S (cr_Client c)) \<in> set (map_range rt ?perms)"
    using clients(2) by (auto simp: map_range_set [OF fair])
  from parse_access_client [OF p d this] obtain paths where paths: "access (cr_Client c) = Some paths"
    "parse_paths R names (client_permissions rt S (cr_Client c)) = Inr paths" by blast
  have "cr_Client c \<noteq> []" using startChecker_ok [OF fair] start clients(2) by blast
  with paths account show ?thesis
    by (simp add: Check_def check_paths_first_said [OF parse_paths_map [OF paths(2)]])
qed

text \<open>A runtime that visits a given entry first.\<close>

definition runtime_first :: "nat \<Rightarrow> go_runtime" where
  "runtime_first i = \<lparr>GOMAXPROCS = 1, schedule = (\<lambda>n. if i < n then i # filter (\<lambda>j. j \<noteq> i) [0..<n] else [0..<n])\<rparr>"

lemma runtime_first_fair: "fair_runtime (runtime_first i)"
proof -
  have "mset (i # filter (\<lambda>j. j \<noteq> i) [0..<n]) = mset [0..<n]" if "i < n" for n
  proof -
    have "distinct (i # filter (\<lambda>j. j \<noteq> i) [0..<n])" and "set (i # filter (\<lambda>j. j \<noteq> i) [0..<n]) = set [0..<n]"
      using that by auto
    then show ?thesis by (metis distinct_upt set_eq_iff_mset_eq_distinct)
  qed
  then show ?thesis by (simp add: fair_runtime_def runtime_first_def)
qed

lemma runtime_first_visits: "i < length m \<Longrightarrow> \<exists>rest. map_range (runtime_first i) m = m ! i # rest"
  by (simp add: map_range_def runtime_first_def)

lemma said_first:
  assumes "p \<in> configured S client" and "path_says R names w a operation p = Some b"
  shows "\<exists>rt. fair_runtime rt \<and> first_said (map (path_says R names w a operation) (client_permissions rt S client)) = Some b"
proof -
  let ?m = "vp_GetStringMapStringSlice S (''permissions.'' @ client)"
  from assms(1) obtain i where i: "i < length ?m" "p = (\<lambda>(path, ops). \<lparr>pm_Path = path, pm_Operations = ops\<rparr>) (?m ! i)"
    by (auto simp: configured_def in_set_conv_nth)
  from runtime_first_visits [OF i(1)] obtain rest where "client_permissions (runtime_first i) S client = p # rest"
    using i(2) by (auto simp: client_permissions_def)
  with assms(2) runtime_first_fair show ?thesis by (intro exI [of _ "runtime_first i"]) simp
qed

lemma order_decides:
  assumes start: "fair_runtime rt0" "startChecker R names rt0 S = Inr access0"
    and clients: "distinct (vp_GetStringMap S ''permissions'')" "cr_Client c \<in> set (vp_GetStringMap S ''permissions'')"
    and account: "names account = Inr (w, a)" "w \<noteq> []"
  shows "(\<exists>rt1 access1 rt2 access2. fair_runtime rt1 \<and> fair_runtime rt2 \<and>
      startChecker R names rt1 S = Inr access1 \<and> startChecker R names rt2 S = Inr access2 \<and>
      Check R names access1 (Some c) account operation \<and> \<not> Check R names access2 (Some c) account operation) \<longleftrightarrow>
    conflicting R names S (cr_Client c) w a operation" (is "?differ \<longleftrightarrow> ?conflict")
proof
  let ?says = "path_says R names w a operation" and ?client = "cr_Client c"
  have decides: "Check R names access (Some c) account operation \<longleftrightarrow>
      first_said (map ?says (client_permissions rt S ?client)) = Some True"
    if "fair_runtime rt" "startChecker R names rt S = Inr access" for rt access
    by (rule startChecker_decides [OF that clients account])
  assume ?differ
  then obtain rt1 access1 rt2 access2 where fair: "fair_runtime rt1" "fair_runtime rt2"
    and "startChecker R names rt1 S = Inr access1" "startChecker R names rt2 S = Inr access2"
    and "Check R names access1 (Some c) account operation" "\<not> Check R names access2 (Some c) account operation" by blast
  with decides have yes: "first_said (map ?says (client_permissions rt1 S ?client)) = Some True"
    and no: "first_said (map ?says (client_permissions rt2 S ?client)) \<noteq> Some True" by blast+
  from first_said_in [OF yes] client_permissions_set [OF fair(1)]
  obtain p where p: "p \<in> configured S ?client" "?says p = Some True" by force
  with client_permissions_set [OF fair(2)] have "first_said (map ?says (client_permissions rt2 S ?client)) \<noteq> None"
    unfolding first_said_None by force
  with no have "first_said (map ?says (client_permissions rt2 S ?client)) = Some False" by (cases "first_said (map ?says (client_permissions rt2 S ?client))") auto
  from first_said_in [OF this] client_permissions_set [OF fair(2)] obtain q where "q \<in> configured S ?client" "?says q = Some False" by force
  with p show ?conflict unfolding conflicting_def by blast
next
  let ?says = "path_says R names w a operation" and ?client = "cr_Client c"
  assume ?conflict
  then obtain p q where "p \<in> configured S ?client" "?says p = Some True" "q \<in> configured S ?client" "?says q = Some False"
    unfolding conflicting_def by blast
  with said_first obtain rt1 rt2 where fair: "fair_runtime rt1" "fair_runtime rt2"
    and first: "first_said (map ?says (client_permissions rt1 S ?client)) = Some True"
      "first_said (map ?says (client_permissions rt2 S ?client)) = Some False" by metis
  have ok: "\<exists>access. startChecker R names rt S = Inr access" if "fair_runtime rt" for rt
    using startChecker_ok [OF start(1), of R names S] startChecker_ok [OF that, of R names S] start(2) by simp
  from ok [OF fair(1)] obtain access1 where a1: "startChecker R names rt1 S = Inr access1" ..
  from ok [OF fair(2)] obtain access2 where a2: "startChecker R names rt2 S = Inr access2" ..
  have "Check R names access1 (Some c) account operation" "\<not> Check R names access2 (Some c) account operation"
    by (simp_all add: startChecker_decides [OF fair(1) a1 clients account] startChecker_decides [OF fair(2) a2 clients account] first)
  with fair a1 a2 show ?differ by blast
qed

section \<open>A daemon that has started\<close>

lemma startProcess_id: "startProcess P S sid certs = Inr pst \<Longrightarrow> pst_id pst = sid \<and> sid \<noteq> 0"
  by (cases certs) (auto simp: startProcess_def split: option.splits sum.splits if_splits)

lemma startGrpcServer_ok:
  assumes "startGrpcServer P rt S = Inr (ps, pst)"
  shows "startPeers rt S = Inr ps" and "pst_id pst \<noteq> 0"
  using assms startProcess_id [of P S] by (auto simp: startGrpcServer_def split: sum.splits option.splits)

lemma initStores_ok: "initStores P S = Inr stores \<Longrightarrow> stores \<noteq> []"
  by (auto simp: initStores_def split: sum.splits if_splits)

lemma started_daemon:
  assumes "startServices P L rt S = Ret (Inr d)"
  obtains stores rules where "initStores P S = Inr stores" "stores \<noteq> []"
    "fetcher_New (lb_wallets L) (lb_stores L) rt (Some ()) (map (pf_Retrieve P) stores) = Inr (dm_fetcher d)"
    "startUnlocker P S = Inr (cf_unlocker (dm_config d))"
    "startChecker (lb_regexp L) (WalletAndAccountNames (lb_wallets L)) rt S = Inr (cf_access (dm_config d))"
    "initRules P (lb_rules L) S = Ret (Inr (cf_rules (dm_config d)))"
    "startPeers rt S = Inr (dm_peers d)" "pst_id (dm_process d) \<noteq> 0"
proof -
  from assms obtain stores un acc fe ru ps pst where "initStores P S = Inr stores" "startUnlocker P S = Inr un"
    "startChecker (lb_regexp L) (WalletAndAccountNames (lb_wallets L)) rt S = Inr acc"
    "fetcher_New (lb_wallets L) (lb_stores L) rt (Some ()) (map (pf_Retrieve P) stores) = Inr fe"
    "initRules P (lb_rules L) S = Ret (Inr ru)" "startGrpcServer P rt S = Inr (ps, pst)"
    "d = \<lparr>dm_config = \<lparr>cf_rules = ru, cf_wallets = lb_wallets L, cf_regexp = lb_regexp L, cf_access = acc, cf_unlocker = un,
            cf_ssz = lb_ssz L\<rparr>, dm_fetcher = fe, dm_peers = ps, dm_process = pst\<rparr>"
    by (auto simp: startServices_def split: sum.splits go.splits)
  with startGrpcServer_ok [of P rt S ps pst] initStores_ok [of P S stores] that [of stores] show thesis by simp
qed

end
