(* ===== verification/Spec_API.thy ===== *)
theory Spec_API
  imports API_Safety Startup Samples_Dirk
begin

text \<open>
  The properties of the gRPC interface and of the start of the daemon.
\<close>

section \<open>The caller of a request\<close>

text \<open>
  C26. Every signature that leaves the gRPC interface - by the handler of generic data, of
  attestations, of proposals or of the two kinds of batches - was made for the client whose name stands
  in the first certificate of a completed TLS handshake on a TCP connection: this client was
  permitted the operation on the account of the message, or of the entry of a batch, the signature is that of
  this account over the root of its data, and generic data keeps to the domains that it may have. An
  answer has a signature exactly when it is a success. Epochs and slots are below \<open>2^63\<close>.
\<close>

theorem api_signatures_for_caller:
  assumes "standard_rules (cf_rules C) contents" and "fair_runtime rt" and "quiet (w_ruler w)"
  shows "(\<forall>req res w'. intercepted n (api_Sign (dirk_signer C) rt req) (fresh_context peer) w = (Ret (Inr res), w') \<longrightarrow>
      signed_answer (\<lambda>g. \<exists>r c. req = Some r \<and> named_caller n peer c \<and> generic_domain_ok C (Some c) (sign_data_of r) \<and>
        granted C (w_fetcher w) (Some c) ActionSign (sq_Account r) (sq_PublicKey r) (generic_root (cf_ssz C) (sign_data_of r)) g) res) \<and>
    (\<forall>req res w'. intercepted n (api_SignBeaconAttestation (dirk_signer C) rt req) (fresh_context peer) w = (Ret (Inr res), w') \<longrightarrow>
      (\<forall>r. req = Some r \<longrightarrow> att_in_range (Some (att_data_of r))) \<longrightarrow>
      signed_answer (\<lambda>g. \<exists>r c. req = Some r \<and> named_caller n peer c \<and>
        granted C (w_fetcher w) (Some c) ActionSignBeaconAttestation (aq_Account r) (aq_PublicKey r) (attestation_root (cf_ssz C) (att_data_of r)) g) res) \<and>
    (\<forall>req res w'. intercepted n (api_SignBeaconProposal (dirk_signer C) rt req) (fresh_context peer) w = (Ret (Inr res), w') \<longrightarrow>
      (\<forall>r d. req = Some r \<and> pq_Data r = Some d \<longrightarrow> prop_in_range (Some (prop_data_of (pq_Domain r) d))) \<longrightarrow>
      signed_answer (\<lambda>g. \<exists>r d c. req = Some r \<and> pq_Data r = Some d \<and> named_caller n peer c \<and>
        granted C (w_fetcher w) (Some c) ActionSignBeaconProposal (pq_Account r) (pq_PublicKey r)
          (proposal_root (cf_ssz C) (prop_data_of (pq_Domain r) d)) g) res) \<and>
    (\<forall>req rs w' j. intercepted n (api_Multisign (dirk_signer C) rt req) (fresh_context peer) w = (Ret (Inr rs), w') \<longrightarrow> j < length rs \<longrightarrow>
      signed_answer (\<lambda>g. \<exists>requests r c. req = Some requests \<and> j < length requests \<and> requests ! j = Some r \<and>
        named_caller n peer c \<and> generic_domain_ok C (Some c) (sign_data_of r) \<and>
        granted C (w_fetcher w) (Some c) ActionSign (sq_Account r) (sq_PublicKey r) (generic_root (cf_ssz C) (sign_data_of r)) g) (rs ! j)) \<and>
    (\<forall>req rs w' j. intercepted n (api_SignBeaconAttestations (dirk_signer C) rt req) (fresh_context peer) w = (Ret (Inr rs), w') \<longrightarrow> j < length rs \<longrightarrow>
      (\<forall>requests r. req = Some requests \<and> Some r \<in> set requests \<longrightarrow> att_in_range (Some (att_data_of r))) \<longrightarrow>
      signed_answer (\<lambda>g. \<exists>requests r c. req = Some requests \<and> j < length requests \<and> requests ! j = Some r \<and> named_caller n peer c \<and>
        granted C (w_fetcher w) (Some c) ActionSignBeaconAttestation (aq_Account r) (aq_PublicKey r) (attestation_root (cf_ssz C) (att_data_of r)) g) (rs ! j))"
proof (intro conjI allI impI, goal_cases)
  have D: "dirk C contents" using assms(1) by (simp add: dirk_def)
  note named = dirk.granted_named [OF D] and prems = assms(2,3) refl
  {
    case (1 req res w')
    then obtain ctx where ctx: "api_Sign (dirk_signer C) rt req ctx w = (Ret (Inr res), w')"
      "cr_Client (GenerateCredentials ctx) \<noteq> [] \<longrightarrow> named_caller n peer (GenerateCredentials ctx)" by (rule intercepted_caller)
    show ?case by (rule signed_answer_mono [OF dirk.api_Sign_answered [OF D prems ctx(1)]]) (use ctx(2) named in blast)
  next
    case (2 req res w')
    from 2(1) obtain ctx where ctx: "api_SignBeaconAttestation (dirk_signer C) rt req ctx w = (Ret (Inr res), w')"
      "cr_Client (GenerateCredentials ctx) \<noteq> [] \<longrightarrow> named_caller n peer (GenerateCredentials ctx)" by (rule intercepted_caller)
    from dirk.api_attestation_answered [OF D prems 2(2) ctx(1)]
    have "signed_answer (\<lambda>g. \<exists>r. req = Some r \<and> granted C (w_fetcher w) (Some (GenerateCredentials ctx)) ActionSignBeaconAttestation
        (aq_Account r) (aq_PublicKey r) (attestation_root (cf_ssz C) (att_data_of r)) g) res"
      by (auto simp: attestation_answer_ok_def signed_answer_def split: if_splits)
    then show ?case by (rule signed_answer_mono) (use ctx(2) named in blast)
  next
    case (3 req res w')
    from 3(1) obtain ctx where ctx: "api_SignBeaconProposal (dirk_signer C) rt req ctx w = (Ret (Inr res), w')"
      "cr_Client (GenerateCredentials ctx) \<noteq> [] \<longrightarrow> named_caller n peer (GenerateCredentials ctx)" by (rule intercepted_caller)
    show ?case by (rule signed_answer_mono [OF dirk.api_proposal_answered [OF D prems 3(2) ctx(1)]]) (use ctx(2) named in blast)
  next
    case (4 req rs w' j)
    from 4(1) obtain ctx where ctx: "api_Multisign (dirk_signer C) rt req ctx w = (Ret (Inr rs), w')"
      "cr_Client (GenerateCredentials ctx) \<noteq> [] \<longrightarrow> named_caller n peer (GenerateCredentials ctx)" by (rule intercepted_caller)
    show ?case by (rule signed_answer_mono [OF dirk.api_Multisign_answered [OF D prems ctx(1) 4(2)]]) (use ctx(2) named in blast)
  next
    case (5 req rs w' j)
    from 5(1) obtain ctx where ctx: "api_SignBeaconAttestations (dirk_signer C) rt req ctx w = (Ret (Inr rs), w')"
      "cr_Client (GenerateCredentials ctx) \<noteq> [] \<longrightarrow> named_caller n peer (GenerateCredentials ctx)" by (rule intercepted_caller)
    show ?case by (rule signed_answer_mono [OF dirk.api_attestations_answered [OF D prems 5(3) ctx(1) 5(2)]]) (use ctx(2) named in blast)
  }
qed

definition sample_request :: att_request where
  "sample_request = \<lparr>aq_Account = ''Wallet/Account'', aq_PublicKey = None, aq_Domain = ad_Domain (sample_att 3 4),
     aq_Data = Some \<lparr>pa_Slot = ad_Slot (sample_att 3 4), pa_CommitteeIndex = ad_CommitteeIndex (sample_att 3 4),
       pa_BeaconBlockRoot = ad_BeaconBlockRoot (sample_att 3 4),
       pa_Source = map_option (\<lambda>c. \<lparr>pc_Epoch = cp_Epoch c, pc_Root = cp_Root c\<rparr>) (ad_Source (sample_att 3 4)),
       pa_Target = map_option (\<lambda>c. \<lparr>pc_Epoch = cp_Epoch c, pc_Root = cp_Root c\<rparr>) (ad_Target (sample_att 3 4))\<rparr>\<rparr>"

definition sample_peer :: grpc_peer where
  "sample_peer = \<lparr>gp_TCPAddr = Some ''10.0.0.7'', gp_TLSInfo = Some (True, [''client1''])\<rparr>"

lemma sample_request_data: "att_data_of sample_request = sample_att 3 4"
  by (simp add: sample_request_def att_data_of_def sample_att_def checkpoint_of_def)

lemma sample_api_call:
  "fst (intercepted 171 (api_SignBeaconAttestation (dirk_signer sample_config) sample_runtime (Some sample_request))
     (fresh_context (Some sample_peer)) sample_world) =
   Ret (Inr \<lparr>rs_State = STATE_SUCCEEDED, rs_Signature = Some (replicate 48 1 @ replicate 32 5 @ 1 # replicate 31 0)\<rparr>)"
  by code_simp

lemma sample_att_range: "att_in_range (Some (sample_att 3 4))"
  by (simp add: att_in_range_def sample_att_def att_epochs_def)

lemma sample_world_quiet: "quiet (w_ruler sample_world)"
  by (simp add: sample_world_def sample_state_quiet)

theorem api_signatures_for_caller_witness:
  "\<exists>g. granted sample_config (w_fetcher sample_world) (Some \<lparr>cr_RequestID = ''ab'', cr_Client = ''client1'', cr_IP = ''10.0.0.7''\<rparr>)
     ActionSignBeaconAttestation ''Wallet/Account'' None (attestation_root (cf_ssz sample_config) (sample_att 3 4)) g"
proof -
  let ?res = "\<lparr>rs_State = STATE_SUCCEEDED, rs_Signature = Some (replicate 48 1 @ replicate 32 5 @ 1 # replicate 31 0)\<rparr>"
  obtain w' where call: "intercepted 171 (api_SignBeaconAttestation (dirk_signer sample_config) sample_runtime (Some sample_request))
     (fresh_context (Some sample_peer)) sample_world = (Ret (Inr ?res), w')"
    using sample_api_call by (metis prod.collapse)
  have rng: "\<forall>r. Some sample_request = Some r \<longrightarrow> att_in_range (Some (att_data_of r))" using sample_att_range by (simp add: sample_request_data)
  note all = api_signatures_for_caller [OF sample_dirk.standard_rules_axioms sample_runtime_fair sample_world_quiet, THEN conjunct2, THEN conjunct1]
  from all [THEN spec, THEN spec, THEN spec, THEN mp, OF call, THEN mp, OF rng]
  have "\<exists>g. granted sample_config (w_fetcher sample_world) (Some \<lparr>cr_RequestID = sprint_02x 171, cr_Client = ''client1'', cr_IP = ''10.0.0.7''\<rparr>)
     ActionSignBeaconAttestation (aq_Account sample_request) (aq_PublicKey sample_request) (attestation_root (cf_ssz sample_config) (sample_att 3 4)) g"
    by (auto simp: signed_answer_def named_caller_def sample_request_data sample_peer_def)
  moreover have "sprint_02x 171 = ''ab''" by code_simp
  ultimately show ?thesis by (simp add: sample_request_def)
qed

section \<open>Batches of attestations\<close>

text \<open>
  C30. A batch of attestations is answered entry by entry: there is one answer for each entry, an
  answer has a signature exactly when it is a success, and it is then the signature of the account
  of its own entry over its own attestation, permitted to the caller. One malformed entry refuses
  the whole batch before anything is touched. Writing the results into the answers is always
  within bounds: the handler panics or blocks only when the signer does.
\<close>

theorem attestations_answered:
  assumes "standard_rules (cf_rules C) contents" and "fair_runtime rt" and "quiet (w_ruler w)" and "requests \<noteq> []"
    and "\<forall>r. Some r \<in> set requests \<longrightarrow> att_in_range (Some (att_data_of r))"
  shows "case api_SignBeaconAttestations (dirk_signer C) rt (Some requests) ctx w of
      (Ret out, w') \<Rightarrow> \<exists>rs. out = Inr rs \<and> length rs = length requests \<and>
        (\<forall>j < length requests. attestation_answer_ok C (w_fetcher w) (GenerateCredentials ctx) (requests ! j) (rs ! j)) \<and>
        ((\<exists>r \<in> set requests. attestations_entry_state r \<noteq> STATE_UNKNOWN) \<longrightarrow>
           w' = w \<and> (\<forall>j < length requests. rs_State (rs ! j) \<noteq> STATE_SUCCEEDED))
    | (Panic e, w') \<Rightarrow> attestations_call C rt requests ctx w = (Panic e, w')
    | (Block, w') \<Rightarrow> attestations_call C rt requests ctx w = (Block, w')"
proof -
  have D: "dirk C contents" using assms(1) by (simp add: dirk_def)
  show ?thesis
  proof (cases "\<exists>r \<in> set requests. attestations_entry_state r \<noteq> STATE_UNKNOWN")
    case True
    then obtain r where "r \<in> set requests" "attestations_entry_state r \<noteq> STATE_UNKNOWN" by blast
    from dirk.api_attestations_refused [OF D assms(4) this, where V = "dirk_signer C" and rt = rt and ctx = ctx and w = w
        and f' = "w_fetcher w" and c = "GenerateCredentials ctx"]
    show ?thesis by auto
  next
    case False
    then have good: "\<forall>r \<in> set requests. attestations_entry_state r = STATE_UNKNOWN" by blast
    note served = dirk.api_attestations_served [OF D assms(2,4) good assms(5,3) refl, of ctx]
    obtain r w1 where call: "attestations_call C rt requests ctx w = (r, w1)" by force
    show ?thesis
    proof (cases r)
      case (Ret x)
      obtain results sigs where x: "x = (results, sigs)" by force
      from served(1) served(2) [of results sigs w1] False show ?thesis
        by (auto simp: served_batch_def call Ret x)
    qed (use served(1) in \<open>simp_all add: served_batch_def call\<close>)
  qed
qed

lemma sample_batch_call:
  "fst (api_SignBeaconAttestations (dirk_signer sample_config) sample_runtime (Some [Some sample_request])
     \<lparr>cx_Peer = None, cx_RequestID = None, cx_ClientName = Some ''client1'', cx_ExternalIP = None\<rparr> sample_world) =
   Ret (Inr [\<lparr>rs_State = STATE_SUCCEEDED, rs_Signature = Some (replicate 48 1 @ replicate 32 5 @ 1 # replicate 31 0)\<rparr>])"
  by code_simp

theorem attestations_answered_witness:
  "\<exists>g. granted sample_config (w_fetcher sample_world) (Some \<lparr>cr_RequestID = [], cr_Client = ''client1'', cr_IP = []\<rparr>)
     ActionSignBeaconAttestation ''Wallet/Account'' None (attestation_root (cf_ssz sample_config) (sample_att 3 4)) g"
proof -
  let ?ctx = "\<lparr>cx_Peer = None, cx_RequestID = None, cx_ClientName = Some ''client1'', cx_ExternalIP = None\<rparr>"
  have creds: "GenerateCredentials ?ctx = \<lparr>cr_RequestID = [], cr_Client = ''client1'', cr_IP = []\<rparr>"
    by (simp add: GenerateCredentials_def)
  obtain w' where "api_SignBeaconAttestations (dirk_signer sample_config) sample_runtime (Some [Some sample_request]) ?ctx sample_world =
     (Ret (Inr [\<lparr>rs_State = STATE_SUCCEEDED, rs_Signature = Some (replicate 48 1 @ replicate 32 5 @ 1 # replicate 31 0)\<rparr>]), w')"
    using sample_batch_call by (metis prod.collapse)
  with attestations_answered [OF sample_dirk.standard_rules_axioms sample_runtime_fair sample_world_quiet,
      of "[Some sample_request]" ?ctx] sample_att_range
  show ?thesis by (auto simp: sample_request_data creds attestation_answer_ok_def) (auto simp: sample_request_def)
qed

section \<open>The order of permissions\<close>

text \<open>
  C38. The paths of a client are read from a Go map, so their order is that of the iteration. Two
  starts of the daemon on one configuration can decide the same request differently exactly when
  two paths of the client match the account and contradict each other on the operation.
\<close>

theorem permission_order_matters:
  assumes "fair_runtime rt0" and "startChecker R names rt0 S = Inr access0"
    and "distinct (vp_GetStringMap S ''permissions'')" and "cr_Client c \<in> set (vp_GetStringMap S ''permissions'')"
    and "names account = Inr (w, a)" and "w \<noteq> []"
  shows "(\<exists>rt1 access1 rt2 access2. fair_runtime rt1 \<and> fair_runtime rt2 \<and>
      startChecker R names rt1 S = Inr access1 \<and> startChecker R names rt2 S = Inr access2 \<and>
      Check R names access1 (Some c) account operation \<and> \<not> Check R names access2 (Some c) account operation) \<longleftrightarrow>
    conflicting R names S (cr_Client c) w a operation"
  by (rule order_decides [OF assms])

text \<open>All accounts may sign, but one may not; the regular expressions are \<open>.*\<close> and plain names.\<close>

definition sample_settings :: settings where
  "sample_settings = \<lparr>vp_GetString = (\<lambda>_. []), vp_GetStringSlice = (\<lambda>_. []), vp_GetBool = (\<lambda>_. False), vp_GetDuration = (\<lambda>_. 0),
     vp_GetStringMap = (\<lambda>_. [''client1'']), vp_GetStringMapString = (\<lambda>_. []),
     vp_GetStringMapStringSlice = (\<lambda>_. [(''Wallet'', [''All'']), (''Wallet/Account'', [''None''])]), vp_Stores = Inr []\<rparr>"

definition sample_names :: "string \<Rightarrow> err + string \<times> string" where
  "sample_names path = (case Split path (CHR ''/'') of [w] \<Rightarrow> Inr (w, []) | [w, a] \<Rightarrow> Inr (w, a) | _ \<Rightarrow> Inl ''invalid'')"

definition sample_patterns :: "string regexp_lib" where
  "sample_patterns = \<lparr>re_Compile = Inr, re_MatchString = (\<lambda>re s. re = ''(?i)^'' @ s @ ''$'' \<or> re = ''(?i)^(?i).*$'')\<rparr>"

lemma sample_checker_starts: "\<exists>access. startChecker sample_patterns sample_names sample_runtime sample_settings = Inr access"
proof -
  have "case startChecker sample_patterns sample_names sample_runtime sample_settings of Inl e \<Rightarrow> False | Inr access \<Rightarrow> True"
    by code_simp
  then show ?thesis by (auto split: sum.splits)
qed

theorem permission_order_matters_witness:
  "\<exists>rt1 access1 rt2 access2. startChecker sample_patterns sample_names rt1 sample_settings = Inr access1 \<and>
     startChecker sample_patterns sample_names rt2 sample_settings = Inr access2 \<and>
     Check sample_patterns sample_names access1 (Some sample_creds) ''Wallet/Account'' ''Sign'' \<and>
     \<not> Check sample_patterns sample_names access2 (Some sample_creds) ''Wallet/Account'' ''Sign''"
proof -
  obtain access where start: "startChecker sample_patterns sample_names sample_runtime sample_settings = Inr access"
    using sample_checker_starts by blast
  have "sample_names ''Wallet/Account'' = Inr (''Wallet'', ''Account'')" by code_simp
  moreover have "conflicting sample_patterns sample_names sample_settings (cr_Client sample_creds) ''Wallet'' ''Account'' ''Sign''"
    by code_simp
  ultimately show ?thesis
    using permission_order_matters [OF sample_runtime_fair start, of sample_creds "''Wallet/Account''" "''Wallet''" "''Account''" "''Sign''"]
    by (auto simp: sample_settings_def sample_creds_def)
qed

end
