(* ===== verification/Options.thy ===== *)
theory Options
  imports Startup
begin

text \<open>
  The options of the services. A constructor takes a list of options (\<open>parameters.go\<close> of every
  package), applies them one after the other to its defaults and refuses the result when something
  that it needs is missing; the rest of the constructor (\<open>New\<close>) puts the service together. An option
  is a value of a datatype with one constructor for each function \<open>With\<dots>\<close>, and a nil option is \<open>None\<close>.
  Services are type variables here: a constructor only hands them on.
\<close>

section \<open>Applying options\<close>

text \<open>
  The loop \<open>for _, p := range params { if params != nil { p.apply(&parameters) } }\<close>: the guard looks at
  the list, which is not nil inside the loop, and a nil option is called.
\<close>

fun apply_all :: "('q \<Rightarrow> 'p \<Rightarrow> 'p) \<Rightarrow> 'q option list \<Rightarrow> 'p \<Rightarrow> 'p go" where
  "apply_all app [] p = Ret p"
| "apply_all app (None # params) p = Panic nil_deref"
| "apply_all app (Some q # params) p = apply_all app params (app q p)"

text \<open>The checks in their order: the first one that fails gives the error.\<close>

fun require :: "(bool \<times> err) list \<Rightarrow> 'p \<Rightarrow> err + 'p" where
  "require [] p = Inr p"
| "require ((missing, e) # checks) p = (if missing then Inl e else require checks p)"

text \<open>A call whose error is wrapped and returned, and the rest of the function.\<close>

definition go_then :: "string \<Rightarrow> (err + 'a) go \<Rightarrow> ('a \<Rightarrow> (err + 'b) go) \<Rightarrow> (err + 'b) go" where
  "go_then msg r k =
     (case r of
        Ret (Inl e) \<Rightarrow> Ret (Inl (wrap_err msg e))
      | Ret (Inr x) \<Rightarrow> k x
      | Panic e \<Rightarrow> Panic e
      | Block \<Rightarrow> Block)"

lemma go_then_simps [simp]:
  "go_then msg (Ret (Inl e)) k = Ret (Inl (wrap_err msg e))" "go_then msg (Ret (Inr x)) k = k x"
  "go_then msg (Panic e') k = Panic e'"
  by (simp_all add: go_then_def)

text \<open>All options are applied in their order, unless one is nil.\<close>

lemma apply_all_fold:
  "apply_all app params p = (if None \<in> set params then Panic nil_deref else Ret (fold app (map the params) p))"
  by (induction app params p rule: apply_all.induct) auto

lemma require_Inr: "require checks p = Inr q \<longleftrightarrow> q = p \<and> (\<forall>(missing, e) \<in> set checks. \<not> missing)"
  by (induction checks p rule: require.induct) auto

text \<open>
  A field that an option sets, for the options that set it: after a list of options it has the value
  of the last one that sets it, whatever the others are, and its default when there is none.
\<close>

definition last_set :: "('q \<Rightarrow> 'v option) \<Rightarrow> 'q list \<Rightarrow> 'v \<Rightarrow> 'v" where
  "last_set sets qs v = fold (\<lambda>q v. case sets q of None \<Rightarrow> v | Some v' \<Rightarrow> v') qs v"

lemma last_set_snoc [simp]: "last_set sets (qs @ [q]) v = (case sets q of None \<Rightarrow> last_set sets qs v | Some v' \<Rightarrow> v')"
  by (simp add: last_set_def split: option.split)

lemma last_set_Nil [simp]: "last_set sets [] v = v"
  by (simp add: last_set_def)

locale option_field =
  fixes app :: "'q \<Rightarrow> 'p \<Rightarrow> 'p" and field :: "'p \<Rightarrow> 'v" and sets :: "'q \<Rightarrow> 'v option"
  assumes field_app: "field (app q p) = (case sets q of None \<Rightarrow> field p | Some v \<Rightarrow> v)"
begin

lemma field_fold: "field (fold app qs p) = last_set sets qs (field p)"
  by (induction qs rule: rev_induct) (simp_all add: field_app split: option.split)

end

section \<open>Signer: \<open>services/signer/standard\<close>\<close>

record ('mon, 'chk, 'fet, 'rul, 'unl) signer_parameters =
  signer_p_logLevel :: log_level
  signer_p_monitor :: "'mon option"
  signer_p_checker :: "'chk option"
  signer_p_fetcher :: "'fet option"
  signer_p_ruler :: "'rul option"
  signer_p_unlocker :: "'unl option"

datatype ('mon, 'chk, 'fet, 'rul, 'unl) signer_parameter =
    signer_WithLogLevel log_level
  | signer_WithMonitor "'mon option"
  | signer_WithChecker "'chk option"
  | signer_WithRuler "'rul option"
  | signer_WithUnlocker "'unl option"
  | signer_WithFetcher "'fet option"

fun signer_apply :: "('mon, 'chk, 'fet, 'rul, 'unl) signer_parameter \<Rightarrow>
     ('mon, 'chk, 'fet, 'rul, 'unl) signer_parameters \<Rightarrow>
     ('mon, 'chk, 'fet, 'rul, 'unl) signer_parameters" where
  "signer_apply (signer_WithLogLevel logLevel) p = p\<lparr>signer_p_logLevel := logLevel\<rparr>"
| "signer_apply (signer_WithMonitor monitor) p = p\<lparr>signer_p_monitor := monitor\<rparr>"
| "signer_apply (signer_WithChecker service) p = p\<lparr>signer_p_checker := service\<rparr>"
| "signer_apply (signer_WithRuler service) p = p\<lparr>signer_p_ruler := service\<rparr>"
| "signer_apply (signer_WithUnlocker service) p = p\<lparr>signer_p_unlocker := service\<rparr>"
| "signer_apply (signer_WithFetcher service) p = p\<lparr>signer_p_fetcher := service\<rparr>"

definition signer_parse ::
  "log_level \<Rightarrow> 'mon \<Rightarrow>
     ('mon, 'chk, 'fet, 'rul, 'unl) signer_parameter option list \<Rightarrow>
     (err + ('mon, 'chk, 'fet, 'rul, 'unl) signer_parameters) go" where
  "signer_parse globalLevel noop params =
     map_go (\<lambda>p. let p = (if signer_p_monitor p = None then p\<lparr>signer_p_monitor := Some noop\<rparr> else p) in
        require [(signer_p_checker p = None, ''no checker specified''),
          (signer_p_ruler p = None, ''no ruler specified''),
          (signer_p_unlocker p = None, ''no unlocker specified''),
          (signer_p_fetcher p = None, ''no fetcher specified'')] p)
       (apply_all signer_apply params
          \<lparr>signer_p_logLevel = globalLevel, signer_p_monitor = None, signer_p_checker = None,
             signer_p_fetcher = None, signer_p_ruler = None, signer_p_unlocker = None\<rparr>)"

record ('mon, 'unl, 'chk, 'fet, 'rul) signer_service =
  signer_s_monitor :: "'mon option"
  signer_s_unlocker :: "'unl option"
  signer_s_checker :: "'chk option"
  signer_s_fetcher :: "'fet option"
  signer_s_ruler :: "'rul option"

definition signer_New ::
  "log_level \<Rightarrow> 'mon \<Rightarrow>
     ('mon, 'chk, 'fet, 'rul, 'unl) signer_parameter option list \<Rightarrow>
     (err + ('mon, 'unl, 'chk, 'fet, 'rul) signer_service) go" where
  "signer_New globalLevel noop params =
     go_then ''problem with parameters'' (signer_parse globalLevel noop params)
       (\<lambda>p. Ret (Inr \<lparr>signer_s_monitor = signer_p_monitor p, signer_s_unlocker = signer_p_unlocker p,
             signer_s_checker = signer_p_checker p, signer_s_fetcher = signer_p_fetcher p,
             signer_s_ruler = signer_p_ruler p\<rparr>))"

section \<open>Lister: \<open>services/lister/standard\<close>\<close>

record ('mon, 'chk, 'fet, 'rul) lister_parameters =
  lister_p_logLevel :: log_level
  lister_p_monitor :: "'mon option"
  lister_p_checker :: "'chk option"
  lister_p_fetcher :: "'fet option"
  lister_p_ruler :: "'rul option"

datatype ('mon, 'chk, 'fet, 'rul) lister_parameter =
    lister_WithLogLevel log_level
  | lister_WithMonitor "'mon option"
  | lister_WithChecker "'chk option"
  | lister_WithRuler "'rul option"
  | lister_WithFetcher "'fet option"

fun lister_apply :: "('mon, 'chk, 'fet, 'rul) lister_parameter \<Rightarrow>
     ('mon, 'chk, 'fet, 'rul) lister_parameters \<Rightarrow> ('mon, 'chk, 'fet, 'rul) lister_parameters" where
  "lister_apply (lister_WithLogLevel logLevel) p = p\<lparr>lister_p_logLevel := logLevel\<rparr>"
| "lister_apply (lister_WithMonitor monitor) p = p\<lparr>lister_p_monitor := monitor\<rparr>"
| "lister_apply (lister_WithChecker service) p = p\<lparr>lister_p_checker := service\<rparr>"
| "lister_apply (lister_WithRuler service) p = p\<lparr>lister_p_ruler := service\<rparr>"
| "lister_apply (lister_WithFetcher service) p = p\<lparr>lister_p_fetcher := service\<rparr>"

definition lister_parse ::
  "log_level \<Rightarrow> 'mon \<Rightarrow> ('mon, 'chk, 'fet, 'rul) lister_parameter option list \<Rightarrow>
     (err + ('mon, 'chk, 'fet, 'rul) lister_parameters) go" where
  "lister_parse globalLevel noop params =
     map_go (\<lambda>p. let p = (if lister_p_monitor p = None then p\<lparr>lister_p_monitor := Some noop\<rparr> else p) in
        require [(lister_p_checker p = None, ''no checker specified''),
          (lister_p_ruler p = None, ''no ruler specified''),
          (lister_p_fetcher p = None, ''no fetcher specified'')] p)
       (apply_all lister_apply params
          \<lparr>lister_p_logLevel = globalLevel, lister_p_monitor = None, lister_p_checker = None,
             lister_p_fetcher = None, lister_p_ruler = None\<rparr>)"

record ('mon, 'chk, 'fet, 'rul) lister_service =
  lister_s_monitor :: "'mon option"
  lister_s_checker :: "'chk option"
  lister_s_fetcher :: "'fet option"
  lister_s_ruler :: "'rul option"

definition lister_New ::
  "log_level \<Rightarrow> 'mon \<Rightarrow> ('mon, 'chk, 'fet, 'rul) lister_parameter option list \<Rightarrow>
     (err + ('mon, 'chk, 'fet, 'rul) lister_service) go" where
  "lister_New globalLevel noop params =
     go_then ''problem with parameters'' (lister_parse globalLevel noop params)
       (\<lambda>p. Ret (Inr \<lparr>lister_s_monitor = lister_p_monitor p, lister_s_checker = lister_p_checker p,
             lister_s_fetcher = lister_p_fetcher p, lister_s_ruler = lister_p_ruler p\<rparr>))"

section \<open>Wallet manager: \<open>services/walletmanager/standard\<close>\<close>

record ('mon, 'chk, 'fet, 'rul, 'unl) walletmanager_parameters =
  walletmanager_p_logLevel :: log_level
  walletmanager_p_monitor :: "'mon option"
  walletmanager_p_checker :: "'chk option"
  walletmanager_p_fetcher :: "'fet option"
  walletmanager_p_ruler :: "'rul option"
  walletmanager_p_unlocker :: "'unl option"

datatype ('mon, 'chk, 'fet, 'rul, 'unl) walletmanager_parameter =
    walletmanager_WithLogLevel log_level
  | walletmanager_WithMonitor "'mon option"
  | walletmanager_WithChecker "'chk option"
  | walletmanager_WithRuler "'rul option"
  | walletmanager_WithUnlocker "'unl option"
  | walletmanager_WithFetcher "'fet option"

fun walletmanager_apply :: "('mon, 'chk, 'fet, 'rul, 'unl) walletmanager_parameter \<Rightarrow>
     ('mon, 'chk, 'fet, 'rul, 'unl) walletmanager_parameters \<Rightarrow>
     ('mon, 'chk, 'fet, 'rul, 'unl) walletmanager_parameters" where
  "walletmanager_apply (walletmanager_WithLogLevel logLevel) p = p\<lparr>walletmanager_p_logLevel := logLevel\<rparr>"
| "walletmanager_apply (walletmanager_WithMonitor monitor) p = p\<lparr>walletmanager_p_monitor := monitor\<rparr>"
| "walletmanager_apply (walletmanager_WithChecker service) p = p\<lparr>walletmanager_p_checker := service\<rparr>"
| "walletmanager_apply (walletmanager_WithRuler service) p = p\<lparr>walletmanager_p_ruler := service\<rparr>"
| "walletmanager_apply (walletmanager_WithUnlocker service) p = p\<lparr>walletmanager_p_unlocker := service\<rparr>"
| "walletmanager_apply (walletmanager_WithFetcher service) p = p\<lparr>walletmanager_p_fetcher := service\<rparr>"

definition walletmanager_parse ::
  "log_level \<Rightarrow> 'mon \<Rightarrow>
     ('mon, 'chk, 'fet, 'rul, 'unl) walletmanager_parameter option list \<Rightarrow>
     (err + ('mon, 'chk, 'fet, 'rul, 'unl) walletmanager_parameters) go" where
  "walletmanager_parse globalLevel noop params =
     map_go (\<lambda>p. let p = (if walletmanager_p_monitor p = None then p\<lparr>walletmanager_p_monitor := Some noop\<rparr> else p) in
        require [(walletmanager_p_checker p = None, ''no checker specified''),
          (walletmanager_p_ruler p = None, ''no ruler specified''),
          (walletmanager_p_unlocker p = None, ''no unlocker specified''),
          (walletmanager_p_fetcher p = None, ''no fetcher specified'')] p)
       (apply_all walletmanager_apply params
          \<lparr>walletmanager_p_logLevel = globalLevel, walletmanager_p_monitor = None,
             walletmanager_p_checker = None, walletmanager_p_fetcher = None, walletmanager_p_ruler = None,
             walletmanager_p_unlocker = None\<rparr>)"

record ('mon, 'unl, 'chk, 'fet, 'rul) walletmanager_service =
  walletmanager_s_monitor :: "'mon option"
  walletmanager_s_unlocker :: "'unl option"
  walletmanager_s_checker :: "'chk option"
  walletmanager_s_fetcher :: "'fet option"
  walletmanager_s_ruler :: "'rul option"

definition walletmanager_New ::
  "log_level \<Rightarrow> 'mon \<Rightarrow>
     ('mon, 'chk, 'fet, 'rul, 'unl) walletmanager_parameter option list \<Rightarrow>
     (err + ('mon, 'unl, 'chk, 'fet, 'rul) walletmanager_service) go" where
  "walletmanager_New globalLevel noop params =
     go_then ''problem with parameters'' (walletmanager_parse globalLevel noop params)
       (\<lambda>p. Ret (Inr \<lparr>walletmanager_s_monitor = walletmanager_p_monitor p,
             walletmanager_s_unlocker = walletmanager_p_unlocker p,
             walletmanager_s_checker = walletmanager_p_checker p,
             walletmanager_s_fetcher = walletmanager_p_fetcher p,
             walletmanager_s_ruler = walletmanager_p_ruler p\<rparr>))"

section \<open>Account manager: \<open>services/accountmanager/standard\<close>\<close>

record ('mon, 'chk, 'fet, 'rul, 'unl, 'prc) accountmanager_parameters =
  accountmanager_p_logLevel :: log_level
  accountmanager_p_monitor :: "'mon option"
  accountmanager_p_checker :: "'chk option"
  accountmanager_p_fetcher :: "'fet option"
  accountmanager_p_ruler :: "'rul option"
  accountmanager_p_unlocker :: "'unl option"
  accountmanager_p_process :: "'prc option"

datatype ('mon, 'chk, 'fet, 'rul, 'unl, 'prc) accountmanager_parameter =
    accountmanager_WithLogLevel log_level
  | accountmanager_WithMonitor "'mon option"
  | accountmanager_WithChecker "'chk option"
  | accountmanager_WithRuler "'rul option"
  | accountmanager_WithUnlocker "'unl option"
  | accountmanager_WithProcess "'prc option"
  | accountmanager_WithFetcher "'fet option"

fun accountmanager_apply :: "('mon, 'chk, 'fet, 'rul, 'unl, 'prc) accountmanager_parameter \<Rightarrow>
     ('mon, 'chk, 'fet, 'rul, 'unl, 'prc) accountmanager_parameters \<Rightarrow>
     ('mon, 'chk, 'fet, 'rul, 'unl, 'prc) accountmanager_parameters" where
  "accountmanager_apply (accountmanager_WithLogLevel logLevel) p = p\<lparr>accountmanager_p_logLevel := logLevel\<rparr>"
| "accountmanager_apply (accountmanager_WithMonitor monitor) p = p\<lparr>accountmanager_p_monitor := monitor\<rparr>"
| "accountmanager_apply (accountmanager_WithChecker service) p = p\<lparr>accountmanager_p_checker := service\<rparr>"
| "accountmanager_apply (accountmanager_WithRuler service) p = p\<lparr>accountmanager_p_ruler := service\<rparr>"
| "accountmanager_apply (accountmanager_WithUnlocker service) p = p\<lparr>accountmanager_p_unlocker := service\<rparr>"
| "accountmanager_apply (accountmanager_WithProcess service) p = p\<lparr>accountmanager_p_process := service\<rparr>"
| "accountmanager_apply (accountmanager_WithFetcher service) p = p\<lparr>accountmanager_p_fetcher := service\<rparr>"

definition accountmanager_parse ::
  "log_level \<Rightarrow> 'mon \<Rightarrow>
     ('mon, 'chk, 'fet, 'rul, 'unl, 'prc) accountmanager_parameter option list \<Rightarrow>
     (err + ('mon, 'chk, 'fet, 'rul, 'unl, 'prc) accountmanager_parameters) go" where
  "accountmanager_parse globalLevel noop params =
     map_go (\<lambda>p. let p = (if accountmanager_p_monitor p = None then p\<lparr>accountmanager_p_monitor := Some noop\<rparr> else p) in
        require [(accountmanager_p_checker p = None, ''no checker specified''),
          (accountmanager_p_ruler p = None, ''no ruler specified''),
          (accountmanager_p_unlocker p = None, ''no unlocker specified''),
          (accountmanager_p_process p = None, ''no process specified''),
          (accountmanager_p_fetcher p = None, ''no fetcher specified'')] p)
       (apply_all accountmanager_apply params
          \<lparr>accountmanager_p_logLevel = globalLevel, accountmanager_p_monitor = None,
             accountmanager_p_checker = None, accountmanager_p_fetcher = None, accountmanager_p_ruler = None,
             accountmanager_p_unlocker = None, accountmanager_p_process = None\<rparr>)"

record ('mon, 'unl, 'chk, 'fet, 'rul, 'prc) accountmanager_service =
  accountmanager_s_monitor :: "'mon option"
  accountmanager_s_unlocker :: "'unl option"
  accountmanager_s_checker :: "'chk option"
  accountmanager_s_fetcher :: "'fet option"
  accountmanager_s_ruler :: "'rul option"
  accountmanager_s_process :: "'prc option"

definition accountmanager_New ::
  "log_level \<Rightarrow> 'mon \<Rightarrow>
     ('mon, 'chk, 'fet, 'rul, 'unl, 'prc) accountmanager_parameter option list \<Rightarrow>
     (err + ('mon, 'unl, 'chk, 'fet, 'rul, 'prc) accountmanager_service) go" where
  "accountmanager_New globalLevel noop params =
     go_then ''problem with parameters'' (accountmanager_parse globalLevel noop params)
       (\<lambda>p. Ret (Inr \<lparr>accountmanager_s_monitor = accountmanager_p_monitor p,
             accountmanager_s_unlocker = accountmanager_p_unlocker p,
             accountmanager_s_checker = accountmanager_p_checker p,
             accountmanager_s_fetcher = accountmanager_p_fetcher p,
             accountmanager_s_ruler = accountmanager_p_ruler p,
             accountmanager_s_process = accountmanager_p_process p\<rparr>))"

section \<open>Ruler: \<open>services/ruler/golang\<close>\<close>

record ('mon, 'rls, 'loc) ruler_parameters =
  ruler_p_logLevel :: log_level
  ruler_p_monitor :: "'mon option"
  ruler_p_rules :: "'rls option"
  ruler_p_locker :: "'loc option"

datatype ('mon, 'rls, 'loc) ruler_parameter =
    ruler_WithLogLevel log_level
  | ruler_WithMonitor "'mon option"
  | ruler_WithLocker "'loc option"
  | ruler_WithRules "'rls option"

fun ruler_apply :: "('mon, 'rls, 'loc) ruler_parameter \<Rightarrow>
     ('mon, 'rls, 'loc) ruler_parameters \<Rightarrow> ('mon, 'rls, 'loc) ruler_parameters" where
  "ruler_apply (ruler_WithLogLevel logLevel) p = p\<lparr>ruler_p_logLevel := logLevel\<rparr>"
| "ruler_apply (ruler_WithMonitor monitor) p = p\<lparr>ruler_p_monitor := monitor\<rparr>"
| "ruler_apply (ruler_WithLocker service) p = p\<lparr>ruler_p_locker := service\<rparr>"
| "ruler_apply (ruler_WithRules service) p = p\<lparr>ruler_p_rules := service\<rparr>"

definition ruler_parse ::
  "log_level \<Rightarrow> 'mon \<Rightarrow> ('mon, 'rls, 'loc) ruler_parameter option list \<Rightarrow>
     (err + ('mon, 'rls, 'loc) ruler_parameters) go" where
  "ruler_parse globalLevel noop params =
     map_go (\<lambda>p. let p = (if ruler_p_monitor p = None then p\<lparr>ruler_p_monitor := Some noop\<rparr> else p) in
        require [(ruler_p_locker p = None, ''no locker specified''),
          (ruler_p_rules p = None, ''no rules specified'')] p)
       (apply_all ruler_apply params
          \<lparr>ruler_p_logLevel = globalLevel, ruler_p_monitor = None, ruler_p_rules = None,
             ruler_p_locker = None\<rparr>)"

record ('mon, 'loc, 'rls) ruler_service =
  ruler_s_monitor :: "'mon option"
  ruler_s_locker :: "'loc option"
  ruler_s_rules :: "'rls option"

definition ruler_New ::
  "log_level \<Rightarrow> 'mon \<Rightarrow> ('mon, 'rls, 'loc) ruler_parameter option list \<Rightarrow>
     (err + ('mon, 'loc, 'rls) ruler_service) go" where
  "ruler_New globalLevel noop params =
     go_then ''problem with parameters'' (ruler_parse globalLevel noop params)
       (\<lambda>p. Ret (Inr \<lparr>ruler_s_monitor = ruler_p_monitor p, ruler_s_locker = ruler_p_locker p,
             ruler_s_rules = ruler_p_rules p\<rparr>))"

section \<open>Locker: \<open>services/locker/syncmap\<close>\<close>

record 'mon locker_parameters =
  locker_p_logLevel :: log_level
  locker_p_monitor :: "'mon option"

datatype 'mon locker_parameter =
    locker_WithLogLevel log_level
  | locker_WithMonitor "'mon option"

fun locker_apply :: "'mon locker_parameter \<Rightarrow> 'mon locker_parameters \<Rightarrow>
     'mon locker_parameters" where
  "locker_apply (locker_WithLogLevel logLevel) p = p\<lparr>locker_p_logLevel := logLevel\<rparr>"
| "locker_apply (locker_WithMonitor monitor) p = p\<lparr>locker_p_monitor := monitor\<rparr>"

definition locker_parse ::
  "log_level \<Rightarrow> 'mon \<Rightarrow> 'mon locker_parameter option list \<Rightarrow>
     (err + 'mon locker_parameters) go" where
  "locker_parse globalLevel noop params =
     map_go (\<lambda>p. let p = (if locker_p_monitor p = None then p\<lparr>locker_p_monitor := Some noop\<rparr> else p) in
        require [] p)
       (apply_all locker_apply params
          \<lparr>locker_p_logLevel = globalLevel, locker_p_monitor = None\<rparr>)"

record 'mon locker_service =
  locker_s_monitor :: "'mon option"
  locker_s_locks :: locker

definition locker_New :: "log_level \<Rightarrow> 'mon \<Rightarrow> 'mon locker_parameter option list \<Rightarrow> (err + 'mon locker_service) go" where
  "locker_New globalLevel noop params =
     go_then ''problem with parameters'' (locker_parse globalLevel noop params)
       (\<lambda>p. Ret (Inr \<lparr>locker_s_monitor = locker_p_monitor p, locker_s_locks = new_locker\<rparr>))"

section \<open>Handlers: \<open>services/api/grpc/handlers\<close>\<close>

record ('wam, 'prc) hwallet_parameters =
  hwallet_p_logLevel :: log_level
  hwallet_p_walletManager :: "'wam option"
  hwallet_p_process :: "'prc option"

datatype ('wam, 'prc) hwallet_parameter =
    hwallet_WithLogLevel log_level
  | hwallet_WithWalletManager "'wam option"
  | hwallet_WithProcess "'prc option"

fun hwallet_apply :: "('wam, 'prc) hwallet_parameter \<Rightarrow> ('wam, 'prc) hwallet_parameters \<Rightarrow>
     ('wam, 'prc) hwallet_parameters" where
  "hwallet_apply (hwallet_WithLogLevel logLevel) p = p\<lparr>hwallet_p_logLevel := logLevel\<rparr>"
| "hwallet_apply (hwallet_WithWalletManager service) p = p\<lparr>hwallet_p_walletManager := service\<rparr>"
| "hwallet_apply (hwallet_WithProcess service) p = p\<lparr>hwallet_p_process := service\<rparr>"

definition hwallet_parse ::
  "log_level \<Rightarrow> ('wam, 'prc) hwallet_parameter option list \<Rightarrow>
     (err + ('wam, 'prc) hwallet_parameters) go" where
  "hwallet_parse globalLevel params =
     map_go (\<lambda>p. require [(hwallet_p_walletManager p = None, ''no wallet manager specified''),
          (hwallet_p_process p = None, ''no process specified'')] p)
       (apply_all hwallet_apply params
          \<lparr>hwallet_p_logLevel = globalLevel, hwallet_p_walletManager = None, hwallet_p_process = None\<rparr>)"

record 'wam hwallet_handler =
  hwallet_s_walletManager :: "'wam option"

definition hwallet_New ::
  "log_level \<Rightarrow> ('wam, 'prc) hwallet_parameter option list \<Rightarrow>
     (err + 'wam hwallet_handler) go" where
  "hwallet_New globalLevel params =
     go_then ''problem with parameters'' (hwallet_parse globalLevel params)
       (\<lambda>p. Ret (Inr \<lparr>hwallet_s_walletManager = hwallet_p_walletManager p\<rparr>))"

record ('acm, 'prc) haccount_parameters =
  haccount_p_logLevel :: log_level
  haccount_p_accountManager :: "'acm option"
  haccount_p_process :: "'prc option"

datatype ('acm, 'prc) haccount_parameter =
    haccount_WithLogLevel log_level
  | haccount_WithAccountManager "'acm option"
  | haccount_WithProcess "'prc option"

fun haccount_apply :: "('acm, 'prc) haccount_parameter \<Rightarrow> ('acm, 'prc) haccount_parameters \<Rightarrow>
     ('acm, 'prc) haccount_parameters" where
  "haccount_apply (haccount_WithLogLevel logLevel) p = p\<lparr>haccount_p_logLevel := logLevel\<rparr>"
| "haccount_apply (haccount_WithAccountManager service) p = p\<lparr>haccount_p_accountManager := service\<rparr>"
| "haccount_apply (haccount_WithProcess service) p = p\<lparr>haccount_p_process := service\<rparr>"

definition haccount_parse ::
  "log_level \<Rightarrow> ('acm, 'prc) haccount_parameter option list \<Rightarrow>
     (err + ('acm, 'prc) haccount_parameters) go" where
  "haccount_parse globalLevel params =
     map_go (\<lambda>p. require [(haccount_p_accountManager p = None, ''no account manager specified''),
          (haccount_p_process p = None, ''no process specified'')] p)
       (apply_all haccount_apply params
          \<lparr>haccount_p_logLevel = globalLevel, haccount_p_accountManager = None,
             haccount_p_process = None\<rparr>)"

record ('acm, 'prc) haccount_handler =
  haccount_s_accountManager :: "'acm option"
  haccount_s_process :: "'prc option"

definition haccount_New ::
  "log_level \<Rightarrow> ('acm, 'prc) haccount_parameter option list \<Rightarrow>
     (err + ('acm, 'prc) haccount_handler) go" where
  "haccount_New globalLevel params =
     go_then ''problem with parameters'' (haccount_parse globalLevel params)
       (\<lambda>p. Ret (Inr \<lparr>haccount_s_accountManager = haccount_p_accountManager p,
             haccount_s_process = haccount_p_process p\<rparr>))"

record 'lis hlister_parameters =
  hlister_p_logLevel :: log_level
  hlister_p_lister :: "'lis option"

datatype 'lis hlister_parameter =
    hlister_WithLogLevel log_level
  | hlister_WithLister "'lis option"

fun hlister_apply :: "'lis hlister_parameter \<Rightarrow> 'lis hlister_parameters \<Rightarrow>
     'lis hlister_parameters" where
  "hlister_apply (hlister_WithLogLevel logLevel) p = p\<lparr>hlister_p_logLevel := logLevel\<rparr>"
| "hlister_apply (hlister_WithLister service) p = p\<lparr>hlister_p_lister := service\<rparr>"

definition hlister_parse ::
  "log_level \<Rightarrow> 'lis hlister_parameter option list \<Rightarrow> (err + 'lis hlister_parameters) go" where
  "hlister_parse globalLevel params =
     map_go (\<lambda>p. require [(hlister_p_lister p = None, ''no lister specified'')] p)
       (apply_all hlister_apply params
          \<lparr>hlister_p_logLevel = globalLevel, hlister_p_lister = None\<rparr>)"

record 'lis hlister_handler =
  hlister_s_lister :: "'lis option"

definition hlister_New ::
  "log_level \<Rightarrow> 'lis hlister_parameter option list \<Rightarrow> (err + 'lis hlister_handler) go" where
  "hlister_New globalLevel params =
     go_then ''problem with parameters'' (hlister_parse globalLevel params)
       (\<lambda>p. Ret (Inr \<lparr>hlister_s_lister = hlister_p_lister p\<rparr>))"

record 'sig hsigner_parameters =
  hsigner_p_logLevel :: log_level
  hsigner_p_signer :: "'sig option"

datatype 'sig hsigner_parameter =
    hsigner_WithLogLevel log_level
  | hsigner_WithSigner "'sig option"

fun hsigner_apply :: "'sig hsigner_parameter \<Rightarrow> 'sig hsigner_parameters \<Rightarrow>
     'sig hsigner_parameters" where
  "hsigner_apply (hsigner_WithLogLevel logLevel) p = p\<lparr>hsigner_p_logLevel := logLevel\<rparr>"
| "hsigner_apply (hsigner_WithSigner service) p = p\<lparr>hsigner_p_signer := service\<rparr>"

definition hsigner_parse ::
  "log_level \<Rightarrow> 'sig hsigner_parameter option list \<Rightarrow> (err + 'sig hsigner_parameters) go" where
  "hsigner_parse globalLevel params =
     map_go (\<lambda>p. require [(hsigner_p_signer p = None, ''no signer specified'')] p)
       (apply_all hsigner_apply params
          \<lparr>hsigner_p_logLevel = globalLevel, hsigner_p_signer = None\<rparr>)"

record 'sig hsigner_handler =
  hsigner_s_signer :: "'sig option"

definition hsigner_New ::
  "log_level \<Rightarrow> 'sig hsigner_parameter option list \<Rightarrow> (err + 'sig hsigner_handler) go" where
  "hsigner_New globalLevel params =
     go_then ''problem with parameters'' (hsigner_parse globalLevel params)
       (\<lambda>p. Ret (Inr \<lparr>hsigner_s_signer = hsigner_p_signer p\<rparr>))"

record ('prc, 'pee) hreceiver_parameters =
  hreceiver_p_logLevel :: log_level
  hreceiver_p_process :: "'prc option"
  hreceiver_p_peers :: "'pee option"

datatype ('prc, 'pee) hreceiver_parameter =
    hreceiver_WithLogLevel log_level
  | hreceiver_WithPeers "'pee option"
  | hreceiver_WithProcess "'prc option"

fun hreceiver_apply :: "('prc, 'pee) hreceiver_parameter \<Rightarrow>
     ('prc, 'pee) hreceiver_parameters \<Rightarrow> ('prc, 'pee) hreceiver_parameters" where
  "hreceiver_apply (hreceiver_WithLogLevel logLevel) p = p\<lparr>hreceiver_p_logLevel := logLevel\<rparr>"
| "hreceiver_apply (hreceiver_WithPeers service) p = p\<lparr>hreceiver_p_peers := service\<rparr>"
| "hreceiver_apply (hreceiver_WithProcess service) p = p\<lparr>hreceiver_p_process := service\<rparr>"

definition hreceiver_parse ::
  "log_level \<Rightarrow> ('prc, 'pee) hreceiver_parameter option list \<Rightarrow>
     (err + ('prc, 'pee) hreceiver_parameters) go" where
  "hreceiver_parse globalLevel params =
     map_go (\<lambda>p. require [(hreceiver_p_peers p = None, ''no peers specified''),
          (hreceiver_p_process p = None, ''no process specified'')] p)
       (apply_all hreceiver_apply params
          \<lparr>hreceiver_p_logLevel = globalLevel, hreceiver_p_process = None, hreceiver_p_peers = None\<rparr>)"

record ('prc, 'pee) hreceiver_handler =
  hreceiver_s_process :: "'prc option"
  hreceiver_s_peers :: "'pee option"

definition hreceiver_New ::
  "log_level \<Rightarrow> ('prc, 'pee) hreceiver_parameter option list \<Rightarrow>
     (err + ('prc, 'pee) hreceiver_handler) go" where
  "hreceiver_New globalLevel params =
     go_then ''problem with parameters'' (hreceiver_parse globalLevel params)
       (\<lambda>p. Ret (Inr \<lparr>hreceiver_s_process = hreceiver_p_process p,
             hreceiver_s_peers = hreceiver_p_peers p\<rparr>))"

end
