(* ===== verification/Options_Services.thy ===== *)
theory Options_Services
  imports Options
begin

text \<open>
  The options of the services whose constructors do more than put parts together, the server
  among them, and the constructors with these options. Given the options that \<open>main.go\<close> gives them,
  they are the constructors of the other theories, which take the values themselves.
\<close>

section \<open>Fetcher: \<open>services/fetcher/mem\<close>\<close>

record ('mon, 'enc, 'sto) fetcher_parameters =
  fetcher_p_logLevel :: log_level
  fetcher_p_monitor :: "'mon option"
  fetcher_p_encryptor :: "'enc option"
  fetcher_p_stores :: "'sto list"

datatype ('mon, 'enc, 'sto) fetcher_parameter =
    fetcher_WithLogLevel log_level
  | fetcher_WithMonitor "'mon option"
  | fetcher_WithEncryptor "'enc option"
  | fetcher_WithStores "'sto list"

fun fetcher_apply :: "('mon, 'enc, 'sto) fetcher_parameter \<Rightarrow>
     ('mon, 'enc, 'sto) fetcher_parameters \<Rightarrow> ('mon, 'enc, 'sto) fetcher_parameters" where
  "fetcher_apply (fetcher_WithLogLevel logLevel) p = p\<lparr>fetcher_p_logLevel := logLevel\<rparr>"
| "fetcher_apply (fetcher_WithMonitor monitor) p = p\<lparr>fetcher_p_monitor := monitor\<rparr>"
| "fetcher_apply (fetcher_WithEncryptor encryptor) p = p\<lparr>fetcher_p_encryptor := encryptor\<rparr>"
| "fetcher_apply (fetcher_WithStores stores) p = p\<lparr>fetcher_p_stores := stores\<rparr>"

definition fetcher_parse ::
  "log_level \<Rightarrow> 'enc \<Rightarrow> 'mon \<Rightarrow>
     ('mon, 'enc, 'sto) fetcher_parameter option list \<Rightarrow>
     (err + ('mon, 'enc, 'sto) fetcher_parameters) go" where
  "fetcher_parse globalLevel keystorev4 noop params =
     map_go (\<lambda>p. let p = (if fetcher_p_monitor p = None then p\<lparr>fetcher_p_monitor := Some noop\<rparr> else p) in
        require [(fetcher_p_encryptor p = None, ''no encryptor specified''),
          (length (fetcher_p_stores p) = 0, ''no stores specified'')] p)
       (apply_all fetcher_apply params
          \<lparr>fetcher_p_logLevel = globalLevel, fetcher_p_monitor = None, fetcher_p_encryptor = Some keystorev4,
             fetcher_p_stores = []\<rparr>)"

definition fetcher_with ::
  "('s, 'wal, 'acc) wallet_lib \<Rightarrow> ('wal, 'acc) store_lib \<Rightarrow> go_runtime \<Rightarrow> log_level \<Rightarrow> unit \<Rightarrow> 'mon \<Rightarrow>
     ('mon, unit, bytes list) fetcher_parameter option list \<Rightarrow> (err + ('wal, 'acc) fetcher) go" where
  "fetcher_with W L rt globalLevel keystorev4 noop params =
     go_then ''problem with parameters'' (fetcher_parse globalLevel keystorev4 noop params) (\<lambda>p.
       go_then ''failed to populate caches'' (Ret (populateCaches W L rt (fetcher_p_encryptor p) (fetcher_p_stores p))) (\<lambda>c.
         Ret (Inr \<lparr>pubKeyPaths = ca_pubKeyPaths c, wallets = ca_wallets c, walletAccounts = ca_walletAccounts c,
                   rwPubKeyPaths = (\<lambda>_. None), rwWalletAccounts = (\<lambda>_. None)\<rparr>)))"

section \<open>Unlocker: \<open>services/unlocker/local\<close>\<close>

text \<open>Registering the metrics of the unlocker is an operation of the monitoring library.\<close>

record 'mon unlocker_parameters =
  unlocker_p_logLevel :: log_level
  unlocker_p_monitor :: "'mon option"
  unlocker_p_walletPassphrases :: "string list option"
  unlocker_p_accountPassphrases :: "string list option"

datatype 'mon unlocker_parameter =
    unlocker_WithLogLevel log_level
  | unlocker_WithMonitor "'mon option"
  | unlocker_WithWalletPassphrases "string list option"
  | unlocker_WithAccountPassphrases "string list option"

fun unlocker_apply :: "'mon unlocker_parameter \<Rightarrow> 'mon unlocker_parameters \<Rightarrow>
     'mon unlocker_parameters" where
  "unlocker_apply (unlocker_WithLogLevel logLevel) p = p\<lparr>unlocker_p_logLevel := logLevel\<rparr>"
| "unlocker_apply (unlocker_WithMonitor monitor) p = p\<lparr>unlocker_p_monitor := monitor\<rparr>"
| "unlocker_apply (unlocker_WithWalletPassphrases passphrases) p = p\<lparr>unlocker_p_walletPassphrases := passphrases\<rparr>"
| "unlocker_apply (unlocker_WithAccountPassphrases passphrases) p = p\<lparr>unlocker_p_accountPassphrases := passphrases\<rparr>"

definition unlocker_parse ::
  "log_level \<Rightarrow> 'mon \<Rightarrow> 'mon unlocker_parameter option list \<Rightarrow>
     (err + 'mon unlocker_parameters) go" where
  "unlocker_parse globalLevel nullMetrics params =
     map_go (\<lambda>p. require [(unlocker_p_monitor p = None, ''no monitor specified''),
          (unlocker_p_walletPassphrases p = None, ''no wallet passphrases supplied''),
          (unlocker_p_accountPassphrases p = None, ''no account passphrases supplied'')] p)
       (apply_all unlocker_apply params
          \<lparr>unlocker_p_logLevel = globalLevel, unlocker_p_monitor = Some nullMetrics,
             unlocker_p_walletPassphrases = Some [], unlocker_p_accountPassphrases = Some []\<rparr>)"

definition unlocker_with ::
  "('mon \<Rightarrow> err option) \<Rightarrow> log_level \<Rightarrow> 'mon \<Rightarrow> 'mon unlocker_parameter option list \<Rightarrow> (err + unlocker) go" where
  "unlocker_with registerMetrics globalLevel nullMetrics params =
     go_then ''problem with parameters'' (unlocker_parse globalLevel nullMetrics params) (\<lambda>p.
       if registerMetrics (the (unlocker_p_monitor p)) \<noteq> None then Ret (Inl ''failed to register metrics'')
       else Ret (Inr \<lparr>walletPassphrases = the (unlocker_p_walletPassphrases p),
                      accountPassphrases = the (unlocker_p_accountPassphrases p)\<rparr>))"

section \<open>Checker: \<open>services/checker/static\<close>\<close>

record ('mon, 're) checker_parameters =
  checker_p_logLevel :: log_level
  checker_p_monitor :: "'mon option"
  checker_p_permissions :: "(string \<times> permissions list) list"
  checker_p_access :: "'re access"

datatype 'mon checker_parameter =
    checker_WithLogLevel log_level
  | checker_WithMonitor "'mon option"
  | checker_WithPermissions "(string \<times> permissions list) list"

fun checker_apply :: "'mon checker_parameter \<Rightarrow> ('mon, 're) checker_parameters \<Rightarrow>
     ('mon, 're) checker_parameters" where
  "checker_apply (checker_WithLogLevel logLevel) p = p\<lparr>checker_p_logLevel := logLevel\<rparr>"
| "checker_apply (checker_WithMonitor monitor) p = p\<lparr>checker_p_monitor := monitor\<rparr>"
| "checker_apply (checker_WithPermissions permissions) p = p\<lparr>checker_p_permissions := permissions\<rparr>"

definition checker_parse ::
  "'re regexp_lib \<Rightarrow> (string \<Rightarrow> err + string \<times> string) \<Rightarrow> go_runtime \<Rightarrow> log_level \<Rightarrow> 'mon \<Rightarrow> 'mon checker_parameter option list \<Rightarrow>
     (err + ('mon, 're) checker_parameters) go" where
  "checker_parse R names rt globalLevel noop params =
     map_go (\<lambda>p. let p = (if checker_p_monitor p = None then p\<lparr>checker_p_monitor := Some noop\<rparr> else p) in
        case parse_access R names (map_range rt (checker_p_permissions p)) (\<lambda>_. None) of
          Inl e \<Rightarrow> Inl e
        | Inr access \<Rightarrow> Inr (p\<lparr>checker_p_access := access\<rparr>))
       (apply_all checker_apply params
          \<lparr>checker_p_logLevel = globalLevel, checker_p_monitor = None, checker_p_permissions = [], checker_p_access = (\<lambda>_. None)\<rparr>)"

definition checker_with ::
  "'re regexp_lib \<Rightarrow> (string \<Rightarrow> err + string \<times> string) \<Rightarrow> go_runtime \<Rightarrow> log_level \<Rightarrow> 'mon \<Rightarrow> 'mon checker_parameter option list \<Rightarrow>
     (err + 're access) go" where
  "checker_with R names rt globalLevel noop params =
     go_then ''problem with parameters'' (checker_parse R names rt globalLevel noop params) (\<lambda>p. Ret (Inr (checker_p_access p)))"

section \<open>Metrics: \<open>services/metrics/prometheus\<close>\<close>

text \<open>Setting up the metrics of a service is an operation of the monitoring library; a server for them is started.\<close>

record prometheus_parameters =
  prometheus_p_logLevel :: log_level
  prometheus_p_address :: string

datatype prometheus_parameter =
    prometheus_WithLogLevel log_level
  | prometheus_WithAddress string

fun prometheus_apply :: "prometheus_parameter \<Rightarrow> prometheus_parameters \<Rightarrow>
     prometheus_parameters" where
  "prometheus_apply (prometheus_WithLogLevel logLevel) p = p\<lparr>prometheus_p_logLevel := logLevel\<rparr>"
| "prometheus_apply (prometheus_WithAddress address) p = p\<lparr>prometheus_p_address := address\<rparr>"

definition prometheus_parse ::
  "log_level \<Rightarrow> prometheus_parameter option list \<Rightarrow> (err + prometheus_parameters) go" where
  "prometheus_parse globalLevel params =
     map_go (\<lambda>p. require [(prometheus_p_address p = [], ''no address specified'')] p)
       (apply_all prometheus_apply params
          \<lparr>prometheus_p_logLevel = globalLevel, prometheus_p_address = []\<rparr>)"

definition prometheus_New ::
  "(string \<Rightarrow> err option) \<Rightarrow> (string \<Rightarrow> 'mon) \<Rightarrow> log_level \<Rightarrow> prometheus_parameter option list \<Rightarrow> (err + 'mon) go" where
  "prometheus_New setup monitor globalLevel params =
     go_then ''problem with parameters'' (prometheus_parse globalLevel params) (\<lambda>p.
       Ret (require (map (\<lambda>(name, msg). (setup name \<noteq> None, wrap_err msg (the (setup name))))
              [(''account manager'', ''failed to set up account manager metrics''),
               (''checker'', ''failed to set up checker metrics''),
               (''wallet manager'', ''failed to set up wallet manager metrics''),
               (''lister'', ''failed to set up lister metrics''),
               (''signer'', ''failed to set up signer metrics'')]) (monitor (prometheus_p_address p))))"

section \<open>Peers: \<open>services/peers/static\<close>\<close>

record 'mon peers_parameters =
  peers_p_logLevel :: log_level
  peers_p_monitor :: "'mon option"
  peers_p_peers :: "(u64 \<times> string) list"

datatype 'mon peers_parameter =
    peers_WithLogLevel log_level
  | peers_WithMonitor "'mon option"
  | peers_WithPeers "(u64 \<times> string) list"

fun peers_apply :: "'mon peers_parameter \<Rightarrow> 'mon peers_parameters \<Rightarrow>
     'mon peers_parameters" where
  "peers_apply (peers_WithLogLevel logLevel) p = p\<lparr>peers_p_logLevel := logLevel\<rparr>"
| "peers_apply (peers_WithMonitor monitor) p = p\<lparr>peers_p_monitor := monitor\<rparr>"
| "peers_apply (peers_WithPeers peers) p = p\<lparr>peers_p_peers := peers\<rparr>"

definition peers_parse ::
  "log_level \<Rightarrow> 'mon \<Rightarrow> 'mon peers_parameter option list \<Rightarrow>
     (err + 'mon peers_parameters) go" where
  "peers_parse globalLevel noop params =
     map_go (\<lambda>p. let p = (if peers_p_monitor p = None then p\<lparr>peers_p_monitor := Some noop\<rparr> else p) in
        require [(length (peers_p_peers p) = 0, ''no peers specified'')] p)
       (apply_all peers_apply params
          \<lparr>peers_p_logLevel = globalLevel, peers_p_monitor = None, peers_p_peers = []\<rparr>)"

definition peers_with :: "go_runtime \<Rightarrow> log_level \<Rightarrow> 'mon \<Rightarrow> 'mon peers_parameter option list \<Rightarrow> (err + peers) go" where
  "peers_with rt globalLevel noop params =
     go_then ''problem with parameters'' (peers_parse globalLevel noop params) (\<lambda>p.
       Ret (parse_peers (map_range rt (peers_p_peers p)) [] []))"

section \<open>Rules: \<open>rules/standard\<close>\<close>

record rules_parameters =
  rules_p_logLevel :: log_level
  rules_p_storagePath :: string
  rules_p_adminIPs :: "string list"
  rules_p_periodicPruning :: bool

datatype rules_parameter =
    rules_WithLogLevel log_level
  | rules_WithStoragePath string
  | rules_WithAdminIPs "string list"
  | rules_WithPeriodicPruning bool

fun rules_apply :: "rules_parameter \<Rightarrow> rules_parameters \<Rightarrow> rules_parameters" where
  "rules_apply (rules_WithLogLevel logLevel) p = p\<lparr>rules_p_logLevel := logLevel\<rparr>"
| "rules_apply (rules_WithStoragePath storagePath) p = p\<lparr>rules_p_storagePath := storagePath\<rparr>"
| "rules_apply (rules_WithAdminIPs admins) p = p\<lparr>rules_p_adminIPs := admins\<rparr>"
| "rules_apply (rules_WithPeriodicPruning periodicPruning) p = p\<lparr>rules_p_periodicPruning := periodicPruning\<rparr>"

definition rules_parse ::
  "log_level \<Rightarrow> rules_parameter option list \<Rightarrow> (err + rules_parameters) go" where
  "rules_parse globalLevel params =
     map_go (\<lambda>p. require [(rules_p_storagePath p = [], ''no storage path specified'')] p)
       (apply_all rules_apply params
          \<lparr>rules_p_logLevel = globalLevel, rules_p_storagePath = [], rules_p_adminIPs = [],
             rules_p_periodicPruning = False\<rparr>)"

definition rules_with ::
  "('db, 'st) platform \<Rightarrow> rules_lib \<Rightarrow> log_level \<Rightarrow> rules_parameter option list \<Rightarrow> (err + 'db rules_service) go" where
  "rules_with P L globalLevel params =
     go_then ''problem with parameters'' (rules_parse globalLevel params) (\<lambda>p.
       Ret (case NewStore P (rules_p_storagePath p) (rules_p_periodicPruning p) of
              Inl e \<Rightarrow> Inl e
            | Inr (db, _) \<Rightarrow> Inr \<lparr>rules_store = db, adminIPs = rules_p_adminIPs p, rules_lib = L\<rparr>))"

section \<open>Sender: \<open>services/sender/grpc\<close>\<close>

text \<open>A sender keeps its name and the credentials; its pools of connections are empty.\<close>

record 'mon sender_parameters =
  sender_p_logLevel :: log_level
  sender_p_monitor :: "'mon option"
  sender_p_name :: string
  sender_p_serverCert :: bytes
  sender_p_serverKey :: bytes
  sender_p_caCert :: bytes

datatype 'mon sender_parameter =
    sender_WithLogLevel log_level
  | sender_WithMonitor "'mon option"
  | sender_WithName string
  | sender_WithServerCert bytes
  | sender_WithServerKey bytes
  | sender_WithCACert bytes

fun sender_apply :: "'mon sender_parameter \<Rightarrow> 'mon sender_parameters \<Rightarrow>
     'mon sender_parameters" where
  "sender_apply (sender_WithLogLevel logLevel) p = p\<lparr>sender_p_logLevel := logLevel\<rparr>"
| "sender_apply (sender_WithMonitor monitor) p = p\<lparr>sender_p_monitor := monitor\<rparr>"
| "sender_apply (sender_WithName name) p = p\<lparr>sender_p_name := name\<rparr>"
| "sender_apply (sender_WithServerCert serverCert) p = p\<lparr>sender_p_serverCert := serverCert\<rparr>"
| "sender_apply (sender_WithServerKey serverKey) p = p\<lparr>sender_p_serverKey := serverKey\<rparr>"
| "sender_apply (sender_WithCACert caCert) p = p\<lparr>sender_p_caCert := caCert\<rparr>"

definition sender_parse ::
  "log_level \<Rightarrow> 'mon \<Rightarrow> 'mon sender_parameter option list \<Rightarrow>
     (err + 'mon sender_parameters) go" where
  "sender_parse globalLevel noop params =
     map_go (\<lambda>p. let p = (if sender_p_monitor p = None then p\<lparr>sender_p_monitor := Some noop\<rparr> else p) in
        require [(sender_p_name p = [], ''no name specified''),
          (length (sender_p_serverCert p) = 0, ''no server certificate specified''),
          (length (sender_p_serverKey p) = 0, ''no server key specified'')] p)
       (apply_all sender_apply params
          \<lparr>sender_p_logLevel = globalLevel, sender_p_monitor = None, sender_p_name = [],
             sender_p_serverCert = [], sender_p_serverKey = [], sender_p_caCert = []\<rparr>)"

definition sender_with ::
  "('db, 'st) platform \<Rightarrow> log_level \<Rightarrow> 'mon \<Rightarrow> 'mon sender_parameter option list \<Rightarrow> (err + string) go" where
  "sender_with P globalLevel noop params =
     go_then ''problem with parameters'' (sender_parse globalLevel noop params) (\<lambda>p.
       case composeCredentials P (sender_p_serverCert p) (sender_p_serverKey p) (sender_p_caCert p) of
         Some e \<Rightarrow> Ret (Inl (wrap_err ''failed to compose client credentials'' e))
       | None \<Rightarrow> Ret (Inr (sender_p_name p)))"

section \<open>Process: \<open>services/process/standard\<close>\<close>

text \<open>The map of running generations is empty at the start and is the state of \<open>Process\<close>.\<close>

record ('mon, 'chk, 'fet, 'snd, 'unl, 'enc, 'pee, 'sto) process_parameters =
  process_p_logLevel :: log_level
  process_p_monitor :: "'mon option"
  process_p_checker :: "'chk option"
  process_p_fetcher :: "'fet option"
  process_p_sender :: "'snd option"
  process_p_unlocker :: "'unl option"
  process_p_encryptor :: "'enc option"
  process_p_id :: u64
  process_p_peers :: "'pee option"
  process_p_stores :: "'sto list option"
  process_p_generationPassphrase :: bytes
  process_p_generationTimeout :: int

datatype ('mon, 'chk, 'fet, 'snd, 'unl, 'enc, 'pee, 'sto) process_parameter =
    process_WithLogLevel log_level
  | process_WithMonitor "'mon option"
  | process_WithChecker "'chk option"
  | process_WithFetcher "'fet option"
  | process_WithSender "'snd option"
  | process_WithUnlocker "'unl option"
  | process_WithEncryptor "'enc option"
  | process_WithPeers "'pee option"
  | process_WithID u64
  | process_WithStores "'sto list option"
  | process_WithGenerationPassphrase bytes
  | process_WithGenerationTimeout int

fun process_apply :: "('mon, 'chk, 'fet, 'snd, 'unl, 'enc, 'pee, 'sto) process_parameter \<Rightarrow>
     ('mon, 'chk, 'fet, 'snd, 'unl, 'enc, 'pee, 'sto) process_parameters \<Rightarrow>
     ('mon, 'chk, 'fet, 'snd, 'unl, 'enc, 'pee, 'sto) process_parameters" where
  "process_apply (process_WithLogLevel logLevel) p = p\<lparr>process_p_logLevel := logLevel\<rparr>"
| "process_apply (process_WithMonitor monitor) p = p\<lparr>process_p_monitor := monitor\<rparr>"
| "process_apply (process_WithChecker service) p = p\<lparr>process_p_checker := service\<rparr>"
| "process_apply (process_WithFetcher service) p = p\<lparr>process_p_fetcher := service\<rparr>"
| "process_apply (process_WithSender service) p = p\<lparr>process_p_sender := service\<rparr>"
| "process_apply (process_WithUnlocker service) p = p\<lparr>process_p_unlocker := service\<rparr>"
| "process_apply (process_WithEncryptor encryptor) p = p\<lparr>process_p_encryptor := encryptor\<rparr>"
| "process_apply (process_WithPeers service) p = p\<lparr>process_p_peers := service\<rparr>"
| "process_apply (process_WithID ident) p = p\<lparr>process_p_id := ident\<rparr>"
| "process_apply (process_WithStores stores) p = p\<lparr>process_p_stores := stores\<rparr>"
| "process_apply (process_WithGenerationPassphrase generationPassphrase) p = p\<lparr>process_p_generationPassphrase := generationPassphrase\<rparr>"
| "process_apply (process_WithGenerationTimeout generationTimeout) p = p\<lparr>process_p_generationTimeout := generationTimeout\<rparr>"

definition process_parse ::
  "log_level \<Rightarrow> 'enc \<Rightarrow> 'mon \<Rightarrow>
     ('mon, 'chk, 'fet, 'snd, 'unl, 'enc, 'pee, 'sto) process_parameter option list \<Rightarrow>
     (err + ('mon, 'chk, 'fet, 'snd, 'unl, 'enc, 'pee, 'sto) process_parameters) go" where
  "process_parse globalLevel keystorev4 noop params =
     map_go (\<lambda>p. let p = (if process_p_monitor p = None then p\<lparr>process_p_monitor := Some noop\<rparr> else p) in
        require [(process_p_checker p = None, ''no checker specified''),
          (process_p_fetcher p = None, ''no fetcher specified''),
          (process_p_sender p = None, ''no sender specified''),
          (process_p_unlocker p = None, ''no unlocker specified''),
          (process_p_encryptor p = None, ''no encryptor specified''),
          (process_p_id p = 0, ''no ID specified''),
          (process_p_peers p = None, ''no peers specified''),
          (process_p_stores p = None, ''no stores specified'')] p)
       (apply_all process_apply params
          \<lparr>process_p_logLevel = globalLevel, process_p_monitor = None, process_p_checker = None,
             process_p_fetcher = None, process_p_sender = None, process_p_unlocker = None,
             process_p_encryptor = Some keystorev4, process_p_id = 0, process_p_peers = None,
             process_p_stores = None, process_p_generationPassphrase = [],
             process_p_generationTimeout = 70 * 10 ^ 9\<rparr>)"

record ('chk, 'fet, 'unl, 'snd, 'pee, 'sto, 'enc) process_service =
  process_s_checker :: "'chk option"
  process_s_fetcher :: "'fet option"
  process_s_unlocker :: "'unl option"
  process_s_sender :: "'snd option"
  process_s_peers :: "'pee option"
  process_s_id :: "u64"
  process_s_stores :: "'sto list option"
  process_s_encryptor :: "'enc option"
  process_s_generationPassphrase :: "bytes"
  process_s_generationTimeout :: "int"

definition process_New ::
  "log_level \<Rightarrow> 'enc \<Rightarrow> 'mon \<Rightarrow>
     ('mon, 'chk, 'fet, 'snd, 'unl, 'enc, 'pee, 'sto) process_parameter option list \<Rightarrow>
     (err + ('chk, 'fet, 'unl, 'snd, 'pee, 'sto, 'enc) process_service) go" where
  "process_New globalLevel keystorev4 noop params =
     go_then ''problem with parameters'' (process_parse globalLevel keystorev4 noop params)
       (\<lambda>p. Ret (Inr \<lparr>process_s_checker = process_p_checker p,
             process_s_fetcher = process_p_fetcher p, process_s_unlocker = process_p_unlocker p,
             process_s_sender = process_p_sender p, process_s_peers = process_p_peers p,
             process_s_id = process_p_id p, process_s_stores = process_p_stores p,
             process_s_encryptor = process_p_encryptor p,
             process_s_generationPassphrase = process_p_generationPassphrase p,
             process_s_generationTimeout = process_p_generationTimeout p\<rparr>))"

section \<open>Server: \<open>services/api/grpc\<close>\<close>

record ('mon, 'pee, 'prc, 'acm, 'wam, 'lis, 'sig) api_parameters =
  api_p_logLevel :: log_level
  api_p_monitor :: "'mon option"
  api_p_peers :: "'pee option"
  api_p_process :: "'prc option"
  api_p_accountManager :: "'acm option"
  api_p_walletManager :: "'wam option"
  api_p_lister :: "'lis option"
  api_p_signer :: "'sig option"
  api_p_name :: string
  api_p_listenAddress :: string
  api_p_id :: u64
  api_p_serverCert :: bytes
  api_p_serverKey :: bytes
  api_p_caCert :: bytes

datatype ('mon, 'pee, 'prc, 'acm, 'wam, 'lis, 'sig) api_parameter =
    api_WithLogLevel log_level
  | api_WithMonitor "'mon option"
  | api_WithLister "'lis option"
  | api_WithProcess "'prc option"
  | api_WithSigner "'sig option"
  | api_WithPeers "'pee option"
  | api_WithWalletManager "'wam option"
  | api_WithAccountManager "'acm option"
  | api_WithName string
  | api_WithID u64
  | api_WithListenAddress string
  | api_WithServerCert bytes
  | api_WithServerKey bytes
  | api_WithCACert bytes

fun api_apply :: "('mon, 'pee, 'prc, 'acm, 'wam, 'lis, 'sig) api_parameter \<Rightarrow>
     ('mon, 'pee, 'prc, 'acm, 'wam, 'lis, 'sig) api_parameters \<Rightarrow>
     ('mon, 'pee, 'prc, 'acm, 'wam, 'lis, 'sig) api_parameters" where
  "api_apply (api_WithLogLevel logLevel) p = p\<lparr>api_p_logLevel := logLevel\<rparr>"
| "api_apply (api_WithMonitor monitor) p = p\<lparr>api_p_monitor := monitor\<rparr>"
| "api_apply (api_WithLister service) p = p\<lparr>api_p_lister := service\<rparr>"
| "api_apply (api_WithProcess service) p = p\<lparr>api_p_process := service\<rparr>"
| "api_apply (api_WithSigner service) p = p\<lparr>api_p_signer := service\<rparr>"
| "api_apply (api_WithPeers service) p = p\<lparr>api_p_peers := service\<rparr>"
| "api_apply (api_WithWalletManager service) p = p\<lparr>api_p_walletManager := service\<rparr>"
| "api_apply (api_WithAccountManager service) p = p\<lparr>api_p_accountManager := service\<rparr>"
| "api_apply (api_WithName name) p = p\<lparr>api_p_name := name\<rparr>"
| "api_apply (api_WithID ident) p = p\<lparr>api_p_id := ident\<rparr>"
| "api_apply (api_WithListenAddress listenAddress) p = p\<lparr>api_p_listenAddress := listenAddress\<rparr>"
| "api_apply (api_WithServerCert serverCert) p = p\<lparr>api_p_serverCert := serverCert\<rparr>"
| "api_apply (api_WithServerKey serverKey) p = p\<lparr>api_p_serverKey := serverKey\<rparr>"
| "api_apply (api_WithCACert caCert) p = p\<lparr>api_p_caCert := caCert\<rparr>"

definition api_parse ::
  "log_level \<Rightarrow> 'mon \<Rightarrow>
     ('mon, 'pee, 'prc, 'acm, 'wam, 'lis, 'sig) api_parameter option list \<Rightarrow>
     (err + ('mon, 'pee, 'prc, 'acm, 'wam, 'lis, 'sig) api_parameters) go" where
  "api_parse globalLevel noop params =
     map_go (\<lambda>p. let p = (if api_p_monitor p = None then p\<lparr>api_p_monitor := Some noop\<rparr> else p) in
        require [(api_p_signer p = None, ''no signer specified''),
          (api_p_lister p = None, ''no lister specified''),
          (api_p_process p = None, ''no process specified''),
          (api_p_walletManager p = None, ''no wallet manager specified''),
          (api_p_accountManager p = None, ''no account manager specified''),
          (api_p_peers p = None, ''no peers specified''),
          (api_p_name p = [], ''no name specified''),
          (api_p_id p = 0, ''no ID specified''),
          (api_p_listenAddress p = [], ''no listen address specified''),
          (length (api_p_serverCert p) = 0, ''no server certificate specified''),
          (length (api_p_serverKey p) = 0, ''no server key specified'')] p)
       (apply_all api_apply params
          \<lparr>api_p_logLevel = globalLevel, api_p_monitor = None, api_p_peers = None, api_p_process = None,
             api_p_accountManager = None, api_p_walletManager = None, api_p_lister = None, api_p_signer = None,
             api_p_name = [], api_p_listenAddress = [], api_p_id = 0, api_p_serverCert = [], api_p_serverKey = [],
             api_p_caCert = []\<rparr>)"

record ('mon, 'pee, 'prc, 'acm, 'wam, 'lis, 'sig) api_service =
  api_s_monitor :: "'mon option"
  api_s_wallet :: "'wam hwallet_handler"
  api_s_account :: "('acm, 'prc) haccount_handler"
  api_s_lister :: "'lis hlister_handler"
  api_s_signer :: "'sig hsigner_handler"
  api_s_receiver :: "('prc, 'pee) hreceiver_handler"

definition api_with ::
  "('db, 'st) platform \<Rightarrow> log_level \<Rightarrow> 'mon \<Rightarrow> ('mon, 'pee, 'prc, 'acm, 'wam, 'lis, 'sig) api_parameter option list \<Rightarrow>
     (err + ('mon, 'pee, 'prc, 'acm, 'wam, 'lis, 'sig) api_service) go" where
  "api_with P globalLevel noop params =
     go_then ''problem with parameters'' (api_parse globalLevel noop params) (\<lambda>p.
       case createServer P (api_p_name p) (api_p_serverCert p) (api_p_serverKey p) (api_p_caCert p) of
         Some e \<Rightarrow> Ret (Inl (wrap_err ''failed to create API server'' e))
       | None \<Rightarrow>
           go_then ''failed to create wallet manager handler''
             (hwallet_New globalLevel [Some (hwallet_WithLogLevel (api_p_logLevel p)),
                Some (hwallet_WithWalletManager (api_p_walletManager p)), Some (hwallet_WithProcess (api_p_process p))]) (\<lambda>hw.
           go_then ''failed to create account manager handler''
             (haccount_New globalLevel [Some (haccount_WithLogLevel (api_p_logLevel p)),
                Some (haccount_WithAccountManager (api_p_accountManager p)), Some (haccount_WithProcess (api_p_process p))]) (\<lambda>ha.
           go_then ''failed to create lister handler''
             (hlister_New globalLevel [Some (hlister_WithLister (api_p_lister p)), Some (hlister_WithLogLevel (api_p_logLevel p))]) (\<lambda>hl.
           go_then ''failed to create signer handler''
             (hsigner_New globalLevel [Some (hsigner_WithSigner (api_p_signer p)), Some (hsigner_WithLogLevel (api_p_logLevel p))]) (\<lambda>hs.
           go_then ''failed to create receiver handler''
             (hreceiver_New globalLevel [Some (hreceiver_WithLogLevel (api_p_logLevel p)),
                Some (hreceiver_WithProcess (api_p_process p)), Some (hreceiver_WithPeers (api_p_peers p))]) (\<lambda>hr.
           case pf_Listen P (api_p_listenAddress p) of
             Some e \<Rightarrow> Ret (Inl (wrap_err ''failed to start API server'' e))
           | None \<Rightarrow> Ret (Inr \<lparr>api_s_monitor = api_p_monitor p, api_s_wallet = hw, api_s_account = ha, api_s_lister = hl,
                                api_s_signer = hs, api_s_receiver = hr\<rparr>)))))))"

end
