(* ===== verification/Wiring.thy ===== *)
theory Wiring
  imports Options_Services
begin

text \<open>
  The start of the daemon with the options that \<open>main.go\<close> gives to every constructor. A service
  that several others are given is an object on a heap, and they hold a reference to it, so that
  two services with equal contents are not the same service. The services
  of \<open>Startup\<close> are what comes out, and the services behind the server share one ruler - with one
  locker and one database -, one checker, one fetcher and one unlocker.
\<close>

section \<open>The functions of \<open>main.go\<close>\<close>

text \<open>
  What the monitoring gives: the monitor, what it is for a service (a type assertion, which may
  fail), the monitor of a package that does nothing, the registration of metrics, and the level that
  is set in the logging library.
\<close>

record 'mon monitoring =
  mo_monitor :: 'mon
  mo_as :: "string \<Rightarrow> 'mon option"
  mo_noop :: "string \<Rightarrow> 'mon"
  mo_null :: 'mon
  mo_register :: "'mon \<Rightarrow> err option"
  mo_setup :: "string \<Rightarrow> err option"
  mo_serve :: "string \<Rightarrow> 'mon"
  mo_global :: log_level

definition startMonitor :: "'mon monitoring \<Rightarrow> settings \<Rightarrow> (err + 'mon) go" where
  "startMonitor M S =
     (if vp_GetString S ''metrics.listen-address'' = [] then Ret (Inr (mo_null M))
      else go_then ''failed to start metrics service''
             (prometheus_New (mo_setup M) (mo_serve M) (mo_global M)
                [Some (prometheus_WithLogLevel (LogLevel (vp_GetString S) ''metrics'')),
                 Some (prometheus_WithAddress (vp_GetString S ''metrics.listen-address''))])
             (\<lambda>m. Ret (Inr m)))"

definition wired_unlocker :: "('db, 'st) platform \<Rightarrow> 'mon monitoring \<Rightarrow> settings \<Rightarrow> (err + unlocker) go" where
  "wired_unlocker P M S =
     (case fetch_passphrases P ''failed to obtain wallet passphrase for unlocker'' (vp_GetStringSlice S ''unlocker.wallet-passphrases'') of
        Inl e \<Rightarrow> Ret (Inl e)
      | Inr ws \<Rightarrow>
          (case fetch_passphrases P ''failed to obtain account passphrase for unlocker''
                  (vp_GetStringSlice S ''unlocker.account-passphrases'') of
             Inl e \<Rightarrow> Ret (Inl e)
           | Inr as \<Rightarrow>
               unlocker_with (mo_register M) (mo_global M) (mo_null M)
                 [Some (unlocker_WithLogLevel (LogLevel (vp_GetString S) ''unlocker'')),
                  Some (unlocker_WithMonitor (Some (mo_monitor M))),
                  Some (unlocker_WithWalletPassphrases (Some ws)),
                  Some (unlocker_WithAccountPassphrases (Some as))]))"

definition wired_checker ::
  "'re regexp_lib \<Rightarrow> (string \<Rightarrow> err + string \<times> string) \<Rightarrow> go_runtime \<Rightarrow> 'mon monitoring \<Rightarrow> settings \<Rightarrow> (err + 're access) go" where
  "wired_checker R names rt M S =
     checker_with R names rt (mo_global M) (mo_noop M ''checker'')
       [Some (checker_WithLogLevel (LogLevel (vp_GetString S) ''checker'')), Some (checker_WithMonitor (mo_as M ''checker'')),
        Some (checker_WithPermissions (map (\<lambda>client. (client, client_permissions rt S client)) (vp_GetStringMap S ''permissions'')))]"

definition startFetcher ::
  "('s, 'wal, 'acc) wallet_lib \<Rightarrow> ('wal, 'acc) store_lib \<Rightarrow> go_runtime \<Rightarrow> 'mon monitoring \<Rightarrow> settings \<Rightarrow> bytes list list \<Rightarrow>
     (err + ('wal, 'acc) fetcher) go" where
  "startFetcher W L rt M S stores =
     fetcher_with W L rt (mo_global M) () (mo_noop M ''fetcher'')
       [Some (fetcher_WithLogLevel (LogLevel (vp_GetString S) ''fetcher'')), Some (fetcher_WithMonitor (mo_as M ''fetcher'')),
        Some (fetcher_WithStores stores)]"

definition startLocker :: "'mon monitoring \<Rightarrow> settings \<Rightarrow> (err + 'mon locker_service) go" where
  "startLocker M S =
     locker_New (mo_global M) (mo_noop M ''locker'')
       [Some (locker_WithLogLevel (LogLevel (vp_GetString S) ''locker'')), Some (locker_WithMonitor (mo_as M ''locker''))]"

definition wired_rules :: "('db, 'st) platform \<Rightarrow> rules_lib \<Rightarrow> 'mon monitoring \<Rightarrow> settings \<Rightarrow> (err + 'db rules_service) go" where
  "wired_rules P L M S =
     (case ResolvePath P S (vp_GetString S ''storage-path'') of
        Ret path \<Rightarrow>
          rules_with P L (mo_global M)
            [Some (rules_WithLogLevel (LogLevel (vp_GetString S) ''rules'')), Some (rules_WithStoragePath path),
             Some (rules_WithAdminIPs (vp_GetStringSlice S ''server.rules.admin-ips'')),
             Some (rules_WithPeriodicPruning (vp_GetBool S ''server.rules.periodic-pruning''))]
      | Panic e \<Rightarrow> Panic e
      | Block \<Rightarrow> Block)"

definition startRuler ::
  "('db, 'st) platform \<Rightarrow> rules_lib \<Rightarrow> 'mon monitoring \<Rightarrow> settings \<Rightarrow> 'loc option \<Rightarrow>
     (err + ('mon, 'loc, 'db rules_service) ruler_service) go" where
  "startRuler P L M S lockerSvc =
     go_then ''failed to set up rules'' (wired_rules P L M S) (\<lambda>rulesSvc.
       ruler_New (mo_global M) (mo_noop M ''ruler'')
         [Some (ruler_WithLogLevel (LogLevel (vp_GetString S) ''ruler'')), Some (ruler_WithMonitor (mo_as M ''ruler'')),
          Some (ruler_WithLocker lockerSvc), Some (ruler_WithRules (Some rulesSvc))])"

definition wired_peers :: "go_runtime \<Rightarrow> 'mon monitoring \<Rightarrow> settings \<Rightarrow> (err + peers) go" where
  "wired_peers rt M S =
     (case read_peers (map_range rt (vp_GetStringMapString S ''peers'')) [] of
        Inl e \<Rightarrow> Ret (Inl e)
      | Inr peersMap \<Rightarrow>
          peers_with rt (mo_global M) (mo_noop M ''peers'')
            [Some (peers_WithLogLevel (LogLevel (vp_GetString S) ''peers'')), Some (peers_WithMonitor (mo_as M ''peers'')),
             Some (peers_WithPeers peersMap)])"

definition startLister ::
  "'mon monitoring \<Rightarrow> settings \<Rightarrow> 'fet option \<Rightarrow> 'chk option \<Rightarrow> 'rul option \<Rightarrow>
     (err + ('mon, 'chk, 'fet, 'rul) lister_service) go" where
  "startLister M S fetcherSvc checkerSvc rulerSvc =
     lister_New (mo_global M) (mo_noop M ''lister'')
       [Some (lister_WithLogLevel (LogLevel (vp_GetString S) ''lister'')), Some (lister_WithMonitor (mo_as M ''lister'')),
        Some (lister_WithFetcher fetcherSvc), Some (lister_WithChecker checkerSvc), Some (lister_WithRuler rulerSvc)]"

definition startSigner ::
  "'mon monitoring \<Rightarrow> settings \<Rightarrow> 'fet option \<Rightarrow> 'chk option \<Rightarrow> 'unl option \<Rightarrow> 'rul option \<Rightarrow>
     (err + ('mon, 'unl, 'chk, 'fet, 'rul) signer_service) go" where
  "startSigner M S fetcherSvc checkerSvc unlockerSvc rulerSvc =
     go_then ''failed to create signer service''
       (signer_New (mo_global M) (mo_noop M ''signer'')
          [Some (signer_WithLogLevel (LogLevel (vp_GetString S) ''signer'')), Some (signer_WithMonitor (mo_as M ''signer'')),
           Some (signer_WithUnlocker unlockerSvc), Some (signer_WithChecker checkerSvc),
           Some (signer_WithFetcher fetcherSvc), Some (signer_WithRuler rulerSvc)])
       (\<lambda>s. Ret (Inr s))"

definition startSender ::
  "('db, 'st) platform \<Rightarrow> 'mon monitoring \<Rightarrow> settings \<Rightarrow> bytes \<Rightarrow> bytes \<Rightarrow> bytes \<Rightarrow> (err + string) go" where
  "startSender P M S cert key ca =
     go_then ''failed to create sender service''
       (sender_with P (mo_global M) (mo_noop M ''sender'')
          [Some (sender_WithLogLevel (LogLevel (vp_GetString S) ''sender'')), Some (sender_WithMonitor (mo_as M ''sender'')),
           Some (sender_WithName (vp_GetString S ''server.name'')), Some (sender_WithServerCert cert),
           Some (sender_WithServerKey key), Some (sender_WithCACert ca)])
       (\<lambda>s. Ret (Inr s))"

definition wired_process ::
  "('db, 'st) platform \<Rightarrow> 'mon monitoring \<Rightarrow> settings \<Rightarrow> u64 \<Rightarrow> 'sto list option \<Rightarrow> 'unl option \<Rightarrow> 'chk option \<Rightarrow>
     'fet option \<Rightarrow> 'pee option \<Rightarrow> bytes \<times> bytes \<times> bytes \<Rightarrow>
     (err + ('chk, 'fet, 'unl, string, 'pee, 'sto, unit) process_service) go" where
  "wired_process P M S serverID stores unlockerSvc checkerSvc fetcherSvc peersSvc certs =
     (case certs of (cert, key, ca) \<Rightarrow>
       (case startSender P M S cert key ca of
          Ret (Inl e) \<Rightarrow> Ret (Inl e)
        | Ret (Inr sender) \<Rightarrow>
            go_then ''failed to obtain account generation passphrase for process''
              (Ret (if vp_GetString S ''process.generation-passphrase'' \<noteq> []
                    then pf_Fetch P (vp_GetString S ''process.generation-passphrase'') else Inr [])) (\<lambda>passphrase.
            go_then ''failed to create process service''
              (process_New (mo_global M) () (mo_noop M ''process'')
                 [Some (process_WithLogLevel (LogLevel (vp_GetString S) ''process'')), Some (process_WithMonitor (mo_as M ''process'')),
                  Some (process_WithChecker checkerSvc), Some (process_WithFetcher fetcherSvc),
                  Some (process_WithUnlocker unlockerSvc), Some (process_WithSender (Some sender)),
                  Some (process_WithPeers peersSvc), Some (process_WithID serverID), Some (process_WithStores stores),
                  Some (process_WithGenerationPassphrase passphrase),
                  Some (process_WithGenerationTimeout (vp_GetDuration S ''process.generation-timeout''))])
              (\<lambda>s. Ret (Inr s)))
        | Panic e \<Rightarrow> Panic e
        | Block \<Rightarrow> Block))"

text \<open>
  The heap: the objects that were made, in the order in which they were; a reference is a position. A
  ruler refers to its locker, and a process to the checker, the fetcher and the unlocker that it is given.
\<close>

type_synonym ref = nat

record ('mon, 're, 'wal, 'acc, 'db, 'sto) heap =
  hp_unlockers :: "unlocker list"
  hp_checkers :: "'re access list"
  hp_fetchers :: "('wal, 'acc) fetcher list"
  hp_lockers :: "'mon locker_service list"
  hp_rulers :: "('mon, ref, 'db rules_service) ruler_service list"
  hp_processes :: "(ref, ref, ref, string, peers, 'sto, unit) process_service list"

definition new_heap :: "('mon, 're, 'wal, 'acc, 'db, 'sto) heap" where
  "new_heap = \<lparr>hp_unlockers = [], hp_checkers = [], hp_fetchers = [], hp_lockers = [], hp_rulers = [], hp_processes = []\<rparr>"

text \<open>A constructor whose error is passed on as \<open>f\<close> has it, and the reference to the object that it makes.\<close>

definition op_then :: "(err \<Rightarrow> err) \<Rightarrow> (err + 'a) go \<Rightarrow> ('a \<Rightarrow> ('h, err + 'b) op) \<Rightarrow> ('h, err + 'b) op" where
  "op_then f r k = (\<lambda>h.
     case r of Ret (Inl e) \<Rightarrow> (Ret (Inl (f e)), h) | Ret (Inr x) \<Rightarrow> k x h | Panic e \<Rightarrow> (Panic e, h) | Block \<Rightarrow> (Block, h))"

definition go_new :: "('h \<Rightarrow> 'a list) \<Rightarrow> (('a list \<Rightarrow> 'a list) \<Rightarrow> 'h \<Rightarrow> 'h) \<Rightarrow> 'a \<Rightarrow> (ref \<Rightarrow> ('h, err + 'b) op) \<Rightarrow> ('h, err + 'b) op" where
  "go_new objects change x k = (\<lambda>h. k (length (objects h)) (change (\<lambda>xs. xs @ [x]) h))"

lemma op_then_simps [simp]:
  "op_then f (Ret (Inl e)) k h = (Ret (Inl (f e)), h)" "op_then f (Ret (Inr x)) k h = k x h" "op_then f (Panic e') k h = (Panic e', h)"
  "op_then f Block k h = (Block, h)"
  by (simp_all add: op_then_def)

lemma go_new_eq [simp]: "go_new objects change x k h = k (length (objects h)) (change (\<lambda>xs. xs @ [x]) h)"
  by (simp add: go_new_def)

text \<open>An error that is returned as it is.\<close>

definition go_try :: "(err + 'a) go \<Rightarrow> ('a \<Rightarrow> (err + 'b) go) \<Rightarrow> (err + 'b) go" where
  "go_try r k =
     (case r of Ret (Inl e) \<Rightarrow> Ret (Inl e) | Ret (Inr x) \<Rightarrow> k x | Panic e \<Rightarrow> Panic e | Block \<Rightarrow> Block)"

lemma go_try_simps [simp]:
  "go_try (Ret (Inl e)) k = Ret (Inl e)" "go_try (Ret (Inr x)) k = k x" "go_try (Panic e') k = Panic e'"
  by (simp_all add: go_try_def)

type_synonym 'mon server =
  "('mon, peers, ref, ('mon, ref, ref, ref, ref, ref) accountmanager_service, ('mon, ref, ref, ref, ref) walletmanager_service,
    ('mon, ref, ref, ref) lister_service, ('mon, ref, ref, ref, ref) signer_service) api_service"

definition wired_server ::
  "('db, 'st) platform \<Rightarrow> go_runtime \<Rightarrow> 'mon monitoring \<Rightarrow> settings \<Rightarrow> 'sto list option \<Rightarrow> ref option \<Rightarrow> ref option \<Rightarrow>
     ref option \<Rightarrow> ref option \<Rightarrow> (('mon, 're, 'wal, 'acc, 'db, 'sto) heap, err + 'mon server) op" where
  "wired_server P rt M S stores unlockerSvc checkerSvc fetcherSvc rulerSvc =
     op_then id (startLister M S fetcherSvc checkerSvc rulerSvc) (\<lambda>listerSvc.
     op_then id (startSigner M S fetcherSvc checkerSvc unlockerSvc rulerSvc) (\<lambda>signerSvc.
     op_then id (wired_peers rt M S) (\<lambda>peersSvc.
     op_then (wrap_err ''failed to obtain server ID'') (Ret (ParseUint (vp_GetString S ''server.id'') 64)) (\<lambda>sid.
     op_then id (Ret (obtainCerts P S)) (\<lambda>certs.
     op_then id (wired_process P M S (of_nat sid) stores unlockerSvc checkerSvc fetcherSvc (Some peersSvc) certs) (\<lambda>process.
     go_new hp_processes hp_processes_update process (\<lambda>processSvc.
     op_then (wrap_err ''failed to create account manager service'')
       (accountmanager_New (mo_global M) (mo_noop M ''accountmanager'')
          [Some (accountmanager_WithLogLevel (LogLevel (vp_GetString S) ''accountmanager'')),
           Some (accountmanager_WithMonitor (mo_as M ''accountmanager'')), Some (accountmanager_WithUnlocker unlockerSvc),
           Some (accountmanager_WithChecker checkerSvc), Some (accountmanager_WithFetcher fetcherSvc),
           Some (accountmanager_WithRuler rulerSvc), Some (accountmanager_WithProcess (Some processSvc))]) (\<lambda>accountManager.
     op_then (wrap_err ''failed to create wallet manager service'')
       (walletmanager_New (mo_global M) (mo_noop M ''walletmanager'')
          [Some (walletmanager_WithLogLevel (LogLevel (vp_GetString S) ''walletmanager'')),
           Some (walletmanager_WithMonitor (mo_as M ''walletmanager'')), Some (walletmanager_WithUnlocker unlockerSvc),
           Some (walletmanager_WithChecker checkerSvc), Some (walletmanager_WithFetcher fetcherSvc),
           Some (walletmanager_WithRuler rulerSvc)]) (\<lambda>walletManager.
     op_then (wrap_err ''failed to create API service'')
       (api_with P (mo_global M) (mo_noop M ''api'')
          [Some (api_WithLogLevel (LogLevel (vp_GetString S) ''api'')), Some (api_WithMonitor (mo_as M ''api'')),
           Some (api_WithSigner (Some signerSvc)), Some (api_WithLister (Some listerSvc)), Some (api_WithProcess (Some processSvc)),
           Some (api_WithAccountManager (Some accountManager)), Some (api_WithWalletManager (Some walletManager)),
           Some (api_WithPeers (Some peersSvc)), Some (api_WithName (vp_GetString S ''server.name'')),
           Some (api_WithID (of_nat sid)), Some (api_WithServerCert (fst certs)), Some (api_WithServerKey (fst (snd certs))),
           Some (api_WithCACert (snd (snd certs))), Some (api_WithListenAddress (vp_GetString S ''server.listen-address''))])
       (\<lambda>svc. go_return (Inr svc)))))))))))"

definition wired_services ::
  "('db, 'st) platform \<Rightarrow> ('v, 'wal, 'acc, 're) libraries \<Rightarrow> go_runtime \<Rightarrow> 'mon monitoring \<Rightarrow> settings \<Rightarrow>
     (('mon, 're, 'wal, 'acc, 'db, 'st) heap, err + 'mon server) op" where
  "wired_services P L rt M S =
     op_then id (Ret (initStores P S)) (\<lambda>stores.
     op_then (wrap_err ''failed to initialise local unlocker'') (wired_unlocker P M S) (\<lambda>unlocker.
     go_new hp_unlockers hp_unlockers_update unlocker (\<lambda>unlockerSvc.
     op_then (wrap_err ''failed to start permissions checker'')
       (wired_checker (lb_regexp L) (WalletAndAccountNames (lb_wallets L)) rt M S) (\<lambda>checker.
     go_new hp_checkers hp_checkers_update checker (\<lambda>checkerSvc.
     op_then (wrap_err ''failed to initialise account fetcher'')
       (startFetcher (lb_wallets L) (lb_stores L) rt M S (map (pf_Retrieve P) stores)) (\<lambda>fetcher.
     go_new hp_fetchers hp_fetchers_update fetcher (\<lambda>fetcherSvc.
     op_then (wrap_err ''failed to set up locker service'') (startLocker M S) (\<lambda>locker.
     go_new hp_lockers hp_lockers_update locker (\<lambda>lockerSvc.
     op_then (wrap_err ''failed to set up ruler service'') (startRuler P (lb_rules L) M S (Some lockerSvc)) (\<lambda>ruler.
     go_new hp_rulers hp_rulers_update ruler (\<lambda>rulerSvc.
       wired_server P rt M S (Some stores) (Some unlockerSvc) (Some checkerSvc) (Some fetcherSvc) (Some rulerSvc))))))))))))"

section \<open>What the constructors make of the options\<close>

text \<open>The monitor that a service works with.\<close>

definition monitor_for :: "'mon monitoring \<Rightarrow> string \<Rightarrow> 'mon option" where
  "monitor_for M name = (case mo_as M name of None \<Rightarrow> Some (mo_noop M name) | Some m \<Rightarrow> Some m)"

lemma wired_unlocker_start:
  "mo_register M (mo_monitor M) = None \<Longrightarrow> wired_unlocker P M S = Ret (startUnlocker P S)"
  by (simp add: wired_unlocker_def startUnlocker_def unlocker_with_def unlocker_parse_def unlocker_New_def split: sum.split)

lemma wired_checker_start: "wired_checker R names rt M S = Ret (startChecker R names rt S)"
  by (simp add: wired_checker_def startChecker_def checker_with_def checker_parse_def checker_New_def Let_def split: sum.split)

lemma startFetcher_start: "startFetcher W L rt M S stores = Ret (fetcher_New W L rt (Some ()) stores)"
  by (simp add: startFetcher_def fetcher_with_def fetcher_parse_def fetcher_New_def Let_def split: sum.split)

lemma startLocker_start:
  "startLocker M S = Ret (Inr \<lparr>locker_s_monitor = monitor_for M ''locker'', locker_s_locks = new_locker\<rparr>)"
  by (simp add: startLocker_def locker_New_def locker_parse_def monitor_for_def Let_def split: option.split)

lemma wired_rules_start: "wired_rules P L M S = initRules P L S"
  by (simp add: wired_rules_def initRules_def rules_with_def rules_parse_def rules_New_def split: go.split sum.split prod.split)

lemma startRuler_start:
  "startRuler P L M S (Some loc) = go_then ''failed to set up rules'' (initRules P L S) (\<lambda>rules.
     Ret (Inr \<lparr>ruler_s_monitor = monitor_for M ''ruler'', ruler_s_locker = Some loc, ruler_s_rules = Some rules\<rparr>))"
  by (simp add: startRuler_def wired_rules_start ruler_New_def ruler_parse_def monitor_for_def Let_def split: option.split)

lemma wired_peers_start: "wired_peers rt M S = Ret (startPeers rt S)"
  by (simp add: wired_peers_def startPeers_def peers_with_def peers_parse_def peers_New_def Let_def split: sum.split)

lemma startLister_start:
  "startLister M S (Some fet) (Some chk) (Some rul) =
     Ret (Inr \<lparr>lister_s_monitor = monitor_for M ''lister'', lister_s_checker = Some chk, lister_s_fetcher = Some fet, lister_s_ruler = Some rul\<rparr>)"
  by (simp add: startLister_def lister_New_def lister_parse_def monitor_for_def Let_def split: option.split)

lemma startSigner_start:
  "startSigner M S (Some fet) (Some chk) (Some unl) (Some rul) =
     Ret (Inr \<lparr>signer_s_monitor = monitor_for M ''signer'', signer_s_unlocker = Some unl, signer_s_checker = Some chk,
                signer_s_fetcher = Some fet, signer_s_ruler = Some rul\<rparr>)"
  by (simp add: startSigner_def signer_New_def signer_parse_def monitor_for_def Let_def split: option.split)

lemma startSender_start:
  "startSender P M S cert key ca =
     Ret (case sender_New P (vp_GetString S ''server.name'') cert key ca of
            Some e \<Rightarrow> Inl (wrap_err ''failed to create sender service'' e) | None \<Rightarrow> Inr (vp_GetString S ''server.name''))"
  by (simp add: startSender_def sender_with_def sender_parse_def sender_New_def Let_def split: option.split)

definition started_process ::
  "settings \<Rightarrow> process_settings \<Rightarrow> peers \<Rightarrow> 'sto list \<Rightarrow> 'unl \<Rightarrow> 'chk \<Rightarrow> 'fet \<Rightarrow>
     ('chk, 'fet, 'unl, string, peers, 'sto, unit) process_service" where
  "started_process S pst ps stores unl chk fet =
     \<lparr>process_s_checker = Some chk, process_s_fetcher = Some fet, process_s_unlocker = Some unl,
      process_s_sender = Some (vp_GetString S ''server.name''), process_s_peers = Some ps, process_s_id = pst_id pst,
      process_s_stores = Some stores, process_s_encryptor = Some (), process_s_generationPassphrase = pst_generationPassphrase pst,
      process_s_generationTimeout = pst_generationTimeout pst\<rparr>"

lemma wired_process_start:
  "wired_process P M S sid (Some stores) (Some unl) (Some chk) (Some fet) (Some ps) certs =
     Ret (map_sum id (\<lambda>pst. started_process S pst ps stores unl chk fet) (startProcess P S sid certs))"
  by (cases certs) (simp add: wired_process_def startProcess_def startSender_start process_New_def process_parse_def started_process_def
      Let_def split: option.split sum.split)

lemma api_with_start:
  "api_with P g noop
     [Some (api_WithLogLevel lvl), Some (api_WithMonitor mon), Some (api_WithSigner (Some sig)), Some (api_WithLister (Some lis)),
      Some (api_WithProcess (Some prc)), Some (api_WithAccountManager (Some acm)), Some (api_WithWalletManager (Some wam)),
      Some (api_WithPeers (Some ps)), Some (api_WithName name), Some (api_WithID sid), Some (api_WithServerCert cert),
      Some (api_WithServerKey key), Some (api_WithCACert ca), Some (api_WithListenAddress addr)] =
   Ret (case api_New P name sid addr (cert, key, ca) of
          Some e \<Rightarrow> Inl e
        | None \<Rightarrow> Inr \<lparr>api_s_monitor = (case mon of None \<Rightarrow> Some noop | Some m \<Rightarrow> Some m),
            api_s_wallet = \<lparr>hwallet_s_walletManager = Some wam\<rparr>,
            api_s_account = \<lparr>haccount_s_accountManager = Some acm, haccount_s_process = Some prc\<rparr>,
            api_s_lister = \<lparr>hlister_s_lister = Some lis\<rparr>, api_s_signer = \<lparr>hsigner_s_signer = Some sig\<rparr>,
            api_s_receiver = \<lparr>hreceiver_s_process = Some prc, hreceiver_s_peers = Some ps\<rparr>\<rparr>)"
  by (cases mon) (simp_all add: api_with_def api_parse_def api_New_def Let_def hwallet_New_def hwallet_parse_def haccount_New_def haccount_parse_def
      hlister_New_def hlister_parse_def hsigner_New_def hsigner_parse_def hreceiver_New_def hreceiver_parse_def split: option.split)

text \<open>The server that is started: every service behind it is given the same ruler, checker, fetcher and unlocker.\<close>

definition started_server :: "'mon monitoring \<Rightarrow> peers \<Rightarrow> ref \<Rightarrow> ref \<Rightarrow> ref \<Rightarrow> ref \<Rightarrow> ref \<Rightarrow> 'mon server" where
  "started_server M ps prc unl chk fet rul =
      \<lparr>api_s_monitor = monitor_for M ''api'',
       api_s_wallet = \<lparr>hwallet_s_walletManager = Some
         \<lparr>walletmanager_s_monitor = monitor_for M ''walletmanager'', walletmanager_s_unlocker = Some unl,
          walletmanager_s_checker = Some chk, walletmanager_s_fetcher = Some fet, walletmanager_s_ruler = Some rul\<rparr>\<rparr>,
       api_s_account = \<lparr>haccount_s_accountManager = Some
         \<lparr>accountmanager_s_monitor = monitor_for M ''accountmanager'', accountmanager_s_unlocker = Some unl,
          accountmanager_s_checker = Some chk, accountmanager_s_fetcher = Some fet, accountmanager_s_ruler = Some rul,
          accountmanager_s_process = Some prc\<rparr>, haccount_s_process = Some prc\<rparr>,
       api_s_lister = \<lparr>hlister_s_lister = Some
         \<lparr>lister_s_monitor = monitor_for M ''lister'', lister_s_checker = Some chk, lister_s_fetcher = Some fet, lister_s_ruler = Some rul\<rparr>\<rparr>,
       api_s_signer = \<lparr>hsigner_s_signer = Some
         \<lparr>signer_s_monitor = monitor_for M ''signer'', signer_s_unlocker = Some unl, signer_s_checker = Some chk,
          signer_s_fetcher = Some fet, signer_s_ruler = Some rul\<rparr>\<rparr>,
       api_s_receiver = \<lparr>hreceiver_s_process = Some prc, hreceiver_s_peers = Some ps\<rparr>\<rparr>"

lemma accountmanager_start:
  "accountmanager_New g noop [Some (accountmanager_WithLogLevel lvl), Some (accountmanager_WithMonitor mon), Some (accountmanager_WithUnlocker (Some unl)),
     Some (accountmanager_WithChecker (Some chk)), Some (accountmanager_WithFetcher (Some fet)), Some (accountmanager_WithRuler (Some rul)),
     Some (accountmanager_WithProcess (Some prc))] =
   Ret (Inr \<lparr>accountmanager_s_monitor = (case mon of None \<Rightarrow> Some noop | Some m \<Rightarrow> Some m), accountmanager_s_unlocker = Some unl,
     accountmanager_s_checker = Some chk, accountmanager_s_fetcher = Some fet, accountmanager_s_ruler = Some rul, accountmanager_s_process = Some prc\<rparr>)"
  by (cases mon) (simp_all add: accountmanager_New_def accountmanager_parse_def Let_def)

lemma walletmanager_start:
  "walletmanager_New g noop [Some (walletmanager_WithLogLevel lvl), Some (walletmanager_WithMonitor mon), Some (walletmanager_WithUnlocker (Some unl)),
     Some (walletmanager_WithChecker (Some chk)), Some (walletmanager_WithFetcher (Some fet)), Some (walletmanager_WithRuler (Some rul))] =
   Ret (Inr \<lparr>walletmanager_s_monitor = (case mon of None \<Rightarrow> Some noop | Some m \<Rightarrow> Some m), walletmanager_s_unlocker = Some unl,
     walletmanager_s_checker = Some chk, walletmanager_s_fetcher = Some fet, walletmanager_s_ruler = Some rul\<rparr>)"
  by (cases mon) (simp_all add: walletmanager_New_def walletmanager_parse_def Let_def)

lemma wired_server_start:
  "fst (wired_server P rt M S (Some stores) (Some unl) (Some chk) (Some fet) (Some rul) h) =
     Ret (map_sum id (\<lambda>(ps, pst). started_server M ps (length (hp_processes h)) unl chk fet rul) (startGrpcServer P rt S))"
  "startGrpcServer P rt S = Inr (ps, pst) \<Longrightarrow>
     snd (wired_server P rt M S (Some stores) (Some unl) (Some chk) (Some fet) (Some rul) h) =
       h\<lparr>hp_processes := hp_processes h @ [started_process S pst ps stores unl chk fet]\<rparr>"
proof -
  note simps = wired_server_def startGrpcServer_def startLister_start startSigner_start wired_peers_start wired_process_start
    accountmanager_start walletmanager_start api_with_start started_server_def monitor_for_def Let_def go_return_def
  have "fst (wired_server P rt M S (Some stores) (Some unl) (Some chk) (Some fet) (Some rul) h) =
      Ret (map_sum id (\<lambda>(ps, pst). started_server M ps (length (hp_processes h)) unl chk fet rul) (startGrpcServer P rt S)) \<and>
    (startGrpcServer P rt S = Inr (ps, pst) \<longrightarrow>
     snd (wired_server P rt M S (Some stores) (Some unl) (Some chk) (Some fet) (Some rul) h) =
       h\<lparr>hp_processes := hp_processes h @ [started_process S pst ps stores unl chk fet]\<rparr>)"
  proof (cases "startPeers rt S")
    case peers: (Inr ps)
    show ?thesis
    proof (cases "ParseUint (vp_GetString S ''server.id'') 64")
      case sid: (Inr sid)
      show ?thesis
      proof (cases "obtainCerts P S")
        case certs: (Inr certs)
        show ?thesis
          by (cases "startProcess P S (of_nat sid) certs"; cases certs)
             (auto simp: simps peers sid certs split: option.split)
      qed (simp add: simps peers sid)
    qed (simp add: simps peers)
  qed (simp add: simps)
  then show "fst (wired_server P rt M S (Some stores) (Some unl) (Some chk) (Some fet) (Some rul) h) =
      Ret (map_sum id (\<lambda>(ps, pst). started_server M ps (length (hp_processes h)) unl chk fet rul) (startGrpcServer P rt S))"
    "startGrpcServer P rt S = Inr (ps, pst) \<Longrightarrow>
     snd (wired_server P rt M S (Some stores) (Some unl) (Some chk) (Some fet) (Some rul) h) =
       h\<lparr>hp_processes := hp_processes h @ [started_process S pst ps stores unl chk fet]\<rparr>" by blast+
qed

text \<open>The heap after a start: one new object of each kind, the ruler with a reference to the new locker.\<close>

definition started_heap ::
  "'mon monitoring \<Rightarrow> settings \<Rightarrow> 'st list \<Rightarrow> ('db, 'v, 'wal, 'acc, 're) daemon \<Rightarrow> ('mon, 're, 'wal, 'acc, 'db, 'st) heap \<Rightarrow>
     ('mon, 're, 'wal, 'acc, 'db, 'st) heap" where
  "started_heap M S stores d h = \<lparr>
     hp_unlockers = hp_unlockers h @ [cf_unlocker (dm_config d)],
     hp_checkers = hp_checkers h @ [cf_access (dm_config d)],
     hp_fetchers = hp_fetchers h @ [dm_fetcher d],
     hp_lockers = hp_lockers h @ [\<lparr>locker_s_monitor = monitor_for M ''locker'', locker_s_locks = new_locker\<rparr>],
     hp_rulers = hp_rulers h @ [\<lparr>ruler_s_monitor = monitor_for M ''ruler'', ruler_s_locker = Some (length (hp_lockers h)),
                                ruler_s_rules = Some (cf_rules (dm_config d))\<rparr>],
     hp_processes = hp_processes h @ [started_process S (dm_process d) (dm_peers d) stores (length (hp_unlockers h)) (length (hp_checkers h))
                                      (length (hp_fetchers h))]\<rparr>"

definition server_of :: "'mon monitoring \<Rightarrow> ('db, 'v, 'wal, 'acc, 're) daemon \<Rightarrow> ('mon, 're, 'wal, 'acc, 'db, 'st) heap \<Rightarrow> 'mon server" where
  "server_of M d h = started_server M (dm_peers d) (length (hp_processes h)) (length (hp_unlockers h)) (length (hp_checkers h))
     (length (hp_fetchers h)) (length (hp_rulers h))"

lemma wired_services_start:
  assumes "mo_register M (mo_monitor M) = None"
  shows "fst (wired_services P L rt M S h) = map_go (map_sum id (\<lambda>d. server_of M d h)) (startServices P L rt S)"
    and "startServices P L rt S = Ret (Inr d) \<Longrightarrow> snd (wired_services P L rt M S h) = started_heap M S (projr (initStores P S)) d h"
proof -
  note simps = wired_services_def startServices_def wired_unlocker_start [of M P S, OF assms] wired_checker_start startFetcher_start startLocker_start
    startRuler_start wired_server_start(1) server_of_def
  have "fst (wired_services P L rt M S h) = map_go (map_sum id (\<lambda>d. server_of M d h)) (startServices P L rt S) \<and>
    (startServices P L rt S = Ret (Inr d) \<longrightarrow> snd (wired_services P L rt M S h) = started_heap M S (projr (initStores P S)) d h)"
  proof (cases "initStores P S")
    case stores: (Inr stores)
    show ?thesis
    proof (cases "startUnlocker P S")
      case unl: (Inr unl)
      show ?thesis
      proof (cases "startChecker (lb_regexp L) (WalletAndAccountNames (lb_wallets L)) rt S")
        case chk: (Inr chk)
        show ?thesis
        proof (cases "fetcher_New (lb_wallets L) (lb_stores L) rt (Some ()) (map (pf_Retrieve P) stores)")
          case fet: (Inr fet)
          show ?thesis
            by (cases "startGrpcServer P rt S")
               (auto simp: simps stores unl chk fet go_then_def wired_server_start(2) started_heap_def split: go.split sum.split)
        qed (simp add: simps stores unl chk)
      qed (simp add: simps stores unl)
    qed (simp add: simps stores)
  qed (simp add: simps)
  then show "fst (wired_services P L rt M S h) = map_go (map_sum id (\<lambda>d. server_of M d h)) (startServices P L rt S)"
    "startServices P L rt S = Ret (Inr d) \<Longrightarrow> snd (wired_services P L rt M S h) = started_heap M S (projr (initStores P S)) d h" by blast+
qed

end
