(* ===== verification/Spec_Startup.thy ===== *)
theory Spec_Startup
  imports Wiring Samples_Dirk
begin

text \<open>Properties of the start of the daemon: the options of a service, and the services behind the server.\<close>

section \<open>Options\<close>

text \<open>The options of the signer that set a given field, with the value that they set.\<close>

fun monitor_given :: "('mon, 'chk, 'fet, 'rul, 'unl) signer_parameter \<Rightarrow> 'mon option option" where
  "monitor_given (signer_WithMonitor monitor) = Some monitor"
| "monitor_given _ = None"

fun checker_given :: "('mon, 'chk, 'fet, 'rul, 'unl) signer_parameter \<Rightarrow> 'chk option option" where
  "checker_given (signer_WithChecker service) = Some service"
| "checker_given _ = None"

fun fetcher_given :: "('mon, 'chk, 'fet, 'rul, 'unl) signer_parameter \<Rightarrow> 'fet option option" where
  "fetcher_given (signer_WithFetcher service) = Some service"
| "fetcher_given _ = None"

fun ruler_given :: "('mon, 'chk, 'fet, 'rul, 'unl) signer_parameter \<Rightarrow> 'rul option option" where
  "ruler_given (signer_WithRuler service) = Some service"
| "ruler_given _ = None"

fun unlocker_given :: "('mon, 'chk, 'fet, 'rul, 'unl) signer_parameter \<Rightarrow> 'unl option option" where
  "unlocker_given (signer_WithUnlocker service) = Some service"
| "unlocker_given _ = None"

interpretation signer_mon: option_field signer_apply signer_p_monitor monitor_given
  by unfold_locales (case_tac q; simp)

interpretation signer_chk: option_field signer_apply signer_p_checker checker_given
  by unfold_locales (case_tac q; simp)

interpretation signer_fet: option_field signer_apply signer_p_fetcher fetcher_given
  by unfold_locales (case_tac q; simp)

interpretation signer_rul: option_field signer_apply signer_p_ruler ruler_given
  by unfold_locales (case_tac q; simp)

interpretation signer_unl: option_field signer_apply signer_p_unlocker unlocker_given
  by unfold_locales (case_tac q; simp)

lemmas signer_fields = signer_mon.field_fold signer_chk.field_fold signer_fet.field_fold signer_rul.field_fold signer_unl.field_fold

text \<open>
  C40. The options of a service: a nil option makes the constructor panic wherever it stands, since
  its guard looks at the list and not at the option. Otherwise the last option for each part counts
  and their order does not matter beyond that; the first part that is missing, in the order of the
  checks, gives the error, and the service is made of the parts given last.
\<close>

theorem signer_options_decide:
  "signer_New globalLevel noop params =
     (let given = map the params;
          monitor = last_set monitor_given given None; checker = last_set checker_given given None;
          ruler = last_set ruler_given given None; unlocker = last_set unlocker_given given None;
          fetcher = last_set fetcher_given given None;
          missing = (\<lambda>part. Ret (Inl (''problem with parameters: no '' @ part @ '' specified'')))
      in if None \<in> set params then Panic nil_deref
         else if checker = None then missing ''checker''
         else if ruler = None then missing ''ruler''
         else if unlocker = None then missing ''unlocker''
         else if fetcher = None then missing ''fetcher''
         else Ret (Inr \<lparr>signer_s_monitor = (if monitor = None then Some noop else monitor), signer_s_unlocker = unlocker,
                        signer_s_checker = checker, signer_s_fetcher = fetcher, signer_s_ruler = ruler\<rparr>))"
proof (cases "None \<in> set params")
  case False
  let ?last = "\<lambda>sets. last_set sets (map the params) None"
  show ?thesis
    by (cases "?last checker_given"; cases "?last ruler_given"; cases "?last unlocker_given"; cases "?last fetcher_given"; cases "?last monitor_given")
       (simp_all add: signer_New_def signer_parse_def apply_all_fold signer_fields wrap_err_def False)
qed (simp add: signer_New_def signer_parse_def apply_all_fold)

section \<open>The services behind the server\<close>

text \<open>
  C39. The start of the daemon with the options that the program gives to every constructor, on a
  heap of services with references between them: when it succeeds, exactly one locker, one ruler,
  one checker, one fetcher, one unlocker and one process were made; the ruler has the new locker and
  the database of the rules; the signer, the lister and the two managers behind the server all refer to that one
  ruler, checker and fetcher, those that unlock to the one unlocker, and the account manager, the handler of
  accounts and the receiver to the one process. The metrics of the unlocker register.
\<close>

theorem server_shares_services:
  assumes "mo_register M (mo_monitor M) = None" and "wired_services P L rt M S h = (Ret (Inr srv), h')"
  shows "\<exists>d sig lis am wm prc. startServices P L rt S = Ret (Inr d) \<and>
    hsigner_s_signer (api_s_signer srv) = Some sig \<and> hlister_s_lister (api_s_lister srv) = Some lis \<and>
    haccount_s_accountManager (api_s_account srv) = Some am \<and> hwallet_s_walletManager (api_s_wallet srv) = Some wm \<and>
    hp_lockers h' = hp_lockers h @ [\<lparr>locker_s_monitor = monitor_for M ''locker'', locker_s_locks = new_locker\<rparr>] \<and>
    hp_rulers h' = hp_rulers h @ [\<lparr>ruler_s_monitor = monitor_for M ''ruler'', ruler_s_locker = Some (length (hp_lockers h)),
      ruler_s_rules = Some (cf_rules (dm_config d))\<rparr>] \<and>
    {signer_s_ruler sig, lister_s_ruler lis, accountmanager_s_ruler am, walletmanager_s_ruler wm} = {Some (length (hp_rulers h))} \<and>
    hp_checkers h' = hp_checkers h @ [cf_access (dm_config d)] \<and>
    {signer_s_checker sig, lister_s_checker lis, accountmanager_s_checker am, walletmanager_s_checker wm, process_s_checker prc} =
      {Some (length (hp_checkers h))} \<and>
    hp_fetchers h' = hp_fetchers h @ [dm_fetcher d] \<and>
    {signer_s_fetcher sig, lister_s_fetcher lis, accountmanager_s_fetcher am, walletmanager_s_fetcher wm, process_s_fetcher prc} =
      {Some (length (hp_fetchers h))} \<and>
    hp_unlockers h' = hp_unlockers h @ [cf_unlocker (dm_config d)] \<and>
    {signer_s_unlocker sig, accountmanager_s_unlocker am, walletmanager_s_unlocker wm, process_s_unlocker prc} = {Some (length (hp_unlockers h))} \<and>
    hp_processes h' = hp_processes h @ [prc] \<and>
    {accountmanager_s_process am, haccount_s_process (api_s_account srv), hreceiver_s_process (api_s_receiver srv)} = {Some (length (hp_processes h))}"
proof -
  note start = wired_services_start [OF assms(1), of P L rt S]
  from start(1) [of h] assms(2) obtain d where d: "startServices P L rt S = Ret (Inr d)" and srv: "srv = server_of M d h"
    by (cases "startServices P L rt S") (auto split: sum.splits simp: map_sum_def)
  from start(2) [OF d, of h] assms(2) have h': "h' = started_heap M S (projr (initStores P S)) d h" by simp
  show ?thesis unfolding srv h' using d
    by (simp add: server_of_def started_server_def started_heap_def started_process_def)
qed

text \<open>A daemon of one peer with a wallet in one store, whose secrets and certificates can be read.\<close>

definition sample_platform :: "(mem_db, bytes list) platform" where
  "sample_platform = \<lparr>pf_Home = Inr ''/home/dirk'', pf_Fetch = (\<lambda>key. if key = [] then Inl ''no key'' else Inr [1, 2, 3]),
     pf_Open = (\<lambda>_ _. Inr mem_badger), pf_RandInt = (\<lambda>_. Inr 0), pf_filesystem = (\<lambda>_. [[1]]), pf_s3 = (\<lambda>_. Inl ''no network''),
     pf_scratch = [], pf_Retrieve = (\<lambda>st. st), pf_X509KeyPair = (\<lambda>_ _. None), pf_AppendCerts = (\<lambda>_. True), pf_Listen = (\<lambda>_. None)\<rparr>"

definition sample_libraries :: "(string list, string, string \<times> bytes, string) libraries" where
  "sample_libraries = \<lparr>lb_wallets = sample_wallets,
     lb_stores = \<lparr>json_type = (\<lambda>_. Inr ''non-deterministic''), nd_DeserializeWallet = (\<lambda>_. Inr ''Wallet''),
       hd_DeserializeWallet = (\<lambda>_. Inl ''type''), distributed_DeserializeWallet = (\<lambda>_. Inl ''type''),
       keystore_DeserializeWallet = (\<lambda>_. Inl ''type''), wal_Accounts = (\<lambda>_. [(''Account'', replicate 48 1)])\<rparr>,
     lb_regexp = sample_regexp, lb_rules = sample_lib, lb_ssz = sample_ssz\<rparr>"

definition sample_configuration :: settings where
  "sample_configuration = \<lparr>vp_GetString = (\<lambda>k.
       if k = ''server.id'' then ''1'' else if k = ''server.name'' then ''server1'' else if k = ''server.listen-address'' then '':8881''
       else if k = ''storage-path'' then ''storage'' else if k = ''certificates.server-cert'' then ''cert''
       else if k = ''certificates.server-key'' then ''key'' else []),
     vp_GetStringSlice = (\<lambda>_. []), vp_GetBool = (\<lambda>_. False), vp_GetDuration = (\<lambda>_. 70),
     vp_GetStringMap = (\<lambda>_. [''client1'']), vp_GetStringMapString = (\<lambda>_. [(''1'', ''server1:8881'')]),
     vp_GetStringMapStringSlice = (\<lambda>_. [(''Wallet'', [''All''])]), vp_Stores = Inr []\<rparr>"

definition sample_monitoring :: "string monitoring" where
  "sample_monitoring = \<lparr>mo_monitor = ''monitor'', mo_as = (\<lambda>name. if name = ''signer'' then Some ''monitor'' else None),
     mo_noop = (\<lambda>name. ''noop''), mo_null = ''null'', mo_register = (\<lambda>_. None), mo_setup = (\<lambda>_. None),
     mo_serve = (\<lambda>_. ''monitor''), mo_global = Level_Info\<rparr>"

lemma sample_start: "\<exists>d. startServices sample_platform sample_libraries sample_runtime sample_configuration = Ret (Inr d)"
proof -
  have "case startServices sample_platform sample_libraries sample_runtime sample_configuration of
      Ret (Inr d) \<Rightarrow> True | _ \<Rightarrow> False"
    by code_simp
  then show ?thesis by (auto split: go.splits sum.splits)
qed

theorem server_shares_services_witness:
  "\<exists>srv h' sig wm. wired_services sample_platform sample_libraries sample_runtime sample_monitoring sample_configuration new_heap = (Ret (Inr srv), h') \<and>
     length (hp_lockers h') = 1 \<and> length (hp_rulers h') = 1 \<and>
     hsigner_s_signer (api_s_signer srv) = Some sig \<and> hwallet_s_walletManager (api_s_wallet srv) = Some wm \<and>
     signer_s_ruler sig = walletmanager_s_ruler wm"
proof -
  let ?run = "wired_services sample_platform sample_libraries sample_runtime sample_monitoring sample_configuration new_heap"
  from sample_start obtain d where d: "startServices sample_platform sample_libraries sample_runtime sample_configuration = Ret (Inr d)" ..
  have r: "mo_register sample_monitoring (mo_monitor sample_monitoring) = None" by (simp add: sample_monitoring_def)
  from wired_services_start(1) [OF r, of sample_platform sample_libraries sample_runtime sample_configuration new_heap] d
  obtain srv h' where run: "?run = (Ret (Inr srv), h')" by (cases ?run) auto
  from server_shares_services [OF r run] run show ?thesis by (auto simp: new_heap_def)
qed

end
