(* ===== verification/Program.thy ===== *)
theory Program
  imports Wiring
begin

text \<open>
  The program around the services: finding its configuration, the sources of secrets, the commands
  that only show something, and \<open>main\<close> from the configuration to the end of the process. What the
  configuration library, the sources of secrets and the operating system do is given by records.
\<close>

section \<open>Configuration\<close>

text \<open>The outcome of reading the configuration file.\<close>

datatype read_config = Config_read | Config_not_found err | Config_unparsable err | Config_failed err

record config_lib =
  cl_BindPFlags :: "err option"
  cl_flags :: settings
  cl_ReadInConfig :: "string \<Rightarrow> string \<Rightarrow> read_config"

text \<open>
  The result says whether the program is to end. The version and the base directory are read before
  the environment and the file are known, from \<open>cl_flags\<close>, the settings of the command line alone; the name of the
  server, when there is no file, from the settings of the command line, the environment and the defaults.
\<close>

definition fetchConfig :: "config_lib \<Rightarrow> ('db, 'st) platform \<Rightarrow> settings \<Rightarrow> err + bool" where
  "fetchConfig V P S =
     (case cl_BindPFlags V of
        Some e \<Rightarrow> Inl (wrap_err ''failed to bind pflags to viper'' e)
      | None \<Rightarrow>
          if vp_GetBool (cl_flags V) ''version'' then Inr True
          else
            (case (if vp_GetString (cl_flags V) ''base-dir'' \<noteq> [] then Inr (vp_GetString (cl_flags V) ''base-dir'', ''dirk'')
                   else case pf_Home P of
                          Inl e \<Rightarrow> Inl (wrap_err ''failed to obtain home directory'' e)
                        | Inr home \<Rightarrow> Inr (home, ''.dirk'')) of
               Inl e \<Rightarrow> Inl e
             | Inr (path, name) \<Rightarrow>
                 (case cl_ReadInConfig V path name of
                    Config_read \<Rightarrow> Inr False
                  | Config_not_found e \<Rightarrow>
                      if vp_GetString S ''server.name'' = [] then Inl (wrap_err ''could not find the configuration file'' e) else Inr False
                  | Config_unparsable e \<Rightarrow> Inl (wrap_err ''could not parse the configuration file'' e)
                  | Config_failed e \<Rightarrow> Inl (wrap_err ''failed to obtain configuration'' e))))"

text \<open>
  The environment has no say in where the file is looked for: without the flag \<open>base-dir\<close>, the file is
  that of the home directory, whatever base directory the other settings give.
\<close>

lemma fetchConfig_home:
  assumes "cl_BindPFlags V = None" "\<not> vp_GetBool (cl_flags V) ''version''" "vp_GetString (cl_flags V) ''base-dir'' = []"
    and "pf_Home P = Inr home" and "cl_ReadInConfig V home ''.dirk'' = Config_not_found e" and "vp_GetString S ''server.name'' = []"
  shows "fetchConfig V P S = Inl (wrap_err ''could not find the configuration file'' e)"
  using assms by (simp add: fetchConfig_def)

section \<open>Sources of secrets\<close>

text \<open>The confidants, with the options that they are made with.\<close>

datatype confidant =
    Direct_confidant log_level
  | File_confidant log_level
  | Http_confidant log_level
  | Asm_confidant log_level "(string \<times> string) option" string
  | Gsm_confidant log_level string string

record 'c majordomo_lib =
  mj_New :: "log_level \<Rightarrow> err option"
  mj_Confidant :: "confidant \<Rightarrow> err + 'c"
  mj_Register :: "'c \<Rightarrow> err option"

definition register_confidant :: "'c majordomo_lib \<Rightarrow> string \<Rightarrow> confidant \<Rightarrow> confidant list \<Rightarrow> err + confidant list" where
  "register_confidant J what c registered =
     (case mj_Confidant J c of
        Inl e \<Rightarrow> Inl (wrap_err (''failed to create '' @ what @ '' confidant'') e)
      | Inr x \<Rightarrow>
          (case mj_Register J x of
             Some e \<Rightarrow> Inl (wrap_err (''failed to register '' @ what @ '' confidant'') e)
           | None \<Rightarrow> Inr (registered @ [c])))"

definition InitMajordomo :: "'c majordomo_lib \<Rightarrow> ('db, 'st) platform \<Rightarrow> settings \<Rightarrow> (err + confidant list) go" where
  "InitMajordomo J P S =
     (let level = LogLevel (vp_GetString S); get = vp_GetString S in
      case mj_New J (level ''majordomo'') of
        Some e \<Rightarrow> Ret (Inl (wrap_err ''failed to create majordomo service'' e))
      | None \<Rightarrow>
          go_try (Ret (register_confidant J ''direct'' (Direct_confidant (level ''majordomo.confidants.direct'')) [])) (\<lambda>cs.
          go_try (Ret (register_confidant J ''file'' (File_confidant (level ''majordomo.confidants.file'')) cs)) (\<lambda>cs.
          go_try (Ret (register_confidant J ''http'' (Http_confidant (level ''majordomo.confidants.http'')) cs)) (\<lambda>cs.
          go_try (Ret (if get ''majordomo.asm.region'' = [] then Inr cs
                       else register_confidant J ''AWS secrets manager''
                              (Asm_confidant (level ''majordomo.confidants.asm'')
                                 (if get ''majordomo.asm.id'' = [] then None
                                  else Some (get ''majordomo.asm.id'', get ''majordomo.asm.secret''))
                                 (get ''majordomo.asm.region'')) cs)) (\<lambda>cs.
          if get ''majordomo.gsm.project'' = [] then Ret (Inr cs)
          else case (if get ''majordomo.gsm.credentials'' = [] then Ret [] else ResolvePath P S (get ''majordomo.gsm.credentials'')) of
                 Ret path \<Rightarrow> Ret (register_confidant J ''Google secrets manager''
                                     (Gsm_confidant (level ''majordomo.confidants.gsm'') path (get ''majordomo.gsm.project'')) cs)
               | Panic e \<Rightarrow> Panic e
               | Block \<Rightarrow> Block)))))"

text \<open>A service that was set up has the three local confidants first, and the two of the clouds only when configured.\<close>

lemma register_confidant_ok: "register_confidant J what c cs = Inr ds \<Longrightarrow> ds = cs @ [c]"
  by (auto simp: register_confidant_def split: sum.splits option.splits)

lemma go_try_Inr: "go_try (Ret r) k = Ret (Inr y) \<longleftrightarrow> (\<exists>x. r = Inr x \<and> k x = Ret (Inr y))"
  by (cases r) auto

lemma InitMajordomo_confidants:
  assumes "InitMajordomo J P S = Ret (Inr cs)"
  obtains asm gsm where
    "cs = [Direct_confidant (LogLevel (vp_GetString S) ''majordomo.confidants.direct''),
       File_confidant (LogLevel (vp_GetString S) ''majordomo.confidants.file''),
       Http_confidant (LogLevel (vp_GetString S) ''majordomo.confidants.http'')] @ asm @ gsm"
    and "length asm = (if vp_GetString S ''majordomo.asm.region'' = [] then 0 else 1)"
    and "length gsm = (if vp_GetString S ''majordomo.gsm.project'' = [] then 0 else 1)"
proof -
  let ?local = "[Direct_confidant (LogLevel (vp_GetString S) ''majordomo.confidants.direct''),
     File_confidant (LogLevel (vp_GetString S) ''majordomo.confidants.file''),
     Http_confidant (LogLevel (vp_GetString S) ''majordomo.confidants.http'')]"
  let ?asm = "Asm_confidant (LogLevel (vp_GetString S) ''majordomo.confidants.asm'')
     (if vp_GetString S ''majordomo.asm.id'' = [] then None
      else Some (vp_GetString S ''majordomo.asm.id'', vp_GetString S ''majordomo.asm.secret'')) (vp_GetString S ''majordomo.asm.region'')"
  have new: "mj_New J (LogLevel (vp_GetString S) ''majordomo'') = None"
    using assms by (cases "mj_New J (LogLevel (vp_GetString S) ''majordomo'')") (simp_all add: InitMajordomo_def Let_def)
  from assms obtain c1 c2 c3 ds where c: "register_confidant J ''direct'' (?local ! 0) [] = Inr c1"
      "register_confidant J ''file'' (?local ! 1) c1 = Inr c2" "register_confidant J ''http'' (?local ! 2) c2 = Inr c3"
    and a: "(if vp_GetString S ''majordomo.asm.region'' = [] then Inr c3
             else register_confidant J ''AWS secrets manager'' ?asm c3) = Inr ds"
    and g: "(if vp_GetString S ''majordomo.gsm.project'' = [] then Ret (Inr ds)
          else case (if vp_GetString S ''majordomo.gsm.credentials'' = [] then Ret [] else ResolvePath P S (vp_GetString S ''majordomo.gsm.credentials'')) of
                 Ret path \<Rightarrow> Ret (register_confidant J ''Google secrets manager''
                                     (Gsm_confidant (LogLevel (vp_GetString S) ''majordomo.confidants.gsm'') path (vp_GetString S ''majordomo.gsm.project'')) ds)
               | Panic e \<Rightarrow> Panic e
               | Block \<Rightarrow> Block) = Ret (Inr cs)"
    unfolding InitMajordomo_def Let_def new option.case go_try_Inr by auto
  from c have c3: "c3 = ?local" by (auto dest!: register_confidant_ok)
  from a have "ds = c3 @ (if vp_GetString S ''majordomo.asm.region'' = [] then [] else [?asm])"
    by (auto dest: register_confidant_ok split: if_splits)
  moreover from g obtain gsm where "cs = ds @ gsm" "length gsm = (if vp_GetString S ''majordomo.gsm.project'' = [] then 0 else 1)"
    by (auto dest!: register_confidant_ok split: if_splits go.splits)
  ultimately show thesis using that c3 by auto
qed

section \<open>Commands that show something\<close>

text \<open>\<open>strings.Join\<close> with a comma and a space; \<open>quote\<close> is the verb \<open>%q\<close>. The output is a list of writes.\<close>

fun join_comma :: "string list \<Rightarrow> string" where
  "join_comma [] = []"
| "join_comma [e] = e"
| "join_comma (e # es) = e @ '', '' @ join_comma es"

definition newline :: string where "newline = [CHR 0x0A]"

definition describe_permission :: "(string \<Rightarrow> string) \<Rightarrow> permissions \<Rightarrow> string" where
  "describe_permission quote perm =
     (let pathDescriptor = (if pm_Path perm = [] then ''all accounts'' else ''accounts matching the path '' @ quote (pm_Path perm));
          opDescriptor = (if pm_Operations perm = [''All''] then ''all operations''
                          else ''operations '' @ join_comma (pm_Operations perm) @ newline)
      in '' - '' @ pathDescriptor @ '' can carry out '' @ opDescriptor @ newline)"

definition DumpPermissions :: "(string \<Rightarrow> string) \<Rightarrow> go_runtime \<Rightarrow> (string \<times> permissions list) list \<Rightarrow> string list" where
  "DumpPermissions quote rt perms =
     concat (map (\<lambda>(client, perms).
       if client = [] then [''ERROR: client does not have a name'' @ newline]
       else (''Permissions for '' @ quote client @ '':'' @ newline) # map (describe_permission quote) perms) (map_range rt perms))"

text \<open>The permissions as the command builds them from the settings.\<close>

definition show_permissions :: "(string \<Rightarrow> string) \<Rightarrow> go_runtime \<Rightarrow> settings \<Rightarrow> string list" where
  "show_permissions quote rt S =
     DumpPermissions quote rt (map (\<lambda>client. (client, client_permissions rt S client)) (vp_GetStringMap S ''permissions''))"

record certificate =
  ce_Issuer :: string
  ce_Subject :: string
  ce_NotAfter :: string
  ce_expired :: bool

record pem_block =
  pb_Type :: string
  pb_Headers :: nat
  pb_Bytes :: bytes

record cert_lib =
  ct_X509KeyPair :: "bytes \<Rightarrow> bytes \<Rightarrow> err + bytes list"
  ct_ParseCertificate :: "bytes \<Rightarrow> err + certificate"
  ct_Decode :: "bytes \<Rightarrow> (pem_block \<times> bytes) option"

text \<open>
  The loop over the blocks of the certificate authorities. \<open>None\<close> stands for a loop that does not
  end.
\<close>

definition authority_lines :: "cert_lib \<Rightarrow> pem_block \<Rightarrow> string list" where
  "authority_lines X block =
     (if pb_Type block \<noteq> ''CERTIFICATE'' \<or> pb_Headers block \<noteq> 0 then []
      else case ct_ParseCertificate X (pb_Bytes block) of
             Inl e \<Rightarrow> []
           | Inr cert \<Rightarrow>
               [newline @ ''Certificate authority certificate is: '' @ ce_Subject cert @ newline,
                (if ce_expired cert then ''WARNING: certificate authority certificate expired at: ''
                 else ''Certificate authority certificate expires: '') @ ce_NotAfter cert @ newline])"

partial_function (option) show_authorities :: "cert_lib \<Rightarrow> bytes \<Rightarrow> string list option" where
  "show_authorities X caPEMBlock =
     (if length caPEMBlock = 0 then Some []
      else case ct_Decode X caPEMBlock of
             None \<Rightarrow> Some []
           | Some (block, rest) \<Rightarrow> Option.bind (show_authorities X rest) (\<lambda>out. Some (authority_lines X block @ out)))"

definition ShowCertificates :: "cert_lib \<Rightarrow> ('db, 'st) platform \<Rightarrow> settings \<Rightarrow> (err option \<times> string list) option" where
  "ShowCertificates X P S =
     (let cert = vp_GetString S ''certificates.server-cert''; key = vp_GetString S ''certificates.server-key'';
          ca = vp_GetString S ''certificates.ca-cert'';
          from1 = (\<lambda>what k. what @ '' obtained from '' @ k @ newline) in
      case pf_Fetch P cert of
        Inl e \<Rightarrow> Some (Some (wrap_err ''failed to obtain server certificate'' e), [])
      | Inr certPEMBlock \<Rightarrow>
      (case pf_Fetch P key of
        Inl e \<Rightarrow> Some (Some (wrap_err ''failed to obtain server key'' e), [from1 ''Server certificate'' cert])
      | Inr keyPEMBlock \<Rightarrow>
      (let out = [from1 ''Server certificate'' cert, from1 ''Server key'' key] in
      case (if ca = [] then Inr [] else pf_Fetch P ca) of
        Inl e \<Rightarrow> Some (Some (wrap_err ''failed to obtain client CA certificate'' e), out)
      | Inr caPEMBlock \<Rightarrow>
      (let out = out @ (if ca = [] then [] else [from1 ''CA certificate'' ca]) @ [newline] in
      case ct_X509KeyPair X certPEMBlock keyPEMBlock of
        Inl e \<Rightarrow> Some (Some (wrap_err ''invalid server certificate/key'' e), out)
      | Inr [] \<Rightarrow> Some (Some ''certificate file does not contain a certificate'', out)
      | Inr (c # _) \<Rightarrow>
      (case ct_ParseCertificate X c of
        Inl e \<Rightarrow> Some (Some (wrap_err ''could not read certificate'' e), out)
      | Inr crt \<Rightarrow>
          Option.bind (show_authorities X caPEMBlock) (\<lambda>authorities.
            Some (None, out @ [''Server certificate issued by: '' @ ce_Issuer crt @ newline,
              (if ce_expired crt then ''WARNING: server certificate expired at: '' else ''Server certificate expires: '') @
                 ce_NotAfter crt @ newline,
              ''Server certificate issued to: '' @ ce_Subject crt @ newline] @ authorities)))))))"

text \<open>The loop ends when the decoder consumes something of what it is given.\<close>

lemma show_authorities_ends:
  assumes "\<And>b block rest. ct_Decode X b = Some (block, rest) \<Longrightarrow> length rest < length b"
  shows "\<exists>out. show_authorities X b = Some out"
proof (induction b rule: measure_induct_rule [of length])
  case (less b)
  have "\<exists>out. show_authorities X rest = Some out" if "ct_Decode X b = Some (block, rest)" for block rest
    using less [OF assms [OF that]] .
  then show ?case by (subst show_authorities.simps) (auto split: option.split)
qed

lemma ShowCertificates_ends:
  assumes "\<And>b block rest. ct_Decode X b = Some (block, rest) \<Longrightarrow> length rest < length b"
  shows "\<exists>e out. ShowCertificates X P S = Some (e, out)"
proof -
  have "\<exists>out. show_authorities X b = Some out" for b by (rule show_authorities_ends) (rule assms)
  then show ?thesis unfolding ShowCertificates_def Let_def by (auto split: sum.split list.split simp: Option.bind_eq_Some_conv)
qed

section \<open>The program\<close>

text \<open>
  \<open>main\<close> up to the end of the process, with its exit code; a process that serves waits for a signal and
  is blocked. The state next to that of the commands is the list of the values of the readiness metric. A fatal log message ends
  the process with code 1, a return from \<open>main\<close> with code 0.
\<close>

record 'mon program =
  pg_OpenFile :: "string \<Rightarrow> err option"
  pg_Exporter :: "string \<Rightarrow> bool \<Rightarrow> err option"
  pg_InitBLS :: "err option"
  pg_Presenter :: "'mon \<Rightarrow> string option"
  pg_Register :: "string \<Rightarrow> err option"
  pg_signals :: "string list"

definition initLogging :: "('db, 'st) platform \<Rightarrow> 'mon program \<Rightarrow> settings \<Rightarrow> err option go" where
  "initLogging P G S =
     (if vp_GetString S ''log-file'' \<noteq> [] then
        (case ResolvePath P S (vp_GetString S ''log-file'') of
           Ret path \<Rightarrow> Ret (map_option (wrap_err ''failed to open log file'') (pg_OpenFile G path))
         | Panic e \<Rightarrow> Panic e
         | Block \<Rightarrow> Block)
      else Ret None)"

text \<open>
  The credentials of a connection to the service that collects traces, and the set-up of tracing as
  far as it can fail: \<open>pg_Exporter\<close> is given the address and whether the connection is secured.
\<close>

definition credentialsFromCerts :: "('db, 'st) platform \<Rightarrow> settings \<Rightarrow> string \<Rightarrow> err option" where
  "credentialsFromCerts P S base =
     (case pf_Fetch P (vp_GetString S (base @ ''.client-cert'')) of
        Inl e \<Rightarrow> Some (wrap_err ''failed to obtain server certificate'' e)
      | Inr clientCert \<Rightarrow>
      (case pf_Fetch P (vp_GetString S (base @ ''.client-key'')) of
        Inl e \<Rightarrow> Some (wrap_err ''failed to obtain server key'' e)
      | Inr clientKey \<Rightarrow>
      (case (if vp_GetString S (base @ ''.ca-cert'') = [] then Inr None
             else map_sum id Some (pf_Fetch P (vp_GetString S (base @ ''.ca-cert'')))) of
        Inl e \<Rightarrow> Some (wrap_err ''failed to obtain client CA certificate'' e)
      | Inr caCert \<Rightarrow>
      (case pf_X509KeyPair P clientCert clientKey of
        Some e \<Rightarrow> Some (wrap_err ''failed to load client keypair'' e)
      | None \<Rightarrow>
      (case caCert of
        Some ca \<Rightarrow> if \<not> pf_AppendCerts P ca then Some ''failed to add CA certificate'' else None
      | None \<Rightarrow> None)))))"

definition initTracing :: "('db, 'st) platform \<Rightarrow> 'mon program \<Rightarrow> settings \<Rightarrow> err option" where
  "initTracing P G S =
     (let address = vp_GetString S ''tracing.address''; secured = vp_GetString S ''tracing.client-cert'' \<noteq> [] in
      if address = [] then None
      else case (if secured then credentialsFromCerts P S ''tracing'' else None) of
             Some e \<Rightarrow> Some (wrap_err ''invalid TLS credentials'' e)
           | None \<Rightarrow> map_option (wrap_err ''failed to set up OTLP exporter'') (pg_Exporter G address secured))"

text \<open>
  The metrics of the process. The registration is called once, when there is no metric yet, so that
  its test for an earlier one does not apply. The result says whether there is a metric of readiness
  from then on; a monitor that is \<open>nil\<close> has no presenter.
\<close>

definition registerPrometheusMetrics :: "'mon program \<Rightarrow> err + bool" where
  "registerPrometheusMetrics G =
     (case pg_Register G ''start_time_secs'' of
        Some e \<Rightarrow> Inl (wrap_err ''failed to regsiter start_time_secs'' e)
      | None \<Rightarrow>
      (case pg_Register G ''release'' of
        Some e \<Rightarrow> Inl e
      | None \<Rightarrow>
      (case pg_Register G ''ready'' of
        Some e \<Rightarrow> Inl (wrap_err ''failed to regsiter ready'' e)
      | None \<Rightarrow> Inr True)))"

definition registerMetrics :: "'mon program \<Rightarrow> 'mon \<Rightarrow> err + bool" where
  "registerMetrics G monitor = (if pg_Presenter G monitor = Some ''prometheus'' then registerPrometheusMetrics G else Inr False)"

definition setReady :: "bool \<Rightarrow> bool \<Rightarrow> ('s \<times> bool list, unit) op" where
  "setReady readyMetric ready =
     (if \<not> readyMetric then go_return () else go_update (\<lambda>(s, reports). (s, reports @ [ready])))"

fun wait_signal :: "string list \<Rightarrow> unit go" where
  "wait_signal [] = Block"
| "wait_signal (sig # sigs) =
     (if sig \<in> {''SIGINT'', ''SIGTERM'', ''os.Interrupt'', ''os.Kill''} then Ret () else wait_signal sigs)"

text \<open>The second half of \<open>main\<close>, once there is a monitor.\<close>

definition main_services ::
  "('db, 'st) platform \<Rightarrow> ('v, 'wal, 'acc, 're) libraries \<Rightarrow> go_runtime \<Rightarrow> 'mon monitoring \<Rightarrow> 'mon program \<Rightarrow> settings \<Rightarrow> 'mon \<Rightarrow>
     ('s \<times> bool list, int) op" where
  "main_services P L rt M G S monitor =
     (case registerMetrics G monitor of
        Inl e \<Rightarrow> go_return 0
      | Inr readyMetric \<Rightarrow>
        go_bind (setReady readyMetric False) (\<lambda>_.
        go_bind (go_lift (fst (wired_services P L rt (M\<lparr>mo_monitor := monitor\<rparr>) S new_heap))) (\<lambda>started.
        if isl started then go_return 0
        else
          go_bind (setReady readyMetric True) (\<lambda>_.
          go_bind (go_lift (wait_signal (pg_signals G))) (\<lambda>_.
          go_bind (setReady readyMetric False) (\<lambda>_. go_return 0))))))"

definition run_main ::
  "('db, 'st) platform \<Rightarrow> ('v, 'wal, 'acc, 're) libraries \<Rightarrow> go_runtime \<Rightarrow> config_lib \<Rightarrow> 'c majordomo_lib \<Rightarrow> 'mon monitoring \<Rightarrow>
     'mon program \<Rightarrow> settings \<Rightarrow> ('s, err option) op \<Rightarrow> ('s, int) op \<Rightarrow> ('s, int) op \<Rightarrow> ('s \<times> bool list, int) op" where
  "run_main P L rt V J M G S show_certificates export_protection import_protection =
     (case fetchConfig V P S of
        Inl e \<Rightarrow> go_return 1
      | Inr exit \<Rightarrow>
          if exit then go_return 0
          else
            go_bind (go_lift (InitMajordomo J P S)) (\<lambda>majordomoSvc.
            if isl majordomoSvc then go_return 1
            else
              go_bind (go_on_fst (runCommands S show_certificates export_protection import_protection)) (\<lambda>(exit, exitCode).
              if exit then go_return exitCode
              else
              go_bind (go_lift (initLogging P G S)) (\<lambda>logging.
              if logging \<noteq> None then go_return 1
              else if vp_GetString S ''server.name'' = [] then go_return 1
              else if initTracing P G S \<noteq> None then go_return 0
              else if pg_InitBLS G \<noteq> None then go_return 0
              else
                go_bind (go_lift (startMonitor M S)) (\<lambda>m.
                case m of Inl e \<Rightarrow> go_return 0 | Inr monitor \<Rightarrow> main_services P L rt M G S monitor)))))"

text \<open>The readiness is reported in order, and as ready only by a process whose services have all started.\<close>

definition reports_ok ::
  "('db, 'st) platform \<Rightarrow> ('v, 'wal, 'acc, 're) libraries \<Rightarrow> go_runtime \<Rightarrow> settings \<Rightarrow> bool list \<Rightarrow> bool" where
  "reports_ok P L rt S rs \<longleftrightarrow> rs = [] \<or> rs = [False] \<or>
     (rs = [False, True] \<or> rs = [False, True, False]) \<and> (\<exists>d. startServices P L rt S = Ret (Inr d))"

lemma wired_started:
  assumes "\<And>m. mo_register M m = None" and "fst (wired_services P L rt (M\<lparr>mo_monitor := m\<rparr>) S new_heap) = Ret r" and "\<not> isl r"
  shows "\<exists>d. startServices P L rt S = Ret (Inr d)"
proof -
  have "mo_register (M\<lparr>mo_monitor := m\<rparr>) (mo_monitor (M\<lparr>mo_monitor := m\<rparr>)) = None" using assms(1) by simp
  from assms(2) [unfolded wired_services_start(1) [OF this]] assms(3) show ?thesis
    by (cases "startServices P L rt S") (auto simp: map_sum_def split: sum.splits)
qed

lemma main_services_reports:
  assumes reg: "\<And>m. mo_register M m = None" and run: "main_services P L rt M G S monitor (s, []) = (out, (s', rs))"
  shows "reports_ok P L rt S rs \<and> (\<forall>code. out = Ret code \<longrightarrow> code = 0 \<and> rs \<noteq> [False, True]) \<and>
    (out = Ret 0 \<and> rs \<noteq> [] \<and> (\<exists>e. startServices P L rt S = Ret (Inl e)) \<longrightarrow> rs = [False])"
proof (cases "registerMetrics G monitor")
  case (Inl e)
  with run show ?thesis by (auto simp: main_services_def reports_ok_def go_simps)
next
  case (Inr readyMetric)
  show ?thesis
  proof (cases "\<exists>r. fst (wired_services P L rt (M\<lparr>mo_monitor := monitor\<rparr>) S new_heap) = Ret r \<and> \<not> isl r")
    case True
    then obtain r where r: "fst (wired_services P L rt (M\<lparr>mo_monitor := monitor\<rparr>) S new_heap) = Ret r" "\<not> isl r" by blast
    from wired_started [OF reg r] run Inr r show ?thesis
      by (cases readyMetric; cases "wait_signal (pg_signals G)") (auto simp: main_services_def reports_ok_def go_bind_def go_simps setReady_def)
  next
    case False
    with run Inr show ?thesis
      by (cases readyMetric; cases "fst (wired_services P L rt (M\<lparr>mo_monitor := monitor\<rparr>) S new_heap)")
         (auto simp: main_services_def reports_ok_def go_bind_def go_simps setReady_def)
  qed
qed

lemma main_reports:
  assumes reg: "\<And>m. mo_register M m = None" and run: "run_main P L rt V J M G S sc ex im (s, []) = (out, (s', rs))"
  shows "reports_ok P L rt S rs" and "out = Ret code \<Longrightarrow> rs \<noteq> [False, True]"
proof -
  have "reports_ok P L rt S rs \<and> (\<forall>code. out = Ret code \<longrightarrow> rs \<noteq> [False, True])"
  proof (cases "\<exists>s1 monitor. main_services P L rt M G S monitor (s1, []) = (out, (s', rs))")
    case True
    then obtain s1 monitor where r: "main_services P L rt M G S monitor (s1, []) = (out, (s', rs))" by blast
    from main_services_reports [OF reg r] show ?thesis by blast
  next
    case False
    with run show ?thesis
      unfolding run_main_def
      by (auto simp: go_bind_def go_simps go_on_fst_def reports_ok_def split: sum.splits go.splits prod.splits if_splits)
  qed
  then show "reports_ok P L rt S rs" and "out = Ret code \<Longrightarrow> rs \<noteq> [False, True]" by blast+
qed

end
