(* ===== verification/Spec2Isabelle.thy ===== *)
theory Spec2Isabelle
  imports Samples_Interchange Samples_Interleaving Spec_Services Spec_Generation Spec_API Spec_Startup Program
begin

text \<open>
  Dirk is a remote signer for Ethereum validators: a daemon that holds the keys of validators in
  wallets and signs attestations, block proposals and other data for clients over gRPC. It must
  never sign two messages for which a validator could be slashed, must sign only for clients with
  the permission to, and can generate keys that are shared by a cluster of daemons.

  \<^bold>\<open>How the parts work together.\<close> The program reads its settings and starts
  its services (\<open>main.go\<close>). A message reaches a handler (\<open>services/api/grpc/handlers\<close>) through
  interceptors that find out the client, and a signing request reaches the signer
  (\<open>services/signer/standard\<close>). It fetches the account (\<open>services/fetcher/mem\<close>), asks the checker (\<open>services/checker/static\<close>) for the
  permission of the client, unlocks the account with the unlocker (\<open>services/unlocker/local\<close>), and
  has the ruler (\<open>services/ruler/golang\<close>) run the rules (\<open>rules/standard\<close>) under the locks of the keys
  of the request (\<open>services/locker/syncmap\<close>). The rules compare the request with the highest epochs
  and the highest slot stored for the key, store the new ones and approve or deny; only then the
  account signs. Batches are cut into extents that goroutines work on (\<open>util/scatter.go\<close>). The
  stored values can be exported to and imported from an interchange file (\<open>slashingprotection.go\<close>).
  The account and wallet managers lock, unlock and generate, and the lister lists accounts, with
  the same checks. A distributed generation is run by a coordinator (\<open>services/process/standard\<close>)
  over peers (\<open>services/peers/static\<close>) that talk through a sender and a receiver
  (\<open>services/sender/grpc\<close>, \<open>services/api/grpc/handlers/receiver\<close>).

  \<^bold>\<open>Conventions.\<close> Running Go code has the outcome \<open>Ret\<close>, \<open>Panic\<close> or \<open>Block\<close> (a goroutine waiting for
  a mutex) and is an operation on an explicit state; \<open>go_bind\<close> sequences operations, and the triples
  of \<open>Prelude\<close> carry the invariants through them. Errors are strings, \<open>nil\<close> is \<open>None\<close>, integers are
  words of their width (an \<open>int64\<close> is a 64-bit word with signed comparison, so that conversions
  wrap as in Go), maps that the code ranges over are association lists that a \<open>go_runtime\<close> permutes,
  and the same record gives the number of processors and the order in which goroutines run; theorems
  hold for all fair ones. Log messages, counters and spans are left out. Packages that are not part of
  the repository (the database, wallets, regular expressions, SSZ hashing, BLS signatures, gRPC)
  are records of operations, and what is relied on is a locale over such a record:
  \<open>badger_laws\<close>, \<open>bls_laws\<close>, \<open>honest_cluster\<close>, \<open>storing_cluster\<close>. No fuel is needed: every loop of the
  modelled code runs over a list, the look-up of a log level shortens its path, and the loop over the
  blocks of a certificate file is a partial function that is shown to end.

  \<^bold>\<open>Theories.\<close> The model, in the order of the code:
  \<^item> \<open>Prelude\<close>, \<open>Go_Strings\<close>: outcomes, operations, triples, byte encodings; \<open>strings\<close> and \<open>strconv\<close>.
  \<^item> \<open>Storage\<close> (\<open>rules/standard/storage.go\<close>), \<open>Rules\<close> (\<open>rules/standard\<close>), \<open>Scatter\<close>, \<open>Locker\<close>, \<open>Ruler\<close>.
  \<^item> \<open>Wallets\<close>, \<open>Checker\<close>, \<open>Fetcher\<close>, \<open>Unlocker\<close>, \<open>Signer\<close>, \<open>Managers\<close>, \<open>Lister\<close>.
  \<^item> \<open>Interchange\<close>: export and import, in the command and in the rules.
  \<^item> \<open>Dirk\<close>: the daemon as \<open>main.go\<close> puts it together, one state for all services, and its life as a
    list of requests, crashes and restarts (\<open>live\<close>).
  \<^item> \<open>Peers\<close>, \<open>Process\<close>, \<open>Generator\<close>, \<open>Messages\<close>: key generation and its messages. \<open>Cluster\<close> and
    \<open>Cluster_Wiring\<close> connect instances over a network.
  \<^item> \<open>API\<close>: the interceptors and the gRPC handlers that turn messages into calls of the services and
    results into answers (\<open>services/api/grpc\<close>).
  \<^item> \<open>Startup\<close>: the settings, the stores, log levels and paths, and the start of all services from
    them (\<open>main.go\<close>, \<open>core/stores.go\<close>, \<open>util\<close>), with what the order of permissions decides.
  \<^item> \<open>Options\<close>, \<open>Options_Services\<close>: the options of every service, how they are applied and checked
    (\<open>parameters.go\<close>), and the constructors \<open>New\<close>. \<open>Wiring\<close>: the functions of \<open>main.go\<close> that give each
    constructor its options, down to the server with its handlers. There the services are references
    into a heap of objects, and every call of a constructor makes a new one.
  \<^item> \<open>Program\<close>: what is around the services: the search for the configuration, the sources of secrets
    (\<open>util/majordomo.go\<close>), the set-up of logging, tracing and metrics, the commands that show certificates
    and permissions, and \<open>main\<close> from its first step to the signal that ends it, with the exit codes.

  What is proved about it:
  \<^item> \<open>Protection\<close>, \<open>Rules_Safety\<close>: a watermark in the database refuses everything that does not
    follow it; both stored formats are instances. The rules keep the invariant \<open>inv\<close> between the
    database and the log of all approvals. \<open>Ruler_Safety\<close>, \<open>Serving\<close>, \<open>Signer_Safety\<close>, \<open>Dirk\<close> carry it
    through the ruler, batches, goroutines, the signer and whole lives of the daemon.
  \<^item> \<open>Decisions\<close>: on a database whose calls succeed the rules refine an abstract verdict on the marks
    of a key, and a batch is equivalent to its entries one by one. \<open>Progress\<close>: calls of the ruler end.
    \<open>Ruler_Generic\<close>, \<open>Dirk_Signing\<close>: what a signature says about permissions and data.
  \<^item> \<open>API_Safety\<close>: answers carry signatures only on success and for the caller named by its
    certificate; batches are answered within bounds.
  \<^item> \<open>Options\<close>, \<open>Wiring\<close>: the last option for a part counts; with the options of \<open>main.go\<close> the
    constructors are those of \<open>Startup\<close>, and all services behind the server hold references to one new
    ruler, locker, checker, fetcher, unlocker and process, each made once. \<open>Program\<close>: the process reports to be ready only when all
    services have started, and withdraws it before it ends (\<open>main_reports\<close>).
  \<^item> \<open>Interchange_Safety\<close>: an import never weakens the protection, is respected afterwards, and
    inverts an export. An entry for a key is passed over when it is below the database or when a later
    entry for the key is accepted.
  \<^item> \<open>Locker_Threads\<close>: goroutines that take locks at the same time exclude each other and do not
    deadlock. \<open>Interleaving\<close> has the rules as programs of database transactions that such goroutines
    run, and shows that a goroutine that is not interrupted makes a call of the ruler;
    \<open>Interleaving_Safety\<close> shows that every interleaving keeps the protection, because each program is
    secure on the entries of the keys it has locked, whatever happens to the others.
  \<^item> \<open>Process_Safety\<close>: the invariant of an instance in a generation, over all reachable states and
    against dishonest peers; \<open>Cluster_Run\<close>, \<open>Cluster_Commit\<close>, \<open>Cluster_Generation\<close>: in an honest
    cluster a generation completes with one key for all, where the stores of the peers open the one wallet
    and take the one account that is generated (\<open>storing_cluster\<close>).
  \<^item> \<open>Samples\<close>, \<open>Samples_Dirk\<close>, \<open>Samples_Interchange\<close>, \<open>Samples_Interleaving\<close>, \<open>Samples_Cluster\<close>: concrete instances of every
    interface, on which the theorems are applied. \<open>Spec_Services\<close>, \<open>Spec_Generation\<close>,
    \<open>Spec_API\<close>, \<open>Spec_Startup\<close> and this theory hold the properties.

  \<^bold>\<open>Assumptions.\<close> The epochs and slots of requests lie below \<open>2^63\<close> where a theorem says so (C12 shows
  what happens beyond). Database transactions are atomic. The life of the daemon (\<open>live\<close>, C1 and C2) is a
  sequence of requests; that concurrent requests are no weaker is C4, over the interleaved
  transactions of the rules.
  Every handler of the process holds its mutex from beginning to end and is one step.

  \<^bold>\<open>Not modelled.\<close> Parsing of flags and configuration files, what the sources of secrets do, TLS and the gRPC
  server, the protocol buffer encoding, JSON encoding of the interchange file and of wallets, the
  garbage collection of the database, log messages, spans and the counters of the services, the
  profiling server, and mocks: they are input and output, generated code, third-party packages or test
  code.
\<close>

section \<open>No slashable message is ever approved\<close>

text \<open>
  Two attestations of one validator are slashable when they vote for the same target epoch, or
  when the votes of one surround those of the other.
\<close>

definition slashable_attestations :: "int \<times> int \<Rightarrow> int \<times> int \<Rightarrow> bool" where
  "slashable_attestations = (\<lambda>(s1, t1) (s2, t2). t1 = t2 \<or> (s1 < s2 \<and> t2 < t1) \<or> (s2 < s1 \<and> t1 < t2))"

text \<open>
  C1. Over a whole life of the daemon - signing requests of every kind in any order, batches,
  accounts added, failing databases, crashes and restarts with other wallets - no two attestations
  that it signed for one public key are slashable: the later one has a greater target epoch and no
  smaller source epoch. The epochs of the requests lie below \<open>2^63\<close>.
\<close>

theorem signed_attestations_not_slashable:
  assumes "standard_rules (cf_rules C) contents" and "\<forall>q \<in> set requests. good_request q" and "quiet (w_ruler w)"
    and "live C requests w = (atts, props)" and "i < j" and "j < length atts"
    and "atts ! i = (pk, e1)" and "atts ! j = (pk, e2)"
  shows "fst e1 \<le> fst e2 \<and> snd e1 < snd e2 \<and> \<not> slashable_attestations e1 e2"
proof -
  from live_protected [OF assms(1-3) standard_rules.inv_start [OF assms(1)] assms(4)]
  obtain al' pl' db where "standard_rules.inv (cf_rules C) contents ([] @ al') ([] @ pl') db" "subseq atts al'" by blast
  then have "ordered_log att_follows atts"
    by (auto simp: standard_rules.inv_def [OF assms(1)] att.safe_def intro: ordered_log_subseq)
  from ordered_logD [OF this assms(5-8)] show ?thesis
    by (cases e1; cases e2) (auto simp: slashable_attestations_def att_follows.simps)
qed

theorem signed_attestations_not_slashable_witness:
  "live sample_config sample_att_requests sample_world = ([(replicate 48 1, 3, 4), (replicate 48 1, 4, 6)], []) \<and>
   \<not> slashable_attestations (3, 4) (4, 6)"
  using signed_attestations_not_slashable [OF sample_dirk.standard_rules_axioms sample_requests_good(1) _ sample_live_atts,
      of 0 1 "replicate 48 1" "(3, 4)" "(4, 6)"] sample_live_atts sample_state_quiet
  by (simp add: sample_world_def)

text \<open>
  C2. Likewise for blocks: of two beacon block proposals that the daemon signed for one public key
  the later one is for a higher slot.
\<close>

theorem signed_proposals_not_slashable:
  assumes "standard_rules (cf_rules C) contents" and "\<forall>q \<in> set requests. good_request q" and "quiet (w_ruler w)"
    and "live C requests w = (atts, props)" and "i < j" and "j < length props"
    and "props ! i = (pk, n1)" and "props ! j = (pk, n2)"
  shows "n1 < n2"
proof -
  from live_protected [OF assms(1-3) standard_rules.inv_start [OF assms(1)] assms(4)]
  obtain al' pl' db where "standard_rules.inv (cf_rules C) contents ([] @ al') ([] @ pl') db" "subseq props pl'" by blast
  then have "ordered_log (<) props"
    by (auto simp: standard_rules.inv_def [OF assms(1)] pro.safe_def intro: ordered_log_subseq)
  from ordered_logD [OF this assms(5-8)] show ?thesis .
qed

theorem signed_proposals_not_slashable_witness:
  "live sample_config sample_prop_requests sample_world = ([], [(replicate 48 1, 100), (replicate 48 1, 101)]) \<and> (100 :: int) < 101"
  using signed_proposals_not_slashable [OF sample_dirk.standard_rules_axioms sample_requests_good(2) _ sample_live_props,
      of 0 1 "replicate 48 1" 100 101] sample_live_props sample_state_quiet
  by (simp add: sample_world_def)

text \<open>
  C3. Whatever calls the ruler serves, in whatever batches, for whichever clients and with
  whatever database failures and restarts in between: of two attestations that were approved for
  the same public key, the later one has a greater target epoch and no smaller source epoch, so no
  two of them are slashable.
\<close>

theorem approved_attestations_not_slashable:
  assumes "standard_rules S contents" and "\<forall>c \<in> set calls. good_call c" and "quiet s"
    and "serve S calls s = (outs, s')"
    and "i < j" and "j < length (att_log calls outs)"
    and "att_log calls outs ! i = (pk, e1)" and "att_log calls outs ! j = (pk, e2)"
  shows "fst e1 \<le> fst e2 \<and> snd e1 < snd e2 \<and> \<not> slashable_attestations e1 e2"
proof -
  have "standard_rules.inv S contents ([] @ att_log calls outs) ([] @ prop_log calls outs) (ruler_db s')"
    by (rule standard_rules.serve_inv [OF assms(1-3) standard_rules.inv_start [OF assms(1)] assms(4)])
  then have "ordered_log att_follows (att_log calls outs)"
    by (simp add: standard_rules.inv_def [OF assms(1)] att.safe_def)
  from ordered_logD [OF this assms(5-8)] show ?thesis
    by (cases e1; cases e2) (auto simp: slashable_attestations_def att_follows.simps)
qed

theorem approved_attestations_not_slashable_witness:
  "fst (att_log sample_calls (fst (serve sample_rules sample_calls sample_state)) ! 0) =
   fst (att_log sample_calls (fst (serve sample_rules sample_calls sample_state)) ! 2) \<and>
   \<not> slashable_attestations (3, 4) (4, 6)"
  using approved_attestations_not_slashable [OF sample.standard_rules_axioms sample_calls_good sample_state_quiet
      prod.collapse [symmetric], of 0 2 "replicate 48 1" "(3, 4)" "(4, 6)"]
  unfolding sample_att_log by simp

text \<open>
  C4. The rules of any number of requests run at the same time: their database transactions and
  their calls of the locker are interleaved in any order, and the process is killed and started
  again at any moment. Two requests that got their results never got two attestations of one public
  key approved that are slashable, nor two proposals of one public key for the same slot. A request
  names no key twice and has epochs and slots below \<open>2^63\<close>.
\<close>

theorem concurrent_approvals_not_slashable:
  assumes "standard_rules S contents" and "\<forall>c \<in> set calls. call_ok c"
    and "(interleaved S)\<^sup>*\<^sup>* ((new_locker, db), map (\<lambda>c. (c, Waiting)) calls) (s, tasks)"
    and "i < length tasks" and "j < length tasks" and "i \<noteq> j"
    and "tasks ! i = (c1, Releasing ks1 rs1)" and "tasks ! j = (c2, Releasing ks2 rs2)"
  shows "((pk, e1) \<in> set (call_atts c1 rs1) \<and> (pk, e2) \<in> set (call_atts c2 rs2) \<longrightarrow> \<not> slashable_attestations e1 e2) \<and>
    ((pk, n1) \<in> set (call_props c1 rs1) \<and> (pk, n2) \<in> set (call_props c2 rs2) \<longrightarrow> n1 \<noteq> n2)"
proof -
  note inv = standard_rules.reachable_inv [OF assms(1,3) standard_rules.start_inv [OF assms(1,2)]]
  note ordered = standard_rules.returned_not_slashable [OF assms(1) inv assms(4-8)]
  have "\<not> slashable_attestations e1 e2" if "att_follows e1 e2 \<or> att_follows e2 e1"
    using that by (cases e1; cases e2) (auto simp: slashable_attestations_def att_follows.simps)
  with ordered show ?thesis by blast
qed

theorem concurrent_approvals_not_slashable_witness:
  "(\<exists>s. (interleaved sample_rules)\<^sup>*\<^sup>* ((new_locker, ruler_db sample_state), map (\<lambda>c. (c, Waiting)) [sample_rule_call (3, 4), sample_rule_call (4, 6)])
      (s, sample_tasks)) \<and> \<not> slashable_attestations (3, 4) (4, 6)"
proof -
  from sample_interleaved obtain s where run: "(interleaved sample_rules)\<^sup>*\<^sup>* ((new_locker, ruler_db sample_state),
      map (\<lambda>c. (c, Waiting)) [sample_rule_call (3, 4), sample_rule_call (4, 6)]) (s, sample_tasks)" by blast
  from concurrent_approvals_not_slashable [OF sample.standard_rules_axioms sample_calls_ok run, of 0 1 "sample_rule_call (3, 4)" "[]" "[APPROVED]"
      "sample_rule_call (4, 6)" "[]" "[APPROVED]" "replicate 48 1" "(3, 4)" "(4, 6)"]
  have "\<not> slashable_attestations (3, 4) (4, 6)" unfolding sample_call_atts by (simp add: sample_tasks_def)
  with run show ?thesis by blast
qed

section \<open>What a signature says\<close>

lemma pair_of_fst: "fst p = x \<Longrightarrow> p = (x, snd p)"
  by (cases p) simp

lemma dirk_of: "standard_rules (cf_rules C) contents \<Longrightarrow> dirk C contents"
  by (simp add: dirk_def)

lemmas sample_dirk_facts = sample_dirk.standard_rules_axioms sample_runtime_fair

lemma sample_world_parts: "quiet (w_ruler sample_world)" "w_fetcher sample_world = sample_fetcher"
  by (simp_all add: sample_world_def sample_state_quiet)

lemma sample_att_in_range: "att_in_range (Some (sample_att 3 4))" and sample_prop_in_range: "prop_in_range (Some (sample_prop 100))"
  by (simp_all add: att_in_range_def prop_in_range_def sample_att_def sample_prop_def att_epochs_def)

text \<open>
  C5. A request to sign an attestation that does not succeed gives no signature. One that succeeds
  gives the signature of the account that the name or the public key of the request denotes, over
  the signing root of the attestation of the request, and the permissions of the client allow it to
  sign attestations with that account.
\<close>

theorem attestation_signature_granted:
  assumes "standard_rules (cf_rules C) contents" and "fair_runtime rt" and "att_in_range data" and "quiet (w_ruler w)"
    and "SignBeaconAttestation (dirk_signer C) rt creds name key data w = (Ret (res, sig), w')"
  shows "if res = ResultSucceeded
    then \<exists>d g. data = Some d \<and> sig = Some g \<and>
      granted C (w_fetcher w) creds ActionSignBeaconAttestation name key (attestation_root (cf_ssz C) d) g
    else sig = None"
  using dirk.attestation_granted [OF dirk_of [OF assms(1)] assms(2-4) refl assms(5)] by simp

theorem attestation_signature_granted_witness:
  "\<exists>g. granted sample_config sample_fetcher (Some sample_creds) ActionSignBeaconAttestation ''Wallet/Account'' None
     (attestation_root sample_ssz (sample_att 3 4)) g"
  using attestation_signature_granted [OF sample_dirk_facts sample_att_in_range sample_world_parts(1)
      pair_of_fst [OF sample_sign_attestation]]
  by (auto simp: sample_world_parts sample_config_def)

text \<open>
  C6. Likewise for a beacon block proposal, for which the client needs the permission to sign
  proposals with the account that signed.
\<close>

theorem proposal_signature_granted:
  assumes "standard_rules (cf_rules C) contents" and "fair_runtime rt" and "prop_in_range data" and "quiet (w_ruler w)"
    and "SignBeaconProposal (dirk_signer C) rt creds name key data w = (Ret (res, sig), w')"
  shows "if res = ResultSucceeded
    then \<exists>d g. data = Some d \<and> sig = Some g \<and>
      granted C (w_fetcher w) creds ActionSignBeaconProposal name key (proposal_root (cf_ssz C) d) g
    else sig = None"
  using dirk.proposal_granted [OF dirk_of [OF assms(1)] assms(2-4) refl assms(5)] by simp

theorem proposal_signature_granted_witness:
  "\<exists>g. granted sample_config sample_fetcher (Some sample_creds) ActionSignBeaconProposal [] (Some (replicate 48 1))
     (proposal_root sample_ssz (sample_prop 100)) g"
  using proposal_signature_granted [OF sample_dirk_facts sample_prop_in_range sample_world_parts(1)
      pair_of_fst [OF sample_sign_proposal]]
  by (auto simp: sample_world_parts sample_config_def)

text \<open>
  C7. The generic signing request cannot be used to get round the slashing protection: when it
  succeeds, the domain is neither that of attestations nor that of proposals, a voluntary exit was
  asked for from the address of an administrator, and the signature is that of the account of the
  request, with which the client may sign.
\<close>

theorem generic_signature_granted:
  assumes "standard_rules (cf_rules C) contents" and "fair_runtime rt" and "quiet (w_ruler w)"
    and "SignGeneric (dirk_signer C) rt creds name key data w = (Ret (res, sig), w')"
  shows "if res = ResultSucceeded
    then \<exists>d g. data = Some d \<and> sig = Some g \<and> generic_domain_ok C creds d \<and>
      granted C (w_fetcher w) creds ActionSign name key (generic_root (cf_ssz C) d) g
    else sig = None"
  using dirk.generic_granted [OF dirk_of [OF assms(1)] assms(2,3) refl assms(4)] by simp

theorem generic_signature_granted_witness:
  "generic_domain_ok sample_config (Some sample_creds) sample_generic \<and>
   (\<exists>g. granted sample_config sample_fetcher (Some sample_creds) ActionSign ''Wallet/Account'' None
     (generic_root sample_ssz sample_generic) g)"
  using generic_signature_granted [OF sample_dirk_facts sample_world_parts(1) pair_of_fst [OF sample_sign_generic]]
  by (auto simp: sample_world_parts sample_config_def)

text \<open>
  C8. In a batch of generic requests each entry that succeeds meets the same conditions on its own,
  with the name, the key and the data at its own index.
\<close>

theorem multisign_entry_granted:
  assumes "standard_rules (cf_rules C) contents" and "fair_runtime rt" and "quiet (w_ruler w)"
    and "Multisign (dirk_signer C) rt creds names keys data w = (Ret (results, sigs), w')"
    and "j < length data" and "results ! j = ResultSucceeded"
  shows "\<exists>gs g. sigs = Some gs \<and> gs ! j = Some g \<and>
    (\<forall>d. data ! j = Some d \<longrightarrow> generic_domain_ok C creds d) \<and>
    granted C (w_fetcher w) creds ActionSign (if j < length names then names ! j else [])
      (if j < length keys then keys ! j else None) (generic_root (cf_ssz C) (the (data ! j))) g"
  by (rule dirk.multisign_granted [OF dirk_of [OF assms(1)] assms(2,3) refl assms(4-6)])

theorem multisign_entry_granted_witness:
  "generic_domain_ok sample_config (Some sample_creds) sample_generic \<and>
   (\<exists>g. granted sample_config sample_fetcher (Some sample_creds) ActionSign ''Wallet/Account'' None
     (generic_root sample_ssz sample_generic) g)"
  using multisign_entry_granted [OF sample_dirk_facts sample_world_parts(1) pair_of_fst [OF sample_multisign], of 0]
  by (auto simp: sample_world_parts sample_config_def)

text \<open>
  C9. In a batch of attestations each entry that succeeds was signed by the account at its own
  index, over the signing root of its own attestation, with the permission of the client.
\<close>

theorem attestations_entry_granted:
  assumes "standard_rules (cf_rules C) contents" and "fair_runtime rt" and "\<forall>d \<in> set data. att_in_range d"
    and "quiet (w_ruler w)"
    and "SignBeaconAttestations (dirk_signer C) rt creds names keys data w = (Ret (results, sigs), w')"
    and "j < length data" and "results ! j = ResultSucceeded"
  shows "\<exists>gs g. sigs = Some gs \<and> gs ! j = Some g \<and>
    granted C (w_fetcher w) creds ActionSignBeaconAttestation (if j < length names then names ! j else [])
      (if j < length keys then keys ! j else None) (attestation_root (cf_ssz C) (the (data ! j))) g"
  by (rule dirk.attestations_granted [OF dirk_of [OF assms(1)] assms(2-4) refl assms(5-7)])

theorem attestations_entry_granted_witness:
  "\<exists>g. granted sample_config sample_fetcher (Some sample_creds) ActionSignBeaconAttestation ''Wallet/Account'' None
     (attestation_root sample_ssz (sample_att 3 4)) g"
  using attestations_entry_granted [OF sample_dirk_facts _ sample_world_parts(1) pair_of_fst [OF sample_sign_attestations], of 0]
    sample_att_in_range
  by (auto simp: sample_world_parts sample_config_def)

section \<open>What the rules decide\<close>

lemma sample_verdicts:
  "att_verdict (rules_lib sample_rules) (att_mark (rules_lib sample_rules) (mem_contents sample_db) (md_PubKey (sample_md 1))) (sample_att 3 4) = APPROVED"
  "prop_verdict (rules_lib sample_rules) (prop_mark (rules_lib sample_rules) (mem_contents sample_db) (md_PubKey (sample_md 1))) (sample_prop 100) = APPROVED"
  by (simp_all add: att_verdict_def att_mark_def att_init_def prop_verdict_def prop_mark_def prop_init_def sample_db_parts att_epochs_def
      sample_att_def sample_prop_def domain_type_def reslice_to_def sample_rules_def sample_lib_def)
    (simp_all add: numeral_eq_Suc)

text \<open>
  C10. On a database whose calls succeed the attestation rule decides exactly by the marks of the
  key: it approves when the domain is that of attestations, the source lies before the target (or
  both are zero), the source is not below the highest source and the target is above the highest
  target, and denies otherwise. An approval sets the marks of the key to the epochs of the
  request; nothing else is changed.
\<close>

theorem attestation_rule_decides:
  assumes "standard_rules S contents" and "dependable (rules_store S) up" and "up db"
    and "decodable (rules_lib S) (contents db)" and "att_formed r"
  shows "\<exists>db'. OnSignBeaconAttestation S (Some m) (Some r) db =
      (Ret (att_verdict (rules_lib S) (att_mark (rules_lib S) (contents db) (md_PubKey m)) r), db') \<and>
    att_mark (rules_lib S) (contents db') = (att_mark (rules_lib S) (contents db))
      (md_PubKey m := att_next (rules_lib S) (att_mark (rules_lib S) (contents db) (md_PubKey m)) r) \<and>
    prop_mark (rules_lib S) (contents db') = prop_mark (rules_lib S) (contents db)"
  using standard_rules.attestation_decided [OF assms] by blast

theorem attestation_rule_decides_witness:
  "\<exists>db'. OnSignBeaconAttestation sample_rules (Some (sample_md 1)) (Some (sample_att 3 4)) sample_db = (Ret APPROVED, db')"
  using attestation_rule_decides [OF sample.standard_rules_axioms mem_dependable sample_db_parts(1,3)
      sample_att_formed [of 3 4], of "sample_md 1"]
    sample_verdicts(1) by auto

text \<open>
  Likewise the proposal rule approves, on such a database, when the domain is that of
  proposals and the slot is above the highest slot of the key, which it then becomes; otherwise it
  denies and changes nothing.
\<close>

theorem proposal_rule_decides:
  assumes "standard_rules S contents" and "dependable (rules_store S) up" and "up db"
    and "decodable (rules_lib S) (contents db)" and "domain_type (pd_Domain r) \<noteq> None"
  shows "\<exists>v db'. v = prop_verdict (rules_lib S) (prop_mark (rules_lib S) (contents db) (md_PubKey m)) r \<and>
    OnSignBeaconProposal S (Some m) (Some r) db = (Ret v, db') \<and>
    prop_mark (rules_lib S) (contents db') =
      (if v = APPROVED then (prop_mark (rules_lib S) (contents db))(md_PubKey m := \<lparr>PropSlot = pd_Slot r\<rparr>)
       else prop_mark (rules_lib S) (contents db)) \<and>
    att_mark (rules_lib S) (contents db') = att_mark (rules_lib S) (contents db)"
  using standard_rules.proposal_decided [OF assms] by blast

theorem proposal_rule_decides_witness:
  "\<exists>db'. OnSignBeaconProposal sample_rules (Some (sample_md 1)) (Some (sample_prop 100)) sample_db = (Ret APPROVED, db')"
  using proposal_rule_decides [OF sample.standard_rules_axioms mem_dependable sample_db_parts(1,3), of "sample_prop 100" "sample_md 1"]
    sample_verdicts(2) by (auto simp: sample_prop_def domain_type_def reslice_to_def)

text \<open>
  C11. The rule for a batch of attestations, which reads all states, checks all requests and writes
  all states at once, is equivalent to the single rule run on one entry after the other, when the
  public keys are distinct: the same results, and the same marks of every key afterwards.
\<close>

theorem batch_rule_equivalent:
  assumes "standard_rules S contents" and "dependable (rules_store S) up" and "up db"
    and "decodable (rules_lib S) (contents db)" and "entries_formed xs"
  shows "\<exists>rs db1 db2. OnSignBeaconAttestations S (map (\<lambda>(m, r). Some m) xs) (map (\<lambda>(m, r). Some r) xs) db = (Ret rs, db1) \<and>
    one_by_one S xs db = (Ret rs, db2) \<and>
    att_mark (rules_lib S) (contents db1) = att_mark (rules_lib S) (contents db2) \<and>
    prop_mark (rules_lib S) (contents db1) = prop_mark (rules_lib S) (contents db2)"
proof -
  have xs: "distinct (map (\<lambda>(m, r). md_PubKey m) xs)" "\<forall>(m, r) \<in> set xs. att_formed r"
    using assms(5) by (auto simp: entries_formed_def)
  from standard_rules.batch_decided [OF assms] standard_rules.one_by_one_decided [OF assms(1-4) xs]
  show ?thesis by auto
qed

theorem batch_rule_equivalent_witness:
  "\<exists>rs db1 db2. OnSignBeaconAttestations sample_rules [Some (sample_md 1), Some (sample_md 2)]
      [Some (sample_att 3 4), Some (sample_att 5 6)] sample_db = (Ret rs, db1) \<and>
    one_by_one sample_rules [(sample_md 1, sample_att 3 4), (sample_md 2, sample_att 5 6)] sample_db = (Ret rs, db2)"
  using batch_rule_equivalent [OF sample.standard_rules_axioms mem_dependable sample_db_parts(1,3),
      of "[(sample_md 1, sample_att 3 4), (sample_md 2, sample_att 5 6)]"]
  by (simp add: entries_formed_def sample_att_formed) (auto simp: sample_md_def)

text \<open>
  C12. The stored slot is an \<open>int64\<close> and its guard reads \<open>state.Slot >= 0\<close>, so a slot of \<open>2^63\<close>
  or more is stored as a negative number and protects nothing: a proposal that was approved for
  such a slot is approved again, as often as it is asked for. (The range in C2 is therefore
  necessary.)
\<close>

theorem large_slot_not_protected:
  assumes "standard_rules S contents" and "dependable (rules_store S) up" and "up db"
    and "decodable (rules_lib S) (contents db)" and "2 ^ 63 \<le> uint (pd_Slot r)"
    and "OnSignBeaconProposal S (Some m) (Some r) db = (Ret APPROVED, db1)"
  shows "\<exists>db2. OnSignBeaconProposal S (Some m) (Some r) db1 = (Ret APPROVED, db2)"
proof -
  let ?L = "rules_lib S"
  have d: "domain_type (pd_Domain r) \<noteq> None" using assms(6) by (auto simp: OnSignBeaconProposal_def go_simps split: option.splits)
  from standard_rules.proposal_decided [OF assms(1-4) d, of m] assms(6)
  have 1: "prop_verdict ?L (prop_mark ?L (contents db) (md_PubKey m)) r = APPROVED" "up db1" "decodable ?L (contents db1)"
    "prop_mark ?L (contents db1) (md_PubKey m) = \<lparr>PropSlot = pd_Slot r\<rparr>" by auto
  have "sint (pd_Slot r) \<noteq> uint (pd_Slot r)" using sint64_bounds(2) [of "pd_Slot r"] assms(5) by linarith
  then have "sint (pd_Slot r) < uint (pd_Slot r)"
    using nonneg64_sint [of "pd_Slot r"] uint_ge_0 [of "pd_Slot r"] unfolding nonneg64_def by linarith
  with 1 have "prop_verdict ?L (prop_mark ?L (contents db1) (md_PubKey m)) r = APPROVED"
    by (auto simp: prop_verdict_def split: if_splits)
  with standard_rules.proposal_decided [OF assms(1,2) 1(2,3) d, of m] show ?thesis by auto
qed

theorem large_slot_not_protected_witness:
  "\<exists>db1 db2. OnSignBeaconProposal sample_rules (Some (sample_md 1)) (Some (sample_prop (2 ^ 63))) sample_db = (Ret APPROVED, db1) \<and>
     OnSignBeaconProposal sample_rules (Some (sample_md 1)) (Some (sample_prop (2 ^ 63))) db1 = (Ret APPROVED, db2)"
proof -
  have "fst (OnSignBeaconProposal sample_rules (Some (sample_md 1)) (Some (sample_prop (2 ^ 63))) sample_db) = Ret APPROVED"
    by code_simp
  from pair_of_fst [OF this] large_slot_not_protected [OF sample.standard_rules_axioms mem_dependable sample_db_parts(1,3) _
      pair_of_fst [OF this]]
  show ?thesis by (auto simp: sample_prop_def)
qed

section \<open>Calls of the ruler\<close>

text \<open>
  C13. A call of the ruler never hangs: made when no key is held it ends, and when it returns it
  has freed every lock it took and gives one result per entry (one for an empty batch).
\<close>

theorem ruler_call_ends:
  assumes "fair_runtime rt" and "quiet s" and "RunRules S rt creds action rds s = (out, s')"
  shows "out \<noteq> Block \<and> (\<forall>rs. out = Ret rs \<longrightarrow> quiet s' \<and> length rs = max 1 (length rds))"
  using RunRules_progress [OF assms(2,3)] RunRules_shape(1) [OF assms(1,2)] assms(3) by blast

theorem ruler_call_ends_witness:
  "fst (RunRules sample_rules sample_runtime (Some sample_creds) ActionSignBeaconAttestation
     [sample_rd 1 (AnySignBeaconAttestationData (Some (sample_att 3 4))),
      sample_rd 2 (AnySignBeaconAttestationData (Some (sample_att 3 4)))] sample_state) \<noteq> Block"
  using ruler_call_ends [OF sample_runtime_fair sample_state_quiet prod.collapse [symmetric]] by blast

text \<open>
  C14. A batch that is empty, has an entry without data, or, for a signing action, has an entry
  without a public key or two entries with the same one, is refused: no entry is approved and
  neither the database nor the locks are touched. (A repeated key would block for ever.)
\<close>

theorem malformed_batch_refused:
  assumes "refusable action rds"
  shows "\<exists>rs. RunRules S rt creds action rds s = (Ret rs, s) \<and> set rs \<subseteq> {UNKNOWN, FAILED}"
  using RunRules_refuses [OF assms] .

theorem malformed_batch_refused_witness:
  "\<exists>rs. RunRules sample_rules sample_runtime (Some sample_creds) ActionSignBeaconAttestation
     [sample_rd 1 (AnySignBeaconAttestationData None), sample_rd 1 (AnySignBeaconAttestationData None)] sample_state = (Ret rs, sample_state)"
  using malformed_batch_refused [of ActionSignBeaconAttestation
      "[sample_rd 1 (AnySignBeaconAttestationData None), sample_rd 1 (AnySignBeaconAttestationData None)]"
      sample_rules sample_runtime "Some sample_creds" sample_state]
  by (auto simp: refusable_def locking_action_def)

section \<open>Importing and exporting slashing protection\<close>

text \<open>
  C15. Importing a slashing protection file never weakens the protection of what was approved
  before, whatever the file holds and however the import ends: with an error, a panic, or a
  database that fails on the way.
\<close>

theorem import_keeps_protection:
  assumes "iterable_rules S contents" and "fair_runtime rt" and "tagged (contents db)"
    and "standard_rules.inv S contents atts props db"
    and "storeSlashingProtection rt gvroot (Inr S) p db = (out, db')"
  shows "standard_rules.inv S contents atts props db'"
  by (rule iterable_rules.storeSlashingProtection_inv [OF assms])

theorem import_keeps_protection_witness:
  "sample.inv [(replicate 48 1, 3, 4)] []
     (snd (storeSlashingProtection sample_runtime sample_root (Inr sample_rules) (Some sample_lower_file) sample_signed))"
  using import_keeps_protection [OF sample_iterable.iterable_rules_axioms sample_runtime_fair sample_signed_parts(1,2)
      prod.collapse [symmetric]] .

text \<open>
  C16. After a successful import every attestation of the entry of a key in the file is respected:
  an attestation that is approved for that key later has a greater target epoch and no smaller
  source epoch. The entry must be the only one for its key and nowhere below what the database
  holds; C17 and C18 show what happens otherwise.
\<close>

theorem imported_attestations_respected:
  assumes "iterable_rules S contents" and "fair_runtime rt" and "tagged (contents db)"
    and "storeSlashingProtection rt gvroot (Inr S) p db = (Ret None, db')"
    and "Some data \<in> set (ic_Data (the p))" and "key_protection (Some data) = Ret (Inr (md_PubKey m, kp))"
    and "\<forall>d' \<in> set (ic_Data (the p)). \<forall>kp'. key_protection d' = Ret (Inr (md_PubKey m, kp')) \<longrightarrow> kp' = kp"
    and "newer (exported (rules_lib S) (contents db) (md_PubKey m)) kp"
    and "Some a \<in> set (sd_SignedAttestations data)" and "ParseInt64 (sa_SourceEpoch a) = Inr s"
    and "ParseInt64 (sa_TargetEpoch a) = Inr t" and "0 \<le> sint s"
    and "OnSignBeaconAttestation S (Some m) (Some q) db' = (Ret APPROVED, db'')" and "att_in_range (Some q)"
  shows "\<exists>s' t'. att_epochs q = Some (s', t') \<and> sint s \<le> s' \<and> sint t < t'"
proof -
  have std: "standard_rules S contents" using assms(1) by (rule iterable_rules.axioms)
  have "protected (att_decode (rules_lib S)) actionSignBeaconAttestation att_covers (contents db') [(md_PubKey m, sint s, sint t)]"
    by (rule iterable_rules.imported_protected(1) [OF assms(1-12)])
  from standard_rules.approved_after_attestation [OF std this assms(13,14)]
    standard_rules.OnSignBeaconAttestation_effect [OF std assms(13,14)]
  show ?thesis by (auto simp: att_follows.simps)
qed

text \<open>The entry of the sample file meets the conditions on it.\<close>

lemma sample_entry_facts:
  "Some (sample_entry [(''3'', ''4'')] [''100'']) \<in> set (ic_Data (the (Some sample_file)))"
  "key_protection (Some (sample_entry [(''3'', ''4'')] [''100''])) = Ret (Inr (md_PubKey (sample_md 1), sample_kp 3 4 100))"
  "\<forall>d' \<in> set (ic_Data (the (Some sample_file))). \<forall>kp'. key_protection d' = Ret (Inr (md_PubKey (sample_md 1), kp')) \<longrightarrow> kp' = sample_kp 3 4 100"
  "newer (exported (rules_lib sample_rules) (mem_contents sample_db) (md_PubKey (sample_md 1))) (sample_kp 3 4 100)"
  "tagged (mem_contents sample_db)"
  using sample_key_protection(1)
  by (simp_all add: sample_file_def sample_md_def exported_def newer_def sample_kp_def sample_db_parts tagged_def)

theorem imported_attestations_respected_witness:
  "\<exists>s' t'. att_epochs (sample_att 4 6) = Some (s', t') \<and> 3 \<le> s' \<and> 4 < t'"
  using imported_attestations_respected [OF sample_iterable.iterable_rules_axioms sample_runtime_fair sample_entry_facts(5) sample_import
      sample_entry_facts(1-4) _ _ _ _ pair_of_fst [OF sample_approved_later(1)], of "\<lparr>sa_SourceEpoch = ''3'', sa_TargetEpoch = ''4''\<rparr>" 3 4]
  by (simp add: sample_entry_def sample_parse att_in_range_def att_epochs_def sample_att_def)

text \<open>
  Likewise every block of the entry is respected: a proposal that is approved later for the
  key is for a higher slot.
\<close>

theorem imported_blocks_respected:
  assumes "iterable_rules S contents" and "fair_runtime rt" and "tagged (contents db)"
    and "storeSlashingProtection rt gvroot (Inr S) p db = (Ret None, db')"
    and "Some data \<in> set (ic_Data (the p))" and "key_protection (Some data) = Ret (Inr (md_PubKey m, kp))"
    and "\<forall>d' \<in> set (ic_Data (the p)). \<forall>kp'. key_protection d' = Ret (Inr (md_PubKey m, kp')) \<longrightarrow> kp' = kp"
    and "newer (exported (rules_lib S) (contents db) (md_PubKey m)) kp"
    and "Some b \<in> set (sd_SignedBlocks data)" and "ParseInt64 (sb_Slot b) = Inr n" and "0 \<le> sint n"
    and "OnSignBeaconProposal S (Some m) (Some q) db' = (Ret APPROVED, db'')" and "prop_in_range (Some q)"
  shows "sint n < uint (pd_Slot q)"
proof -
  have std: "standard_rules S contents" using assms(1) by (rule iterable_rules.axioms)
  have "protected (prop_decode (rules_lib S)) actionSignBeaconProposal prop_covers (contents db') [(md_PubKey m, sint n)]"
    by (rule iterable_rules.imported_protected(2) [OF assms(1-11)])
  from standard_rules.approved_after_proposal [OF std this assms(12,13)] show ?thesis .
qed

theorem imported_blocks_respected_witness:
  "(100 :: int) < uint (pd_Slot (sample_prop 101))"
  using imported_blocks_respected [OF sample_iterable.iterable_rules_axioms sample_runtime_fair sample_entry_facts(5) sample_import
      sample_entry_facts(1-4) _ _ _ pair_of_fst [OF sample_approved_later(2)], of "\<lparr>sb_Slot = ''100''\<rparr>" 100]
  by (simp add: sample_entry_def sample_parse prop_in_range_def sample_prop_def)

text \<open>
  C17. Of the entries of a file for one key, the import takes the last one that is nowhere below
  what the database holds for the key: its source and target epochs and its slot replace those of
  the database, whatever the entries before it say, so that an earlier entry is not protected even
  when it is higher. (An entry without a source epoch leaves the attestation mark as it was, one
  without blocks the slot.) The database answers, what it holds can be read, and so can every entry
  of the file; the import then succeeds.
\<close>

theorem repeated_entry_overrides:
  assumes "iterable_rules S contents" and "fair_runtime rt" and "readable (rules_lib S) (contents db)"
    and "reliable (rules_store S) up" and "up db" and "check_metadata gvroot (Some p) = None"
    and "\<forall>d \<in> set (ic_Data p). \<exists>key kp. key_protection d = Ret (Inr (key, kp))"
    and "ic_Data p = ds @ d # ds'" and "accepted (rules_lib S) (contents db) key d kp"
    and "\<forall>d' \<in> set ds'. \<forall>kp'. \<not> accepted (rules_lib S) (contents db) key d' kp'"
  shows "\<exists>db'. storeSlashingProtection rt gvroot (Inr S) (Some p) db = (Ret None, db') \<and>
    att_mark (rules_lib S) (contents db') key = (if sp_HighestAttestedSourceEpoch kp = -1 then att_mark (rules_lib S) (contents db) key
      else \<lparr>SourceEpoch = sp_HighestAttestedSourceEpoch kp, TargetEpoch = sp_HighestAttestedTargetEpoch kp\<rparr>) \<and>
    prop_mark (rules_lib S) (contents db') key = (if sp_HighestProposedSlot kp = -1 then prop_mark (rules_lib S) (contents db) key
      else \<lparr>PropSlot = sp_HighestProposedSlot kp\<rparr>)"
  by (rule import_last_accepted [OF assms])

theorem repeated_entry_overrides_witness:
  "\<exists>db'. storeSlashingProtection sample_runtime sample_root (Inr sample_rules) (Some sample_double_file) sample_db = (Ret None, db') \<and>
    att_mark (rules_lib sample_rules) (mem_contents db') (replicate 48 1) = \<lparr>SourceEpoch = 1, TargetEpoch = 2\<rparr>"
  using repeated_entry_overrides [OF sample_iterable.iterable_rules_axioms sample_runtime_fair sample_readable(1) mem_reliable
      sample_db_parts(1) sample_double_metadata sample_double_keys, of "[Some (sample_entry [(''3'', ''4'')] [''100''])]"
      "Some (sample_entry [(''1'', ''2'')] [])" "[]"] sample_key_protection(2)
  by (auto simp: sample_double_file_def sample_kp_def accepted_def known_def sample_db_parts)

text \<open>
  C18. A key whose entries in the file are all below the database in one of the three marks keeps
  what the database holds, so that the higher epochs or the higher slot such an entry also has are
  not imported, and the import reports success all the same. The database answers, what it holds
  can be read, and so can every entry of the file.
\<close>

theorem partly_lower_entry_dropped:
  assumes "iterable_rules S contents" and "fair_runtime rt" and "readable (rules_lib S) (contents db)"
    and "reliable (rules_store S) up" and "up db" and "check_metadata gvroot (Some p) = None"
    and "\<forall>d \<in> set (ic_Data p). \<exists>key kp. key_protection d = Ret (Inr (key, kp))"
    and "known (contents db) key"
    and "\<forall>d \<in> set (ic_Data p). \<forall>kp. key_protection d = Ret (Inr (key, kp)) \<longrightarrow> \<not> newer (exported (rules_lib S) (contents db) key) kp"
  shows "\<exists>db'. storeSlashingProtection rt gvroot (Inr S) (Some p) db = (Ret None, db') \<and>
    contents db' (key @ actionSignBeaconAttestation) = contents db (key @ actionSignBeaconAttestation) \<and>
    contents db' (key @ actionSignBeaconProposal) = contents db (key @ actionSignBeaconProposal)"
  by (rule import_none_accepted [OF assms(1-7)]) (use assms(8,9) in \<open>auto simp: accepted_def\<close>)

theorem partly_lower_entry_dropped_witness:
  "\<exists>db'. storeSlashingProtection sample_runtime sample_root (Inr sample_rules) (Some sample_lower_file) sample_imported = (Ret None, db') \<and>
     mem_contents db' (replicate 48 1 @ actionSignBeaconAttestation) =
       Some (Encode_att (Some \<lparr>SourceEpoch = 3, TargetEpoch = 4\<rparr>))"
proof -
  have "\<forall>d \<in> set (ic_Data sample_lower_file). \<forall>kp. key_protection d = Ret (Inr (replicate 48 1, kp)) \<longrightarrow>
      \<not> newer (exported (rules_lib sample_rules) (mem_contents sample_imported) (replicate 48 1)) kp"
    using sample_lower_key
    by (simp add: sample_lower_file_def newer_def exported_def mem_contents_def sample_imported_items sample_kp_def prop_decode_def
        actionSignBeaconProposal_def actionSignBeaconAttestation_def)
  from partly_lower_entry_dropped [OF sample_iterable.iterable_rules_axioms sample_runtime_fair sample_readable(2) mem_reliable
      sample_imported_up sample_lower_metadata sample_lower_keys sample_imported_parts(3) this]
  show ?thesis by (auto simp: mem_contents_def sample_imported_items actionSignBeaconProposal_def actionSignBeaconAttestation_def)
qed

text \<open>
  C19. Export and import are a round trip: a file exported from one database and imported into an
  empty one succeeds and gives every key the same attestation and proposal marks. The marks must
  not have wrapped (C12) and the root of the flag is given as \<open>0x\<close> and lower-case digits.
\<close>

theorem export_import_round_trip:
  assumes "iterable_rules S1 c1" and "iterable_rules S2 c2" and "fair_runtime rt1" and "fair_runtime rt2"
    and "tagged (c1 db1)" and "marks_ok (rules_lib S1) (c1 db1)" and "c2 db2 = Map.empty"
    and "reliable (rules_store S2) up" and "up db2" and "gvroot = sprint_hex0x g" and "length g = 32"
    and "fetchSlashingProtection rt1 gvroot (Inr S1) db1 = (Ret (Inr file), db1')"
  shows "\<exists>db2'. storeSlashingProtection rt2 gvroot (Inr S2) (Some file) db2 = (Ret None, db2') \<and>
    (\<forall>pk. length pk = 48 \<longrightarrow> att_mark (rules_lib S2) (c2 db2') pk = att_mark (rules_lib S1) (c1 db1) pk \<and>
       prop_mark (rules_lib S2) (c2 db2') pk = prop_mark (rules_lib S1) (c1 db1) pk)"
  by (rule export_transfers [OF assms])

theorem export_import_round_trip_witness:
  "\<exists>db'. storeSlashingProtection sample_runtime sample_root (Inr sample_rules) (Some sample_file) sample_db = (Ret None, db') \<and>
     att_mark sample_lib (mem_contents db') (replicate 48 1) = att_mark sample_lib (mem_contents sample_imported) (replicate 48 1)"
  using export_import_round_trip [OF sample_iterable.iterable_rules_axioms sample_iterable.iterable_rules_axioms sample_runtime_fair
      sample_runtime_fair sample_imported_parts(1,2) sample_db_parts(2) mem_reliable sample_db_parts(1) sample_root_def _
      pair_of_fst [OF sample_export]]
  by (auto simp: sample_rules_def)

end
